(* ===== verification/Model_Prelude.thy ===== *)
theory Model_Prelude
  imports Main "HOL-Library.List_Lexorder" "HOL-Library.Char_ord" "HOL-Library.Multiset"
begin

text \<open>
  Shared vocabulary of the development.

  \<^item> Python exceptions are values: a fallible operation returns \<open>'e + 'a\<close>, \<open>Inl\<close> for the raised
    exception.  \<open>ebind\<close> sequences two such operations and \<open>emap\<close> runs one over a list from left
    to right, stopping at the first exception, which is what a \<open>for\<close> loop or a generator
    expression inside \<open>tuple(...)\<close> does.
  \<^item> Python text is \<open>string\<close>.  A \<open>char\<close> stands for one Unicode code point below U+0100; the
    character classes below are those of \<open>str.isspace\<close>, \<open>str.isalpha\<close> and \<open>str.isalnum\<close> on that
    range.
  \<^item> A \<open>dict\<close> read from JSON is an association list in insertion order.
\<close>

named_theorems err_simps \<open>unfolding equations of the fallible operations\<close>
named_theorems wf_intros \<open>introduction rules of the well-formedness predicates\<close>

section \<open>Fallible operations\<close>

definition ebind :: "'e + 'a \<Rightarrow> ('a \<Rightarrow> 'e + 'b) \<Rightarrow> 'e + 'b" where
  "ebind r k = (case r of Inl e \<Rightarrow> Inl e | Inr x \<Rightarrow> k x)"

lemma ebind_simps [simp]: "ebind (Inl e) k = Inl e" "ebind (Inr x) k = k x"
  by (simp_all add: ebind_def)

lemma ebind_cong [fundef_cong]:
  "r = r' \<Longrightarrow> (\<And>x. r' = Inr x \<Longrightarrow> k x = k' x) \<Longrightarrow> ebind r k = ebind r' k'"
  by (cases r') (simp_all add: ebind_def)

lemma ebind_Inr [simp]: "ebind r k = Inr y \<longleftrightarrow> (\<exists>x. r = Inr x \<and> k x = Inr y)"
  by (cases r) simp_all

lemma ebind_Inl: "ebind r k = Inl e \<longleftrightarrow> r = Inl e \<or> (\<exists>x. r = Inr x \<and> k x = Inl e)"
  by (cases r) simp_all

text \<open>A raise guarded by a condition: \<open>if bad: raise e\<close>.\<close>

definition raise_if :: "bool \<Rightarrow> 'e \<Rightarrow> 'e + unit" where
  "raise_if bad e = (if bad then Inl e else Inr ())"

lemma raise_if_simps [simp]:
  "raise_if True e = Inl e" "raise_if False e = Inr ()"
  "raise_if b e = Inr u \<longleftrightarrow> \<not> b"
  "raise_if b e = Inl e' \<longleftrightarrow> b \<and> e' = e"
  by (auto simp: raise_if_def)

text \<open>\<open>try: ... except E as exc: raise F(exc)\<close>.\<close>

definition ewrap :: "('e \<Rightarrow> 'f) \<Rightarrow> 'e + 'a \<Rightarrow> 'f + 'a" where
  "ewrap f r = (case r of Inl e \<Rightarrow> Inl (f e) | Inr x \<Rightarrow> Inr x)"

lemma ewrap_simps [simp]: "ewrap f (Inl e) = Inl (f e)" "ewrap f (Inr x) = Inr x"
  "ewrap f r = Inr x \<longleftrightarrow> r = Inr x"
  by (cases r; simp add: ewrap_def)+

fun emap :: "('a \<Rightarrow> 'e + 'b) \<Rightarrow> 'a list \<Rightarrow> 'e + 'b list" where
  "emap f [] = Inr []"
| "emap f (x # xs) = ebind (f x) (\<lambda>y. ebind (emap f xs) (\<lambda>ys. Inr (y # ys)))"

lemma emap_cong [fundef_cong]:
  "xs = ys \<Longrightarrow> (\<And>x. x \<in> set ys \<Longrightarrow> f x = g x) \<Longrightarrow> emap f xs = emap g ys"
  by (induction ys arbitrary: xs) auto

lemma emap_Inr_iff: "emap f xs = Inr ys \<longleftrightarrow> list_all2 (\<lambda>x y. f x = Inr y) xs ys"
  by (induction xs arbitrary: ys) (auto simp: list_all2_Cons1)

lemma emap_all: "(\<And>x. x \<in> set xs \<Longrightarrow> f x = Inr (g x)) \<Longrightarrow> emap f xs = Inr (map g xs)"
  by (induction xs) auto

lemma emap_map: "emap f (map h xs) = emap (\<lambda>x. f (h x)) xs"
  by (induction xs) simp_all

lemma emap_Inr_total: "(\<And>x. x \<in> set xs \<Longrightarrow> \<exists>y. f x = Inr y) \<Longrightarrow> \<exists>ys. emap f xs = Inr ys"
  by (induction xs) fastforce+

lemma emap_Inr_length: "emap f xs = Inr ys \<Longrightarrow> length ys = length xs"
  by (simp add: emap_Inr_iff list_all2_lengthD)

lemma emap_Inr_set: "emap f xs = Inr ys \<Longrightarrow> y \<in> set ys \<Longrightarrow> \<exists>x \<in> set xs. f x = Inr y"
  by (induction xs arbitrary: ys) auto

lemma emap_list_all:
  assumes "emap f xs = Inr ys" "\<And>x y. x \<in> set xs \<Longrightarrow> f x = Inr y \<Longrightarrow> P y" shows "list_all P ys"
  using emap_Inr_set [OF assms(1)] assms(2) by (auto simp: list_all_iff)

lemma emap_append: "emap f (xs @ ys) = ebind (emap f xs) (\<lambda>a. ebind (emap f ys) (\<lambda>b. Inr (a @ b)))"
  by (induction xs) (auto simp: ebind_def split: sum.splits)

lemma emap_list_all2:
  assumes "list_all2 P xs ys"
    and "\<And>x y. x \<in> set xs \<Longrightarrow> y \<in> set ys \<Longrightarrow> P x y \<Longrightarrow> \<exists>r. f y = Inr r \<and> Q x r"
  shows "\<exists>rs. emap f ys = Inr rs \<and> list_all2 Q xs rs"
  using assms
proof (induction rule: list_all2_induct)
  case (Cons x xs y ys)
  then obtain rs where "emap f ys = Inr rs" "list_all2 Q xs rs" by auto
  moreover obtain r where "f y = Inr r" "Q x r" using Cons.prems [of x y] Cons.hyps(1) by auto
  ultimately show ?case by auto
qed simp

lemma emap_concat_parts:
  assumes "list_all2 P xs ps"
    and "\<And>x p. x \<in> set xs \<Longrightarrow> p \<in> set ps \<Longrightarrow> P x p \<Longrightarrow> \<exists>rs. emap f (g p) = Inr rs \<and> h rs = w x"
    and "\<And>a b. h (a @ b) = h a @ h b" "h [] = []"
  shows "\<exists>rs. emap f (concat (map g ps)) = Inr rs \<and> h rs = concat (map w xs)"
  using assms(1,2)
proof (induction rule: list_all2_induct)
  case Nil
  then show ?case using assms(4) by simp
next
  case (Cons x xs y ys)
  then obtain rs where "emap f (concat (map g ys)) = Inr rs" "h rs = concat (map w xs)" by auto
  moreover obtain r where "emap f (g y) = Inr r" "h r = w x" using Cons.prems [of x y] Cons.hyps(1) by auto
  ultimately show ?case using assms(3) by (simp add: emap_append)
qed

text \<open>A loop that only checks: \<open>for x in xs: check(x)\<close>.\<close>

fun echeck :: "('a \<Rightarrow> 'e + unit) \<Rightarrow> 'a list \<Rightarrow> 'e + unit" where
  "echeck f [] = Inr ()"
| "echeck f (x # xs) = ebind (f x) (\<lambda>_. echeck f xs)"

lemma echeck_Inr [simp]: "echeck f xs = Inr u \<longleftrightarrow> (\<forall>x \<in> set xs. f x = Inr ())"
  by (induction xs) auto

lemma echeck_Inl: "echeck f xs = Inl e \<Longrightarrow> \<exists>x \<in> set xs. f x = Inl e"
  by (induction xs) (auto simp: ebind_Inl)

lemma echeck_InlE: "echeck f xs = Inl e \<Longrightarrow> (\<And>x. x \<in> set xs \<Longrightarrow> f x = Inl e \<Longrightarrow> P) \<Longrightarrow> P"
  by (blast dest: echeck_Inl)

lemma echeck_cong [fundef_cong]:
  "xs = ys \<Longrightarrow> (\<And>x. x \<in> set ys \<Longrightarrow> f x = g x) \<Longrightarrow> echeck f xs = echeck g ys"
  by (induction ys arbitrary: xs) auto

section \<open>Duplicates\<close>

text \<open>
  The loop behind every uniqueness check of the code: walk the values with a growing \<open>seen\<close> set
  and report the first value met a second time.
\<close>

fun first_dup_from :: "'a list \<Rightarrow> 'a list \<Rightarrow> 'a option" where
  "first_dup_from seen [] = None"
| "first_dup_from seen (x # xs) = (if x \<in> set seen then Some x else first_dup_from (x # seen) xs)"

lemma first_dup_from_None [simp]:
  "first_dup_from seen xs = None \<longleftrightarrow> distinct xs \<and> set seen \<inter> set xs = {}"
  by (induction xs arbitrary: seen) auto

lemma first_dup_from_Some:
  "first_dup_from seen xs = Some x \<Longrightarrow>
     \<exists>ys zs. xs = ys @ x # zs \<and> x \<in> set seen \<union> set ys \<and> distinct ys \<and> set seen \<inter> set ys = {}"
proof (induction xs arbitrary: seen)
  case Nil
  then show ?case by simp
next
  case (Cons y xs)
  show ?case
  proof (cases "y \<in> set seen")
    case True
    with Cons.prems show ?thesis by (intro exI [of _ "[]"] exI [of _ xs]) auto
  next
    case False
    with Cons obtain ys zs where "xs = ys @ x # zs" "x \<in> set (y # seen) \<union> set ys"
      "distinct ys" "set (y # seen) \<inter> set ys = {}"
      by fastforce
    with False show ?thesis by (intro exI [of _ "y # ys"] exI [of _ zs]) auto
  qed
qed

section \<open>Sorting by a key\<close>

text \<open>\<open>sorted(xs, key=k)\<close>: Python's sort is stable, and so is \<open>sort_key\<close>.\<close>

lemma sort_key_inj_perm:
  assumes "mset xs = mset ys" "inj_on k (set xs)"
  shows "sort_key k xs = sort_key k ys"
proof (rule properties_for_sort_key)
  show "mset (sort_key k ys) = mset xs" using assms(1) by simp
  show "sorted (map k (sort_key k ys))" by simp
next
  fix x assume x: "x \<in> set (sort_key k ys)"
  have set: "set ys = set xs" using assms(1) by (metis set_mset_mset)
  have one: "filter (\<lambda>z. k x = k z) zs = replicate (count_list zs x) x" if "set zs \<subseteq> set xs" for zs
    using that x assms(2) set by (induction zs) (auto dest: inj_onD)
  have "count_list (sort_key k ys) x = count_list xs x"
    using assms(1) by (metis count_mset mset_sort)
  then show "filter (\<lambda>z. k x = k z) (sort_key k ys) = filter (\<lambda>z. k x = k z) xs"
    using one set by simp
qed

lemma distinct_map_sort_key [simp]: "distinct (map f (sort_key k xs)) \<longleftrightarrow> distinct (map f xs)"
  by (rule mset_eq_imp_distinct_iff) simp

lemma list_all_sort_key [simp]: "list_all P (sort_key k xs) \<longleftrightarrow> list_all P xs"
  by (simp add: list_all_iff)

lemma sort_key_idem [simp]: "sort_key k (sort_key k xs) = sort_key k xs"
  by (rule sort_key_id_if_sorted) simp

lemma mset_concat_map: "mset (concat (map f xs)) = (\<Sum>x\<in>#mset xs. mset (f x))"
  by (induction xs) simp_all

lemma sort_key_sorted_map:
  "(\<And>x. k (g x) = k x) \<Longrightarrow> sort_key k (map g (sort_key k xs)) = map g (sort_key k xs)"
  by (rule sort_key_id_if_sorted) (simp add: comp_def)

text \<open>Sorting is stable, so sorted parts sort to the same list as the parts themselves.\<close>

lemma filter_sort_key: "filter (\<lambda>y. k x = k y) (sort_key k xs) = filter (\<lambda>y. k x = k y) xs"
  using sort_key_stable [of k "k x" xs] by (simp add: eq_commute)

lemma sort_key_sorted_parts: "sort_key k (sort_key k xs @ sort_key k ys) = sort_key k (xs @ ys)"
  by (rule properties_for_sort_key) (simp_all add: filter_sort_key)

lemma sort_key_sorted_prefix: "sort_key k (sort_key k xs @ ys) = sort_key k (xs @ ys)"
  by (rule properties_for_sort_key) (simp_all add: filter_sort_key)

section \<open>Python text\<close>

definition code_point :: "char \<Rightarrow> nat" where
  "code_point c = of_char c"

definition py_isspace :: "char \<Rightarrow> bool" where
  "py_isspace c = (let n = code_point c in
     (9 \<le> n \<and> n \<le> 13) \<or> (28 \<le> n \<and> n \<le> 32) \<or> n = 133 \<or> n = 160)"

definition ascii_alpha :: "char \<Rightarrow> bool" where
  "ascii_alpha c = (let n = code_point c in (65 \<le> n \<and> n \<le> 90) \<or> (97 \<le> n \<and> n \<le> 122))"

definition ascii_digit :: "char \<Rightarrow> bool" where
  "ascii_digit c = (let n = code_point c in 48 \<le> n \<and> n \<le> 57)"

definition py_isalpha :: "char \<Rightarrow> bool" where
  "py_isalpha c = (ascii_alpha c \<or> (let n = code_point c in
     n = 170 \<or> n = 181 \<or> n = 186 \<or> (192 \<le> n \<and> n \<noteq> 215 \<and> n \<noteq> 247)))"

definition py_isalnum :: "char \<Rightarrow> bool" where
  "py_isalnum c = (py_isalpha c \<or> ascii_digit c \<or> (let n = code_point c in
     n = 178 \<or> n = 179 \<or> n = 185 \<or> (188 \<le> n \<and> n \<le> 190)))"

text \<open>The classes \<open>[A-Za-z_]\<close> and \<open>[A-Za-z0-9_]\<close> of the source's regular expressions.\<close>

definition ident_start :: "char \<Rightarrow> bool" where
  "ident_start c = (ascii_alpha c \<or> c = CHR ''_'')"

definition ident_char :: "char \<Rightarrow> bool" where
  "ident_char c = (ascii_alpha c \<or> ascii_digit c \<or> c = CHR ''_'')"

text \<open>\<open>re.compile(r"^[A-Za-z_][A-Za-z0-9_]*$").fullmatch(value)\<close>.\<close>

fun is_identifier :: "string \<Rightarrow> bool" where
  "is_identifier [] = False"
| "is_identifier (c # cs) = (ident_start c \<and> list_all ident_char cs)"

definition newline_char :: char where
  "newline_char = CHR 0x0A"

definition py_strip :: "string \<Rightarrow> string" where
  "py_strip s = rev (dropWhile py_isspace (rev (dropWhile py_isspace s)))"

definition slice :: "'a list \<Rightarrow> nat \<Rightarrow> nat \<Rightarrow> 'a list" where
  "slice s a b = take (b - a) (drop a s)"

definition starts_at :: "'a list \<Rightarrow> 'a list \<Rightarrow> nat \<Rightarrow> bool" where
  "starts_at p s i = (take (length p) (drop i s) = p)"

text \<open>\<open>text.find(p, i, stop)\<close>, with \<open>None\<close> for \<open>-1\<close>.\<close>

function find_from :: "'a list \<Rightarrow> 'a list \<Rightarrow> nat \<Rightarrow> nat \<Rightarrow> nat option" where
  "find_from p s i stop =
     (if min stop (length s) < i + length p then None
      else if starts_at p s i then Some i
      else find_from p s (Suc i) stop)"
  by pat_completeness auto
termination
  by (relation "measure (\<lambda>(p, s, i, stop). Suc (min stop (length s)) - i)") auto

declare find_from.simps [simp del]

lemma find_from_Some:
  "find_from p s i stop = Some j \<Longrightarrow>
     i \<le> j \<and> j + length p \<le> min stop (length s) \<and> starts_at p s j \<and>
     (\<forall>k. i \<le> k \<and> k < j \<longrightarrow> \<not> starts_at p s k)"
proof (induction p s i stop rule: find_from.induct)
  case (1 p s i stop)
  show ?case
  proof (cases "min stop (length s) < i + length p \<or> starts_at p s i")
    case True
    with "1.prems" show ?thesis by (auto simp: find_from.simps [of p s i stop] split: if_splits)
  next
    case False
    with "1.prems" have "find_from p s (Suc i) stop = Some j"
      by (simp add: find_from.simps [of p s i stop])
    with False "1.IH" have "Suc i \<le> j \<and> j + length p \<le> min stop (length s) \<and> starts_at p s j \<and>
      (\<forall>k. Suc i \<le> k \<and> k < j \<longrightarrow> \<not> starts_at p s k)" by blast
    with False show ?thesis by (metis Suc_leD le_antisym not_less_eq_eq)
  qed
qed

lemma find_from_None:
  "find_from p s i stop = None \<Longrightarrow>
     i \<le> k \<Longrightarrow> k + length p \<le> min stop (length s) \<Longrightarrow> \<not> starts_at p s k"
proof (induction p s i stop rule: find_from.induct)
  case (1 p s i stop)
  from "1.prems"(2,3) have "\<not> min stop (length s) < i + length p" by linarith
  with "1.prems"(1) have ns: "\<not> starts_at p s i" and rec: "find_from p s (Suc i) stop = None"
    by (simp_all add: find_from.simps [of p s i stop] split: if_splits)
  show ?case
  proof (cases "k = i")
    case True
    with ns show ?thesis by simp
  next
    case False
    with "1" ns rec show ?thesis by simp
  qed
qed

lemma length_slice [simp]: "length (slice s a b) = min (b - a) (length s - a)"
  by (simp add: slice_def)

lemma slice_nth: "i < b - a \<Longrightarrow> a + i < length s \<Longrightarrow> slice s a b ! i = s ! (a + i)"
  by (simp add: slice_def)

lemma slice_append: "a \<le> b \<Longrightarrow> b \<le> c \<Longrightarrow> slice s a b @ slice s b c = slice s a c"
proof -
  assume "a \<le> b" "b \<le> c"
  then have "c - a = (b - a) + (c - b)" "drop b s = drop (b - a) (drop a s)" by simp_all
  then show ?thesis by (simp add: slice_def take_add)
qed

lemma slice_empty [simp]: "slice s a a = []"
  by (simp add: slice_def)

lemma slice_Suc: "a \<le> b \<Longrightarrow> b < length s \<Longrightarrow> slice s a (Suc b) = slice s a b @ [s ! b]"
  by (simp add: slice_def Suc_diff_le take_Suc_conv_app_nth)

lemma starts_at_Cons: "starts_at (c # p) s i \<Longrightarrow> i < length s \<and> s ! i = c"
  by (cases "i < length s") (auto simp: starts_at_def Cons_nth_drop_Suc [symmetric])

lemma starts_at_slice: "starts_at p s i \<Longrightarrow> slice s i (i + length p) = p"
  by (simp add: starts_at_def slice_def)

lemma starts_at_length: "starts_at p s i \<Longrightarrow> p \<noteq> [] \<Longrightarrow> i + length p \<le> length s"
  by (cases p) (auto simp: starts_at_def dest!: arg_cong [where f = length] split: if_splits)

lemma py_strip_empty [simp]: "py_strip s = [] \<longleftrightarrow> list_all py_isspace s"
proof
  assume "py_strip s = []"
  then have "\<forall>c \<in> set (dropWhile py_isspace s). py_isspace c"
    by (simp add: py_strip_def)
  then have "dropWhile py_isspace s = []"
    by (metis hd_dropWhile hd_in_set)
  then show "list_all py_isspace s" by (simp add: list_all_iff)
next
  assume "list_all py_isspace s"
  then show "py_strip s = []" by (auto simp: py_strip_def list_all_iff dest: set_dropWhileD)
qed

section \<open>JSON objects\<close>

text \<open>
  The values \<open>json.loads\<close> produces.  A float keeps its spelling: the readers only ask whether a
  value is an integer.  Python's \<open>dict\<close> has one value per key, so the readers assume
  \<open>json_wf\<close> nowhere: \<open>jget\<close> reads the first entry, and every theorem about equality of objects
  says so.
\<close>

datatype json =
    JNull
  | JBool bool
  | JInt int
  | JFloat string
  | JStr string
  | JArr "json list"
  | JObj "(string \<times> json) list"

definition jget :: "(string \<times> json) list \<Rightarrow> string \<Rightarrow> json option" where
  "jget kvs k = map_of kvs k"

definition jkeys :: "(string \<times> json) list \<Rightarrow> string list" where
  "jkeys kvs = map fst kvs"

text \<open>\<open>set(value) == expected\<close>.\<close>

definition jkeys_are :: "(string \<times> json) list \<Rightarrow> string list \<Rightarrow> bool" where
  "jkeys_are kvs ks = (set (jkeys kvs) = set ks)"

text \<open>\<open>raw[key]\<close> after the key check; the default is never read.\<close>

definition jitem :: "(string \<times> json) list \<Rightarrow> string \<Rightarrow> json" where
  "jitem raw key = (case jget raw key of Some v \<Rightarrow> v | None \<Rightarrow> JNull)"

lemma jget_size: "jget kvs k = Some v \<Longrightarrow> size v < size (JObj kvs)"
  by (induction kvs) (auto simp: jget_def split: if_splits)

lemma jitem_size: "jitem kvs k \<noteq> JNull \<Longrightarrow> size (jitem kvs k) < size (JObj kvs)"
  by (auto simp: jitem_def dest: jget_size split: option.splits)

lemma jitem_size': "jkeys_are kvs ks \<Longrightarrow> k \<in> set ks \<Longrightarrow> size (jitem kvs k) < size (JObj kvs)"
proof -
  assume "jkeys_are kvs ks" "k \<in> set ks"
  then have "k \<in> fst ` set kvs" by (auto simp: jkeys_are_def jkeys_def)
  then obtain v where "jget kvs k = Some v" unfolding jget_def
    by (metis domIff dom_map_of_conv_image_fst not_None_eq)
  then show ?thesis using jget_size [of kvs k v] by (simp add: jitem_def)
qed

text \<open>
  Equality of JSON values as Python sees it: objects are equal when they have the same keys and
  equal values under each, whatever the order.
\<close>

inductive json_eq :: "json \<Rightarrow> json \<Rightarrow> bool" where
  json_eq_refl [intro, simp]: "json_eq x x"
| json_eq_arr: "list_all2 json_eq xs ys \<Longrightarrow> json_eq (JArr xs) (JArr ys)"
| json_eq_obj_rule: "set (jkeys a) = set (jkeys b) \<Longrightarrow>
     (\<And>k. k \<in> set (jkeys b) \<Longrightarrow> json_eq (jitem a k) (jitem b k)) \<Longrightarrow> json_eq (JObj a) (JObj b)"

inductive_cases json_eq_strE [elim!]: "json_eq x (JStr s)"
inductive_cases json_eq_objE: "json_eq x (JObj b)"
inductive_cases json_eq_arrE: "json_eq x (JArr ys)"

lemma json_eq_str [simp]: "json_eq x (JStr s) \<longleftrightarrow> x = JStr s"
  by auto

lemma jget_iff_key: "k \<in> set (jkeys a) \<longleftrightarrow> (\<exists>v. jget a k = Some v)"
  by (metis domD domI dom_map_of_conv_image_fst jget_def jkeys_def list.set_map)

lemma json_eq_obj:
  "json_eq x (JObj b) \<longleftrightarrow>
     (\<exists>a. x = JObj a \<and> jkeys_are a (jkeys b) \<and>
        (\<forall>k \<in> set (jkeys b). \<exists>v. jget a k = Some v \<and> json_eq v (jitem b k)))"
proof
  assume "json_eq x (JObj b)"
  then obtain a where a: "x = JObj a" "set (jkeys a) = set (jkeys b)"
    "\<And>k. k \<in> set (jkeys b) \<Longrightarrow> json_eq (jitem a k) (jitem b k)"
    by (elim json_eq_objE) auto
  then have "\<exists>v. jget a k = Some v \<and> json_eq v (jitem b k)" if "k \<in> set (jkeys b)" for k
    using that jget_iff_key [of k a] by (fastforce simp: jitem_def)
  with a show "\<exists>a. x = JObj a \<and> jkeys_are a (jkeys b) \<and>
      (\<forall>k \<in> set (jkeys b). \<exists>v. jget a k = Some v \<and> json_eq v (jitem b k))"
    by (auto simp: jkeys_are_def)
next
  assume "\<exists>a. x = JObj a \<and> jkeys_are a (jkeys b) \<and>
      (\<forall>k \<in> set (jkeys b). \<exists>v. jget a k = Some v \<and> json_eq v (jitem b k))"
  then show "json_eq x (JObj b)"
    by (force simp: jkeys_are_def jitem_def intro!: json_eq_obj_rule)
qed

lemma jkeys_simps [simp]: "jkeys [] = []" "jkeys ((k, v) # kvs) = k # jkeys kvs"
  by (simp_all add: jkeys_def)

lemma jget_simps [simp]:
  "jget [] k = None" "jget ((k', v) # kvs) k = (if k = k' then Some v else jget kvs k)"
  by (simp_all add: jget_def)

lemma jitem_simps [simp]:
  "jitem ((k', v) # kvs) k = (if k = k' then v else jitem kvs k)"
  by (simp add: jitem_def)

text \<open>
  Diagnostics carry a label such as \<open>functions[0].parameters[2].type\<close>, which the code builds by
  string interpolation.  The model keeps its parts.
\<close>

datatype label_part = LRoot string | LKey string | LIdx nat

type_synonym label = "label_part list"

text \<open>\<open>enumerate(xs)\<close>.\<close>

definition enumerated :: "'a list \<Rightarrow> (nat \<times> 'a) list" where
  "enumerated xs = zip [0..<length xs] xs"

lemma map_snd_enumerated [simp]: "map snd (enumerated xs) = xs"
  by (simp add: enumerated_def)

lemma in_set_enumerated [simp]: "(i, x) \<in> set (enumerated xs) \<longleftrightarrow> i < length xs \<and> xs ! i = x"
  by (force simp: enumerated_def set_zip)

lemma emap_enumerated_map:
  assumes "\<And>i x. x \<in> set xs \<Longrightarrow> f (i, x) = Inr (g x)"
  shows "emap f (enumerated xs) = Inr (map g xs)"
proof -
  have "emap f (enumerated xs) = Inr (map (\<lambda>p. g (snd p)) (enumerated xs))"
    by (rule emap_all) (auto simp: assms)
  also have "map (\<lambda>p. g (snd p)) (enumerated xs) = map g xs"
    by (simp add: enumerated_def flip: map_map [unfolded comp_def])
  finally show ?thesis .
qed

text \<open>\<open>{key(x): x for x in xs}\<close>: of two entries with one key the later one stays.\<close>

definition dict_by :: "('a \<Rightarrow> string) \<Rightarrow> 'a list \<Rightarrow> string \<Rightarrow> 'a option" where
  "dict_by key xs k = find (\<lambda>x. key x = k) (rev xs)"

lemma dict_by_Some: "dict_by key xs k = Some x \<Longrightarrow> x \<in> set xs \<and> key x = k"
  unfolding dict_by_def by (auto simp: find_Some_iff) (metis nth_mem set_rev length_rev)

lemma dict_by_distinct:
  assumes "distinct (map key xs)" "x \<in> set xs" shows "dict_by key xs (key x) = Some x"
proof -
  have "find (\<lambda>y. key y = key x) (rev xs) \<noteq> None" using assms(2) by (auto simp: find_None_iff)
  then obtain y where y: "dict_by key xs (key x) = Some y" by (auto simp: dict_by_def)
  with assms have "y = x" using dict_by_Some [OF y] by (metis distinct_map inj_onD)
  with y show ?thesis by simp
qed

lemma dict_by_comp:
  assumes "distinct (map (f \<circ> g) xs)" "x \<in> set xs" shows "dict_by (f \<circ> g) xs (f (g x)) = Some x"
  using dict_by_distinct [OF assms] by simp

lemma distinct_concat_in: "distinct (concat (map f xs)) \<Longrightarrow> x \<in> set xs \<Longrightarrow> distinct (f x)"
  by (induction xs) auto

lemma dict_by_key: "k \<in> key ` set xs \<Longrightarrow> \<exists>x \<in> set xs. dict_by key xs k = Some x \<and> key x = k"
proof -
  assume "k \<in> key ` set xs"
  then have "dict_by key xs k \<noteq> None" by (auto simp: dict_by_def find_None_iff)
  then show ?thesis using dict_by_Some [of key xs k] by auto
qed

end
