(* ===== verification/Cpp_Lexer.thy ===== *)
theory Cpp_Lexer
  imports Model_Prelude
begin

text \<open>
  \<^verbatim>\<open>src/supernote_module_generator/cpp_lexer.py\<close>: the minimal C/C++ lexer that every declaration
  phase reads.  The \<open>_Lexer\<close> object is the record \<open>lexer\<close>, each of its \<open>_consume_*\<close> methods a
  function from \<open>lexer\<close> to \<open>lexer\<close>, and its \<open>while\<close> loop the function \<open>lex_loop\<close>, whose
  termination rests on the progress lemma \<open>consume_progress\<close>.  Positions are indices into the text,
  as in the source.
\<close>

section \<open>Data\<close>

datatype token_kind = TString | TIdentifier | TPunctuation

record token =
  t_value :: string
  t_start :: nat
  t_end :: nat
  t_line :: nat
  t_kind :: token_kind
  t_cond :: nat
  t_brace :: nat

record line_comment =
  c_text :: string
  c_start :: nat
  c_end :: nat
  c_line :: nat
  c_line_only :: bool
  c_cond :: nat
  c_brace :: nat

record directive =
  d_start :: nat
  d_end :: nat
  d_line :: nat
  d_name :: string

record lexed_source =
  ls_tokens :: "token list"
  ls_comments :: "line_comment list"
  ls_directives :: "directive list"

record lexer =
  lx_text :: string
  lx_tokens :: "token list"
  lx_comments :: "line_comment list"
  lx_directives :: "directive list"
  lx_index :: nat
  lx_line :: nat
  lx_line_start :: nat
  lx_cond :: nat
  lx_brace :: nat

definition init_lexer :: "string \<Rightarrow> lexer" where
  "init_lexer src = \<lparr>lx_text = src, lx_tokens = [], lx_comments = [], lx_directives = [],
     lx_index = 0, lx_line = 1, lx_line_start = 0, lx_cond = 0, lx_brace = 0\<rparr>"

definition dquote :: char where "dquote = CHR 0x22"
definition squote :: char where "squote = CHR 0x27"
definition backslash_char :: char where "backslash_char = CHR 0x5C"
definition tab_char :: char where "tab_char = CHR 0x09"

lemmas lexer_chars = dquote_def squote_def backslash_char_def tab_char_def newline_char_def

section \<open>Scanning helpers\<close>

definition consume_newlines :: "string \<Rightarrow> nat \<Rightarrow> nat \<Rightarrow> nat \<Rightarrow> nat \<Rightarrow> nat \<times> nat" where
  "consume_newlines src start stop line line_start =
     foldl (\<lambda>(l, ls) i. if src ! i = newline_char then (l + 1, i + 1) else (l, ls))
       (line, line_start) [start..<stop]"

definition raw_prefixes :: "string list" where
  "raw_prefixes = map (\<lambda>p. p @ [dquote]) [''u8R'', ''uR'', ''UR'', ''LR'', ''R'']"

definition raw_string_end :: "string \<Rightarrow> nat \<Rightarrow> nat option" where
  "raw_string_end src start =
     (case find (\<lambda>p. starts_at p src start) raw_prefixes of
        None \<Rightarrow> None
      | Some prefix \<Rightarrow>
          let delimiter_start = start + length prefix in
          (case find_from ''('' src delimiter_start (delimiter_start + 17) of
             None \<Rightarrow> None
           | Some opn \<Rightarrow>
               let delimiter = slice src delimiter_start opn in
               if list_ex (\<lambda>c. py_isspace c \<or> c \<in> {backslash_char, CHR ''('', CHR '')''}) delimiter
               then None
               else
                 let terminator = '')'' @ delimiter @ [dquote] in
                 (case find_from terminator src (opn + 1) (length src) of
                    None \<Rightarrow> Some (length src)
                  | Some closing \<Rightarrow> Some (closing + length terminator))))"

text \<open>Backslashes that end just before position \<open>n\<close>, none before \<open>start\<close>.\<close>

fun slash_count :: "string \<Rightarrow> nat \<Rightarrow> nat \<Rightarrow> nat" where
  "slash_count src start 0 = 0"
| "slash_count src start (Suc p) =
     (if start \<le> p \<and> src ! p = backslash_char then Suc (slash_count src start p) else 0)"

function directive_end :: "string \<Rightarrow> nat \<Rightarrow> nat \<Rightarrow> nat" where
  "directive_end src start e =
     (if e < length src then
        (case find_from [newline_char] src e (length src) of
           None \<Rightarrow> length src
         | Some nl \<Rightarrow>
             if even (slash_count src start nl) then nl + 1
             else directive_end src start (nl + 1))
      else e)"
  by pat_completeness auto
termination
  by (relation "measure (\<lambda>(src, start, e). length src - e)") (auto dest!: find_from_Some)

declare directive_end.simps [simp del]

text \<open>\<open>re.match(r"#[ \t]*(?P<name>[A-Za-z_][A-Za-z0-9_]*)", line)\<close>, with the empty name for no match.\<close>

definition directive_name :: "string \<Rightarrow> string" where
  "directive_name s =
     (case s of
        [] \<Rightarrow> []
      | h # rest \<Rightarrow>
          if h \<noteq> CHR ''#'' then []
          else (case dropWhile (\<lambda>c. c = CHR '' '' \<or> c = tab_char) rest of
                  [] \<Rightarrow> []
                | c # cs \<Rightarrow> if ident_start c then c # takeWhile ident_char cs else []))"

function quote_loop :: "string \<Rightarrow> char \<Rightarrow> nat \<Rightarrow> nat \<Rightarrow> nat \<Rightarrow> nat \<times> nat \<times> nat" where
  "quote_loop src quote i line line_start =
     (if i < length src then
        if src ! i = backslash_char then
          quote_loop src quote (min (length src) (i + 2)) line line_start
        else if src ! i = quote then (i + 1, line, line_start)
        else if src ! i = newline_char then quote_loop src quote (i + 1) (line + 1) (i + 1)
        else quote_loop src quote (i + 1) line line_start
      else (i, line, line_start))"
  by pat_completeness auto
termination
  by (relation "measure (\<lambda>(src, quote, i, line, line_start). length src - i)") auto

declare quote_loop.simps [simp del]

definition word_start :: "char \<Rightarrow> bool" where
  "word_start c = (py_isalpha c \<or> c = CHR ''_'')"

definition word_char :: "char \<Rightarrow> bool" where
  "word_char c = (py_isalnum c \<or> c = CHR ''_'')"

function word_end :: "string \<Rightarrow> nat \<Rightarrow> nat" where
  "word_end src i =
     (if i < length src \<and> word_char (src ! i) then word_end src (i + 1) else i)"
  by pat_completeness auto
termination
  by (relation "measure (\<lambda>(src, i). length src - i)") auto

declare word_end.simps [simp del]

section \<open>The lexer's steps\<close>

definition update_conditional_depth :: "string \<Rightarrow> nat \<Rightarrow> nat" where
  "update_conditional_depth name depth =
     (if name \<in> {''if'', ''ifdef'', ''ifndef''} then depth + 1
      else if name = ''endif'' then depth - 1
      else depth)"

definition consume_directive :: "lexer \<Rightarrow> lexer" where
  "consume_directive s =
     (let src = lx_text s; start = lx_index s;
          stop = directive_end src start start;
          first_line_end = (case find_from [newline_char] src start stop of
                              None \<Rightarrow> stop | Some n \<Rightarrow> n);
          name = directive_name (slice src start first_line_end);
          (line, line_start) = consume_newlines src start stop (lx_line s) (lx_line_start s)
      in s\<lparr>lx_directives := lx_directives s @
             [\<lparr>d_start = start, d_end = stop, d_line = lx_line s, d_name = name\<rparr>],
           lx_cond := update_conditional_depth name (lx_cond s),
           lx_line := line, lx_line_start := line_start, lx_index := stop\<rparr>)"

definition blank_before :: "lexer \<Rightarrow> bool" where
  "blank_before s = (py_strip (slice (lx_text s) (lx_line_start s) (lx_index s)) = [])"

definition consume_line_comment :: "lexer \<Rightarrow> lexer" where
  "consume_line_comment s =
     (let src = lx_text s; start = lx_index s;
          stop = (case find_from [newline_char] src (start + 2) (length src) of
                    None \<Rightarrow> length src | Some n \<Rightarrow> n)
      in s\<lparr>lx_comments := lx_comments s @
             [\<lparr>c_text = slice src (start + 2) stop, c_start = start, c_end = stop,
               c_line = lx_line s, c_line_only = blank_before s,
               c_cond = lx_cond s, c_brace = lx_brace s\<rparr>],
           lx_index := stop\<rparr>)"

definition consume_block_comment :: "lexer \<Rightarrow> lexer" where
  "consume_block_comment s =
     (let src = lx_text s; start = lx_index s;
          stop = (case find_from ''*/'' src (start + 2) (length src) of
                    None \<Rightarrow> length src | Some m \<Rightarrow> m + 2);
          (line, line_start) = consume_newlines src start stop (lx_line s) (lx_line_start s)
      in s\<lparr>lx_line := line, lx_line_start := line_start, lx_index := stop\<rparr>)"

text \<open>One token of the current line and depths, from \<open>start\<close> to \<open>stop\<close>.\<close>

definition token_at :: "lexer \<Rightarrow> string \<Rightarrow> nat \<Rightarrow> nat \<Rightarrow> token_kind \<Rightarrow> token" where
  "token_at s val start stop kind =
     \<lparr>t_value = val, t_start = start, t_end = stop, t_line = lx_line s, t_kind = kind,
      t_cond = lx_cond s, t_brace = lx_brace s\<rparr>"

definition consume_raw_string :: "nat \<Rightarrow> lexer \<Rightarrow> lexer" where
  "consume_raw_string stop s =
     (let src = lx_text s; start = lx_index s;
          (line, line_start) = consume_newlines src start stop (lx_line s) (lx_line_start s)
      in s\<lparr>lx_tokens := lx_tokens s @ [token_at s ''<string>'' start stop TString],
           lx_line := line, lx_line_start := line_start, lx_index := stop\<rparr>)"

definition consume_quoted_string :: "char \<Rightarrow> lexer \<Rightarrow> lexer" where
  "consume_quoted_string quote s =
     (let start = lx_index s;
          (stop, line, line_start) =
            quote_loop (lx_text s) quote (start + 1) (lx_line s) (lx_line_start s);
          s' = s\<lparr>lx_index := stop, lx_line := line, lx_line_start := line_start\<rparr>
      in s'\<lparr>lx_tokens := lx_tokens s' @ [token_at s' ''<string>'' start stop TString]\<rparr>)"

definition consume_identifier :: "lexer \<Rightarrow> lexer" where
  "consume_identifier s =
     (let src = lx_text s; start = lx_index s; stop = word_end src (start + 1)
      in s\<lparr>lx_index := stop,
           lx_tokens := lx_tokens s @
             [token_at s (slice src start stop) start stop TIdentifier]\<rparr>)"

definition multi_punctuation :: "string list" where
  "multi_punctuation = [''...'', ''::'', ''[['', '']]'', ''->'']"

definition consume_punctuation :: "char \<Rightarrow> lexer \<Rightarrow> lexer" where
  "consume_punctuation c s =
     (let src = lx_text s; start = lx_index s;
          val = (case find (\<lambda>p. starts_at p src start) multi_punctuation of
                   None \<Rightarrow> [c] | Some p \<Rightarrow> p);
          stop = start + length val
      in s\<lparr>lx_tokens := lx_tokens s @ [token_at s val start stop TPunctuation],
           lx_brace := (if lx_cond s = 0
                        then if val = ''{'' then lx_brace s + 1
                             else if val = ''}'' then lx_brace s - 1
                             else lx_brace s
                        else lx_brace s),
           lx_index := stop\<rparr>)"

definition consume_token_or_trivia :: "lexer \<Rightarrow> lexer" where
  "consume_token_or_trivia s =
     (let src = lx_text s; i = lx_index s; c = src ! i;
          next_char = (if i + 1 < length src then [src ! (i + 1)] else [])
      in if c = newline_char then
           s\<lparr>lx_line := lx_line s + 1, lx_line_start := i + 1, lx_index := i + 1\<rparr>
         else if py_isspace c then s\<lparr>lx_index := i + 1\<rparr>
         else if c = CHR ''#'' \<and> blank_before s then consume_directive s
         else if c = CHR ''/'' \<and> next_char = ''/'' then consume_line_comment s
         else if c = CHR ''/'' \<and> next_char = ''*'' then consume_block_comment s
         else (case raw_string_end src i of
                 Some stop \<Rightarrow> consume_raw_string stop s
               | None \<Rightarrow>
                   if c = dquote \<or> c = squote then consume_quoted_string c s
                   else if word_start c then consume_identifier s
                   else consume_punctuation c s))"

section \<open>Progress and the main loop\<close>

lemma directive_end_bounds:
  "e \<le> length src \<Longrightarrow> e \<le> directive_end src start e \<and> directive_end src start e \<le> length src"
proof (induction src start e rule: directive_end.induct)
  case (1 src start e)
  show ?case
  proof (cases "e < length src")
    case False
    then have "directive_end src start e = e" by (simp add: directive_end.simps [of src start e])
    with "1.prems" show ?thesis by simp
  next
    case True
    show ?thesis
    proof (cases "find_from [newline_char] src e (length src)")
      case None
      with True show ?thesis by (simp add: directive_end.simps [of src start e])
    next
      case (Some nl)
      then have nl: "e \<le> nl" "nl + 1 \<le> length src" by (auto dest: find_from_Some)
      with "1.IH" [OF True Some] True Some show ?thesis
        by (auto simp: directive_end.simps [of src start e])
    qed
  qed
qed

lemma directive_end_progress:
  assumes "e < length src" shows "e < directive_end src start e"
proof (cases "find_from [newline_char] src e (length src)")
  case None
  with assms show ?thesis by (simp add: directive_end.simps [of src start e])
next
  case (Some nl)
  then have nl: "e \<le> nl" "nl + 1 \<le> length src" by (auto dest: find_from_Some)
  with directive_end_bounds [of "nl + 1" src start] assms Some show ?thesis
    by (auto simp: directive_end.simps [of src start e])
qed

lemma quote_loop_bounds:
  "quote_loop src quote i line line_start = (j, l, ls) \<Longrightarrow> i \<le> length src \<Longrightarrow>
     i \<le> j \<and> j \<le> length src"
proof (induction src quote i line line_start arbitrary: j l ls rule: quote_loop.induct)
  case (1 src quote i line line_start)
  from "1.prems" "1.IH" show ?case
    by (fastforce simp: quote_loop.simps [of src quote i line line_start] split: if_splits)
qed

lemma word_end_bounds: "i \<le> length src \<Longrightarrow> i \<le> word_end src i \<and> word_end src i \<le> length src"
proof (induction src i rule: word_end.induct)
  case (1 src i)
  then show ?case by (auto simp: word_end.simps [of src i])
qed

lemma word_end_chars:
  "i \<le> k \<Longrightarrow> k < word_end src i \<Longrightarrow> word_char (src ! k)"
proof (induction src i rule: word_end.induct)
  case (1 src i)
  then show ?case
    by (cases "k = i") (auto simp: word_end.simps [of src i] split: if_splits)
qed

lemma word_end_stops: "word_end src i < length src \<Longrightarrow> \<not> word_char (src ! word_end src i)"
proof (induction src i rule: word_end.induct)
  case (1 src i)
  then show ?case
    by (cases "i < length src \<and> word_char (src ! i)") (auto simp: word_end.simps [of src i])
qed

lemma raw_prefix_length: "p \<in> set raw_prefixes \<Longrightarrow> 2 \<le> length p"
  by (auto simp: raw_prefixes_def)

lemma raw_string_end_bounds:
  assumes "raw_string_end src start = Some e"
  shows "start < e \<and> e \<le> length src"
proof -
  from assms obtain prefix where prefix: "find (\<lambda>p. starts_at p src start) raw_prefixes = Some prefix"
    by (auto simp: raw_string_end_def split: option.splits)
  then have len: "2 \<le> length prefix"
    by (auto simp: find_Some_iff raw_prefix_length)
  from assms prefix obtain opn where
    op: "find_from ''('' src (start + length prefix) (start + length prefix + 17) = Some opn"
    by (auto simp: raw_string_end_def Let_def split: option.splits)
  let ?close = "'')'' @ slice src (start + length prefix) opn @ [dquote]"
  from op have "start + length prefix \<le> opn" "opn < length src"
    by (auto dest: find_from_Some)
  moreover from assms prefix op have
    "e = length src \<or> (\<exists>c. find_from ?close src (opn + 1) (length src) = Some c \<and> e = c + length ?close)"
    by (auto simp: raw_string_end_def Let_def split: option.splits if_splits)
  ultimately show ?thesis using len
    by (auto dest!: find_from_Some)
qed

lemma multi_punctuation_length: "p \<in> set multi_punctuation \<Longrightarrow> 2 \<le> length p"
  by (auto simp: multi_punctuation_def)

lemma consumer_text [simp]:
  "lx_text (consume_directive s) = lx_text s"
  "lx_text (consume_line_comment s) = lx_text s"
  "lx_text (consume_block_comment s) = lx_text s"
  "lx_text (consume_raw_string e s) = lx_text s"
  "lx_text (consume_quoted_string q s) = lx_text s"
  "lx_text (consume_identifier s) = lx_text s"
  "lx_text (consume_punctuation c s) = lx_text s"
  by (simp_all add: consume_directive_def consume_line_comment_def consume_block_comment_def
      consume_raw_string_def consume_quoted_string_def consume_identifier_def
      consume_punctuation_def Let_def case_prod_beta)

text \<open>What a step can be: the nine branches of \<open>_consume_token_or_trivia\<close>.\<close>

lemma consume_cases:
  obtains (newline) "lx_text s ! lx_index s = newline_char"
      "consume_token_or_trivia s =
         s\<lparr>lx_line := lx_line s + 1, lx_line_start := lx_index s + 1, lx_index := lx_index s + 1\<rparr>"
  | (space) "lx_text s ! lx_index s \<noteq> newline_char" "py_isspace (lx_text s ! lx_index s)"
      "consume_token_or_trivia s = s\<lparr>lx_index := lx_index s + 1\<rparr>"
  | (directive) "lx_text s ! lx_index s = CHR ''#''" "blank_before s"
      "consume_token_or_trivia s = consume_directive s"
  | (line_comment) "lx_text s ! lx_index s = CHR ''/''" "lx_index s + 1 < length (lx_text s)"
      "lx_text s ! (lx_index s + 1) = CHR ''/''"
      "consume_token_or_trivia s = consume_line_comment s"
  | (block_comment) "lx_text s ! lx_index s = CHR ''/''" "lx_index s + 1 < length (lx_text s)"
      "lx_text s ! (lx_index s + 1) = CHR ''*''"
      "consume_token_or_trivia s = consume_block_comment s"
  | (quoted) "lx_text s ! lx_index s = dquote \<or> lx_text s ! lx_index s = squote"
      "consume_token_or_trivia s = consume_quoted_string (lx_text s ! lx_index s) s"
  | (word) "word_start (lx_text s ! lx_index s)"
      "consume_token_or_trivia s = consume_identifier s"
  | (punctuation) "lx_text s ! lx_index s \<noteq> newline_char" "\<not> py_isspace (lx_text s ! lx_index s)"
      "\<not> word_start (lx_text s ! lx_index s)"
      "consume_token_or_trivia s = consume_punctuation (lx_text s ! lx_index s) s"
  | (raw_string) e where "raw_string_end (lx_text s) (lx_index s) = Some e"
      "consume_token_or_trivia s = consume_raw_string e s"
proof -
  note defs = consume_token_or_trivia_def Let_def
  let ?c = "lx_text s ! lx_index s"
  let ?n = "if lx_index s + 1 < length (lx_text s) then [lx_text s ! (lx_index s + 1)] else []"
  consider "?c = newline_char" | "?c \<noteq> newline_char" "py_isspace ?c"
    | "?c \<noteq> newline_char" "\<not> py_isspace ?c" "?c = CHR ''#'' \<and> blank_before s"
    | "?c \<noteq> newline_char" "\<not> py_isspace ?c" "\<not> (?c = CHR ''#'' \<and> blank_before s)"
        "?c = CHR ''/'' \<and> ?n = ''/''"
    | "?c \<noteq> newline_char" "\<not> py_isspace ?c" "\<not> (?c = CHR ''#'' \<and> blank_before s)"
        "\<not> (?c = CHR ''/'' \<and> ?n = ''/'')" "?c = CHR ''/'' \<and> ?n = ''*''"
    | e where "?c \<noteq> newline_char" "\<not> py_isspace ?c" "\<not> (?c = CHR ''#'' \<and> blank_before s)"
        "\<not> (?c = CHR ''/'' \<and> ?n = ''/'')" "\<not> (?c = CHR ''/'' \<and> ?n = ''*'')"
        "raw_string_end (lx_text s) (lx_index s) = Some e"
    | "?c \<noteq> newline_char" "\<not> py_isspace ?c" "\<not> (?c = CHR ''#'' \<and> blank_before s)"
        "\<not> (?c = CHR ''/'' \<and> ?n = ''/'')" "\<not> (?c = CHR ''/'' \<and> ?n = ''*'')"
        "raw_string_end (lx_text s) (lx_index s) = None"
    by blast
  then show ?thesis
  proof cases
    case 1
    then show ?thesis by - (rule newline, simp_all only: defs if_True if_False simp_thms option.case)
  next
    case 2
    then show ?thesis by - (rule space, simp_all only: defs if_True if_False simp_thms option.case)
  next
    case 3
    then show ?thesis by - (rule directive, simp_all only: defs if_True if_False simp_thms option.case)
  next
    case 4
    then have "lx_index s + 1 < length (lx_text s)" "lx_text s ! (lx_index s + 1) = CHR ''/''"
      by (auto split: if_splits)
    with 4 show ?thesis by - (rule line_comment, simp_all only: defs if_True if_False simp_thms option.case)
  next
    case 5
    then have "lx_index s + 1 < length (lx_text s)" "lx_text s ! (lx_index s + 1) = CHR ''*''"
      by (auto split: if_splits)
    with 5 show ?thesis by - (rule block_comment, simp_all only: defs if_True if_False simp_thms option.case)
  next
    case 6
    then show ?thesis by - (rule raw_string, simp_all only: defs if_True if_False simp_thms option.case)
  next
    case 7
    then have eq: "consume_token_or_trivia s =
        (if ?c = dquote \<or> ?c = squote then consume_quoted_string ?c s
         else if word_start ?c then consume_identifier s else consume_punctuation ?c s)"
      by (simp only: defs if_True if_False simp_thms option.case)
    show ?thesis
    proof (cases "?c = dquote \<or> ?c = squote")
      case True
      with eq show ?thesis using quoted by simp
    next
      case False
      show ?thesis
      proof (cases "word_start ?c")
        case True
        with False eq show ?thesis using word by simp
      next
        case nw: False
        with False eq 7 show ?thesis using punctuation by simp
      qed
    qed
  qed
qed

lemma consume_text [simp]: "lx_text (consume_token_or_trivia s) = lx_text s"
  by (cases rule: consume_cases [of s]) simp_all

lemma consume_progress:
  assumes "lx_index s < length (lx_text s)"
  shows "lx_index s < lx_index (consume_token_or_trivia s) \<and>
     lx_index (consume_token_or_trivia s) \<le> length (lx_text s)"
proof -
  let ?t = "lx_text s" and ?i = "lx_index s"
  have dir: "?i < lx_index (consume_directive s) \<and> lx_index (consume_directive s) \<le> length ?t"
    using assms directive_end_progress [of ?i ?t ?i] directive_end_bounds [of ?i ?t ?i]
    by (simp add: consume_directive_def Let_def split: prod.split)
  have line: "?i < lx_index (consume_line_comment s) \<and> lx_index (consume_line_comment s) \<le> length ?t"
    using assms
    by (auto simp: consume_line_comment_def Let_def dest!: find_from_Some split: option.split)
  have block: "?i < lx_index (consume_block_comment s) \<and> lx_index (consume_block_comment s) \<le> length ?t"
    using assms
    by (auto simp: consume_block_comment_def Let_def dest!: find_from_Some
        split: option.split prod.split)
  have raw: "?i < lx_index (consume_raw_string e s) \<and> lx_index (consume_raw_string e s) \<le> length ?t"
    if "raw_string_end ?t ?i = Some e" for e
    using raw_string_end_bounds [OF that]
    by (simp add: consume_raw_string_def Let_def split: prod.split)
  have quoted: "?i < lx_index (consume_quoted_string q s) \<and>
      lx_index (consume_quoted_string q s) \<le> length ?t" for q
    using assms
    by (auto simp: consume_quoted_string_def Let_def dest!: quote_loop_bounds split: prod.split)
  have ident: "?i < lx_index (consume_identifier s) \<and> lx_index (consume_identifier s) \<le> length ?t"
    using assms word_end_bounds [of "?i + 1" ?t] by (simp add: consume_identifier_def Let_def)
  have punct: "?i < lx_index (consume_punctuation c s) \<and>
      lx_index (consume_punctuation c s) \<le> length ?t" for c
    using assms
    by (auto simp: consume_punctuation_def Let_def find_Some_iff split: option.split
        dest!: starts_at_length dest: multi_punctuation_length [OF nth_mem])
  show ?thesis
    by (cases rule: consume_cases [of s])
      (simp_all add: assms Suc_leI dir line block raw quoted ident punct)
qed

function lex_loop :: "lexer \<Rightarrow> lexer" where
  "lex_loop s =
     (if lx_index s < length (lx_text s) then lex_loop (consume_token_or_trivia s) else s)"
  by pat_completeness auto
termination
  by (relation "measure (\<lambda>s. length (lx_text s) - lx_index s)") (auto dest!: consume_progress)

declare lex_loop.simps [simp del]

definition lex_source :: "string \<Rightarrow> lexed_source" where
  "lex_source src =
     (let s = lex_loop (init_lexer src)
      in \<lparr>ls_tokens = lx_tokens s, ls_comments = lx_comments s, ls_directives = lx_directives s\<rparr>)"

end
