(* ===== verification/Cpp_Lexer_Props.thy ===== *)
theory Cpp_Lexer_Props
  imports Cpp_Lexer
begin

text \<open>
  What the lexer promises.  \<open>tokens_inv\<close> is the invariant of the main loop: the tokens so far are
  disjoint extents of the text in increasing order, spelled as the text there, and the brace and
  conditional depths each token carries are those of the tokens and directives before it.
  \<open>at_line\<close> is the invariant of the line counter.  The locale \<open>token_stream\<close> is what the declaration
  phases may rely on; the lexer's output interprets it.
\<close>

section \<open>The token invariant\<close>

definition brace_step :: "nat \<Rightarrow> token \<Rightarrow> nat" where
  "brace_step d t =
     (if t_cond t = 0 then
        if t_value t = ''{'' then d + 1 else if t_value t = ''}'' then d - 1 else d
      else d)"

definition brace_after :: "token list \<Rightarrow> nat" where
  "brace_after ts = foldl brace_step 0 ts"

definition cond_after :: "directive list \<Rightarrow> nat" where
  "cond_after ds = foldl (\<lambda>d x. update_conditional_depth (d_name x) d) 0 ds"

definition token_spelled :: "string \<Rightarrow> token \<Rightarrow> bool" where
  "token_spelled src t =
     (case t_kind t of
        TString \<Rightarrow> t_value t = ''<string>''
      | TIdentifier \<Rightarrow>
          t_value t = slice src (t_start t) (t_end t) \<and>
          word_start (src ! t_start t) \<and>
          (\<forall>k. t_start t < k \<and> k < t_end t \<longrightarrow> word_char (src ! k)) \<and>
          (t_end t < length src \<longrightarrow> \<not> word_char (src ! t_end t))
      | TPunctuation \<Rightarrow>
          t_value t = slice src (t_start t) (t_end t) \<and>
          (t_value t \<in> set multi_punctuation \<or> length (t_value t) = 1))"

definition tokens_inv ::
    "string \<Rightarrow> nat \<Rightarrow> token list \<Rightarrow> directive list \<Rightarrow> nat \<Rightarrow> nat \<Rightarrow> bool" where
  "tokens_inv src idx toks dirs cond brace \<longleftrightarrow>
     idx \<le> length src \<and>
     (\<forall>t \<in> set toks. t_start t < t_end t \<and> t_end t \<le> idx \<and> token_spelled src t) \<and>
     sorted_wrt (\<lambda>a b. t_end a \<le> t_start b) toks \<and>
     (\<forall>d \<in> set dirs. d_start d < d_end d \<and> d_end d \<le> idx) \<and>
     brace = brace_after toks \<and> cond = cond_after dirs \<and>
     (\<forall>i < length toks. t_brace (toks ! i) = brace_after (take i toks)) \<and>
     (\<forall>t \<in> set toks. t_cond t = cond_after (filter (\<lambda>d. d_start d < t_start t) dirs))"

lemma brace_after_snoc [simp]: "brace_after (ts @ [t]) = brace_step (brace_after ts) t"
  by (simp add: brace_after_def)

lemma cond_after_snoc [simp]:
  "cond_after (ds @ [d]) = update_conditional_depth (d_name d) (cond_after ds)"
  by (simp add: cond_after_def)

lemma tokens_inv_advance:
  "tokens_inv src i toks dirs c b \<Longrightarrow> i \<le> j \<Longrightarrow> j \<le> length src \<Longrightarrow> tokens_inv src j toks dirs c b"
  unfolding tokens_inv_def by (meson order_trans)

lemma tokens_inv_push:
  assumes inv: "tokens_inv src i toks dirs c b"
    and t: "t_start t = i" "i < t_end t" "t_end t \<le> length src" "token_spelled src t"
      "t_cond t = c" "t_brace t = b"
  shows "tokens_inv src (t_end t) (toks @ [t]) dirs c (brace_step b t)"
proof -
  from inv have "\<forall>d \<in> set dirs. d_start d < i" by (auto simp: tokens_inv_def)
  then have filt: "filter (\<lambda>d. d_start d < i) dirs = dirs" by (simp add: filter_id_conv)
  from inv t filt show ?thesis
    by (auto simp: tokens_inv_def sorted_wrt_append nth_append less_Suc_eq dest: less_imp_le)
qed

lemma tokens_inv_directive:
  assumes inv: "tokens_inv src i toks dirs c b"
    and d: "d_start d = i" "i < d_end d" "d_end d \<le> length src"
  shows "tokens_inv src (d_end d) toks (dirs @ [d]) (update_conditional_depth (d_name d) c) b"
proof -
  from inv have "\<forall>t \<in> set toks. \<not> i < t_start t" by (fastforce simp: tokens_inv_def)
  with inv d show ?thesis by (fastforce simp: tokens_inv_def)
qed

definition lexer_inv :: "string \<Rightarrow> lexer \<Rightarrow> bool" where
  "lexer_inv src s \<longleftrightarrow> lx_text s = src \<and>
     tokens_inv src (lx_index s) (lx_tokens s) (lx_directives s) (lx_cond s) (lx_brace s)"

lemma lexer_inv_init: "lexer_inv src (init_lexer src)"
  by (simp add: lexer_inv_def init_lexer_def tokens_inv_def brace_after_def cond_after_def)

lemma word_token_spelled:
  assumes "i < length src" "word_start (src ! i)"
    "t_value t = slice src i (word_end src (i + 1))" "t_start t = i"
    "t_end t = word_end src (i + 1)" "t_kind t = TIdentifier"
  shows "token_spelled src t"
  using assms word_end_chars [of "i + 1" _ src] word_end_stops [of src "i + 1"]
  by (auto simp: token_spelled_def)

lemma word_value_not_brace:
  assumes "word_start (v ! 0)" shows "v \<noteq> ''{''" "v \<noteq> ''}''"
  using assms
  by (auto simp: word_start_def py_isalpha_def ascii_alpha_def code_point_def)

lemma lexer_inv_step:
  assumes inv: "lexer_inv src s" and more: "lx_index s < length (lx_text s)"
  shows "lexer_inv src (consume_token_or_trivia s)"
proof -
  let ?i = "lx_index s" and ?s' = "consume_token_or_trivia s"
  from inv have src: "lx_text s = src"
    and ti: "tokens_inv src ?i (lx_tokens s) (lx_directives s) (lx_cond s) (lx_brace s)"
    by (simp_all add: lexer_inv_def)
  from consume_progress [OF more] src
  have adv: "?i < lx_index ?s'" "lx_index ?s' \<le> length src" by simp_all
  have same: "lexer_inv src ?s'"
    if "lx_tokens ?s' = lx_tokens s" "lx_directives ?s' = lx_directives s"
      "lx_cond ?s' = lx_cond s" "lx_brace ?s' = lx_brace s"
    using that adv src tokens_inv_advance [OF ti, of "lx_index ?s'"] by (simp add: lexer_inv_def)
  have push: "lexer_inv src ?s'"
    if "lx_tokens ?s' = lx_tokens s @ [t]" "lx_directives ?s' = lx_directives s"
      "lx_cond ?s' = lx_cond s" "lx_brace ?s' = brace_step (lx_brace s) t"
      "t_start t = ?i" "t_end t = lx_index ?s'" "t_cond t = lx_cond s" "t_brace t = lx_brace s"
      "token_spelled src t" for t
    using that adv src tokens_inv_push [OF ti, of t] by (simp add: lexer_inv_def)
  note defs = Let_def case_prod_beta token_at_def
  show ?thesis
  proof (cases rule: consume_cases [of s])
    case newline
    then show ?thesis by (intro same) simp_all
  next
    case space
    then show ?thesis by (intro same) simp_all
  next
    case line_comment
    then show ?thesis by (intro same) (simp_all add: consume_line_comment_def defs)
  next
    case block_comment
    then show ?thesis by (intro same) (simp_all add: consume_block_comment_def defs)
  next
    case directive
    let ?stop = "directive_end src ?i ?i"
    from src more directive_end_progress [of ?i src ?i] directive_end_bounds [of ?i src ?i]
    have "?i < ?stop" "?stop \<le> length src" by simp_all
    with tokens_inv_directive [OF ti, of "last (lx_directives ?s')"] directive src show ?thesis
      by (simp add: lexer_inv_def consume_directive_def defs)
  next
    case (raw_string e)
    then show ?thesis
      by (intro push [of "token_at s ''<string>'' ?i e TString"])
        (simp_all add: consume_raw_string_def defs brace_step_def token_spelled_def)
  next
    case quoted
    let ?t = "last (lx_tokens ?s')"
    from quoted show ?thesis
      by (intro push [of ?t])
        (simp_all add: consume_quoted_string_def defs brace_step_def token_spelled_def)
  next
    case word
    let ?t = "last (lx_tokens ?s')"
    have i: "?i < length src" using more src by simp
    have sp: "token_spelled src ?t"
      using word src i
      by (intro word_token_spelled [of ?i]) (simp_all add: consume_identifier_def defs)
    have "slice src ?i (word_end src (?i + 1)) ! 0 = src ! ?i"
      using word_end_bounds [of "?i + 1" src] i slice_nth [of 0 "word_end src (?i + 1)" ?i src]
      by simp
    with word src have "brace_step (lx_brace s) ?t = lx_brace s"
      using word_value_not_brace [of "slice src ?i (word_end src (?i + 1))"]
      by (simp add: consume_identifier_def defs brace_step_def)
    with word sp show ?thesis
      by (intro push [of ?t]) (simp_all add: consume_identifier_def defs)
  next
    case punctuation
    let ?t = "last (lx_tokens ?s')"
    have i: "?i < length src" using more src by simp
    have "token_spelled src ?t"
    proof (cases "find (\<lambda>p. starts_at p src ?i) multi_punctuation")
      case None
      have "slice src ?i (Suc ?i) = [src ! ?i]" using i by (simp add: slice_Suc)
      with None punctuation src show ?thesis
        by (simp add: consume_punctuation_def defs token_spelled_def)
    next
      case (Some p)
      then have "p \<in> set multi_punctuation" "starts_at p src ?i"
        by (auto simp: find_Some_iff)
      with Some punctuation src show ?thesis
        by (simp add: consume_punctuation_def defs token_spelled_def starts_at_slice)
    qed
    with punctuation src show ?thesis
      by (intro push [of ?t])
        (simp_all add: consume_punctuation_def defs brace_step_def)
  qed
qed

lemma lexer_inv_loop: "lexer_inv src s \<Longrightarrow> lexer_inv src (lex_loop s)"
proof (induction s rule: lex_loop.induct)
  case (1 s)
  then show ?case
    using lexer_inv_step [of src s] by (cases "lx_index s < length (lx_text s)")
      (simp_all add: lex_loop.simps [of s])
qed

lemma lex_loop_index: "lx_index s \<le> length (lx_text s) \<Longrightarrow> lx_index (lex_loop s) = length (lx_text s)"
proof (induction s rule: lex_loop.induct)
  case (1 s)
  then show ?case
    using consume_progress [of s] by (cases "lx_index s < length (lx_text s)")
      (simp_all add: lex_loop.simps [of s])
qed

lemma lex_source_inv:
  "\<exists>idx cond brace. tokens_inv src idx (ls_tokens (lex_source src)) (ls_directives (lex_source src)) cond brace"
  using lexer_inv_loop [OF lexer_inv_init [of src]]
  by (auto simp: lex_source_def Let_def lexer_inv_def)

section \<open>The interface of the token stream\<close>

locale token_stream =
  fixes src :: string and toks :: "token list"
  assumes extent: "t \<in> set toks \<Longrightarrow> t_start t < t_end t \<and> t_end t \<le> length src"
    and ordered: "sorted_wrt (\<lambda>a b. t_end a \<le> t_start b) toks"
    and spelled: "t \<in> set toks \<Longrightarrow> token_spelled src t"
begin

lemma start_less: "i < j \<Longrightarrow> j < length toks \<Longrightarrow> t_start (toks ! i) < t_start (toks ! j)"
  using ordered extent [of "toks ! i"] by (force simp: sorted_wrt_iff_nth_less)

lemma starts_increasing: "sorted_wrt (<) (map t_start toks)"
  by (auto simp: sorted_wrt_iff_nth_less start_less)

lemma starts_distinct: "distinct (map t_start toks)"
  using starts_increasing strict_sorted_iff by blast

lemma same_start: "t \<in> set toks \<Longrightarrow> u \<in> set toks \<Longrightarrow> t_start t = t_start u \<Longrightarrow> t = u"
  using starts_distinct by (auto simp: distinct_map dest: inj_onD)

lemma disjoint_extents:
  "i < j \<Longrightarrow> j < length toks \<Longrightarrow>
     {t_start (toks ! i)..<t_end (toks ! i)} \<inter> {t_start (toks ! j)..<t_end (toks ! j)} = {}"
  using ordered by (force simp: sorted_wrt_iff_nth_less)

lemma nonempty_value: "t \<in> set toks \<Longrightarrow> t_value t \<noteq> []"
  using spelled [of t] extent [of t]
  by (auto simp: token_spelled_def slice_def split: token_kind.splits)

end

interpretation lexed: token_stream src "ls_tokens (lex_source src)" for src
proof
  obtain idx cond brace where inv:
    "tokens_inv src idx (ls_tokens (lex_source src)) (ls_directives (lex_source src)) cond brace"
    using lex_source_inv by blast
  show "sorted_wrt (\<lambda>a b. t_end a \<le> t_start b) (ls_tokens (lex_source src))"
    using inv by (simp add: tokens_inv_def)
  fix t assume t: "t \<in> set (ls_tokens (lex_source src))"
  show "t_start t < t_end t \<and> t_end t \<le> length src" "token_spelled src t"
    using inv t by (auto simp: tokens_inv_def)
qed

section \<open>Line numbers\<close>

definition newlines_before :: "string \<Rightarrow> nat \<Rightarrow> nat" where
  "newlines_before src i = length (filter (\<lambda>c. c = newline_char) (take i src))"

text \<open>No backslash stands directly before a line end.\<close>

definition no_line_splice :: "string \<Rightarrow> bool" where
  "no_line_splice src =
     list_all (\<lambda>i. \<not> (src ! i = backslash_char \<and> src ! Suc i = newline_char)) [0..<length src - 1]"

text \<open>\<open>line\<close> counts the line ends before \<open>i\<close>, and \<open>line_start\<close> is where the line of \<open>i\<close> begins.\<close>

definition at_line :: "string \<Rightarrow> nat \<Rightarrow> nat \<Rightarrow> nat \<Rightarrow> bool" where
  "at_line src i line line_start \<longleftrightarrow>
     line = 1 + newlines_before src i \<and> line_start \<le> i \<and>
     (line_start = 0 \<or> src ! (line_start - 1) = newline_char) \<and>
     (\<forall>k. line_start \<le> k \<and> k < i \<longrightarrow> src ! k \<noteq> newline_char)"

lemma at_line_init [simp]: "at_line src 0 (Suc 0) 0"
  by (simp add: at_line_def newlines_before_def)

lemma newlines_before_Suc:
  "i < length src \<Longrightarrow>
     newlines_before src (Suc i) = newlines_before src i + (if src ! i = newline_char then 1 else 0)"
  by (simp add: newlines_before_def take_Suc_conv_app_nth)

lemma at_line_newline:
  "at_line src i line ls \<Longrightarrow> i < length src \<Longrightarrow> src ! i = newline_char \<Longrightarrow>
     at_line src (Suc i) (Suc line) (Suc i)"
  by (simp add: at_line_def newlines_before_Suc)

lemma at_line_other:
  "at_line src i line ls \<Longrightarrow> i < length src \<Longrightarrow> src ! i \<noteq> newline_char \<Longrightarrow>
     at_line src (Suc i) line ls"
  by (auto simp: at_line_def newlines_before_Suc less_Suc_eq)

lemma at_line_plain:
  assumes "at_line src i line ls" "i \<le> j" "j \<le> length src"
    "\<forall>k. i \<le> k \<and> k < j \<longrightarrow> src ! k \<noteq> newline_char"
  shows "at_line src j line ls"
  using assms(2,3,4)
proof (induction j rule: dec_induct)
  case base
  show ?case by (rule assms(1))
next
  case (step j)
  then show ?case by (simp add: at_line_other)
qed

lemma consume_newlines_at_line:
  assumes "at_line src i line ls" "i \<le> j" "j \<le> length src"
    "consume_newlines src i j line ls = (line', ls')"
  shows "at_line src j line' ls'"
  using assms(2-)
proof (induction j arbitrary: line' ls' rule: dec_induct)
  case base
  with assms(1) show ?case by (simp add: consume_newlines_def)
next
  case (step j)
  obtain l0 s0 where eq: "consume_newlines src i j line ls = (l0, s0)" by fastforce
  with step have at: "at_line src j l0 s0" by simp
  from eq step.hyps step.prems show ?case
    using at_line_newline [OF at] at_line_other [OF at]
    by (auto simp: consume_newlines_def split: if_splits)
qed

lemma no_line_splice_nth:
  "no_line_splice src \<Longrightarrow> Suc i < length src \<Longrightarrow> src ! i = backslash_char \<Longrightarrow>
     src ! Suc i \<noteq> newline_char"
  by (auto simp: no_line_splice_def list_all_iff)

lemma quote_loop_at_line:
  "quote_loop src q i line ls = (j, line', ls') \<Longrightarrow> at_line src i line ls \<Longrightarrow> i \<le> length src \<Longrightarrow>
     no_line_splice src \<Longrightarrow> q \<noteq> newline_char \<Longrightarrow> at_line src j line' ls'"
proof (induction src q i line ls arbitrary: j line' ls' rule: quote_loop.induct)
  case (1 src q i line ls)
  show ?case
  proof (cases "i < length src \<and> src ! i = backslash_char")
    case True
    then have bs: "src ! i \<noteq> newline_char" by (simp add: lexer_chars)
    have "src ! k \<noteq> newline_char" if "i \<le> k" "k < min (length src) (i + 2)" for k
    proof -
      from that have "k = i \<or> k = Suc i \<and> Suc i < length src" by auto
      with True bs no_line_splice_nth [OF "1.prems"(4), of i] show ?thesis by auto
    qed
    then have "at_line src (min (length src) (i + 2)) line ls"
      using True by (intro at_line_plain [OF "1.prems"(2)]) auto
    with True "1" show ?thesis by (simp add: quote_loop.simps [of src q i])
  next
    case False
    with "1" at_line_newline [OF "1.prems"(2)] at_line_other [OF "1.prems"(2)] show ?thesis
      by (auto simp: quote_loop.simps [of src q i] split: if_splits)
  qed
qed

text \<open>
  A comment knows its line, and \<open>line_only\<close> tells whether only white space precedes it on that
  line (the line begins at \<open>b\<close>).
\<close>

definition comment_placed :: "string \<Rightarrow> line_comment \<Rightarrow> bool" where
  "comment_placed src c \<longleftrightarrow>
     c_line c = 1 + newlines_before src (c_start c) \<and>
     (c_line_only c \<longleftrightarrow> (\<exists>b. at_line src (c_start c) (c_line c) b \<and>
        list_all py_isspace (slice src b (c_start c))))"

definition lines_inv :: "string \<Rightarrow> lexer \<Rightarrow> bool" where
  "lines_inv src s \<longleftrightarrow>
     lx_text s = src \<and> lx_index s \<le> length src \<and>
     at_line src (lx_index s) (lx_line s) (lx_line_start s) \<and>
     (\<forall>t \<in> set (lx_tokens s). t_kind t \<noteq> TString \<longrightarrow> t_line t = 1 + newlines_before src (t_start t)) \<and>
     (\<forall>d \<in> set (lx_directives s). d_line d = 1 + newlines_before src (d_start d)) \<and>
     (\<forall>c \<in> set (lx_comments s). comment_placed src c)"

lemma at_line_start_unique:
  assumes "at_line src i l b" "at_line src i l' b'" shows "b = b'"
proof (rule ccontr)
  assume "b \<noteq> b'"
  then consider "b < b'" | "b' < b" by linarith
  then show False
  proof cases
    case 1
    with assms show False by (auto simp: at_line_def dest!: spec [of _ "b' - 1"])
  next
    case 2
    with assms show False by (auto simp: at_line_def dest!: spec [of _ "b - 1"])
  qed
qed

lemma blank_before_iff:
  assumes "at_line src (lx_index s) (lx_line s) (lx_line_start s)" "lx_text s = src"
  shows "blank_before s \<longleftrightarrow> (\<exists>b. at_line src (lx_index s) (lx_line s) b \<and>
     list_all py_isspace (slice src b (lx_index s)))"
  using assms by (auto simp: blank_before_def dest: at_line_start_unique)

lemma lines_inv_step:
  assumes inv: "lines_inv src s" and more: "lx_index s < length (lx_text s)"
    and splice: "no_line_splice src"
  shows "lines_inv src (consume_token_or_trivia s)"
proof -
  let ?i = "lx_index s" and ?s' = "consume_token_or_trivia s"
  from inv have src: "lx_text s = src" and at: "at_line src ?i (lx_line s) (lx_line_start s)"
    by (simp_all add: lines_inv_def)
  then have now: "lx_line s = 1 + newlines_before src ?i" by (simp add: at_line_def)
  from consume_progress [OF more] src
  have adv: "?i < lx_index ?s'" "lx_index ?s' \<le> length src" by simp_all
  have step: "lines_inv src ?s'"
    if pos: "at_line src (lx_index ?s') (lx_line ?s') (lx_line_start ?s')"
      and toks: "lx_tokens ?s' = lx_tokens s \<or> (\<exists>t. lx_tokens ?s' = lx_tokens s @ [t] \<and>
         (t_kind t = TString \<or> t_start t = ?i \<and> t_line t = lx_line s))"
      and dirs: "lx_directives ?s' = lx_directives s \<or> (\<exists>d. lx_directives ?s' = lx_directives s @ [d] \<and>
         d_start d = ?i \<and> d_line d = lx_line s)"
      and comms: "lx_comments ?s' = lx_comments s \<or> (\<exists>c. lx_comments ?s' = lx_comments s @ [c] \<and>
         c_start c = ?i \<and> c_line c = lx_line s \<and> c_line_only c = blank_before s)"
  proof -
    have "\<forall>t \<in> set (lx_tokens ?s'). t_kind t \<noteq> TString \<longrightarrow>
        t_line t = 1 + newlines_before src (t_start t)"
      using toks inv now by (auto simp: lines_inv_def)
    moreover have "\<forall>d \<in> set (lx_directives ?s'). d_line d = 1 + newlines_before src (d_start d)"
      using dirs inv now by (auto simp: lines_inv_def)
    moreover have "\<forall>c \<in> set (lx_comments ?s'). comment_placed src c"
      using comms
    proof
      assume "lx_comments ?s' = lx_comments s"
      with inv show ?thesis by (simp add: lines_inv_def)
    next
      assume "\<exists>c. lx_comments ?s' = lx_comments s @ [c] \<and>
        c_start c = ?i \<and> c_line c = lx_line s \<and> c_line_only c = blank_before s"
      then obtain c where c: "lx_comments ?s' = lx_comments s @ [c]" "c_start c = ?i"
        "c_line c = lx_line s" "c_line_only c = blank_before s" by blast
      then have "comment_placed src c"
        using now blank_before_iff [OF at src] unfolding comment_placed_def by metis
      with c inv show ?thesis by (simp add: lines_inv_def)
    qed
    ultimately show ?thesis using src adv pos by (simp add: lines_inv_def)
  qed
  have newlines: "at_line src j (fst (consume_newlines src ?i j (lx_line s) (lx_line_start s)))
      (snd (consume_newlines src ?i j (lx_line s) (lx_line_start s)))"
    if "?i < j" "j \<le> length src" for j
    using consume_newlines_at_line [OF at, of j] that by simp
  note defs = Let_def case_prod_beta token_at_def
  note lexer_chars [simp]
  show ?thesis
  proof (cases rule: consume_cases [of s])
    case newline
    with src more at show ?thesis by (intro step) (simp_all add: at_line_newline)
  next
    case space
    with src more at show ?thesis by (intro step) (simp_all add: at_line_other)
  next
    case line_comment
    have "src ! k \<noteq> newline_char" if "?i \<le> k" "k < lx_index ?s'" for k
    proof (cases "k < ?i + 2")
      case True
      with that(1) have "k = ?i \<or> k = ?i + 1" by linarith
      with line_comment src show ?thesis by auto
    next
      case False
      then have k: "?i + 2 \<le> k" by simp
      have "\<not> starts_at [newline_char] src k"
      proof (cases "find_from [newline_char] src (?i + 2) (length src)")
        case None
        with k that(2) adv(2) show ?thesis by (auto dest: find_from_None)
      next
        case (Some n)
        with line_comment src that(2) have "k < n" by (simp add: consume_line_comment_def defs)
        with k find_from_Some [OF Some] show ?thesis by blast
      qed
      with that(2) adv(2) show ?thesis
        by (auto simp: starts_at_def Cons_nth_drop_Suc [symmetric])
    qed
    then have "at_line src (lx_index ?s') (lx_line s) (lx_line_start s)"
      using adv by (intro at_line_plain [OF at]) auto
    with line_comment show ?thesis
      by (intro step) (simp_all add: consume_line_comment_def defs)
  next
    case block_comment
    with src adv show ?thesis
      by (intro step) (simp_all add: consume_block_comment_def defs newlines)
  next
    case directive
    with src adv show ?thesis
      by (intro step) (simp_all add: consume_directive_def defs newlines)
  next
    case (raw_string e)
    with src adv show ?thesis
      by (intro step) (simp_all add: consume_raw_string_def defs newlines)
  next
    case quoted
    let ?q = "src ! ?i"
    obtain j l b where loop: "quote_loop src ?q (Suc ?i) (lx_line s) (lx_line_start s) = (j, l, b)"
      by (metis prod_cases3)
    from quoted src have q: "?q \<noteq> newline_char" by auto
    then have "at_line src (Suc ?i) (lx_line s) (lx_line_start s)"
      using at more src by (simp add: at_line_other)
    with quote_loop_at_line [OF loop _ _ splice q] more src have "at_line src j l b" by simp
    with quoted src loop show ?thesis
      by (intro step) (simp_all add: consume_quoted_string_def defs)
  next
    case word
    have "src ! k \<noteq> newline_char" if "?i \<le> k" "k < lx_index ?s'" for k
    proof (cases "k = ?i")
      case True
      with word src show ?thesis
        by (auto simp: word_start_def py_isalpha_def ascii_alpha_def code_point_def)
    next
      case False
      with that word src have "word_char (src ! k)"
        using word_end_chars [of "?i + 1" k src] by (simp add: consume_identifier_def defs)
      then show ?thesis
        by (auto simp: word_char_def py_isalnum_def py_isalpha_def ascii_alpha_def
            ascii_digit_def code_point_def)
    qed
    then have "at_line src (lx_index ?s') (lx_line s) (lx_line_start s)"
      using adv by (intro at_line_plain [OF at]) auto
    with word show ?thesis by (intro step) (simp_all add: consume_identifier_def defs)
  next
    case punctuation
    have "src ! k \<noteq> newline_char" if "?i \<le> k" "k < lx_index ?s'" for k
    proof (cases "find (\<lambda>p. starts_at p src ?i) multi_punctuation")
      case None
      with punctuation src that have "k = ?i" by (simp add: consume_punctuation_def defs)
      with punctuation src show ?thesis by simp
    next
      case (Some p)
      then have p: "p \<in> set multi_punctuation" "starts_at p src ?i" by (auto simp: find_Some_iff)
      from Some punctuation src that have k: "k - ?i < length p"
        by (simp add: consume_punctuation_def defs)
      have "src ! k = p ! (k - ?i)"
        using starts_at_slice [OF p(2)] slice_nth [of "k - ?i" "?i + length p" ?i src] k that adv
        by simp
      with k p(1) show ?thesis
        by (auto simp: multi_punctuation_def less_Suc_eq numeral_2_eq_2 numeral_3_eq_3)
    qed
    then have "at_line src (lx_index ?s') (lx_line s) (lx_line_start s)"
      using adv by (intro at_line_plain [OF at]) auto
    with punctuation show ?thesis by (intro step) (simp_all add: consume_punctuation_def defs)
  qed
qed

lemma lines_inv_loop: "lines_inv src s \<Longrightarrow> no_line_splice src \<Longrightarrow> lines_inv src (lex_loop s)"
proof (induction s rule: lex_loop.induct)
  case (1 s)
  then show ?case
    using lines_inv_step [of src s] by (cases "lx_index s < length (lx_text s)")
      (simp_all add: lex_loop.simps [of s])
qed

lemma lines_inv_init: "lines_inv src (init_lexer src)"
  by (simp add: lines_inv_def init_lexer_def)

section \<open>Properties of the lexer\<close>

lemma lex_source_tokens_inv:
  "tokens_inv src (length src) (ls_tokens (lex_source src)) (ls_directives (lex_source src))
     (lx_cond (lex_loop (init_lexer src))) (lx_brace (lex_loop (init_lexer src)))"
  using lexer_inv_loop [OF lexer_inv_init [of src]] lex_loop_index [of "init_lexer src"]
  by (simp add: lex_source_def Let_def lexer_inv_def init_lexer_def)

lemma lex_source_lines_inv:
  assumes "no_line_splice src"
  shows "\<forall>t \<in> set (ls_tokens (lex_source src)).
           t_kind t \<noteq> TString \<longrightarrow> t_line t = 1 + newlines_before src (t_start t)"
    and "\<forall>c \<in> set (ls_comments (lex_source src)). comment_placed src c"
  using lines_inv_loop [OF lines_inv_init assms]
  by (simp_all add: lex_source_def Let_def lines_inv_def)

text \<open>
  C28. The main loop consumes the whole text for every input: it terminates with the index at the
  end, whatever is unterminated or malformed in the text.
\<close>

theorem lexing_reaches_the_end: "lx_index (lex_loop (init_lexer src)) = length src"
  using lex_loop_index [of "init_lexer src"] by (simp add: init_lexer_def)

text \<open>
  C29. Every token is a non-empty extent of the text, lies before the next one, and is spelled as
  the text there: identifiers are maximal words, punctuation is one character or one of the five
  multi-character operators, and literals are collapsed to one placeholder.
\<close>

theorem lexed_tokens_spell_the_text:
  assumes "i < length (ls_tokens (lex_source src))"
  shows "t_start (ls_tokens (lex_source src) ! i) < t_end (ls_tokens (lex_source src) ! i) \<and>
         t_end (ls_tokens (lex_source src) ! i) \<le> length src \<and>
         token_spelled src (ls_tokens (lex_source src) ! i) \<and>
         (i + 1 < length (ls_tokens (lex_source src)) \<longrightarrow>
            t_end (ls_tokens (lex_source src) ! i) \<le> t_start (ls_tokens (lex_source src) ! (i + 1)))"
  using lexed.extent [OF nth_mem [OF assms]] lexed.spelled [OF nth_mem [OF assms]]
    lexed.ordered [of src]
  by (auto simp: sorted_wrt_iff_nth_less)

text \<open>A sample: a directive block around \<open>f{\<close>, a marker comment, and \<open>{g}\<close>.\<close>

definition sample_text :: string where
  "sample_text = ''#if A'' @ [newline_char] @ ''f{'' @ [newline_char] @ ''#endif'' @ [newline_char]
     @ ''//m'' @ [newline_char] @ ''{g}''"

lemma sample_lexed:
  "ls_tokens (lex_source sample_text) =
     [\<lparr>t_value = ''f'', t_start = 6, t_end = 7, t_line = 2, t_kind = TIdentifier,
        t_cond = 1, t_brace = 0\<rparr>,
      \<lparr>t_value = ''{'', t_start = 7, t_end = 8, t_line = 2, t_kind = TPunctuation,
        t_cond = 1, t_brace = 0\<rparr>,
      \<lparr>t_value = ''{'', t_start = 20, t_end = 21, t_line = 5, t_kind = TPunctuation,
        t_cond = 0, t_brace = 0\<rparr>,
      \<lparr>t_value = ''g'', t_start = 21, t_end = 22, t_line = 5, t_kind = TIdentifier,
        t_cond = 0, t_brace = 1\<rparr>,
      \<lparr>t_value = ''}'', t_start = 22, t_end = 23, t_line = 5, t_kind = TPunctuation,
        t_cond = 0, t_brace = 1\<rparr>]"
  "ls_comments (lex_source sample_text) =
     [\<lparr>c_text = ''m'', c_start = 16, c_end = 19, c_line = 4, c_line_only = True,
        c_cond = 0, c_brace = 0\<rparr>]"
  by code_simp+

lemma sample_no_splice: "no_line_splice sample_text"
  by code_simp

theorem lexed_tokens_spell_the_text_witness:
  "t_start (ls_tokens (lex_source sample_text) ! 3) < t_end (ls_tokens (lex_source sample_text) ! 3) \<and>
   token_spelled sample_text (ls_tokens (lex_source sample_text) ! 3) \<and>
   t_end (ls_tokens (lex_source sample_text) ! 3) \<le> t_start (ls_tokens (lex_source sample_text) ! 4)"
proof -
  have "3 < length (ls_tokens (lex_source sample_text))" by (simp add: sample_lexed)
  from lexed_tokens_spell_the_text [OF this] show ?thesis by (simp add: sample_lexed)
qed

text \<open>
  C30. The depths a token carries are those of its position: the brace depth is the count of the
  active braces before it (never below zero), the conditional depth that of the directives before it.
\<close>

theorem lexed_depths:
  assumes "i < length (ls_tokens (lex_source src))"
  shows "t_brace (ls_tokens (lex_source src) ! i) = brace_after (take i (ls_tokens (lex_source src))) \<and>
     t_cond (ls_tokens (lex_source src) ! i) =
       cond_after (filter (\<lambda>d. d_start d < t_start (ls_tokens (lex_source src) ! i))
         (ls_directives (lex_source src)))"
  using lex_source_tokens_inv [of src] assms by (simp add: tokens_inv_def)

theorem lexed_depths_witness:
  "t_brace (ls_tokens (lex_source sample_text) ! 3) = 1 \<and>
   brace_after (take 3 (ls_tokens (lex_source sample_text))) = 1"
proof -
  have "3 < length (ls_tokens (lex_source sample_text))" by (simp add: sample_lexed)
  from lexed_depths [OF this] show ?thesis by (simp add: sample_lexed)
qed

text \<open>
  Where no backslash ends a line, line numbers are right: a word or operator carries one plus
  the number of line ends before it.
\<close>

theorem lexed_token_lines:
  assumes "no_line_splice src" "t \<in> set (ls_tokens (lex_source src))" "t_kind t \<noteq> TString"
  shows "t_line t = 1 + newlines_before src (t_start t)"
  using lex_source_lines_inv [OF assms(1)] assms(2,3) by blast

theorem lexed_token_lines_witness:
  "newlines_before sample_text 21 = 4 \<and> t_line (ls_tokens (lex_source sample_text) ! 3) = 5"
proof -
  have "ls_tokens (lex_source sample_text) ! 3 \<in> set (ls_tokens (lex_source sample_text))"
    by (simp add: sample_lexed)
  from lexed_token_lines [OF sample_no_splice this] show ?thesis by (simp add: sample_lexed)
qed

text \<open>
  Under the same condition a marker comment is located exactly: its line is right, and
  \<open>line_only\<close> holds exactly when only white space precedes it on its line.
\<close>

theorem lexed_comment_lines:
  assumes "no_line_splice src" "c \<in> set (ls_comments (lex_source src))"
  shows "c_line c = 1 + newlines_before src (c_start c) \<and>
     (c_line_only c \<longleftrightarrow> (\<exists>b. at_line src (c_start c) (c_line c) b \<and>
        list_all py_isspace (slice src b (c_start c))))"
  using lex_source_lines_inv(2) [OF assms(1)] assms(2) by (simp add: comment_placed_def)

theorem lexed_comment_lines_witness:
  "newlines_before sample_text 16 = 3 \<and> (\<exists>b. at_line sample_text 16 4 b)"
proof -
  have "hd (ls_comments (lex_source sample_text)) \<in> set (ls_comments (lex_source sample_text))"
    by (simp add: sample_lexed)
  from lexed_comment_lines [OF sample_no_splice this] show ?thesis by (auto simp: sample_lexed)
qed

text \<open>
  With a spliced line inside a literal the counter falls behind: \<open>x\<close> stands on the second line
  of \<open>"\\<newline>"x\<close> and is reported on the first.
\<close>

lemma spliced_literal_loses_a_line:
  "let src = [dquote, backslash_char, newline_char, dquote] @ ''x'' in
     t_value (ls_tokens (lex_source src) ! 1) = ''x'' \<and>
     t_line (ls_tokens (lex_source src) ! 1) = 1 \<and> newlines_before src 4 = 1"
  by code_simp

lemma raw_string_end_other:
  assumes "\<forall>p \<in> {''u8R'', ''uR'', ''UR'', ''LR'', ''R''}. hd p \<noteq> src ! i" "i < length src"
  shows "raw_string_end src i = None"
proof -
  have "find (\<lambda>p. starts_at p src i) raw_prefixes = None"
    using assms by (auto simp: find_None_iff raw_prefixes_def dest!: starts_at_Cons)
  then show ?thesis by (simp add: raw_string_end_def)
qed

text \<open>A step adds at most one token, one comment and one directive, each starting where the step does.\<close>

lemma step_additions:
  "lx_tokens (consume_token_or_trivia s) = lx_tokens s \<or>
     (\<exists>t. lx_tokens (consume_token_or_trivia s) = lx_tokens s @ [t] \<and> t_start t = lx_index s \<and>
        t_end t = lx_index (consume_token_or_trivia s))"
  "lx_comments (consume_token_or_trivia s) = lx_comments s \<or>
     (\<exists>c. lx_comments (consume_token_or_trivia s) = lx_comments s @ [c] \<and> c_start c = lx_index s)"
  "lx_directives (consume_token_or_trivia s) = lx_directives s \<or>
     (\<exists>d. lx_directives (consume_token_or_trivia s) = lx_directives s @ [d] \<and> d_start d = lx_index s)"
  by (cases rule: consume_cases [of s]; simp add: consume_directive_def consume_line_comment_def consume_block_comment_def
      consume_raw_string_def consume_quoted_string_def consume_identifier_def consume_punctuation_def token_at_def
      Let_def case_prod_beta)+

text \<open>All starts noted so far lie before the index, and none lies in the gap \<open>G\<close> of positions.\<close>

definition starts_avoid :: "nat set \<Rightarrow> lexer \<Rightarrow> bool" where
  "starts_avoid G s \<longleftrightarrow> (\<forall>t \<in> set (lx_tokens s). t_start t \<notin> G) \<and> (\<forall>c \<in> set (lx_comments s). c_start c \<notin> G) \<and>
     (\<forall>d \<in> set (lx_directives s). d_start d \<notin> G)"

lemma starts_avoid_step:
  "starts_avoid G s \<Longrightarrow> lx_index s \<notin> G \<Longrightarrow> starts_avoid G (consume_token_or_trivia s)"
  using step_additions [of s] by (auto simp: starts_avoid_def)

lemma starts_avoid_loop:
  assumes "starts_avoid G s" "\<forall>k \<in> G. k < lx_index s" shows "starts_avoid G (lex_loop s)"
  using assms
proof (induction s rule: lex_loop.induct)
  case (1 s)
  show ?case
  proof (cases "lx_index s < length (lx_text s)")
    case True
    with "1.prems" have "starts_avoid G (consume_token_or_trivia s)" by (intro starts_avoid_step) auto
    with "1.IH" [OF True] "1.prems"(2) consume_progress [OF True] True show ?thesis
      by (fastforce simp: lex_loop.simps [of s])
  next
    case False
    with "1.prems" show ?thesis by (simp add: lex_loop.simps [of s])
  qed
qed

lemma lex_loop_visits:
  assumes "t \<in> set (lx_tokens (lex_loop s))" "t \<notin> set (lx_tokens s)" "starts_avoid {lx_index s..} s"
  obtains s1 where "lx_text s1 = lx_text s" "lx_index s1 = t_end t" "starts_avoid {lx_index s1..} s1"
    "lex_loop s = lex_loop s1"
  using assms
proof (induction s arbitrary: thesis rule: lex_loop.induct)
  case (1 s)
  let ?s' = "consume_token_or_trivia s"
  have more: "lx_index s < length (lx_text s)" using "1.prems"(2,3) by (auto simp: lex_loop.simps [of s] split: if_splits)
  then have loop: "lex_loop s = lex_loop ?s'" by (simp add: lex_loop.simps [of s])
  have adv: "lx_index s < lx_index ?s'" using consume_progress [OF more] by simp
  then have "starts_avoid {lx_index ?s'..} s" using "1.prems"(4) by (auto simp: starts_avoid_def)
  then have clear: "starts_avoid {lx_index ?s'..} ?s'" using adv by (intro starts_avoid_step) simp_all
  show ?case
  proof (cases "t \<in> set (lx_tokens ?s')")
    case True
    with "1.prems"(3) step_additions(1) [of s] have "lx_index ?s' = t_end t" by auto
    with "1.prems"(1) [of ?s'] clear loop show ?thesis by simp
  next
    case False
    from "1.IH" [OF more _ _ False clear] "1.prems"(2) loop obtain s1 where
      "lx_text s1 = lx_text ?s'" "lx_index s1 = t_end t" "starts_avoid {lx_index s1..} s1" "lex_loop ?s' = lex_loop s1"
      by metis
    with "1.prems"(1) [of s1] loop show ?thesis by simp
  qed
qed

lemma quote_loop_stop:
  assumes "i \<le> q" "q \<le> length src" "q < length src \<Longrightarrow> src ! q = quote" "quote \<noteq> backslash_char"
    "\<forall>k. i \<le> k \<and> k < q \<longrightarrow> src ! k \<notin> {quote, backslash_char}"
  shows "fst (quote_loop src quote i line line_start) = min (length src) (Suc q)"
  using assms
proof (induction src quote i line line_start rule: quote_loop.induct)
  case (1 src quote i line line_start)
  show ?case
  proof (cases "i = q")
    case True
    then have "quote_loop src quote i line line_start =
        (if q < length src then (q + 1, line, line_start) else (q, line, line_start))"
      using "1.prems"(3,4) by (cases "q < length src") (simp_all add: quote_loop.simps [of src quote q line line_start])
    with "1.prems"(2) show ?thesis by simp
  next
    case False
    with "1.prems" have i: "i < length src" "src ! i \<noteq> quote" "src ! i \<noteq> backslash_char" "Suc i \<le> q" by auto
    with "1.IH"(2) [OF i(1,3,2)] "1.IH"(3) [OF i(1,3,2)] "1.prems" show ?thesis
      by (cases "src ! i = newline_char") (simp_all add: quote_loop.simps [of src quote i line line_start])
  qed
qed

lemma token_kept: "t \<in> set (lx_tokens s) \<Longrightarrow> t \<in> set (lx_tokens (lex_loop s))"
proof (induction s rule: lex_loop.induct)
  case (1 s)
  then show ?case using step_additions(1) [of s]
    by (cases "lx_index s < length (lx_text s)") (auto simp: lex_loop.simps [of s])
qed

text \<open>
  C37. A digit separator opens a character literal.  Whatever token ends just before a single quote (the
  digit or the word before a separator), the lexer takes everything from that quote to behind the next
  one, or to the end of the text when there is none, as one literal: no token, no comment and no
  directive begins in between, so a declaration or a marker comment there is never seen.
\<close>

theorem digit_separator_swallows_the_rest:
  assumes "t \<in> set (ls_tokens (lex_source src))" and "t_end t < length src" "src ! t_end t = squote"
    and "t_end t < q" "q \<le> length src" "q < length src \<Longrightarrow> src ! q = squote"
    and "set (slice src (t_end t + 1) q) \<inter> {squote, backslash_char} = {}"
  shows "list_ex (\<lambda>u. t_value u = ''<string>'' \<and> t_start u = t_end t \<and> t_end u = min (length src) (q + 1))
       (ls_tokens (lex_source src)) \<and>
     list_all (\<lambda>u. t_start u \<notin> {t_end t<..<min (length src) (q + 1)}) (ls_tokens (lex_source src)) \<and>
     list_all (\<lambda>c. c_start c \<notin> {t_end t<..<min (length src) (q + 1)}) (ls_comments (lex_source src)) \<and>
     list_all (\<lambda>d. d_start d \<notin> {t_end t<..<min (length src) (q + 1)}) (ls_directives (lex_source src))"
proof -
  let ?i = "t_end t" and ?stop = "min (length src) (q + 1)"
  have "t \<in> set (lx_tokens (lex_loop (init_lexer src)))" using assms(1) by (simp add: lex_source_def Let_def)
  then obtain s where s: "lx_text s = src" "lx_index s = ?i" "starts_avoid {?i..} s"
    "lex_loop (init_lexer src) = lex_loop s"
    by (rule lex_loop_visits) (auto simp: init_lexer_def starts_avoid_def)
  let ?s' = "consume_token_or_trivia s"
  have "raw_string_end src ?i = None" by (rule raw_string_end_other) (use assms(2,3) in \<open>auto simp: lexer_chars\<close>)
  then have step: "?s' = consume_quoted_string squote s"
    using s(1,2) assms(3) by (simp add: consume_token_or_trivia_def lexer_chars py_isspace_def code_point_def Let_def)
  have "src ! k \<notin> {squote, backslash_char}" if "?i + 1 \<le> k" "k < q" for k
  proof -
    have "slice src (?i + 1) q ! (k - (?i + 1)) = src ! k"
      using that assms(5) slice_nth [of "k - (?i + 1)" q "?i + 1" src] by simp
    moreover have "k - (?i + 1) < length (slice src (?i + 1) q)" using that assms(5) by simp
    ultimately have "src ! k \<in> set (slice src (?i + 1) q)" by (metis nth_mem)
    with assms(7) show ?thesis by blast
  qed
  then have stop: "fst (quote_loop src squote (?i + 1) l ls) = ?stop" for l ls
    using quote_loop_stop [of "?i + 1" q src squote l ls] assms(4,5,6) by (auto simp: lexer_chars)
  define u where "u = last (lx_tokens ?s')"
  have s': "lx_index ?s' = ?stop" "u \<in> set (lx_tokens ?s')" "t_value u = ''<string>''" "t_start u = ?i" "t_end u = ?stop"
    using s(1,2) stop by (simp_all add: u_def step consume_quoted_string_def token_at_def Let_def case_prod_beta)
  have loop: "lex_loop s = lex_loop ?s'" using s(1,2) assms(2) by (simp add: lex_loop.simps [of s])
  have "starts_avoid {?i<..<?stop} s" using s(3) by (auto simp: starts_avoid_def)
  then have "starts_avoid {?i<..<?stop} ?s'" using s(2) by (intro starts_avoid_step) simp_all
  then have avoid: "starts_avoid {?i<..<?stop} (lex_loop s)" unfolding loop using s'(1) by (intro starts_avoid_loop) auto
  have "u \<in> set (lx_tokens (lex_loop s))" using token_kept [OF s'(2)] loop by simp
  moreover note s'(3-5)
  moreover have "ls_tokens (lex_source src) = lx_tokens (lex_loop s)" "ls_comments (lex_source src) = lx_comments (lex_loop s)"
    "ls_directives (lex_source src) = lx_directives (lex_loop s)" using s(4) by (simp_all add: lex_source_def Let_def)
  ultimately show ?thesis using avoid unfolding list_ex_iff list_all_iff starts_avoid_def by auto
qed

definition separator_text :: string where
  "separator_text = ''int n = 1'' @ squote # ''000; // @X'' @ [newline_char] @ ''// @Y'' @ [newline_char] @ ''int f(char c = '' @ [squote]"

theorem digit_separator_swallows_the_rest_witness:
  "list_all (\<lambda>c. c_start c \<notin> {9<..<length separator_text}) (ls_comments (lex_source separator_text))"
proof -
  let ?t = "ls_tokens (lex_source separator_text) ! 3" and ?q = "length separator_text - 1"
  have mem: "?t \<in> set (ls_tokens (lex_source separator_text))" by (rule nth_mem) code_simp
  have t: "t_end ?t = 9" by code_simp
  have at: "t_end ?t < length separator_text" "separator_text ! t_end ?t = squote" "t_end ?t < ?q"
    "?q \<le> length separator_text" "separator_text ! ?q = squote"
    "set (slice separator_text (t_end ?t + 1) ?q) \<inter> {squote, backslash_char} = {}" unfolding t by code_simp+
  have "min (length separator_text) (?q + 1) = length separator_text" by code_simp
  with digit_separator_swallows_the_rest [OF mem at(1-4) at(5) at(6)] t show ?thesis by simp
qed

end
