(* ===== verification/Cpp_Members.thy ===== *)
theory Cpp_Members
  imports Cpp_Lexer_Props
begin

text \<open>
  \<^verbatim>\<open>src/supernote_module_generator/cpp_members.py\<close>: splitting a parameter list at its top-level
  commas, and segmenting a class body into member declarations.  The \<open>_MemberScanner\<close> object is
  the record \<open>scanner\<close>.  A member declaration is the pair of its access label and its tokens.
\<close>

section \<open>Parameter lists\<close>

definition spellings :: "token list \<Rightarrow> string list" where
  "spellings ts = map t_value ts"

lemma spellings_simps [simp]: "spellings [] = []" "spellings (t # ts) = t_value t # spellings ts"
  "spellings (ts @ us) = spellings ts @ spellings us" "length (spellings ts) = length ts"
  by (simp_all add: spellings_def)

text \<open>\<open>groups.append(...)\<close>, then \<open>()\<close> is no group rather than one empty group.\<close>

definition close_groups :: "token list list \<Rightarrow> token list list" where
  "close_groups gs = (if length gs = 1 \<and> hd gs = [] then [] else gs)"

function group_loop ::
    "token list \<Rightarrow> nat \<Rightarrow> nat \<Rightarrow> nat \<Rightarrow> token list list \<Rightarrow> (token list list \<times> nat) option" where
  "group_loop toks cursor group_start depth groups =
     (if cursor < length toks then
        let v = t_value (toks ! cursor) in
        if v = ''('' then group_loop toks (cursor + 1) group_start (depth + 1) groups
        else if v = '')'' then
          if depth = 0
          then Some (close_groups (groups @ [slice toks group_start cursor]), cursor)
          else group_loop toks (cursor + 1) group_start (depth - 1) groups
        else if v = '','' \<and> depth = 0 then
          group_loop toks (cursor + 1) (cursor + 1) depth
            (groups @ [slice toks group_start cursor])
        else group_loop toks (cursor + 1) group_start depth groups
      else None)"
  by pat_completeness auto
termination
  by (relation "measure (\<lambda>(toks, cursor, _). length toks - cursor)") auto

declare group_loop.simps [simp del]

text \<open>\<open>None\<close> is the source's \<open>ValueError("missing closing parenthesis")\<close>.\<close>

definition parameter_groups :: "token list \<Rightarrow> nat \<Rightarrow> (token list list \<times> nat) option" where
  "parameter_groups toks opn = group_loop toks (opn + 1) (opn + 1) 0 []"

section \<open>Member declarations\<close>

type_synonym member_declaration = "string \<times> token list"

record scanner =
  sc_body :: "token list"
  sc_access :: string
  sc_cursor :: nat
  sc_declarations :: "member_declaration list"

definition nested_delimiter_depths :: "string \<Rightarrow> nat \<Rightarrow> nat \<Rightarrow> nat \<times> nat" where
  "nested_delimiter_depths v paren bracket =
     (if v = ''('' then (paren + 1, bracket)
      else if v = '')'' then (paren - 1, bracket)
      else if v \<in> {''['', ''[[''} then (paren, bracket + 1)
      else if v \<in> {'']'', '']]''} then (paren, bracket - 1)
      else (paren, bracket))"

definition consume_access_label :: "scanner \<Rightarrow> scanner option" where
  "consume_access_label s =
     (if sc_cursor s + 1 \<ge> length (sc_body s) then None
      else let access = t_value (sc_body s ! sc_cursor s) in
        if access \<notin> {''public'', ''private'', ''protected''} then None
        else if t_value (sc_body s ! (sc_cursor s + 1)) \<noteq> '':'' then None
        else Some (s\<lparr>sc_access := access, sc_cursor := sc_cursor s + 2\<rparr>))"

function skip_braced_body :: "token list \<Rightarrow> nat \<Rightarrow> nat \<Rightarrow> nat" where
  "skip_braced_body body cursor depth =
     (if cursor < length body \<and> depth \<noteq> 0 then
        let v = t_value (body ! cursor) in
        skip_braced_body body (cursor + 1)
          (if v = ''{'' then depth + 1 else if v = ''}'' then depth - 1 else depth)
      else cursor)"
  by pat_completeness auto
termination
  by (relation "measure (\<lambda>(body, cursor, depth). length body - cursor)") auto

declare skip_braced_body.simps [simp del]

definition finish_body_declaration ::
    "token list \<Rightarrow> nat \<Rightarrow> nat \<Rightarrow> token list option \<times> nat" where
  "finish_body_declaration body start cursor =
     (let signature = slice body start cursor;
          after = skip_braced_body body (cursor + 1) 1;
          after' = (if after < length body \<and> t_value (body ! after) = '';'' then after + 1 else after)
      in (if ''('' \<in> set (spellings signature) then Some signature else None, after'))"

text \<open>The declaration found from \<open>start\<close> on, and the cursor behind it.\<close>

function consume_declaration ::
    "token list \<Rightarrow> nat \<Rightarrow> nat \<Rightarrow> nat \<Rightarrow> nat \<Rightarrow> token list option \<times> nat" where
  "consume_declaration body start cursor paren bracket =
     (if cursor < length body then
        let v = t_value (body ! cursor);
            (paren', bracket') = nested_delimiter_depths v paren bracket
        in if v = '';'' \<and> paren' = 0 \<and> bracket' = 0 then
             (Some (slice body start cursor), cursor + 1)
           else if v = ''{'' \<and> paren' = 0 \<and> bracket' = 0 then
             finish_body_declaration body start cursor
           else consume_declaration body start (cursor + 1) paren' bracket'
      else (let rest = drop start body in (if rest \<noteq> [] then Some rest else None), cursor))"
  by pat_completeness auto
termination
  by (relation "measure (\<lambda>(body, start, cursor, _). length body - cursor)") auto

declare consume_declaration.simps [simp del]

lemma skip_braced_body_bounds:
  "cursor \<le> length body \<Longrightarrow>
     cursor \<le> skip_braced_body body cursor depth \<and> skip_braced_body body cursor depth \<le> length body"
proof (induction body cursor depth rule: skip_braced_body.induct)
  case (1 body cursor depth)
  show ?case
  proof (cases "cursor < length body \<and> depth \<noteq> 0")
    case False
    then have "skip_braced_body body cursor depth = cursor"
      by (auto simp: skip_braced_body.simps [of body cursor])
    with "1.prems" show ?thesis by simp
  next
    case True
    with "1.IH" [OF True refl] show ?thesis
      by (auto simp: Let_def skip_braced_body.simps [of body cursor])
  qed
qed

text \<open>One declaration: it is a slice of the body from \<open>start\<close>, and the cursor moves past it.\<close>

lemma consume_declaration_spec:
  assumes "consume_declaration body start cursor p b = (d, after)" "start \<le> cursor"
    "cursor \<le> length body"
  shows "cursor \<le> after \<and> after \<le> length body \<and> (cursor < length body \<longrightarrow> cursor < after) \<and>
     (\<forall>decl. d = Some decl \<longrightarrow> (\<exists>stop. decl = slice body start stop \<and> start \<le> stop \<and> stop \<le> after))"
  using assms
proof (induction body start cursor p b arbitrary: d after rule: consume_declaration.induct)
  case (1 body start cursor p b)
  show ?case
  proof (cases "cursor < length body")
    case False
    with "1.prems" show ?thesis
      by (auto simp: consume_declaration.simps [of body start cursor] slice_def Let_def
          split: if_splits intro!: exI [of _ "length body"])
  next
    case True
    obtain p' b' where nd: "nested_delimiter_depths (t_value (body ! cursor)) p b = (p', b')"
      by fastforce
    let ?v = "t_value (body ! cursor)"
    consider (semi) "?v = '';'' \<and> p' = 0 \<and> b' = 0"
      | (brace) "\<not> (?v = '';'' \<and> p' = 0 \<and> b' = 0)" "?v = ''{'' \<and> p' = 0 \<and> b' = 0"
      | (other) "\<not> (?v = '';'' \<and> p' = 0 \<and> b' = 0)" "\<not> (?v = ''{'' \<and> p' = 0 \<and> b' = 0)"
      by blast
    then show ?thesis
    proof cases
      case semi
      with True nd "1.prems" show ?thesis
        by (auto simp: consume_declaration.simps [of body start cursor])
    next
      case brace
      with True nd "1.prems" have "finish_body_declaration body start cursor = (d, after)"
        by (simp add: consume_declaration.simps [of body start cursor])
      then show ?thesis
        using skip_braced_body_bounds [of "cursor + 1" body 1] True "1.prems"
        by (fastforce simp: finish_body_declaration_def Let_def split: if_splits)
    next
      case other
      with True nd "1.prems" have rec: "consume_declaration body start (cursor + 1) p' b' = (d, after)"
        by (auto simp: consume_declaration.simps [of body start cursor p b])
      from "1.IH" [OF True refl nd [symmetric] refl other rec] "1.prems" True show ?thesis by auto
    qed
  qed
qed

definition scan_step :: "scanner \<Rightarrow> scanner" where
  "scan_step s =
     (case consume_access_label s of
        Some s' \<Rightarrow> s'
      | None \<Rightarrow>
          let (d, after) = consume_declaration (sc_body s) (sc_cursor s) (sc_cursor s) 0 0
          in s\<lparr>sc_cursor := after,
               sc_declarations := sc_declarations s @
                 (case d of None \<Rightarrow> [] | Some decl \<Rightarrow> [(sc_access s, decl)])\<rparr>)"

lemma scan_step_body [simp]: "sc_body (scan_step s) = sc_body s"
  by (auto simp: scan_step_def consume_access_label_def Let_def split: option.split prod.split)

lemma scan_step_progress:
  assumes "sc_cursor s < length (sc_body s)"
  shows "sc_cursor s < sc_cursor (scan_step s) \<and> sc_cursor (scan_step s) \<le> length (sc_body s)"
  using assms consume_declaration_spec [of "sc_body s" "sc_cursor s" "sc_cursor s" 0 0]
  by (force simp: scan_step_def consume_access_label_def Let_def split: option.split prod.split if_splits)

function scan_loop :: "scanner \<Rightarrow> scanner" where
  "scan_loop s = (if sc_cursor s < length (sc_body s) then scan_loop (scan_step s) else s)"
  by pat_completeness auto
termination
  by (relation "measure (\<lambda>s. length (sc_body s) - sc_cursor s)") (auto dest!: scan_step_progress)

declare scan_loop.simps [simp del]

definition member_declarations :: "token list \<Rightarrow> string \<Rightarrow> member_declaration list" where
  "member_declarations body default_access =
     sc_declarations (scan_loop
       \<lparr>sc_body = body, sc_access = default_access, sc_cursor = 0, sc_declarations = []\<rparr>)"

section \<open>What grouping means\<close>

text \<open>The net parenthesis depth of a spelling, and the spellings no prefix of which closes more than it opens.\<close>

fun paren_sum :: "string list \<Rightarrow> int" where
  "paren_sum [] = 0"
| "paren_sum (v # vs) = (if v = ''('' then 1 else if v = '')'' then -1 else 0) + paren_sum vs"

definition paren_balanced :: "string list \<Rightarrow> bool" where
  "paren_balanced vs \<longleftrightarrow> paren_sum vs = 0 \<and> (\<forall>i \<le> length vs. 0 \<le> paren_sum (take i vs))"

lemma paren_sum_append [simp]: "paren_sum (xs @ ys) = paren_sum xs + paren_sum ys"
  by (induction xs) auto

text \<open>\<open>", ".join(...)\<close> on spellings: the groups with a comma between them.\<close>

fun comma_join :: "string list list \<Rightarrow> string list" where
  "comma_join [] = []"
| "comma_join [g] = g"
| "comma_join (g # gs) = g @ '','' # comma_join gs"

lemma comma_join_snoc: "gs \<noteq> [] \<Longrightarrow> comma_join (gs @ [g]) = comma_join gs @ '','' # g"
  by (induction gs rule: comma_join.induct) auto

lemma comma_join_snoc_append:
  "comma_join (gs @ [g @ h]) = comma_join (gs @ [g]) @ h"
  by (cases "gs = []") (simp_all add: comma_join_snoc)

lemma comma_join_close [simp]:
  "comma_join (map spellings (close_groups gs)) = comma_join (map spellings gs)"
  by (cases "length gs = 1 \<and> hd gs = []") (auto simp: close_groups_def spellings_def length_Suc_conv)

text \<open>A group: balanced after each prefix, and with no comma outside parentheses.\<close>

definition one_group :: "string list \<Rightarrow> bool" where
  "one_group vs \<longleftrightarrow> paren_balanced vs \<and>
     (\<forall>i < length vs. vs ! i = '','' \<longrightarrow> paren_sum (take i vs) \<noteq> 0)"

definition partial_group :: "nat \<Rightarrow> string list \<Rightarrow> bool" where
  "partial_group depth vs \<longleftrightarrow> paren_sum vs = int depth \<and>
     (\<forall>i \<le> length vs. 0 \<le> paren_sum (take i vs)) \<and>
     (\<forall>i < length vs. vs ! i = '','' \<longrightarrow> paren_sum (take i vs) \<noteq> 0)"

lemma partial_group_0 [simp]: "partial_group 0 vs \<longleftrightarrow> one_group vs"
  by (auto simp: partial_group_def one_group_def paren_balanced_def)

lemma partial_group_Nil: "one_group []"
  by (simp add: one_group_def paren_balanced_def)

lemma partial_group_snoc:
  assumes "partial_group depth vs" "paren_sum [v] + int depth = int depth'"
    "v = '','' \<Longrightarrow> depth \<noteq> 0"
  shows "partial_group depth' (vs @ [v])"
  using assms
  by (auto simp: partial_group_def le_Suc_eq less_Suc_eq nth_append split: if_splits)

lemma group_loop_spec:
  assumes "group_loop toks cursor gs depth groups = Some (result, close)"
    "opn < gs" "gs \<le> cursor" "cursor \<le> length toks"
    "comma_join (map spellings groups @ [spellings (slice toks gs cursor)]) = spellings (slice toks (opn + 1) cursor)"
    "\<forall>g \<in> set groups. one_group (spellings g)" "partial_group depth (spellings (slice toks gs cursor))"
  shows "cursor \<le> close \<and> close < length toks \<and> t_value (toks ! close) = '')'' \<and>
     comma_join (map spellings result) = spellings (slice toks (opn + 1) close) \<and>
     (\<forall>g \<in> set result. one_group (spellings g))"
  using assms
proof (induction toks cursor gs depth groups rule: group_loop.induct)
  case (1 toks cursor gs depth groups)
  let ?v = "t_value (toks ! cursor)"
  have more: "cursor < length toks"
    using "1.prems"(1) by (auto simp: group_loop.simps [of toks cursor] split: if_splits)
  have ext: "spellings (slice toks k (Suc cursor)) = spellings (slice toks k cursor) @ [?v]" if "k \<le> cursor" for k
    using that more by (simp add: slice_Suc spellings_def)
  have joined: "comma_join (map spellings groups @ [spellings (slice toks gs (Suc cursor))]) =
      spellings (slice toks (opn + 1) (Suc cursor))"
    using "1.prems" ext [of gs] ext [of "opn + 1"] by (simp add: comma_join_snoc_append)
  consider (op) "?v = ''(''" | (stop) "?v \<noteq> ''(''" "?v = '')''" "depth = 0"
    | (cl) "?v \<noteq> ''(''" "?v = '')''" "depth \<noteq> 0"
    | (comma) "?v \<noteq> ''(''" "?v \<noteq> '')''" "?v = '','' \<and> depth = 0"
    | (other) "?v \<noteq> ''(''" "?v \<noteq> '')''" "\<not> (?v = '','' \<and> depth = 0)" by blast
  then show ?case
  proof cases
    case op
    then have rec: "group_loop toks (cursor + 1) gs (depth + 1) groups = Some (result, close)"
      using more "1.prems"(1) by (simp add: group_loop.simps [of toks cursor])
    have "partial_group (depth + 1) (spellings (slice toks gs (cursor + 1)))"
      using op "1.prems" ext [of gs] by (auto intro!: partial_group_snoc)
    with "1.IH"(1) [OF more refl op rec] "1.prems"(2-6) more joined show ?thesis by simp
  next
    case stop
    then have "close_groups (groups @ [slice toks gs cursor]) = result \<and> cursor = close"
      using more "1.prems"(1) by (auto simp add: group_loop.simps [of toks cursor])
    then have "close_groups (groups @ [slice toks gs cursor]) = result" "cursor = close"
      by blast+
    moreover have "set (close_groups gs') \<subseteq> set gs'" for gs' by (simp add: close_groups_def)
    moreover have "one_group (spellings (slice toks gs cursor))"
      using stop "1.prems"(7) by simp
    moreover have "comma_join (map spellings (close_groups (groups @ [slice toks gs cursor]))) =
        spellings (slice toks (opn + 1) cursor)"
      using "1.prems"(5) by simp
    ultimately show ?thesis using more stop(2) "1.prems"(6) by fastforce
  next
    case cl
    then have rec: "group_loop toks (cursor + 1) gs (depth - 1) groups = Some (result, close)"
      using more "1.prems"(1) by (simp add: group_loop.simps [of toks cursor])
    have "partial_group (depth - 1) (spellings (slice toks gs (cursor + 1)))"
      using cl "1.prems" ext [of gs] by (auto intro!: partial_group_snoc)
    with "1.IH"(2) [OF more refl cl rec] "1.prems"(2-6) more joined show ?thesis by simp
  next
    case comma
    then have rec: "group_loop toks (cursor + 1) (cursor + 1) depth
        (groups @ [slice toks gs cursor]) = Some (result, close)"
      using more "1.prems"(1) by (simp add: group_loop.simps [of toks cursor])
    have "comma_join (map spellings (groups @ [slice toks gs cursor]) @ [[]]) =
        spellings (slice toks (opn + 1) (cursor + 1))"
      using "1.prems" ext [of "opn + 1"] comma
        comma_join_snoc [of "map spellings (groups @ [slice toks gs cursor])" "[]"] by simp
    with "1.IH"(3) [OF more refl comma rec] "1.prems"(2-7) more comma show ?thesis
      by (simp add: partial_group_Nil)
  next
    case other
    then have rec: "group_loop toks (cursor + 1) gs depth groups = Some (result, close)"
      using more "1.prems"(1) by (auto simp: group_loop.simps [of toks cursor] Let_def)
    have "partial_group depth (spellings (slice toks gs (cursor + 1)))"
      using other "1.prems" ext [of gs] by (auto intro!: partial_group_snoc)
    with "1.IH"(4) [OF more refl other rec] "1.prems"(2-6) more joined show ?thesis by simp
  qed
qed

section \<open>What segmentation means\<close>

text \<open>The extents of declarations: an access label, a first and a behind-last position each.\<close>

definition access_labels :: "string list" where
  "access_labels = [''public'', ''private'', ''protected'']"

definition segments :: "token list \<Rightarrow> (string \<times> nat \<times> nat) list \<Rightarrow> member_declaration list" where
  "segments body es = map (\<lambda>(a, i, j). (a, slice body i j)) es"

text \<open>Where a declaration from \<open>start\<close> on ends: at the first semicolon or opening brace outside parentheses and brackets.\<close>

definition delimiter_depths :: "string list \<Rightarrow> nat \<times> nat" where
  "delimiter_depths vs = foldl (\<lambda>(p, b) v. nested_delimiter_depths v p b) (0, 0) vs"

definition stops_at :: "token list \<Rightarrow> nat \<Rightarrow> nat \<Rightarrow> bool" where
  "stops_at body start k \<longleftrightarrow> start \<le> k \<and> k < length body \<and> t_value (body ! k) \<in> {'';'', ''{''} \<and>
     delimiter_depths (spellings (slice body start k)) = (0, 0)"

definition first_stop :: "token list \<Rightarrow> nat \<Rightarrow> nat \<Rightarrow> bool" where
  "first_stop body start k \<longleftrightarrow> stops_at body start k \<and> (\<forall>j < k. \<not> stops_at body start j)"

text \<open>Where the braced body opened at \<open>opn\<close> ends: behind the brace that brings the balance back to zero.\<close>

fun brace_sum :: "string list \<Rightarrow> int" where
  "brace_sum [] = 0"
| "brace_sum (v # vs) = (if v = ''{'' then 1 else if v = ''}'' then -1 else 0) + brace_sum vs"

definition body_closes :: "token list \<Rightarrow> nat \<Rightarrow> nat \<Rightarrow> bool" where
  "body_closes body opn k \<longleftrightarrow> opn < k \<and> k \<le> length body \<and> brace_sum (spellings (slice body opn k)) = 0 \<and>
     (\<forall>j. opn < j \<and> j < k \<longrightarrow> 0 < brace_sum (spellings (slice body opn j)))"

definition body_end :: "token list \<Rightarrow> nat \<Rightarrow> nat \<Rightarrow> bool" where
  "body_end body opn k \<longleftrightarrow> body_closes body opn k \<or> k = length body \<and> (\<nexists>j. body_closes body opn j)"

definition access_label_at :: "token list \<Rightarrow> nat \<Rightarrow> string \<Rightarrow> bool" where
  "access_label_at body i a \<longleftrightarrow> i + 1 < length body \<and> t_value (body ! i) = a \<and> a \<in> set access_labels \<and>
     t_value (body ! (i + 1)) = '':''"

definition after_semicolon :: "token list \<Rightarrow> nat \<Rightarrow> nat" where
  "after_semicolon body k = (if k < length body \<and> t_value (body ! k) = '';'' then k + 1 else k)"

inductive segmentation :: "token list \<Rightarrow> string \<Rightarrow> nat \<Rightarrow> (string \<times> nat \<times> nat) list \<Rightarrow> bool" for body where
  seg_end: "length body \<le> i \<Longrightarrow> segmentation body acc i []"
| seg_label: "access_label_at body i a \<Longrightarrow> segmentation body a (i + 2) es \<Longrightarrow> segmentation body acc i es"
| seg_declaration: "\<nexists>a. access_label_at body i a \<Longrightarrow> first_stop body i k \<Longrightarrow> t_value (body ! k) = '';'' \<Longrightarrow>
     segmentation body acc (k + 1) es \<Longrightarrow> segmentation body acc i ((acc, i, k) # es)"
| seg_definition: "\<nexists>a. access_label_at body i a \<Longrightarrow> first_stop body i k \<Longrightarrow> t_value (body ! k) = ''{'' \<Longrightarrow>
     ''('' \<in> set (spellings (slice body i k)) \<Longrightarrow> body_end body k m \<Longrightarrow>
     segmentation body acc (after_semicolon body m) es \<Longrightarrow> segmentation body acc i ((acc, i, k) # es)"
| seg_other: "\<nexists>a. access_label_at body i a \<Longrightarrow> first_stop body i k \<Longrightarrow> t_value (body ! k) = ''{'' \<Longrightarrow>
     ''('' \<notin> set (spellings (slice body i k)) \<Longrightarrow> body_end body k m \<Longrightarrow>
     segmentation body acc (after_semicolon body m) es \<Longrightarrow> segmentation body acc i es"
| seg_rest: "\<nexists>a. access_label_at body i a \<Longrightarrow> i < length body \<Longrightarrow> \<nexists>k. stops_at body i k \<Longrightarrow>
     segmentation body acc i [(acc, i, length body)]"

inductive_simps segmentation_unfold: "segmentation body acc i es"

lemma first_stop_unique: "first_stop body i k \<Longrightarrow> first_stop body i k' \<Longrightarrow> k = k'"
  unfolding first_stop_def using nat_neq_iff by blast

lemma body_closes_unique: "body_closes body i k \<Longrightarrow> body_closes body i k' \<Longrightarrow> k = k'"
  unfolding body_closes_def by (metis less_irrefl nat_neq_iff)

lemma body_end_unique: "body_end body i k \<Longrightarrow> body_end body i k' \<Longrightarrow> k = k'"
  unfolding body_end_def using body_closes_unique by blast

lemma label_unique: "access_label_at body i a \<Longrightarrow> access_label_at body i a' \<longleftrightarrow> a' = a"
  by (auto simp: access_label_at_def)

lemma segment_starts:
  "access_label_at body i a \<Longrightarrow> i < length body" "stops_at body i k \<Longrightarrow> i < length body"
  "first_stop body i k \<Longrightarrow> stops_at body i k"
  by (auto simp: access_label_at_def stops_at_def first_stop_def)

text \<open>Each rule, as an equation under its own conditions.\<close>

lemma segmentation_at_end: "length body \<le> i \<Longrightarrow> segmentation body acc i es \<longleftrightarrow> es = []"
  by (subst segmentation_unfold) (auto simp: access_label_at_def first_stop_def stops_at_def)

lemma segmentation_at_label:
  "access_label_at body i a \<Longrightarrow> segmentation body acc i es \<longleftrightarrow> segmentation body a (i + 2) es"
  using segment_starts(1) [of body i a] by (subst segmentation_unfold) (auto simp: label_unique)

lemma segmentation_at_declaration:
  assumes "\<nexists>a. access_label_at body i a" "first_stop body i k" "t_value (body ! k) = '';''"
  shows "segmentation body acc i es \<longleftrightarrow> (\<exists>rest. es = (acc, i, k) # rest \<and> segmentation body acc (k + 1) rest)"
proof -
  have "first_stop body i k' \<longleftrightarrow> k' = k" for k' using assms(2) first_stop_unique by blast
  moreover have "i < length body" "\<exists>k. stops_at body i k" using segment_starts(2,3) assms(2) by blast+
  ultimately show ?thesis using assms(1,3) by (subst segmentation_unfold) auto
qed

lemma segmentation_at_body:
  assumes "\<nexists>a. access_label_at body i a" "first_stop body i k" "t_value (body ! k) = ''{''" "body_end body k m"
  shows "segmentation body acc i es \<longleftrightarrow>
     (\<exists>rest. es = (if ''('' \<in> set (spellings (slice body i k)) then [(acc, i, k)] else []) @ rest \<and>
        segmentation body acc (after_semicolon body m) rest)"
proof -
  have "first_stop body i k' \<longleftrightarrow> k' = k" for k' using assms(2) first_stop_unique by blast
  moreover have "body_end body k m' \<longleftrightarrow> m' = m" for m' using assms(4) body_end_unique by blast
  moreover have "i < length body" "\<exists>k. stops_at body i k" using segment_starts(2,3) assms(2) by blast+
  ultimately show ?thesis using assms(1,3) by (subst segmentation_unfold) auto
qed

lemma segmentation_at_rest:
  assumes "\<nexists>a. access_label_at body i a" "i < length body" "\<nexists>k. stops_at body i k"
  shows "segmentation body acc i es \<longleftrightarrow> es = [(acc, i, length body)]"
  using assms by (subst segmentation_unfold) (auto simp: first_stop_def)

section \<open>The scanner segments\<close>

lemma delimiter_depths_snoc:
  "delimiter_depths (vs @ [v]) = (case delimiter_depths vs of (p, b) \<Rightarrow> nested_delimiter_depths v p b)"
  by (simp add: delimiter_depths_def case_prod_beta)

lemma brace_sum_append [simp]: "brace_sum (xs @ ys) = brace_sum xs + brace_sum ys"
  by (induction xs) auto

lemma spellings_slice_Suc:
  "i \<le> k \<Longrightarrow> k < length body \<Longrightarrow> spellings (slice body i (Suc k)) = spellings (slice body i k) @ [t_value (body ! k)]"
  by (simp add: slice_Suc)

lemma skip_braced_body_end:
  assumes "opn < c" "c \<le> length body" "brace_sum (spellings (slice body opn c)) = int depth"
    "\<forall>j. opn < j \<and> j < c \<longrightarrow> 0 < brace_sum (spellings (slice body opn j))"
  shows "body_end body opn (skip_braced_body body c depth)"
  using assms
proof (induction body c depth rule: skip_braced_body.induct)
  case (1 body c depth)
  show ?case
  proof (cases "c < length body \<and> depth \<noteq> 0")
    case True
    let ?v = "t_value (body ! c)"
    have "brace_sum (spellings (slice body opn (c + 1))) =
        int (if ?v = ''{'' then depth + 1 else if ?v = ''}'' then depth - 1 else depth)"
      using "1.prems" True by (auto simp: spellings_slice_Suc)
    moreover have "\<forall>j. opn < j \<and> j < c + 1 \<longrightarrow> 0 < brace_sum (spellings (slice body opn j))"
      using "1.prems"(3,4) True by (auto simp: less_Suc_eq)
    ultimately show ?thesis using "1.IH" [OF True refl] "1.prems"(1) True
      by (simp add: skip_braced_body.simps [of body c depth] Let_def)
  next
    case False
    then have stop: "skip_braced_body body c depth = c" by (auto simp: skip_braced_body.simps [of body c depth])
    show ?thesis
    proof (cases "depth = 0")
      case True
      with "1.prems" have "body_closes body opn c" by (simp add: body_closes_def)
      with stop show ?thesis by (simp add: body_end_def)
    next
      case nonzero: False
      with False "1.prems"(2) have "c = length body" by simp
      moreover have "\<not> body_closes body opn j" for j
      proof
        assume j: "body_closes body opn j"
        then consider "j < c" | "j = c" using \<open>c = length body\<close> by (fastforce simp: body_closes_def)
        then show False
        proof cases
          case 1
          with j "1.prems"(4) show False unfolding body_closes_def by fastforce
        next
          case 2
          with j "1.prems"(3) nonzero show False by (simp add: body_closes_def)
        qed
      qed
      ultimately show ?thesis using stop by (simp add: body_end_def)
    qed
  qed
qed

lemma finish_body_end:
  assumes "k < length body" "t_value (body ! k) = ''{''"
  obtains m where "body_end body k m"
    "finish_body_declaration body start k =
       (if ''('' \<in> set (spellings (slice body start k)) then Some (slice body start k) else None, after_semicolon body m)"
proof
  have "spellings (slice body k (Suc k)) = [t_value (body ! k)]" using assms(1) by (simp add: spellings_slice_Suc)
  then show "body_end body k (skip_braced_body body (k + 1) 1)"
    using assms by (intro skip_braced_body_end) (auto simp: less_Suc_eq)
  show "finish_body_declaration body start k =
       (if ''('' \<in> set (spellings (slice body start k)) then Some (slice body start k) else None,
        after_semicolon body (skip_braced_body body (k + 1) 1))"
    by (simp add: finish_body_declaration_def after_semicolon_def Let_def)
qed

lemma consume_declaration_stops:
  assumes "start \<le> cursor" "cursor \<le> length body" "delimiter_depths (spellings (slice body start cursor)) = (p, b)"
    "\<forall>j < cursor. \<not> stops_at body start j"
  shows "(\<exists>k. first_stop body start k \<and> consume_declaration body start cursor p b =
         (if t_value (body ! k) = '';'' then (Some (slice body start k), k + 1) else finish_body_declaration body start k)) \<or>
     (\<nexists>k. stops_at body start k) \<and> consume_declaration body start cursor p b =
        (if start < length body then Some (slice body start (length body)) else None, length body)"
  using assms
proof (induction body start cursor p b rule: consume_declaration.induct)
  case (1 body start cursor p b)
  show ?case
  proof (cases "cursor < length body")
    case False
    then have "cursor = length body" using "1.prems"(2) by simp
    moreover have "\<not> stops_at body start k" for k
      using "1.prems"(4) \<open>cursor = length body\<close> by (cases "k < cursor") (auto simp: stops_at_def)
    ultimately show ?thesis
      by (intro disjI2) (simp add: consume_declaration.simps [of body start "length body" p b] Let_def slice_def)
  next
    case True
    let ?v = "t_value (body ! cursor)"
    obtain p' b' where nd: "nested_delimiter_depths ?v p b = (p', b')" by fastforce
    have here: "stops_at body start cursor \<longleftrightarrow> ?v \<in> {'';'', ''{''} \<and> p' = 0 \<and> b' = 0"
      using "1.prems"(1,3) True nd by (auto simp: stops_at_def nested_delimiter_depths_def)
    show ?thesis
    proof (cases "stops_at body start cursor")
      case stop: True
      then have "first_stop body start cursor" using "1.prems"(4) by (simp add: first_stop_def)
      moreover have "consume_declaration body start cursor p b =
          (if ?v = '';'' then (Some (slice body start cursor), cursor + 1) else finish_body_declaration body start cursor)"
        using stop here True nd by (auto simp: consume_declaration.simps [of body start cursor p b])
      ultimately show ?thesis by blast
    next
      case False
      then have no: "\<not> (?v = '';'' \<and> p' = 0 \<and> b' = 0)" "\<not> (?v = ''{'' \<and> p' = 0 \<and> b' = 0)" using here by auto
      have "delimiter_depths (spellings (slice body start (cursor + 1))) = (p', b')"
        using "1.prems"(1,3) True nd by (simp add: spellings_slice_Suc delimiter_depths_snoc)
      moreover have "\<forall>j < cursor + 1. \<not> stops_at body start j" using "1.prems"(4) False by (auto simp: less_Suc_eq)
      moreover have "consume_declaration body start cursor p b = consume_declaration body start (cursor + 1) p' b'"
        using no True nd by (auto simp: consume_declaration.simps [of body start cursor p b] Let_def)
      ultimately show ?thesis using "1.IH" [OF True refl nd [symmetric] refl no] "1.prems"(1) True by simp
    qed
  qed
qed

lemma label_consumed:
  "consume_access_label s = (if \<exists>a. access_label_at (sc_body s) (sc_cursor s) a
     then Some (s\<lparr>sc_access := t_value (sc_body s ! sc_cursor s), sc_cursor := sc_cursor s + 2\<rparr>) else None)"
  by (auto simp: consume_access_label_def access_label_at_def access_labels_def Let_def)

lemma scan_loop_segments:
  "sc_cursor s \<le> length (sc_body s) \<Longrightarrow>
     \<exists>es. {x. segmentation (sc_body s) (sc_access s) (sc_cursor s) x} = {es} \<and>
        sc_declarations (scan_loop s) = sc_declarations s @ segments (sc_body s) es"
proof (induction s rule: scan_loop.induct)
  case (1 s)
  let ?b = "sc_body s" and ?i = "sc_cursor s" and ?a = "sc_access s"
  show ?case
  proof (cases "?i < length ?b")
    case False
    then show ?thesis by (simp add: scan_loop.simps [of s] segmentation_at_end segments_def)
  next
    case True
    have loop: "scan_loop s = scan_loop (scan_step s)" using True by (simp add: scan_loop.simps [of s])
    from "1.IH" [OF True] scan_step_progress [OF True] obtain es where
      es: "{x. segmentation ?b (sc_access (scan_step s)) (sc_cursor (scan_step s)) x} = {es}"
      "sc_declarations (scan_loop s) = sc_declarations (scan_step s) @ segments ?b es"
      unfolding loop by auto
    then have rest: "segmentation ?b (sc_access (scan_step s)) (sc_cursor (scan_step s)) x \<longleftrightarrow> x = es" for x by blast
    show ?thesis
    proof (cases "\<exists>a. access_label_at ?b ?i a")
      case label: True
      then have "access_label_at ?b ?i (t_value (?b ! ?i))" by (auto simp: access_label_at_def)
      moreover have "scan_step s = s\<lparr>sc_access := t_value (?b ! ?i), sc_cursor := ?i + 2\<rparr>"
        using label by (simp add: scan_step_def label_consumed)
      ultimately show ?thesis using es(2) rest by (intro exI [of _ es]) (simp add: segmentation_at_label)
    next
      case nolabel: False
      obtain d after where c: "consume_declaration ?b ?i ?i 0 0 = (d, after)" by fastforce
      have step: "scan_step s = s\<lparr>sc_cursor := after, sc_declarations := sc_declarations s @
          (case d of None \<Rightarrow> [] | Some decl \<Rightarrow> [(?a, decl)])\<rparr>"
        using nolabel c by (simp add: scan_step_def label_consumed)
      note rest = rest [unfolded step, simplified] and found = es(2) [unfolded step, simplified]
      have "(\<exists>k. first_stop ?b ?i k \<and> (d, after) =
          (if t_value (?b ! k) = '';'' then (Some (slice ?b ?i k), k + 1) else finish_body_declaration ?b ?i k)) \<or>
          (\<nexists>k. stops_at ?b ?i k) \<and> (d, after) = (Some (slice ?b ?i (length ?b)), length ?b)"
        using consume_declaration_stops [of ?i ?i ?b 0 0] True c by (simp add: stops_at_def delimiter_depths_def)
      then consider (semi) k where "first_stop ?b ?i k" "t_value (?b ! k) = '';''" "d = Some (slice ?b ?i k)" "after = k + 1"
        | (brace) k where "first_stop ?b ?i k" "t_value (?b ! k) \<noteq> '';''" "(d, after) = finish_body_declaration ?b ?i k"
        | (none) "\<nexists>k. stops_at ?b ?i k" "d = Some (slice ?b ?i (length ?b))" "after = length ?b"
        by (auto split: if_splits)
      then show ?thesis
      proof cases
        case semi
        with rest found show ?thesis
          by (intro exI [of _ "(?a, ?i, k) # es"])
            (simp add: segmentation_at_declaration [OF nolabel semi(1,2)] segments_def)
      next
        case brace
        then have k: "k < length ?b" "t_value (?b ! k) = ''{''" by (auto simp: first_stop_def stops_at_def)
        from finish_body_end [OF k] obtain m where m: "body_end ?b k m" "finish_body_declaration ?b ?i k =
            (if ''('' \<in> set (spellings (slice ?b ?i k)) then Some (slice ?b ?i k) else None, after_semicolon ?b m)" by blast
        note at = segmentation_at_body [OF nolabel brace(1) k(2) m(1)]
        have "d = (if ''('' \<in> set (spellings (slice ?b ?i k)) then Some (slice ?b ?i k) else None)" "after = after_semicolon ?b m"
          using brace(3) m(2) by simp_all
        with rest found show ?thesis
          by (intro exI [of _ "(if ''('' \<in> set (spellings (slice ?b ?i k)) then [(?a, ?i, k)] else []) @ es"])
            (auto simp: at segments_def)
      next
        case none
        with rest found segmentation_at_end [of ?b "length ?b" ?a es] show ?thesis
          by (intro exI [of _ "[(?a, ?i, length ?b)]"])
            (simp add: segmentation_at_rest [OF nolabel True none(1)] segments_def)
      qed
    qed
  qed
qed

lemma segmentation_ordered:
  "segmentation body acc i es \<Longrightarrow> sorted_wrt (\<lambda>(_, _, j) (_, i, _). j \<le> i) es \<and>
     (\<forall>(a, x, y) \<in> set es. a \<in> set (acc # access_labels) \<and> i \<le> x \<and> x \<le> y \<and> y \<le> length body)"
proof (induction rule: segmentation.induct)
  case (seg_definition i k m acc es)
  then have "i \<le> k" "k < length body" "k < m" by (auto simp: first_stop_def stops_at_def body_end_def body_closes_def)
  moreover have "m \<le> after_semicolon body m" by (simp add: after_semicolon_def)
  ultimately show ?case using seg_definition.IH by fastforce
next
  case (seg_other i k m acc es)
  then have "i \<le> k" "k < length body" "k < m" by (auto simp: first_stop_def stops_at_def body_end_def body_closes_def)
  moreover have "m \<le> after_semicolon body m" by (simp add: after_semicolon_def)
  ultimately show ?case using seg_other.IH by fastforce
qed (fastforce simp: first_stop_def stops_at_def access_label_at_def)+

text \<open>Tokens the scanner passes over: they neither nest, nor end a declaration, nor form a label.\<close>

definition plain_token :: "token \<Rightarrow> bool" where
  "plain_token t = (t_value t \<notin> {''('', '')'', ''['', ''[['', '']'', '']]'', ''{'', ''}'', '';'', '':''})"

lemma consume_declaration_plain:
  assumes "\<forall>k. i \<le> k \<and> k < j \<longrightarrow> plain_token (body ! k)" "i \<le> j" "j \<le> length body"
  shows "consume_declaration body start i 0 0 = consume_declaration body start j 0 0"
  using assms
proof (induction "j - i" arbitrary: i)
  case 0
  then show ?case by simp
next
  case (Suc n)
  then have "plain_token (body ! i)" "i < length body" by simp_all
  then have "consume_declaration body start i 0 0 = consume_declaration body start (Suc i) 0 0"
    by (auto simp: consume_declaration.simps [of body start i] plain_token_def
        nested_delimiter_depths_def)
  also have "\<dots> = consume_declaration body start j 0 0"
    using Suc by (intro Suc.hyps) auto
  finally show ?case .
qed

lemma skip_braced_body_plain:
  assumes "\<forall>k. i \<le> k \<and> k < j \<longrightarrow> t_value (body ! k) \<notin> {''{'', ''}''}" "i \<le> j" "j < length body"
    "t_value (body ! j) = ''}''"
  shows "skip_braced_body body i 1 = j + 1"
  using assms
proof (induction "j - i" arbitrary: i)
  case 0
  then have "i = j" by simp
  with 0 show ?case
    by (simp add: skip_braced_body.simps [of body j] skip_braced_body.simps [of body "Suc j"])
next
  case (Suc n)
  then have i: "i < j" by simp
  with Suc.prems have "skip_braced_body body i 1 = skip_braced_body body (Suc i) 1"
    by (auto simp: skip_braced_body.simps [of body i] Let_def)
  also have "\<dots> = j + 1" using Suc i by (intro Suc.hyps) auto
  finally show ?case .
qed

section \<open>Properties of segmentation\<close>

text \<open>
  C34. Splitting a parameter list: on success the result ends at a closing parenthesis, the groups
  joined by commas are exactly the tokens between the parentheses, and no group has an unbalanced
  parenthesis or a comma outside parentheses.
\<close>

theorem parameter_groups_split:
  assumes "parameter_groups toks opn = Some (groups, close)" "opn < length toks"
  shows "opn < close \<and> close < length toks \<and> t_value (toks ! close) = '')'' \<and>
     comma_join (map spellings groups) = spellings (slice toks (opn + 1) close) \<and>
     (\<forall>g \<in> set groups. one_group (spellings g))"
proof -
  from assms have "group_loop toks (opn + 1) (opn + 1) 0 [] = Some (groups, close)"
    by (simp add: parameter_groups_def)
  from group_loop_spec [OF this, of opn] assms(2) show ?thesis
    by (auto simp: partial_group_Nil)
qed

definition plain_tokens :: "string list \<Rightarrow> token list" where
  "plain_tokens vs = map (\<lambda>(i, v). \<lparr>t_value = v, t_start = 2 * i, t_end = 2 * i + 1, t_line = 1,
     t_kind = (if v \<noteq> [] \<and> word_start (hd v) then TIdentifier else TPunctuation),
     t_cond = 0, t_brace = 0\<rparr>) (enumerated vs)"

theorem parameter_groups_split_witness:
  "parameter_groups (plain_tokens [''('', ''a'', ''('', '','', '')'', '','', ''b'', '')'']) 0 =
     Some ([slice (plain_tokens [''('', ''a'', ''('', '','', '')'', '','', ''b'', '')'']) 1 5,
            slice (plain_tokens [''('', ''a'', ''('', '','', '')'', '','', ''b'', '')'']) 6 7], 7) \<and>
   comma_join [[''a'', ''('', '','', '')''], [''b'']] =
     spellings (slice (plain_tokens [''('', ''a'', ''('', '','', '')'', '','', ''b'', '')'']) 1 7)"
proof -
  let ?t = "plain_tokens [''('', ''a'', ''('', '','', '')'', '','', ''b'', '')'']"
  have ok: "parameter_groups ?t 0 = Some ([slice ?t 1 5, slice ?t 6 7], 7)" by code_simp
  have len: "0 < length ?t" by code_simp
  have "map spellings [slice ?t 1 5, slice ?t 6 7] = [[''a'', ''('', '','', '')''], [''b'']]"
    by code_simp
  with ok parameter_groups_split [OF ok len] show ?thesis by auto
qed

text \<open>
  C33. A class body has exactly one segmentation: from the start of the body on, an access label sets
  the access; otherwise a declaration runs to the first semicolon or opening brace outside parentheses
  and brackets, or to the end of the body; a braced body is passed to its matching brace and an
  optional semicolon, and what stands before it is a declaration when it has a parenthesis.  The
  declarations returned are exactly the extents of this segmentation, each with the access in force at
  its start, and they are disjoint and in source order.
\<close>

theorem member_declarations_are_segments:
  "\<exists>es. {x. segmentation body acc 0 x} = {es} \<and>
     member_declarations body acc = map (\<lambda>(a, i, j). (a, slice body i j)) es \<and>
     sorted_wrt (\<lambda>(_, _, j) (_, i, _). j \<le> i) es \<and>
     list_all (\<lambda>(a, i, j). a \<in> set (acc # access_labels) \<and> i \<le> j \<and> j \<le> length body) es"
proof -
  let ?s = "\<lparr>sc_body = body, sc_access = acc, sc_cursor = 0, sc_declarations = []\<rparr>"
  from scan_loop_segments [of ?s] obtain es where es: "{x. segmentation body acc 0 x} = {es}"
    "sc_declarations (scan_loop ?s) = segments body es" by auto
  then have "segmentation body acc 0 es" by blast
  from segmentation_ordered [OF this] es show ?thesis
    by (intro exI [of _ es]) (auto simp: member_declarations_def segments_def list_all_iff)
qed

text \<open>
  A stored member with a braced initializer, \<open>T name{init};\<close>, yields no declaration at all, so
  the member policies that follow (every stored member of a value class needs a marker) never see it.
\<close>

theorem braced_initializer_member_is_dropped:
  assumes "field \<noteq> []" "list_all plain_token field"
    "list_all (\<lambda>t. t_value t \<notin> {''{'', ''}''}) init"
    "t_value lb = ''{''" "t_value rb = ''}''" "t_value semi = '';''"
  shows "member_declarations (field @ lb # init @ [rb, semi]) acc = []"
proof -
  let ?body = "field @ lb # init @ [rb, semi]"
  let ?s = "\<lparr>sc_body = ?body, sc_access = acc, sc_cursor = 0, sc_declarations = []\<rparr>"
  let ?n = "length field" and ?m = "length init"
  have nolabel: "consume_access_label ?s = None"
  proof -
    have "t_value (?body ! 1) \<noteq> '':''"
      using assms by (cases field rule: list.exhaust; cases "tl field")
        (auto simp: plain_token_def nth_append)
    then show ?thesis by (simp add: consume_access_label_def Let_def)
  qed
  have "consume_declaration ?body 0 0 0 0 = consume_declaration ?body 0 ?n 0 0"
    using assms(2) by (intro consume_declaration_plain) (auto simp: nth_append list_all_length)
  also have "\<dots> = finish_body_declaration ?body 0 ?n"
    using assms(4) by (simp add: consume_declaration.simps [of ?body 0 ?n] nested_delimiter_depths_def)
  also have "\<dots> = (None, length ?body)"
  proof -
    have "skip_braced_body ?body (?n + 1) 1 = ?n + 1 + ?m + 1"
      using assms(3,5)
      by (intro skip_braced_body_plain) (auto simp: nth_append list_all_length)
    moreover have "''('' \<notin> set (spellings (slice ?body 0 ?n))"
      using assms(2) by (auto simp: slice_def spellings_def list_all_iff plain_token_def)
    ultimately show ?thesis
      using assms(6) by (simp add: finish_body_declaration_def nth_append)
  qed
  finally have "scan_step ?s = ?s\<lparr>sc_cursor := length ?body\<rparr>"
    by (simp add: scan_step_def nolabel)
  then have "scan_loop ?s = scan_loop (?s\<lparr>sc_cursor := length ?body\<rparr>)"
    by (subst scan_loop.simps) simp
  also have "\<dots> = ?s\<lparr>sc_cursor := length ?body\<rparr>"
    by (subst scan_loop.simps) simp
  finally show ?thesis by (simp add: member_declarations_def)
qed

theorem braced_initializer_member_is_dropped_witness:
  "member_declarations (plain_tokens [''int'', ''x'', ''{'', ''0'', ''}'', '';'']) ''public'' = []"
proof -
  let ?t = "plain_tokens [''int'', ''x'', ''{'', ''0'', ''}'', '';'']"
  have split: "?t = take 2 ?t @ ?t ! 2 # [?t ! 3] @ [?t ! 4, ?t ! 5]" by code_simp
  have "member_declarations (take 2 ?t @ ?t ! 2 # [?t ! 3] @ [?t ! 4, ?t ! 5]) ''public'' = []"
    by (rule braced_initializer_member_is_dropped) code_simp+
  with split show ?thesis by metis
qed

end
