(* ===== verification/Cpp_Type_Syntax.thy ===== *)
theory Cpp_Type_Syntax
  imports Cpp_Members
begin

text \<open>
  \<^verbatim>\<open>src/supernote_module_generator/cpp_type_syntax.py\<close>: normalising a C++ type-token spelling and
  validating named parameters.  \<open>CppTypeSyntaxError\<close> is the datatype \<open>type_syntax_error\<close>, one
  constructor per raise with its line and the values its message interpolates.  The regular
  expression substitutions are modelled on characters (\<open>sub_trim\<close>); \<open>cpp_type_spelling_render\<close>
  shows what they amount to on tokens.
\<close>

section \<open>Definitions\<close>

text \<open>\<open>" ".join(...)\<close>.\<close>

fun space_join :: "string list \<Rightarrow> string" where
  "space_join [] = []"
| "space_join [w] = w"
| "space_join (w # ws) = w @ '' '' @ space_join ws"

definition tokens_text :: "token list \<Rightarrow> string" where
  "tokens_text ts = space_join (spellings ts)"

text \<open>\<open>re.sub(r"\s*" + p + r"\s*", p, s)\<close> for a non-empty literal \<open>p\<close>.\<close>

function sub_trim :: "string \<Rightarrow> string \<Rightarrow> string" where
  "sub_trim p s =
     (if s = [] \<or> p = [] then s
      else
        let r = dropWhile py_isspace s in
        if starts_at p r 0 then p @ sub_trim p (dropWhile py_isspace (drop (length p) r))
        else hd s # sub_trim p (tl s))"
  by pat_completeness auto
termination
proof (relation "measure (\<lambda>(p, s). length s)", simp, goal_cases)
  case (1 p s r)
  have "length (dropWhile py_isspace (drop (length p) r)) \<le> length r - length p"
    using length_dropWhile_le [of py_isspace "drop (length p) r"] by simp
  moreover have "length r \<le> length s" using 1 by (simp add: length_dropWhile_le)
  moreover have "0 < length p" "length p \<le> length r"
    using 1 starts_at_length [of p r 0] by auto
  ultimately show ?case by (simp only: in_measure prod.case)
next
  case (2 p s r)
  then show ?case by simp
qed

declare sub_trim.simps [simp del]

definition allowed_type_punctuation :: "string list" where
  "allowed_type_punctuation = [''::'', ''<'', ''>'', ''&'']"

definition cpp_type_spelling :: "token list \<Rightarrow> string option" where
  "cpp_type_spelling ts =
     (if ts = [] then None
      else if list_ex (\<lambda>t. t_kind t \<noteq> TIdentifier \<and> t_value t \<notin> set allowed_type_punctuation) ts
      then None
      else if count_list (spellings ts) ''<'' \<noteq> count_list (spellings ts) ''>'' then None
      else if list_ex (\<lambda>(i, t). t_value t = ''&'' \<and> i \<noteq> length ts - 1) (enumerated ts) then None
      else Some (sub_trim ''&'' (sub_trim ''>'' (sub_trim ''<'' (sub_trim ''::''
        (space_join (spellings ts)))))))"

datatype type_syntax_error =
    NoParameterTokens nat nat
  | ForbiddenParameterForm nat string string nat
  | UnsupportedParameter nat string nat
  | KeywordParameterName nat nat string
  | DuplicateParameterName nat string nat

record cpp_parameter_syntax =
  ps_type :: string
  ps_name :: string

definition forbidden_parameter_forms :: "string list" where
  "forbidden_parameter_forms = [''*'', ''='', ''...'', ''['', ''[['', ''('']"

text \<open>\<open>values.index(v)\<close> for a value that occurs.\<close>

fun index_of :: "'a \<Rightarrow> 'a list \<Rightarrow> nat" where
  "index_of v [] = 0"
| "index_of v (x # xs) = (if x = v then 0 else Suc (index_of v xs))"

definition parameter_syntax ::
    "token list \<Rightarrow> nat \<Rightarrow> nat \<Rightarrow> string list \<Rightarrow> type_syntax_error + cpp_parameter_syntax" where
  "parameter_syntax ts argument_index marker_line keywords =
     (let line = (case ts of [] \<Rightarrow> marker_line | t # _ \<Rightarrow> t_line t) in
      if ts = [] then Inl (NoParameterTokens line argument_index)
      else
        case find (\<lambda>v. v \<in> set (spellings ts)) forbidden_parameter_forms of
          Some v \<Rightarrow> Inl (ForbiddenParameterForm (t_line (ts ! index_of v (spellings ts))) v
            (tokens_text ts) argument_index)
        | None \<Rightarrow>
            let name = (if t_kind (last ts) = TIdentifier then Some (t_value (last ts)) else None);
                cpp_type = (if name = None then None else cpp_type_spelling (butlast ts))
            in (case (cpp_type, name) of
                  (Some ty, Some n) \<Rightarrow>
                    if n \<in> set keywords
                    then Inl (KeywordParameterName (t_line (last ts)) argument_index n)
                    else Inr \<lparr>ps_type = ty, ps_name = n\<rparr>
                | _ \<Rightarrow> Inl (UnsupportedParameter line (tokens_text ts) argument_index)))"

fun parameter_list_loop ::
    "nat \<Rightarrow> string list \<Rightarrow> token list list \<Rightarrow> nat \<Rightarrow> string list \<Rightarrow>
     type_syntax_error + cpp_parameter_syntax list" where
  "parameter_list_loop argument_index names [] marker_line keywords = Inr []"
| "parameter_list_loop argument_index names (g # gs) marker_line keywords =
     ebind (parameter_syntax g argument_index marker_line keywords) (\<lambda>p.
       if ps_name p \<in> set names then
         Inl (DuplicateParameterName (if g \<noteq> [] then t_line (last g) else marker_line)
           (ps_name p) argument_index)
       else ebind (parameter_list_loop (argument_index + 1) (ps_name p # names) gs marker_line keywords)
         (\<lambda>ps. Inr (p # ps)))"

definition parameter_list_syntax ::
    "token list list \<Rightarrow> nat \<Rightarrow> string list \<Rightarrow> type_syntax_error + cpp_parameter_syntax list" where
  "parameter_list_syntax groups marker_line keywords =
     parameter_list_loop 1 [] groups marker_line keywords"

section \<open>The spelling as tokens\<close>

text \<open>
  The reference: words next to each other, with one space between two neighbours unless one of them
  is in \<open>tight\<close>.
\<close>

fun render :: "string set \<Rightarrow> string list \<Rightarrow> string" where
  "render tight [] = []"
| "render tight [w] = w"
| "render tight (w # v # ws) =
     w @ (if w \<in> tight \<or> v \<in> tight then [] else '' '') @ render tight (v # ws)"

lemma render_empty: "render {} ws = space_join ws"
  by (induction "{} :: string set" ws rule: render.induct) auto

definition spelled_word :: "string \<Rightarrow> string \<Rightarrow> bool" where
  "spelled_word p w \<longleftrightarrow> w \<noteq> [] \<and> list_all (\<lambda>c. \<not> py_isspace c) w \<and> (w = p \<or> hd p \<notin> set w)"

lemma hd_render: "w \<noteq> [] \<Longrightarrow> hd (render P (w # ws)) = hd w \<and> render P (w # ws) \<noteq> []"
  by (cases ws) auto

lemma sub_trim_other:
  assumes "p \<noteq> []" "c \<noteq> hd p" "\<not> py_isspace c"
  shows "sub_trim p (c # s) = c # sub_trim p s"
  using assms by (subst sub_trim.simps) (auto simp: starts_at_def neq_Nil_conv)

lemma sub_trim_word:
  "p \<noteq> [] \<Longrightarrow> hd p \<notin> set w \<Longrightarrow> list_all (\<lambda>c. \<not> py_isspace c) w \<Longrightarrow>
     sub_trim p (w @ s) = w @ sub_trim p s"
  by (induction w) (auto simp: sub_trim_other)

lemma sub_trim_match:
  assumes "p \<noteq> []" "\<not> py_isspace (hd p)"
  shows "sub_trim p (p @ s) = p @ sub_trim p (dropWhile py_isspace s)"
  using assms by (subst sub_trim.simps) (auto simp: starts_at_def neq_Nil_conv)

lemma sub_trim_Nil [simp]: "sub_trim p [] = []"
  by (simp add: sub_trim.simps)

lemma sub_trim_space:
  assumes "p \<noteq> []" "\<not> py_isspace (hd p)" "s \<noteq> []" "\<not> py_isspace (hd s)"
  shows "sub_trim p (CHR '' '' # s) = (if starts_at p s 0 then sub_trim p s else CHR '' '' # sub_trim p s)"
proof -
  have sp: "py_isspace (CHR '' '')" by (simp add: py_isspace_def code_point_def)
  have d: "dropWhile py_isspace s = s" using assms(3,4) by (cases s) auto
  show ?thesis
  proof (cases "starts_at p s 0")
    case True
    then have "sub_trim p s = p @ sub_trim p (dropWhile py_isspace (drop (length p) s))"
      using assms d by (subst sub_trim.simps) simp
    with True show ?thesis using assms sp d by (subst sub_trim.simps) simp
  next
    case False
    with assms sp d show ?thesis by (subst sub_trim.simps) simp
  qed
qed

lemma sub_trim_render:
  assumes "p \<noteq> []" "list_all (\<lambda>c. \<not> py_isspace c) p" "list_all (spelled_word p) ws"
  shows "sub_trim p (render P ws) = render (insert p P) ws"
  using assms(3)
proof (induction P ws rule: render.induct)
  case (1 P)
  show ?case by simp
next
  case (2 P w)
  have p: "\<not> py_isspace (hd p)" using assms(1,2) by (cases p) auto
  show ?case
  proof (cases "w = p")
    case True
    then show ?thesis using sub_trim_match [OF assms(1) p, of "[]"] by simp
  next
    case False
    with 2 show ?thesis using sub_trim_word [OF assms(1), of w "[]"] by (auto simp: spelled_word_def)
  qed
next
  case (3 P w v ws)
  have p: "\<not> py_isspace (hd p)" using assms(1,2) by (cases p) auto
  let ?rest = "render P (v # ws)"
  from 3 have IH: "sub_trim p ?rest = render (insert p P) (v # ws)" by simp
  from "3.prems" have v: "v \<noteq> []" "\<not> py_isspace (hd v)" "v = p \<or> hd p \<notin> set v"
    by (auto simp: spelled_word_def neq_Nil_conv)
  have rest: "?rest \<noteq> []" "hd ?rest = hd v" "\<not> py_isspace (hd ?rest)"
    using hd_render [OF v(1), of P ws] v(2) by simp_all
  have start: "starts_at p ?rest 0 \<longleftrightarrow> v = p"
  proof
    assume "starts_at p ?rest 0"
    then have "hd ?rest = hd p" using assms(1) rest(1) by (cases ?rest) (auto simp: starts_at_def neq_Nil_conv)
    then show "v = p" using v rest(2) hd_in_set [OF v(1)] by metis
  next
    assume "v = p"
    then show "starts_at p ?rest 0" by (cases ws) (auto simp: starts_at_def)
  qed
  have sepd: "sub_trim p ((if v = p then [] else '' '') @ ?rest) =
      (if v = p then [] else '' '') @ sub_trim p ?rest"
    and spaced: "sub_trim p ('' '' @ ?rest) = (if v = p then [] else '' '') @ sub_trim p ?rest"
    using sub_trim_space [OF assms(1) p rest(1,3)] start by simp_all
  show ?case
  proof (cases "w = p")
    case True
    have "dropWhile py_isspace ((if w \<in> P \<or> v \<in> P then [] else '' '') @ ?rest) = ?rest"
      using rest by (cases ?rest) (auto simp: py_isspace_def code_point_def)
    with True IH sub_trim_match [OF assms(1) p, of "(if w \<in> P \<or> v \<in> P then [] else '' '') @ ?rest"]
    show ?thesis by simp
  next
    case False
    with "3.prems" have "hd p \<notin> set w" "list_all (\<lambda>c. \<not> py_isspace c) w"
      by (auto simp: spelled_word_def)
    then have "sub_trim p (render P (w # v # ws)) =
        w @ sub_trim p ((if w \<in> P \<or> v \<in> P then [] else '' '') @ ?rest)"
      using sub_trim_word [OF assms(1)] by simp
    with False IH spaced show ?thesis by (auto split: if_splits)
  qed
qed

text \<open>A token the lexer can deliver as a word: its letters are word characters, none is a space.\<close>

lemma word_char_facts:
  assumes "word_char c"
  shows "\<not> py_isspace c" "c \<noteq> CHR '':''" "c \<noteq> CHR ''<''" "c \<noteq> CHR ''>''" "c \<noteq> CHR ''&''"
  using assms
  by (auto simp: word_char_def py_isalnum_def py_isalpha_def ascii_alpha_def ascii_digit_def
      py_isspace_def code_point_def Let_def)

lemma word_start_char: "word_start c \<Longrightarrow> word_char c"
  by (auto simp: word_start_def word_char_def py_isalnum_def)

definition word_token :: "token \<Rightarrow> bool" where
  "word_token t \<longleftrightarrow> t_kind t = TIdentifier \<longrightarrow> t_value t \<noteq> [] \<and> list_all word_char (t_value t)"

lemma spelled_type_word:
  assumes "word_token t" "t_kind t = TIdentifier \<or> t_value t \<in> set allowed_type_punctuation"
    "p \<in> set allowed_type_punctuation"
  shows "spelled_word p (t_value t)"
proof (cases "t_kind t = TIdentifier")
  case True
  with assms(1) have "t_value t \<noteq> []" "\<forall>c \<in> set (t_value t). word_char c"
    by (auto simp: word_token_def list_all_iff)
  moreover have "\<not> word_char (hd p)"
    using assms(3) word_char_facts by (fastforce simp: allowed_type_punctuation_def)
  ultimately show ?thesis by (auto simp: spelled_word_def list_all_iff dest: word_char_facts(1))
next
  case False
  with assms(2,3) show ?thesis
    by (auto simp: spelled_word_def allowed_type_punctuation_def py_isspace_def code_point_def)
qed

text \<open>The lexer delivers only such words.\<close>

lemma lexed_word_token:
  assumes "t \<in> set (ls_tokens (lex_source src))"
  shows "word_token t"
proof -
  have sp: "token_spelled src t" and ext: "t_start t < t_end t" "t_end t \<le> length src"
    using lexed.spelled [OF assms] lexed.extent [OF assms] by auto
  {
    assume k: "t_kind t = TIdentifier"
    with sp have v: "t_value t = slice src (t_start t) (t_end t)" and
      c: "\<And>k. t_start t \<le> k \<Longrightarrow> k < t_end t \<Longrightarrow> word_char (src ! k)"
      by (auto simp: token_spelled_def le_less dest: word_start_char)
    have "word_char (t_value t ! i)" if "i < length (t_value t)" for i
      using that v ext c [of "t_start t + i"] by (simp add: slice_nth)
    then have "list_all word_char (t_value t)" by (simp add: list_all_length)
    moreover have "t_value t \<noteq> []" using lexed.nonempty_value [OF assms] .
    ultimately have "t_value t \<noteq> [] \<and> list_all word_char (t_value t)" by simp
  }
  then show ?thesis by (simp add: word_token_def)
qed

text \<open>
  Type normalisation: on tokens as the lexer delivers them, an accepted type is spelled with
  its words side by side and one space exactly between two neighbouring identifiers; \<open>::\<close>, angle
  brackets and the reference sign stand without space.
\<close>

theorem cpp_type_spelling_render:
  assumes "cpp_type_spelling ts = Some s" "list_all word_token ts"
  shows "s = render (set allowed_type_punctuation) (spellings ts)"
proof -
  from assms(1) have ok: "\<forall>t \<in> set ts. t_kind t = TIdentifier \<or> t_value t \<in> set allowed_type_punctuation"
    and s: "s = sub_trim ''&'' (sub_trim ''>'' (sub_trim ''<'' (sub_trim ''::''
        (space_join (spellings ts)))))"
    by (auto simp: cpp_type_spelling_def list_ex_iff split: if_splits)
  have words: "list_all (spelled_word p) (spellings ts)" if "p \<in> set allowed_type_punctuation" for p
    using assms(2) ok that
    by (auto simp: list_all_iff spellings_def intro: spelled_type_word)
  have punct: "p \<noteq> [] \<and> list_all (\<lambda>c. \<not> py_isspace c) p" if "p \<in> set allowed_type_punctuation" for p
    using that by (auto simp: allowed_type_punctuation_def py_isspace_def code_point_def)
  have trim: "sub_trim p (render P (spellings ts)) = render (insert p P) (spellings ts)"
    if "p \<in> set allowed_type_punctuation" for p P
    using words [OF that] punct [OF that] by (simp add: sub_trim_render)
  have "s = render {''&'', ''>'', ''<'', ''::''} (spellings ts)"
    unfolding s render_empty [symmetric]
    by (subst trim, simp add: allowed_type_punctuation_def)+ (rule refl)
  then show ?thesis by (simp add: allowed_type_punctuation_def insert_commute)
qed

theorem cpp_type_spelling_render_witness:
  "cpp_type_spelling (plain_tokens [''const'', ''std'', ''::'', ''vector'', ''<'', ''int'', ''>'', ''&'']) =
     Some ''const std::vector<int>&'' \<and>
   render (set allowed_type_punctuation)
     (spellings (plain_tokens [''const'', ''std'', ''::'', ''vector'', ''<'', ''int'', ''>'', ''&''])) =
     ''const std::vector<int>&''"
proof -
  let ?t = "plain_tokens [''const'', ''std'', ''::'', ''vector'', ''<'', ''int'', ''>'', ''&'']"
  have ok: "cpp_type_spelling ?t = Some ''const std::vector<int>&''" by code_simp
  have "list_all word_token ?t" unfolding word_token_def by code_simp
  from cpp_type_spelling_render [OF ok this] ok show ?thesis by simp
qed

section \<open>Parameter lists\<close>

text \<open>The tokens of a type the module accepts: words and the four marks, as many angle brackets opened as
  closed, and a reference sign at the end only.\<close>

definition type_tokens :: "token list \<Rightarrow> bool" where
  "type_tokens ts \<longleftrightarrow> ts \<noteq> [] \<and>
     list_all (\<lambda>t. t_kind t = TIdentifier \<or> t_value t \<in> set allowed_type_punctuation) ts \<and>
     count_list (spellings ts) ''<'' = count_list (spellings ts) ''>'' \<and>
     ''&'' \<notin> set (spellings (butlast ts))"

lemma ampersand_only_last:
  "list_ex (\<lambda>(i, t). t_value t = ''&'' \<and> i \<noteq> length ts - 1) (enumerated ts) \<longleftrightarrow> ''&'' \<in> set (spellings (butlast ts))"
proof -
  have "i < length (butlast ts) \<longleftrightarrow> i < length ts \<and> i \<noteq> length ts - 1" for i by auto
  then have "x \<in> set (butlast ts) \<longleftrightarrow> (\<exists>i. (i < length ts \<and> i \<noteq> length ts - 1) \<and> ts ! i = x)" for x
    by (metis in_set_conv_nth nth_butlast)
  moreover have "list_ex (\<lambda>(i, t). t_value t = ''&'' \<and> i \<noteq> length ts - 1) (enumerated ts) \<longleftrightarrow>
      (\<exists>i < length ts. t_value (ts ! i) = ''&'' \<and> i \<noteq> length ts - 1)"
    by (auto simp: list_ex_length enumerated_def)
  ultimately show ?thesis by (simp add: spellings_def image_iff) metis
qed

lemma cpp_type_spelling_accepts: "(\<exists>s. cpp_type_spelling ts = Some s) \<longleftrightarrow> type_tokens ts"
  using ampersand_only_last [of ts]
  by (auto simp: cpp_type_spelling_def type_tokens_def list_all_iff list_ex_iff)

text \<open>A group of tokens and the parameter it declares.\<close>

definition reads_parameter :: "string list \<Rightarrow> token list \<Rightarrow> cpp_parameter_syntax \<Rightarrow> bool" where
  "reads_parameter kws g p \<longleftrightarrow> g \<noteq> [] \<and> set forbidden_parameter_forms \<inter> set (spellings g) = {} \<and>
     t_kind (last g) = TIdentifier \<and> ps_name p = t_value (last g) \<and> ps_name p \<notin> set kws \<and>
     type_tokens (butlast g) \<and> cpp_type_spelling (butlast g) = Some (ps_type p)"

lemma parameter_syntax_reads: "parameter_syntax g i l kws = Inr p \<longleftrightarrow> reads_parameter kws g p"
proof -
  have "find (\<lambda>v. v \<in> set (spellings g)) forbidden_parameter_forms = None \<longleftrightarrow>
      set forbidden_parameter_forms \<inter> set (spellings g) = {}"
    by (auto simp: find_None_iff)
  moreover have "cpp_type_spelling (butlast g) = Some (ps_type p) \<Longrightarrow> type_tokens (butlast g)"
    using cpp_type_spelling_accepts by blast
  ultimately show ?thesis
    by (cases p) (auto simp: parameter_syntax_def reads_parameter_def Let_def split: option.splits if_splits)
qed

lemma parameter_list_loop_reads:
  "parameter_list_loop i names gs l kws = Inr ps \<longleftrightarrow>
     list_all2 (reads_parameter kws) gs ps \<and> distinct (map ps_name ps) \<and> set names \<inter> set (map ps_name ps) = {}"
proof (induction gs arbitrary: i names ps)
  case (Cons g gs)
  have "parameter_list_loop i names (g # gs) l kws = Inr ps \<longleftrightarrow> (\<exists>p ps'. ps = p # ps' \<and> reads_parameter kws g p \<and>
      ps_name p \<notin> set names \<and> parameter_list_loop (i + 1) (ps_name p # names) gs l kws = Inr ps')"
    by (auto simp: parameter_syntax_reads split: if_splits)
  then show ?case unfolding Cons.IH by (cases ps) auto
qed auto

text \<open>
  C36. parameter_list_syntax accepts a list of token groups exactly when each of them is a type the module
  accepts followed by a name that is no keyword, with none of the forbidden forms in it, and no name
  occurs twice; and it then returns these types and names, in order.
\<close>

theorem parameter_list_accepts:
  "parameter_list_syntax groups l kws = Inr ps \<longleftrightarrow>
     list_all2 (reads_parameter kws) groups ps \<and> distinct (map ps_name ps)"
  using parameter_list_loop_reads [of 1 "[]" groups l kws ps] by (simp add: parameter_list_syntax_def)
theorem parameter_list_accepts_witness:
  "list_all2 (reads_parameter [''new'']) [plain_tokens [''int'', ''a''], plain_tokens [''float'', ''b'']]
     [\<lparr>ps_type = ''int'', ps_name = ''a''\<rparr>, \<lparr>ps_type = ''float'', ps_name = ''b''\<rparr>]"
proof -
  have "parameter_list_syntax [plain_tokens [''int'', ''a''], plain_tokens [''float'', ''b'']] 1 [''new''] =
     Inr [\<lparr>ps_type = ''int'', ps_name = ''a''\<rparr>, \<lparr>ps_type = ''float'', ps_name = ''b''\<rparr>]"
    by code_simp
  then show ?thesis unfolding parameter_list_accepts by (rule conjunct1)
qed

end
