(* ===== verification/Cpp_Shapes.thy ===== *)
theory Cpp_Shapes
  imports Cpp_Type_Syntax
begin

text \<open>
  The structural decisions of the C++ front end over token lists: class envelopes
  (\<^verbatim>\<open>cpp_class_syntax.py\<close>), member and constructor suffixes (\<^verbatim>\<open>cpp_member_semantics.py\<close>), member
  shapes (\<^verbatim>\<open>cpp_member_shapes.py\<close>), free functions (\<^verbatim>\<open>cpp_function_syntax.py\<close>), untagged global
  functions (\<^verbatim>\<open>cpp_global_functions.py\<close>), source routing (\<^verbatim>\<open>cpp_source_routing.py\<close>) and the JSI
  registration mode (\<^verbatim>\<open>jsi_binding_decisions.py\<close>).  Every exception class is a datatype with one
  constructor per raise.
\<close>

section \<open>Class envelopes\<close>

datatype class_syntax_error =
    MissingClassDefinition nat
  | NotAClass nat
  | ClassWithoutName nat
  | IncompleteClass nat string
  | ClassInheritance nat string
  | TokensBeforeClassBody nat string string
  | ClassWithoutClose nat string
  | ClassWithoutSemicolon nat string

record cpp_class_extent =
  ce_kind :: string
  ce_name :: string
  ce_open :: nat
  ce_close :: nat

definition class_identity :: "token list \<Rightarrow> nat \<Rightarrow> class_syntax_error + (token \<times> string)" where
  "class_identity following diagnostic_line =
     (case following of
        [] \<Rightarrow> Inl (MissingClassDefinition diagnostic_line)
      | first # _ \<Rightarrow>
          if t_value first \<notin> {''class'', ''struct''} then Inl (NotAClass (t_line first))
          else if length following < 3 \<or> t_kind (following ! 1) \<noteq> TIdentifier
          then Inl (ClassWithoutName (t_line first))
          else Inr (first, t_value (following ! 1)))"

definition class_body_open :: "token list \<Rightarrow> token \<Rightarrow> string \<Rightarrow> class_syntax_error + nat" where
  "class_body_open following first cpp_name =
     (case find (\<lambda>i. t_value (following ! i) \<in> {''{'', '';''}) [2..<length following] of
        None \<Rightarrow> Inl (IncompleteClass (t_line first) cpp_name)
      | Some opn \<Rightarrow>
          if t_value (following ! opn) \<noteq> ''{'' then Inl (IncompleteClass (t_line first) cpp_name)
          else let before_body = slice following 2 opn in
            if '':'' \<in> set (spellings before_body)
            then Inl (ClassInheritance (t_line (hd before_body)) cpp_name)
            else if before_body \<noteq> []
            then Inl (TokensBeforeClassBody (t_line (hd before_body)) cpp_name (tokens_text before_body))
            else Inr opn)"

function class_close_loop :: "token list \<Rightarrow> nat \<Rightarrow> nat \<Rightarrow> nat option" where
  "class_close_loop following cursor depth =
     (if cursor < length following then
        let v = t_value (following ! cursor) in
        if v = ''{'' then class_close_loop following (cursor + 1) (depth + 1)
        else if v = ''}'' then
          if depth - 1 = 0 then Some cursor
          else class_close_loop following (cursor + 1) (depth - 1)
        else class_close_loop following (cursor + 1) depth
      else None)"
  by pat_completeness auto
termination
  by (relation "measure (\<lambda>(following, cursor, depth). length following - cursor)") auto

declare class_close_loop.simps [simp del]

definition class_body_close ::
    "token list \<Rightarrow> token \<Rightarrow> string \<Rightarrow> nat \<Rightarrow> class_syntax_error + nat" where
  "class_body_close following first cpp_name opn =
     (case class_close_loop following (opn + 1) 1 of
        None \<Rightarrow> Inl (ClassWithoutClose (t_line first) cpp_name)
      | Some c \<Rightarrow> Inr c)"

definition class_definition_extent :: "token list \<Rightarrow> nat \<Rightarrow> class_syntax_error + cpp_class_extent" where
  "class_definition_extent following diagnostic_line =
     ebind (class_identity following diagnostic_line) (\<lambda>(first, cpp_name).
     ebind (class_body_open following first cpp_name) (\<lambda>opn.
     ebind (class_body_close following first cpp_name opn) (\<lambda>close.
       if length following \<le> close + 1 \<or> t_value (following ! (close + 1)) \<noteq> '';''
       then Inl (ClassWithoutSemicolon (t_line (following ! close)) cpp_name)
       else Inr \<lparr>ce_kind = t_value first, ce_name = cpp_name, ce_open = opn, ce_close = close\<rparr>)))"

section \<open>Member and constructor suffixes\<close>

datatype member_decision_error =
    QualifiedNoexcept nat
  | UnsupportedMemberToken nat string
  | UnsupportedConstructorSuffix nat

text \<open>The cursor of the source is the remaining token list; the flags are those found so far.\<close>

fun member_qualifiers ::
    "bool \<Rightarrow> bool \<Rightarrow> bool \<Rightarrow> bool \<Rightarrow> token list \<Rightarrow> member_decision_error + (bool \<times> bool)" where
  "member_qualifiers allow_const allow_default is_const is_noexcept [] = Inr (is_const, is_noexcept)"
| "member_qualifiers allow_const allow_default is_const is_noexcept (t # rest) =
     (if t_value t = ''const'' \<and> allow_const \<and> \<not> is_const then
        member_qualifiers allow_const allow_default True is_noexcept rest
      else if t_value t = ''noexcept'' \<and> \<not> is_noexcept then
        (if rest \<noteq> [] \<and> t_value (hd rest) = ''('' then Inl (QualifiedNoexcept (t_line (hd rest)))
         else member_qualifiers allow_const allow_default is_const True rest)
      else if allow_default \<and> length rest = 1 \<and> t_value t = ''='' \<and> t_value (hd rest) = ''default''
      then Inr (is_const, is_noexcept)
      else Inl (UnsupportedMemberToken (t_line t) (t_value t)))"

definition parse_member_qualifiers ::
    "token list \<Rightarrow> bool \<Rightarrow> bool \<Rightarrow> member_decision_error + (bool \<times> bool)" where
  "parse_member_qualifiers ts allow_const allow_default =
     member_qualifiers allow_const allow_default False False ts"

definition is_default_or_deleted_tail :: "token list \<Rightarrow> bool" where
  "is_default_or_deleted_tail rest =
     (length rest = 2 \<and> t_value (rest ! 0) = ''='' \<and> t_value (rest ! 1) \<in> {''default'', ''delete''})"

definition constructor_suffix :: "token list \<Rightarrow> member_decision_error + (bool \<times> bool)" where
  "constructor_suffix ts =
     (let is_noexcept = (ts \<noteq> [] \<and> t_value (hd ts) = ''noexcept'');
          rest = (if is_noexcept then tl ts else ts)
      in if is_noexcept \<and> rest \<noteq> [] \<and> t_value (hd rest) = ''(''
         then Inl (QualifiedNoexcept (t_line (hd rest)))
         else if rest = [] then Inr (is_noexcept, False)
         else if is_default_or_deleted_tail rest then Inr (is_noexcept, t_value (rest ! 1) = ''delete'')
         else if t_value (hd rest) = '':'' \<and> 1 < length rest then Inr (is_noexcept, False)
         else Inl (UnsupportedConstructorSuffix (t_line (hd rest))))"

definition is_copy_or_move_constructor :: "token list list \<Rightarrow> string \<Rightarrow> bool" where
  "is_copy_or_move_constructor groups cpp_name =
     (case groups of
        [g] \<Rightarrow>
          let vs = spellings g;
              vs' = (if vs \<noteq> [] \<and> t_kind (last g) = TIdentifier then butlast vs else vs)
          in vs' \<in> {[cpp_name, ''&''], [''const'', cpp_name, ''&''], [cpp_name, ''&'', ''&'']}
      | _ \<Rightarrow> False)"

section \<open>Member shapes\<close>

datatype member_shape_error =
    UnmarkedValueMember nat
  | UndirectField
  | FieldWithoutName
  | UnsupportedFieldType
  | DeferredMemberForm nat string
  | MethodNotCanonical nat
  | MethodNameKeyword nat string

datatype cpp_callable_kind = CallConstructor | CallDestructor | CallMethod

datatype cpp_stored_member_kind = StoredCallable | StoredField | StoredIgnore

datatype cpp_constructor_route = RouteLower | RouteIgnore | RejectPrefix | RejectCopyOrMove

record cpp_callable_head =
  ch_kind :: cpp_callable_kind
  ch_prefix_supported :: bool
  ch_explicit :: bool

record cpp_field_shape =
  fs_name :: string
  fs_type :: string
  fs_mutable :: bool
  fs_static :: bool

record cpp_method_shape =
  ms_name :: string
  ms_line :: nat
  ms_return :: string
  ms_static :: bool

definition stored_member_kind ::
    "token list \<Rightarrow> bool \<Rightarrow> bool \<Rightarrow> member_shape_error + cpp_stored_member_kind" where
  "stored_member_kind decl marked value_class =
     (if ''('' \<in> set (spellings decl) then Inr StoredCallable
      else if marked then Inr StoredField
      else if value_class \<and> ''static'' \<notin> set (spellings decl)
      then Inl (UnmarkedValueMember (t_line (hd decl)))
      else Inr StoredIgnore)"

definition callable_head :: "token list \<Rightarrow> string \<Rightarrow> cpp_callable_head" where
  "callable_head ts cpp_name =
     (let vs = spellings ts in
      if vs = [''~'', cpp_name] then
        \<lparr>ch_kind = CallDestructor, ch_prefix_supported = False, ch_explicit = False\<rparr>
      else if vs \<noteq> [] \<and> last vs = cpp_name then
        let supported = (vs = [cpp_name] \<or> vs = [''explicit'', cpp_name]) in
        \<lparr>ch_kind = CallConstructor, ch_prefix_supported = supported,
         ch_explicit = (supported \<and> hd vs = ''explicit'')\<rparr>
      else \<lparr>ch_kind = CallMethod, ch_prefix_supported = False, ch_explicit = False\<rparr>)"

definition constructor_route ::
    "cpp_callable_head \<Rightarrow> token list list \<Rightarrow> string \<Rightarrow> bool \<Rightarrow> cpp_constructor_route" where
  "constructor_route head groups cpp_name marked =
     (if \<not> ch_prefix_supported head then (if marked then RejectPrefix else RouteIgnore)
      else if is_copy_or_move_constructor groups cpp_name
      then (if marked then RejectCopyOrMove else RouteIgnore)
      else RouteLower)"

text \<open>The declarations the frontend passes are not empty; \<open>values[0]\<close> reads the first token.\<close>

definition field_shape :: "token list \<Rightarrow> member_shape_error + cpp_field_shape" where
  "field_shape decl =
     (let vs = spellings decl in
      if list_ex (\<lambda>v. v \<in> set vs) [''='', '','', ''*'', ''[['' ] then Inl UndirectField
      else
        let is_static = (hd vs = ''static'');
            field_tokens = (if is_static then tl decl else decl);
            is_const = (field_tokens \<noteq> [] \<and> t_value (hd field_tokens) = ''const'');
            field_tokens' = (if is_const then tl field_tokens else field_tokens)
        in if length field_tokens' < 2 \<or> t_kind (last field_tokens') \<noteq> TIdentifier
           then Inl FieldWithoutName
           else case cpp_type_spelling (butlast field_tokens') of
                  None \<Rightarrow> Inl UnsupportedFieldType
                | Some ty \<Rightarrow> Inr \<lparr>fs_name = t_value (last field_tokens'), fs_type = ty,
                               fs_mutable = (\<not> is_const), fs_static = is_static\<rparr>)"

definition method_shape ::
    "token list \<Rightarrow> nat \<Rightarrow> string list \<Rightarrow> member_shape_error + cpp_method_shape" where
  "method_shape decl opening_index keywords =
     (let prefix_values = spellings (take opening_index decl) in
      case find (\<lambda>v. v \<in> set prefix_values) [''operator'', ''virtual''] of
        Some v \<Rightarrow> Inl (DeferredMemberForm (t_line (decl ! index_of v prefix_values)) v)
      | None \<Rightarrow>
          let method_prefix = take opening_index decl;
              is_static = (method_prefix \<noteq> [] \<and> t_value (hd method_prefix) = ''static'');
              method_prefix' = (if is_static then tl method_prefix else method_prefix);
              return_type = cpp_type_spelling (butlast method_prefix');
              method_token = (if method_prefix' \<noteq> [] then last method_prefix' else hd decl)
          in (case return_type of
               None \<Rightarrow> Inl (MethodNotCanonical (t_line (hd decl)))
             | Some ty \<Rightarrow>
                 if method_prefix' = [] \<or> t_kind method_token \<noteq> TIdentifier
                 then Inl (MethodNotCanonical (t_line (hd decl)))
                 else if t_value method_token \<in> set keywords
                 then Inl (MethodNameKeyword (t_line method_token) (t_value method_token))
                 else Inr \<lparr>ms_name = t_value method_token, ms_line = t_line method_token,
                           ms_return = ty, ms_static = is_static\<rparr>))"

section \<open>Free functions\<close>

datatype function_syntax_error =
    PrefixBeforeMarker nat string string
  | NoFunctionAfterMarker nat string
  | DirectiveAfterMarker nat string
  | TextAfterMarker nat string
  | PointerResult nat string
  | ReferenceResult nat string
  | ForbiddenModifier nat string string
  | UnsupportedReturn nat string bool string
  | NoFunctionName nat string
  | FunctionNameKeyword nat string
  | TokensAfterFunctionName nat string
  | MissingCloseParenthesis nat string
  | QualifiedFunctionNoexcept nat string
  | NoFunctionBody nat string
  | DeclarationNotExported nat string
  | TokensAfterParameters nat string

record cpp_function_head =
  fh_name :: string
  fh_return :: string
  fh_opening :: nat
  fh_offset :: nat

definition boundary_prefix :: "token list \<Rightarrow> token list" where
  "boundary_prefix preceding =
     rev (takeWhile (\<lambda>t. t_value t \<notin> {'';'', ''{'', ''}''}) (rev preceding))"

definition function_declaration_boundary ::
    "string \<Rightarrow> token list \<Rightarrow> directive list \<Rightarrow> nat \<Rightarrow> nat \<Rightarrow> nat \<Rightarrow> nat option \<Rightarrow> string \<Rightarrow>
     function_syntax_error + token list" where
  "function_declaration_boundary src toks directives marker_start marker_line marker_end
       next_marker_start pending_export =
     (let active = filter (\<lambda>t. t_cond t = 0) toks;
          preceding = filter (\<lambda>t. t_end t \<le> marker_start) active;
          prefix = boundary_prefix preceding
      in if prefix \<noteq> [] then
           Inl (PrefixBeforeMarker (t_line (hd prefix)) pending_export (tokens_text prefix))
         else
           let following = filter (\<lambda>t. marker_end \<le> t_start t) active in
           if following = [] \<or>
              (case next_marker_start of None \<Rightarrow> False | Some n \<Rightarrow> n \<le> t_start (hd following))
           then Inl (NoFunctionAfterMarker marker_line pending_export)
           else
             let first = hd following in
             case find (\<lambda>d. marker_end \<le> d_start d \<and> d_start d < t_start first) directives of
               Some d \<Rightarrow> Inl (DirectiveAfterMarker (d_line d) pending_export)
             | None \<Rightarrow>
                 if py_strip (slice src marker_end (t_start first)) \<noteq> []
                 then Inl (TextAfterMarker marker_line pending_export)
                 else Inr following)"

definition return_type_boundary :: "token list \<Rightarrow> nat \<times> string option" where
  "return_type_boundary following =
     (case find (\<lambda>i. t_value (following ! i) = ''('') [0..<length following] of
        None \<Rightarrow> (0, None)
      | Some opn \<Rightarrow>
          if opn < 2 then (0, None) else (opn - 1, cpp_type_spelling (take (opn - 1) following)))"

definition validate_owned_return ::
    "token list \<Rightarrow> nat \<Rightarrow> string \<Rightarrow> function_syntax_error + unit" where
  "validate_owned_return ts line export_name =
     (if ''*'' \<in> set (spellings ts) then Inl (PointerResult line export_name)
      else if list_ex (\<lambda>v. v \<in> {''&'', ''&&''}) (spellings ts) then Inl (ReferenceResult line export_name)
      else Inr ())"

definition function_head ::
    "token list \<Rightarrow> string \<Rightarrow> string list \<Rightarrow> string list \<Rightarrow> function_syntax_error + cpp_function_head" where
  "function_head following pending_export forbidden_prefixes keywords =
     (let first = hd following in
      if t_value first \<in> set forbidden_prefixes \<or> t_value first = ''[[''
      then Inl (ForbiddenModifier (t_line first) pending_export (t_value first))
      else
        let (consumed, return_type) = return_type_boundary following in
        ebind (validate_owned_return (take consumed following) (t_line first) pending_export) (\<lambda>_.
        case return_type of
          None \<Rightarrow> Inl (UnsupportedReturn (t_line first) pending_export
                    (t_kind first = TIdentifier) (t_value first))
        | Some ret \<Rightarrow>
            if length following \<le> consumed \<or> t_kind (following ! consumed) \<noteq> TIdentifier
            then Inl (NoFunctionName (t_line (following ! min consumed (length following - 1))) pending_export)
            else
              let function_token = following ! consumed; cpp_name = t_value function_token in
              if cpp_name \<in> set keywords then Inl (FunctionNameKeyword (t_line function_token) cpp_name)
              else
                let opn = consumed + 1 in
                if length following \<le> opn \<or> t_value (following ! opn) \<noteq> ''(''
                then Inl (TokensAfterFunctionName
                       (t_line (following ! min opn (length following - 1))) cpp_name)
                else Inr \<lparr>fh_name = cpp_name, fh_return = ret, fh_opening = opn,
                          fh_offset = t_start function_token\<rparr>))"

function function_group_loop ::
    "token list \<Rightarrow> nat \<Rightarrow> nat \<Rightarrow> nat \<Rightarrow> token list list \<Rightarrow> (token list list \<times> nat) option" where
  "function_group_loop toks cursor group_start nesting groups =
     (if cursor < length toks then
        let v = t_value (toks ! cursor) in
        if v = ''('' then function_group_loop toks (cursor + 1) group_start (nesting + 1) groups
        else if v = '')'' then
          if nesting = 0
          then Some (close_groups (groups @ [slice toks group_start cursor]), cursor)
          else function_group_loop toks (cursor + 1) group_start (nesting - 1) groups
        else if v = '','' \<and> nesting = 0 then
          function_group_loop toks (cursor + 1) (cursor + 1) nesting
            (groups @ [slice toks group_start cursor])
        else if v \<in> {''{'', '';''} \<and> nesting = 0 then None
        else function_group_loop toks (cursor + 1) group_start nesting groups
      else None)"
  by pat_completeness auto
termination
  by (relation "measure (\<lambda>(toks, cursor, _). length toks - cursor)") auto

declare function_group_loop.simps [simp del]

definition function_parameters ::
    "token list \<Rightarrow> nat \<Rightarrow> nat \<Rightarrow> string \<Rightarrow> function_syntax_error + (token list list \<times> nat)" where
  "function_parameters following opening_index marker_line export_name =
     (case function_group_loop following (opening_index + 1) (opening_index + 1) 0 [] of
        None \<Rightarrow> Inl (MissingCloseParenthesis marker_line export_name)
      | Some r \<Rightarrow> Inr r)"

definition function_tail_start ::
    "token list \<Rightarrow> nat \<Rightarrow> nat \<Rightarrow> string \<Rightarrow> function_syntax_error + (bool \<times> nat)" where
  "function_tail_start following close_index marker_line export_name =
     (let cursor = close_index + 1;
          is_noexcept = (cursor < length following \<and> t_value (following ! cursor) = ''noexcept'');
          cursor' = (if is_noexcept then cursor + 1 else cursor)
      in if is_noexcept \<and> cursor' < length following \<and> t_value (following ! cursor') = ''(''
         then Inl (QualifiedFunctionNoexcept (t_line (following ! cursor')) export_name)
         else if length following \<le> cursor' then Inl (NoFunctionBody marker_line export_name)
         else Inr (is_noexcept, cursor'))"

definition validate_function_body_opening :: "token \<Rightarrow> string \<Rightarrow> function_syntax_error + unit" where
  "validate_function_body_opening opn export_name =
     (if t_value opn = '';'' then Inl (DeclarationNotExported (t_line opn) export_name)
      else if t_value opn \<noteq> ''{'' then Inl (TokensAfterParameters (t_line opn) export_name)
      else Inr ())"

section \<open>Untagged global functions\<close>

datatype global_function_kind = GlobalDefinition | GlobalDeclaration

record cpp_global_function_shape =
  gf_kind :: global_function_kind
  gf_terminator :: nat

function match_loop :: "token list \<Rightarrow> nat \<Rightarrow> int \<Rightarrow> nat option" where
  "match_loop toks i depth =
     (if i < length toks then
        if t_value (toks ! i) = ''('' then match_loop toks (i + 1) (depth + 1)
        else if t_value (toks ! i) = '')'' then
          if depth - 1 = 0 then Some i else match_loop toks (i + 1) (depth - 1)
        else match_loop toks (i + 1) depth
      else None)"
  by pat_completeness auto
termination
  by (relation "measure (\<lambda>(toks, i, depth). length toks - i)") auto

declare match_loop.simps [simp del]

definition matching_parenthesis :: "token list \<Rightarrow> nat \<Rightarrow> nat option" where
  "matching_parenthesis toks opn = match_loop toks opn 0"

text \<open>The trailing return type: the cursor moves to the next brace or semicolon.\<close>

function skip_to_terminator :: "token list \<Rightarrow> nat \<Rightarrow> nat" where
  "skip_to_terminator toks cursor =
     (if cursor < length toks \<and> t_value (toks ! cursor) \<notin> {''{'', '';''}
      then skip_to_terminator toks (cursor + 1) else cursor)"
  by pat_completeness auto
termination
  by (relation "measure (\<lambda>(toks, cursor). length toks - cursor)") auto

declare skip_to_terminator.simps [simp del]

text \<open>\<open>cursor < len(tokens) and tokens[cursor].value == v\<close>.\<close>

definition value_at :: "token list \<Rightarrow> nat \<Rightarrow> string \<Rightarrow> bool" where
  "value_at toks i v = (i < length toks \<and> t_value (toks ! i) = v)"

definition skip_noexcept :: "token list \<Rightarrow> nat \<Rightarrow> nat option" where
  "skip_noexcept toks cursor =
     (if value_at toks cursor ''noexcept'' then
        if value_at toks (cursor + 1) ''('' then
          map_option (\<lambda>c. c + 1) (matching_parenthesis toks (cursor + 1))
        else Some (cursor + 1)
      else Some cursor)"

definition function_terminator :: "token list \<Rightarrow> nat \<Rightarrow> nat \<Rightarrow> nat option" where
  "function_terminator toks name_index namespace_depth =
     (if \<not> value_at toks (name_index + 1) ''('' then None
      else case matching_parenthesis toks (name_index + 1) of
        None \<Rightarrow> None
      | Some closing \<Rightarrow>
          (case skip_noexcept toks (closing + 1) of
             None \<Rightarrow> None
           | Some cursor \<Rightarrow>
               let cursor' = (if value_at toks cursor ''->''
                              then skip_to_terminator toks (cursor + 1) else cursor)
               in if cursor' < length toks \<and> t_brace (toks ! cursor') = namespace_depth \<and>
                     t_value (toks ! cursor') \<in> {''{'', '';''}
                  then Some cursor' else None))"

definition global_function_shape ::
    "token list \<Rightarrow> nat \<Rightarrow> nat \<Rightarrow> cpp_global_function_shape option" where
  "global_function_shape toks name_index namespace_depth =
     (case function_terminator toks name_index namespace_depth of
        None \<Rightarrow> None
      | Some terminator \<Rightarrow>
          let prefix = boundary_prefix (take name_index toks) in
          if prefix = [] \<or> ''='' \<in> set (spellings prefix) then None
          else if t_value (last prefix) \<in> {''.'', ''->'', ''::'', ''('', ''['', '',''} then None
          else Some \<lparr>gf_kind = (if t_value (toks ! terminator) = ''{''
                                then GlobalDefinition else GlobalDeclaration),
                     gf_terminator = terminator\<rparr>)"

section \<open>Source routing\<close>

datatype cpp_marker_policy = PolicyIgnore | ParseFunctions | DeferToHeader | RejectC | RejectNonCpp

record cpp_source_route =
  sr_suffix :: string
  sr_inspect :: bool
  sr_policy :: cpp_marker_policy

definition py_lower_char :: "char \<Rightarrow> char" where
  "py_lower_char c =
     (let n = code_point c in
      if (65 \<le> n \<and> n \<le> 90) \<or> (192 \<le> n \<and> n \<le> 222 \<and> n \<noteq> 215) then char_of (n + 32) else c)"

definition cpp_implementation_suffixes :: "string list" where
  "cpp_implementation_suffixes = [''.cc'', ''.cpp'', ''.cxx'']"

definition cpp_header_suffixes :: "string list" where
  "cpp_header_suffixes = [''.h'', ''.hh'', ''.hpp'', ''.hxx'']"

definition cpp_helper_suffixes :: "string list" where
  "cpp_helper_suffixes = [''.inl'', ''.inc'', ''.ipp'', ''.tpp'']"

definition source_route :: "string \<Rightarrow> cpp_source_route" where
  "source_route suffix =
     (let normalized = map py_lower_char suffix in
      if normalized \<in> set cpp_implementation_suffixes then
        \<lparr>sr_suffix = normalized, sr_inspect = True, sr_policy = ParseFunctions\<rparr>
      else if normalized \<in> set cpp_header_suffixes then
        \<lparr>sr_suffix = normalized, sr_inspect = True, sr_policy = DeferToHeader\<rparr>
      else if normalized = ''.c'' then
        \<lparr>sr_suffix = normalized, sr_inspect = True, sr_policy = RejectC\<rparr>
      else if normalized \<in> set cpp_helper_suffixes then
        \<lparr>sr_suffix = normalized, sr_inspect = True, sr_policy = RejectNonCpp\<rparr>
      else \<lparr>sr_suffix = normalized, sr_inspect = False, sr_policy = PolicyIgnore\<rparr>)"

datatype forbidden_marker = DirectCBinding | MarkerOutsideImplementation

definition forbidden_marker_message :: "cpp_source_route \<Rightarrow> forbidden_marker option" where
  "forbidden_marker_message route =
     (case sr_policy route of
        RejectC \<Rightarrow> Some DirectCBinding
      | RejectNonCpp \<Rightarrow> Some MarkerOutsideImplementation
      | _ \<Rightarrow> None)"

definition first_owned_jni_bootstrap :: "token list \<Rightarrow> token option" where
  "first_owned_jni_bootstrap toks =
     map_option (\<lambda>i. toks ! i)
       (find (\<lambda>i. t_value (toks ! i) = ''JNI_OnLoad'' \<and> t_value (toks ! (i + 1)) = ''('')
          [0..<length toks - 1])"

section \<open>JSI registration mode\<close>

datatype jsi_decision_error = InvalidFeatureIdentity string | AsyncNeedsFeature

datatype jsi_registration_kind = RegisterSync | RegisterAsync

record jsi_binding_mode =
  jm_feature_id :: "string option"
  jm_suffix :: string

definition feature_scoped :: "jsi_binding_mode \<Rightarrow> bool" where
  "feature_scoped m = (jm_feature_id m \<noteq> None)"

definition feature_prefix :: string where
  "feature_prefix = ''supernote:feature:''"

definition hex_char :: "char \<Rightarrow> bool" where
  "hex_char c = (ascii_digit c \<or> (97 \<le> code_point c \<and> code_point c \<le> 102))"

text \<open>\<open>re.fullmatch(r"supernote:feature:[0-9a-f]{16}", feature_id)\<close>.\<close>

definition is_feature_identity :: "string \<Rightarrow> bool" where
  "is_feature_identity s =
     (starts_at feature_prefix s 0 \<and> length s = length feature_prefix + 16 \<and>
      list_all hex_char (drop (length feature_prefix) s))"

definition binding_mode :: "string option \<Rightarrow> jsi_decision_error + jsi_binding_mode" where
  "binding_mode feature_id =
     (case feature_id of
        None \<Rightarrow> Inr \<lparr>jm_feature_id = None, jm_suffix = []\<rparr>
      | Some f \<Rightarrow>
          if \<not> is_feature_identity f then Inl (InvalidFeatureIdentity f)
          else Inr \<lparr>jm_feature_id = Some f,
                    jm_suffix = (if starts_at feature_prefix f 0
                                 then drop (length feature_prefix) f else f)\<rparr>)"

definition registration_kind ::
    "bool \<Rightarrow> jsi_binding_mode \<Rightarrow> jsi_decision_error + jsi_registration_kind" where
  "registration_kind async_export mode =
     (if \<not> async_export then Inr RegisterSync
      else if \<not> feature_scoped mode then Inl AsyncNeedsFeature
      else Inr RegisterAsync)"

definition async_helpers_required :: "jsi_binding_mode \<Rightarrow> bool \<Rightarrow> bool \<Rightarrow> bool \<Rightarrow> bool" where
  "async_helpers_required mode has_async_export has_async_method extra_uses_async =
     (feature_scoped mode \<and> (has_async_export \<or> has_async_method \<or> extra_uses_async))"

end
