(* ===== verification/Cpp_Shapes_Props.thy ===== *)
theory Cpp_Shapes_Props
  imports Cpp_Shapes
begin

text \<open>
  What the structural decisions accept: the parenthesis matchers of three modules agree, an accepted
  class envelope is a balanced \<open>class Name { ... };\<close>, and the accepted member and constructor
  suffixes are listed exhaustively.
\<close>

section \<open>One notion of a closing parenthesis\<close>

text \<open>The reference: the first closing parenthesis at nesting \<open>depth\<close> from \<open>i\<close> on.\<close>

function close_from :: "token list \<Rightarrow> nat \<Rightarrow> nat \<Rightarrow> nat option" where
  "close_from toks i depth =
     (if i < length toks then
        if t_value (toks ! i) = ''('' then close_from toks (i + 1) (depth + 1)
        else if t_value (toks ! i) = '')'' then
          if depth = 0 then Some i else close_from toks (i + 1) (depth - 1)
        else close_from toks (i + 1) depth
      else None)"
  by pat_completeness auto
termination
  by (relation "measure (\<lambda>(toks, i, depth). length toks - i)") auto

declare close_from.simps [simp del]

lemma group_loop_close: "map_option snd (group_loop toks i gs depth groups) = close_from toks i depth"
proof (induction toks i gs depth groups rule: group_loop.induct)
  case (1 toks i gs depth groups)
  show ?case
  proof (cases "i < length toks")
    case False
    then show ?thesis by (simp add: group_loop.simps [of toks i] close_from.simps [of toks i])
  next
    case True
    note step = group_loop.simps [of toks i gs depth groups] close_from.simps [of toks i depth]
    note IH = "1.IH" [OF True refl]
    show ?thesis
      using True IH unfolding step Let_def by (auto split: if_splits)
  qed
qed

lemma match_loop_close: "match_loop toks i (int depth + 1) = close_from toks i depth"
proof (induction toks i depth rule: close_from.induct)
  case (1 toks i depth)
  show ?case
  proof (cases "i < length toks")
    case False
    then show ?thesis by (simp add: match_loop.simps [of toks i] close_from.simps [of toks i])
  next
    case True
    consider (op) "t_value (toks ! i) = ''(''" | (stop) "t_value (toks ! i) = '')''" "depth = 0"
      | (cl) "t_value (toks ! i) = '')''" "depth \<noteq> 0"
      | (other) "t_value (toks ! i) \<noteq> ''(''" "t_value (toks ! i) \<noteq> '')''" by blast
    then show ?thesis
    proof cases
      case op
      with True "1.IH"(1) show ?thesis
        by (simp add: match_loop.simps [of toks i] close_from.simps [of toks i] algebra_simps)
    next
      case stop
      with True show ?thesis
        by (simp add: match_loop.simps [of toks i] close_from.simps [of toks i])
    next
      case cl
      with True "1.IH"(2) show ?thesis
        by (simp add: match_loop.simps [of toks i] close_from.simps [of toks i] of_nat_diff)
    next
      case other
      with True "1.IH"(3) show ?thesis
        by (simp add: match_loop.simps [of toks i] close_from.simps [of toks i])
    qed
  qed
qed

lemma function_group_loop_agrees:
  "function_group_loop toks i gs depth groups = Some r \<Longrightarrow> group_loop toks i gs depth groups = Some r"
proof (induction toks i gs depth groups rule: function_group_loop.induct)
  case (1 toks i gs depth groups)
  then have True: "i < length toks"
    by (auto simp: function_group_loop.simps [of toks i] split: if_splits)
  note step = function_group_loop.simps [of toks i gs depth groups] group_loop.simps [of toks i gs depth groups]
  show ?case
    using True "1.IH" [OF True refl] "1.prems" unfolding step Let_def by (auto split: if_splits)
qed

text \<open>
  The three parenthesis walks of the front end agree.  At an opening parenthesis,
  \<open>parameter_groups\<close> finds a close exactly when \<open>_matching_parenthesis\<close> does, and the same one;
  and whatever \<open>function_parameters\<close> accepts, \<open>parameter_groups\<close> splits in the same way.
\<close>

theorem parenthesis_walks_agree:
  assumes "opn < length toks" "t_value (toks ! opn) = ''(''"
  shows "map_option snd (parameter_groups toks opn) = matching_parenthesis toks opn \<and>
         (function_parameters toks opn line name = Inr r \<longrightarrow> parameter_groups toks opn = Some r)"
proof
  have "matching_parenthesis toks opn = match_loop toks (opn + 1) (int 0 + 1)"
    using assms by (simp add: matching_parenthesis_def match_loop.simps [of toks opn])
  then show "map_option snd (parameter_groups toks opn) = matching_parenthesis toks opn"
    by (simp add: parameter_groups_def group_loop_close match_loop_close del: of_nat_0)
  show "function_parameters toks opn line name = Inr r \<longrightarrow> parameter_groups toks opn = Some r"
    using function_group_loop_agrees
    by (auto simp: function_parameters_def parameter_groups_def split: option.splits)
qed

theorem parenthesis_walks_agree_witness:
  "matching_parenthesis (plain_tokens [''('', ''a'', ''('', '')'', '')'']) 0 = Some 4 \<and>
   parameter_groups (plain_tokens [''('', ''a'', ''('', '')'', '')'']) 0 =
     Some ([plain_tokens [''('', ''a'', ''('', '')'', '')''] ! 1 #
            slice (plain_tokens [''('', ''a'', ''('', '')'', '')'']) 2 4], 4)"
proof -
  let ?t = "plain_tokens [''('', ''a'', ''('', '')'', '')'']"
  have "0 < length ?t" "t_value (?t ! 0) = ''(''" by code_simp+
  note agree = parenthesis_walks_agree [OF this]
  have "function_parameters ?t 0 1 ''f'' = Inr ([?t ! 1 # slice ?t 2 4], 4)" by code_simp
  with agree have "parameter_groups ?t 0 = Some ([?t ! 1 # slice ?t 2 4], 4)" by blast
  moreover from this agree have "matching_parenthesis ?t 0 = Some 4" by (metis option.map(2) snd_conv)
  ultimately show ?thesis by blast
qed

section \<open>Class envelopes\<close>

lemma class_close_loop_spec:
  assumes "class_close_loop ts cursor depth = Some c" "0 < depth" "opn \<le> cursor"
    "brace_sum (spellings (slice ts opn cursor)) = int depth"
  shows "cursor \<le> c \<and> c < length ts \<and> t_value (ts ! c) = ''}'' \<and>
     brace_sum (spellings (slice ts opn (c + 1))) = 0 \<and>
     (\<forall>k. cursor \<le> k \<and> k \<le> c \<longrightarrow> 0 < brace_sum (spellings (slice ts opn k)))"
  using assms
proof (induction ts cursor depth rule: class_close_loop.induct)
  case (1 ts cursor depth)
  let ?v = "t_value (ts ! cursor)"
  have more: "cursor < length ts"
    using "1.prems"(1) by (auto simp: class_close_loop.simps [of ts cursor] split: if_splits)
  have ext: "spellings (slice ts opn (Suc cursor)) = spellings (slice ts opn cursor) @ [?v]"
    using more "1.prems"(3) by (simp add: slice_Suc)
  have here: "0 < brace_sum (spellings (slice ts opn cursor))" using "1.prems"(2,4) by simp
  have widen: "\<forall>k. cursor \<le> k \<and> k \<le> c \<longrightarrow> 0 < brace_sum (spellings (slice ts opn k))"
    if "\<forall>k. Suc cursor \<le> k \<and> k \<le> c \<longrightarrow> 0 < brace_sum (spellings (slice ts opn k))"
    using that here by (metis Suc_leI le_neq_implies_less)
  consider (op) "?v = ''{''" | (stop) "?v \<noteq> ''{''" "?v = ''}''" "depth - 1 = 0"
    | (cl) "?v \<noteq> ''{''" "?v = ''}''" "depth - 1 \<noteq> 0" | (other) "?v \<noteq> ''{''" "?v \<noteq> ''}''" by blast
  then show ?case
  proof cases
    case op
    then have "class_close_loop ts (cursor + 1) (depth + 1) = Some c"
      using more "1.prems"(1) by (simp add: class_close_loop.simps [of ts cursor])
    from "1.IH"(1) [OF more refl op this] "1.prems"(3,4) ext op widen show ?thesis by simp
  next
    case stop
    then have "c = cursor" using more "1.prems"(1) by (simp add: class_close_loop.simps [of ts cursor])
    moreover have "depth = 1" using stop "1.prems"(2) by simp
    ultimately show ?thesis using stop more ext "1.prems"(4) here by auto
  next
    case cl
    then have "class_close_loop ts (cursor + 1) (depth - 1) = Some c"
      using more "1.prems"(1) by (simp add: class_close_loop.simps [of ts cursor])
    from "1.IH"(2) [OF more refl cl this] "1.prems"(3,4) ext cl widen show ?thesis by (simp add: of_nat_diff)
  next
    case other
    then have "class_close_loop ts (cursor + 1) depth = Some c"
      using more "1.prems"(1) by (simp add: class_close_loop.simps [of ts cursor])
    from "1.IH"(3) [OF more refl other this] "1.prems"(2-4) ext other widen show ?thesis by simp
  qed
qed

lemma class_body_open_ok:
  assumes "class_body_open ts first name = Inr opn"
  shows "opn = 2 \<and> 2 < length ts \<and> t_value (ts ! 2) = ''{''"
  using assms
  by (auto simp: class_body_open_def Let_def slice_def find_Some_iff numeral_2_eq_2
      split: option.splits if_splits)

text \<open>
  An accepted class definition is \<open>class\<close> or \<open>struct\<close>, an identifier, and at once the body:
  its closing brace is the one that matches the opening brace (the depth stays positive up to it),
  and a semicolon follows.
\<close>

theorem class_extent_is_balanced:
  assumes "class_definition_extent ts line = Inr e"
  shows "ce_kind e \<in> {''class'', ''struct''} \<and> ce_kind e = t_value (ts ! 0) \<and>
     t_kind (ts ! 1) = TIdentifier \<and> ce_name e = t_value (ts ! 1) \<and>
     ce_open e = 2 \<and> t_value (ts ! 2) = ''{'' \<and> 2 < ce_close e \<and>
     t_value (ts ! ce_close e) = ''}'' \<and> brace_sum (spellings (slice ts 2 (ce_close e + 1))) = 0 \<and>
     (\<forall>k. 2 < k \<and> k \<le> ce_close e \<longrightarrow> 0 < brace_sum (spellings (slice ts 2 k))) \<and>
     ce_close e + 1 < length ts \<and> t_value (ts ! (ce_close e + 1)) = '';''"
proof -
  from assms obtain first name opn close where
    id: "class_identity ts line = Inr (first, name)" and
    op: "class_body_open ts first name = Inr opn" and
    cl: "class_body_close ts first name opn = Inr close" and
    semi: "\<not> (length ts \<le> close + 1 \<or> t_value (ts ! (close + 1)) \<noteq> '';'')" and
    e: "e = \<lparr>ce_kind = t_value first, ce_name = name, ce_open = opn, ce_close = close\<rparr>"
    by (auto simp: class_definition_extent_def split: if_splits)
  from class_body_open_ok [OF op] have opn: "opn = 2" "2 < length ts" "t_value (ts ! 2) = ''{''"
    by simp_all
  from cl opn have loop: "class_close_loop ts 3 1 = Some close"
    by (simp add: class_body_close_def split: option.splits)
  have "slice ts 2 3 = [ts ! 2]" using opn by (simp add: slice_Suc [of 2 2 ts, simplified])
  then have "brace_sum (spellings (slice ts 2 3)) = int 1" using opn by simp
  from class_close_loop_spec [OF loop _ _ this]
  have "3 \<le> close" "t_value (ts ! close) = ''}''" "brace_sum (spellings (slice ts 2 (close + 1))) = 0"
    "\<forall>k. 3 \<le> k \<and> k \<le> close \<longrightarrow> 0 < brace_sum (spellings (slice ts 2 k))"
    by simp_all
  moreover from id have "first = ts ! 0" "t_value first \<in> {''class'', ''struct''}"
    "t_kind (ts ! 1) = TIdentifier" "name = t_value (ts ! 1)"
    by (auto simp: class_identity_def split: list.splits if_splits)
  ultimately show ?thesis using semi opn by (auto simp: e)
qed

theorem class_extent_is_balanced_witness:
  "class_definition_extent (plain_tokens [''struct'', ''P'', ''{'', ''{'', ''}'', ''}'', '';'']) 1 =
     Inr \<lparr>ce_kind = ''struct'', ce_name = ''P'', ce_open = 2, ce_close = 5\<rparr> \<and>
   brace_sum (spellings (slice (plain_tokens [''struct'', ''P'', ''{'', ''{'', ''}'', ''}'', '';'']) 2 6)) = 0"
proof -
  let ?t = "plain_tokens [''struct'', ''P'', ''{'', ''{'', ''}'', ''}'', '';'']"
  have ok: "class_definition_extent ?t 1 =
      Inr \<lparr>ce_kind = ''struct'', ce_name = ''P'', ce_open = 2, ce_close = 5\<rparr>" by code_simp
  from class_extent_is_balanced [OF ok] ok show ?thesis by simp
qed

section \<open>Suffix languages\<close>

text \<open>The qualifier sequences with their flags, and the suffixes that may follow them.\<close>

definition qualifier_forms :: "bool \<Rightarrow> (string list \<times> bool \<times> bool) set" where
  "qualifier_forms allow_const =
     {([], False, False), ([''noexcept''], False, True)} \<union>
     (if allow_const
      then {([''const''], True, False), ([''const'', ''noexcept''], True, True),
            ([''noexcept'', ''const''], True, True)}
      else {})"

lemma spellings_eq_Cons: "spellings ts = v # vs \<longleftrightarrow> (\<exists>t us. ts = t # us \<and> t_value t = v \<and> spellings us = vs)"
  by (cases ts) auto

lemma spellings_eq_Nil [simp]: "spellings ts = [] \<longleftrightarrow> ts = []"
  by (cases ts) auto

definition default_tails :: "bool \<Rightarrow> string list set" where
  "default_tails allowed = insert [] (if allowed then {[''='', ''default'']} else {})"

lemma qualifiers_both:
  "member_qualifiers ac ad True True ts = Inr r \<longleftrightarrow>
     r = (True, True) \<and> spellings ts \<in> default_tails ad"
  by (cases ts) (auto simp: default_tails_def spellings_eq_Cons length_Suc_conv)

lemma qualifiers_const:
  "member_qualifiers ac ad True False ts = Inr r \<longleftrightarrow>
     (\<exists>q tail. spellings ts = q @ tail \<and> tail \<in> default_tails ad \<and>
        (q = [] \<and> r = (True, False) \<or> q = [''noexcept''] \<and> r = (True, True)))"
  by (cases ts) (auto simp: default_tails_def spellings_eq_Cons length_Suc_conv qualifiers_both
      neq_Nil_conv Cons_eq_append_conv)

lemma qualifiers_noexcept:
  "member_qualifiers ac ad False True ts = Inr r \<longleftrightarrow>
     (\<exists>q tail. spellings ts = q @ tail \<and> tail \<in> default_tails ad \<and>
        (q = [] \<and> r = (False, True) \<or> ac \<and> q = [''const''] \<and> r = (True, True)))"
  by (cases ts) (auto simp: default_tails_def spellings_eq_Cons length_Suc_conv qualifiers_both
      neq_Nil_conv Cons_eq_append_conv)

text \<open>
  C35. The member suffixes accepted are exactly \<open>const\<close> (where allowed) and bare \<open>noexcept\<close>, each at
  most once and in either order, then \<open>= default\<close> where allowed; the flags returned say which of the
  two were there.
\<close>

theorem member_suffix_language:
  "parse_member_qualifiers ts allow_const allow_default = Inr (c, n) \<longleftrightarrow>
     (\<exists>q tail. spellings ts = q @ tail \<and> (q, c, n) \<in> qualifier_forms allow_const \<and>
        tail \<in> default_tails allow_default)"
proof (cases ts)
  case Nil
  then show ?thesis by (auto simp: parse_member_qualifiers_def qualifier_forms_def default_tails_def)
next
  case (Cons t rest)
  consider (const) "t_value t = ''const''" "allow_const"
    | (noex) "t_value t = ''noexcept''"
    | (other) "t_value t \<noteq> ''noexcept''" "\<not> (t_value t = ''const'' \<and> allow_const)" by blast
  then show ?thesis
  proof cases
    case const
    with Cons show ?thesis
      by (auto simp: parse_member_qualifiers_def qualifiers_const qualifier_forms_def
          default_tails_def Cons_eq_append_conv)
  next
    case noex
    with Cons show ?thesis
      by (auto simp: parse_member_qualifiers_def qualifiers_noexcept qualifier_forms_def
          default_tails_def Cons_eq_append_conv spellings_eq_Cons neq_Nil_conv split: if_splits)
  next
    case other
    with Cons show ?thesis
      by (auto simp: parse_member_qualifiers_def qualifier_forms_def default_tails_def
          Cons_eq_append_conv spellings_eq_Cons length_Suc_conv split: if_splits)
  qed
qed

definition constructor_tails :: "(string list \<times> bool) set" where
  "constructor_tails =
     {([], False), ([''='', ''default''], False), ([''='', ''delete''], True)} \<union>
     {('':'' # x # xs, False) | x xs. True}"

text \<open>
  The constructor suffixes accepted are a bare \<open>noexcept\<close> or nothing, then nothing,
  \<open>= default\<close>, \<open>= delete\<close> or a non-empty initializer list; only \<open>= delete\<close> reports the
  constructor as deleted.
\<close>

theorem constructor_suffix_language:
  "constructor_suffix ts = Inr (n, d) \<longleftrightarrow>
     (\<exists>q tail. spellings ts = q @ tail \<and> (q, n) \<in> {([], False), ([''noexcept''], True)} \<and>
        (tail, d) \<in> constructor_tails)"
proof -
  have rest: "(if us = [] then Inr (b, False)
       else if is_default_or_deleted_tail us then Inr (b, t_value (us ! 1) = ''delete'')
       else if t_value (hd us) = '':'' \<and> 1 < length us then Inr (b, False)
       else Inl (UnsupportedConstructorSuffix (t_line (hd us)))) = Inr (n, d) \<longleftrightarrow>
     b = n \<and> (spellings us, d) \<in> constructor_tails" for us :: "token list" and b
    by (cases us; cases "tl us")
      (auto simp: is_default_or_deleted_tail_def constructor_tails_def spellings_eq_Cons length_Suc_conv
        split: if_splits)
  show ?thesis
  proof (cases "ts \<noteq> [] \<and> t_value (hd ts) = ''noexcept''")
    case True
    then obtain t us where ts: "ts = t # us" "t_value t = ''noexcept''" by (cases ts) auto
    have "constructor_suffix ts = Inr (n, d) \<longleftrightarrow>
        \<not> (us \<noteq> [] \<and> t_value (hd us) = ''('') \<and> True = n \<and> (spellings us, d) \<in> constructor_tails"
      using rest [of us True] ts by (auto simp: constructor_suffix_def Let_def)
    also have "\<dots> \<longleftrightarrow> n \<and> (spellings us, d) \<in> constructor_tails"
      by (cases us) (auto simp: constructor_tails_def)
    finally show ?thesis using ts by (auto simp: constructor_tails_def)
  next
    case False
    then have no: "(ts \<noteq> [] \<and> t_value (hd ts) = ''noexcept'') = False" by blast
    have "constructor_suffix ts =
      (if ts = [] then Inr (False, False)
       else if is_default_or_deleted_tail ts then Inr (False, t_value (ts ! 1) = ''delete'')
       else if t_value (hd ts) = '':'' \<and> 1 < length ts then Inr (False, False)
       else Inl (UnsupportedConstructorSuffix (t_line (hd ts))))"
      unfolding constructor_suffix_def Let_def no by simp
    then have "constructor_suffix ts = Inr (n, d) \<longleftrightarrow>
        False = n \<and> (spellings ts, d) \<in> constructor_tails"
      by (simp only: rest)
    also have "\<dots> \<longleftrightarrow>
      (\<exists>q tail. spellings ts = q @ tail \<and> (q, n) \<in> {([], False), ([''noexcept''], True)} \<and>
        (tail, d) \<in> constructor_tails)"
    proof (cases ts)
      case Nil
      then show ?thesis by auto
    next
      case (Cons t us)
      with False have "t_value t \<noteq> ''noexcept''" by simp
      with Cons show ?thesis by auto
    qed
    finally show ?thesis .
  qed
qed

end
