(* ===== verification/Source_Intent.thy ===== *)
theory Source_Intent
  imports Model_Prelude
begin

text \<open>
  The intent a declaration carries: \<^verbatim>\<open>SupernoteMarker\<close>, \<^verbatim>\<open>DeclarationTarget\<close>,
  \<^verbatim>\<open>MarkerOccurrence\<close> and \<^verbatim>\<open>SourceIntent\<close> of \<^verbatim>\<open>source_models.py\<close>, with the two enums of
  \<^verbatim>\<open>semantic.py\<close> that an intent resolves to.  A frozen dataclass that validates itself in
  \<open>__post_init__\<close> is a record with a \<open>mk_\<close> function returning either the record or the error.
\<close>

section \<open>Enums\<close>

datatype supernote_marker = MObject | MValue | MExport | MInternal | MAsync | MConstructor

definition all_markers :: "supernote_marker list" where
  "all_markers = [MObject, MValue, MExport, MInternal, MAsync, MConstructor]"

fun marker_name :: "supernote_marker \<Rightarrow> string" where
  "marker_name MObject = ''SupernotePluginObject''"
| "marker_name MValue = ''SupernotePluginValue''"
| "marker_name MExport = ''SupernotePluginExport''"
| "marker_name MInternal = ''SupernotePluginInternal''"
| "marker_name MAsync = ''SupernotePluginAsync''"
| "marker_name MConstructor = ''SupernoteConstructor''"

datatype declaration_target = TgFunction | TgClass | TgEnum | TgMethod | TgField | TgConstructor

datatype declaration_role = RoleExported | RoleInternal | RoleOrdinary

datatype execution_mode = ExecSync | ExecAsync

lemma all_markers_UNIV [simp]: "set all_markers = UNIV"
  by (auto simp: all_markers_def) (metis supernote_marker.exhaust)

lemma marker_name_inject [simp]: "marker_name a = marker_name b \<longleftrightarrow> a = b"
  by (cases a; cases b) simp_all

section \<open>Source intent\<close>

datatype source_model_error =
    MarkerPosition
  | DuplicateMarker supernote_marker
  | ExportAndInternal
  | ConstructorMarkersOnly
  | ClassMarkers
  | EnumMarkers
  | FieldMarkers
  | ConstructorMarkerMisplaced
  | TypeMarkerMisplaced
  | AsyncWithoutReachability
  | MissingReachability

record marker_occurrence =
  mo_marker :: supernote_marker
  mo_line :: int
  mo_column :: int

record source_intent =
  si_target :: declaration_target
  si_occurrences :: "marker_occurrence list"

definition mk_occurrence :: "supernote_marker \<Rightarrow> int \<Rightarrow> int \<Rightarrow> source_model_error + marker_occurrence" where
  "mk_occurrence m line column =
     (if line < 1 \<or> column < 1 then Inl MarkerPosition
      else Inr \<lparr>mo_marker = m, mo_line = line, mo_column = column\<rparr>)"

definition intent_markers :: "source_intent \<Rightarrow> supernote_marker list" where
  "intent_markers i = map mo_marker (si_occurrences i)"

definition marker_set :: "source_intent \<Rightarrow> supernote_marker set" where
  "marker_set i = set (intent_markers i)"

text \<open>\<open>__post_init__\<close>, check by check.\<close>

definition target_markers_check ::
    "declaration_target \<Rightarrow> supernote_marker set \<Rightarrow> source_model_error + unit" where
  "target_markers_check target ms =
     (case target of
        TgConstructor \<Rightarrow> raise_if (ms - {MConstructor} \<noteq> {}) ConstructorMarkersOnly
      | TgClass \<Rightarrow> raise_if (ms \<noteq> {} \<and> ms \<notin> {{MObject}, {MValue}}) ClassMarkers
      | TgEnum \<Rightarrow> raise_if (ms \<noteq> {MValue}) EnumMarkers
      | TgField \<Rightarrow> raise_if (ms \<noteq> {} \<and> ms \<noteq> {MExport}) FieldMarkers
      | _ \<Rightarrow>
          ebind (raise_if (MConstructor \<in> ms) ConstructorMarkerMisplaced) (\<lambda>_.
          ebind (raise_if (ms \<inter> {MObject, MValue} \<noteq> {}) TypeMarkerMisplaced) (\<lambda>_.
          ebind (raise_if (MAsync \<in> ms \<and> MExport \<notin> ms \<and> MInternal \<notin> ms)
                   AsyncWithoutReachability) (\<lambda>_.
          raise_if (ms \<noteq> {} \<and> ms \<inter> {MExport, MInternal} = {}) MissingReachability))))"

text \<open>\<open>next(marker for marker in markers if markers.count(marker) > 1)\<close>.\<close>

definition first_repeated :: "supernote_marker list \<Rightarrow> supernote_marker option" where
  "first_repeated ms = find (\<lambda>m. 1 < count_list ms m) ms"

definition mk_intent ::
    "declaration_target \<Rightarrow> marker_occurrence list \<Rightarrow> source_model_error + source_intent" where
  "mk_intent target occurrences =
     (let i = \<lparr>si_target = target, si_occurrences = occurrences\<rparr>;
          ms = intent_markers i
      in case first_repeated ms of
           Some d \<Rightarrow> Inl (DuplicateMarker d)
         | None \<Rightarrow>
             ebind (raise_if (MExport \<in> set ms \<and> MInternal \<in> set ms) ExportAndInternal) (\<lambda>_.
             ebind (target_markers_check target (set ms)) (\<lambda>_. Inr i)))"

definition intent_from_markers ::
    "declaration_target \<Rightarrow> supernote_marker list \<Rightarrow> int \<Rightarrow> source_model_error + source_intent" where
  "intent_from_markers target ms first_line =
     ebind (emap (\<lambda>(k, m). mk_occurrence m (first_line + int k) 1) (enumerated ms)) (mk_intent target)"

definition intent_role :: "source_intent \<Rightarrow> declaration_role" where
  "intent_role i =
     (if MExport \<in> marker_set i then RoleExported
      else if MInternal \<in> marker_set i then RoleInternal else RoleOrdinary)"

definition intent_execution :: "source_intent \<Rightarrow> execution_mode" where
  "intent_execution i = (if MAsync \<in> marker_set i then ExecAsync else ExecSync)"

definition selects_constructor :: "source_intent \<Rightarrow> bool" where
  "selects_constructor i = (MConstructor \<in> marker_set i)"

definition declares_object :: "source_intent \<Rightarrow> bool" where
  "declares_object i = (MObject \<in> marker_set i)"

definition declares_value :: "source_intent \<Rightarrow> bool" where
  "declares_value i = (MValue \<in> marker_set i)"

section \<open>The intents that exist\<close>

text \<open>The table of marker sets a declaration of each kind may carry.\<close>

fun allowed_marker_sets :: "declaration_target \<Rightarrow> supernote_marker set set" where
  "allowed_marker_sets TgConstructor = {{}, {MConstructor}}"
| "allowed_marker_sets TgClass = {{}, {MObject}, {MValue}}"
| "allowed_marker_sets TgEnum = {{MValue}}"
| "allowed_marker_sets TgField = {{}, {MExport}}"
| "allowed_marker_sets _ =
     {{}, {MExport}, {MInternal}, {MExport, MAsync}, {MInternal, MAsync}}"

lemma first_repeated_None: "first_repeated ms = None \<longleftrightarrow> distinct ms"
proof -
  have "distinct ms \<longleftrightarrow> (\<forall>m \<in> set ms. count_list ms m \<le> 1)"
    by (induction ms) (auto simp: count_list_0_iff dest: bspec)
  then show ?thesis by (auto simp: first_repeated_def find_None_iff not_less)
qed

lemma marker_sets_of_function:
  assumes "MConstructor \<notin> s" "MObject \<notin> s" "MValue \<notin> s"
    and "s = {} \<or> MExport \<in> s \<or> MInternal \<in> s" "\<not> (MExport \<in> s \<and> MInternal \<in> s)"
  shows "s = {} \<or> s = {MExport} \<or> s = {MInternal} \<or> s = {MExport, MAsync} \<or> s = {MInternal, MAsync}"
proof -
  have sub: "x = MExport \<or> x = MInternal \<or> x = MAsync" if "x \<in> s" for x
    using that assms(1-3) by (cases x) simp_all
  consider "s = {}" | "MExport \<in> s" "MInternal \<notin> s" "MAsync \<in> s" | "MExport \<in> s" "MInternal \<notin> s" "MAsync \<notin> s"
    | "MInternal \<in> s" "MExport \<notin> s" "MAsync \<in> s" | "MInternal \<in> s" "MExport \<notin> s" "MAsync \<notin> s"
    using assms(4,5) by blast
  then show ?thesis
  proof cases
    case 1
    then show ?thesis by simp
  next
    case 2
    then have "s = {MExport, MAsync}" using sub by blast
    then show ?thesis by simp
  next
    case 3
    then have "s = {MExport}" using sub by blast
    then show ?thesis by simp
  next
    case 4
    then have "s = {MInternal, MAsync}" using sub by blast
    then show ?thesis by simp
  next
    case 5
    then have "s = {MInternal}" using sub by blast
    then show ?thesis by simp
  qed
qed

lemma target_markers_check_allowed:
  assumes "\<not> (MExport \<in> s \<and> MInternal \<in> s)"
  shows "target_markers_check target s = Inr () \<longleftrightarrow> s \<in> allowed_marker_sets target"
proof (cases "target \<in> {TgFunction, TgMethod}")
  case True
  have callable: "target_markers_check target s = Inr () \<longleftrightarrow>
      MConstructor \<notin> s \<and> MObject \<notin> s \<and> MValue \<notin> s \<and>
      (MAsync \<in> s \<longrightarrow> MExport \<in> s \<or> MInternal \<in> s) \<and> (s = {} \<or> MExport \<in> s \<or> MInternal \<in> s)"
    using True by (auto simp: target_markers_check_def)
  have allowed: "s \<in> allowed_marker_sets target \<longleftrightarrow>
      s = {} \<or> s = {MExport} \<or> s = {MInternal} \<or> s = {MExport, MAsync} \<or> s = {MInternal, MAsync}"
    using True by (elim insertE emptyE) simp_all
  show ?thesis
  proof
    assume "target_markers_check target s = Inr ()"
    then show "s \<in> allowed_marker_sets target"
      unfolding callable allowed using marker_sets_of_function [OF _ _ _ _ assms] by blast
  next
    assume "s \<in> allowed_marker_sets target"
    then show "target_markers_check target s = Inr ()"
      unfolding callable allowed by (elim disjE) simp_all
  qed
next
  case False
  then show ?thesis
    by (cases target) (simp_all add: target_markers_check_def subset_singleton_iff)
qed

lemma allowed_not_both:
  "s \<in> allowed_marker_sets target \<Longrightarrow> \<not> (MExport \<in> s \<and> MInternal \<in> s)"
  by (cases target) auto

lemma mk_intent_Inr:
  "mk_intent target occurrences = Inr i \<longleftrightarrow>
     i = \<lparr>si_target = target, si_occurrences = occurrences\<rparr> \<and>
     distinct (map mo_marker occurrences) \<and>
     set (map mo_marker occurrences) \<in> allowed_marker_sets target"
proof (cases "first_repeated (map mo_marker occurrences)")
  case None
  then have "distinct (map mo_marker occurrences)" by (simp only: first_repeated_None)
  with None show ?thesis
    using target_markers_check_allowed [of "set (map mo_marker occurrences)" target]
      allowed_not_both [of "set (map mo_marker occurrences)" target]
    by (auto simp: mk_intent_def intent_markers_def Let_def)
next
  case (Some m)
  then have "\<not> distinct (map mo_marker occurrences)" by (metis first_repeated_None option.distinct(1))
  with Some show ?thesis by (simp add: mk_intent_def intent_markers_def Let_def)
qed

lemma mk_intentD:
  assumes "mk_intent target occurrences = Inr i"
  shows "si_target i = target" "si_occurrences i = occurrences" "distinct (intent_markers i)"
    "marker_set i \<in> allowed_marker_sets target"
  using assms by (auto simp: mk_intent_Inr intent_markers_def marker_set_def)

text \<open>
  A source intent exists exactly for the marker lists without repetition whose set is in the table
  of the declaration's kind, and it keeps the occurrences as they are written.
\<close>

theorem source_intent_language:
  "mk_intent target occurrences = Inr i \<longleftrightarrow>
     i = \<lparr>si_target = target, si_occurrences = occurrences\<rparr> \<and>
     distinct (map mo_marker occurrences) \<and>
     set (map mo_marker occurrences) \<in> allowed_marker_sets target"
  by (rule mk_intent_Inr)

text \<open>An asynchronous declaration is always exported or internal, so it always has a route.\<close>

lemma async_intent_has_role:
  assumes "mk_intent target occurrences = Inr i" "intent_execution i = ExecAsync"
  shows "intent_role i \<noteq> RoleOrdinary"
  using mk_intentD [OF assms(1)] assms(2)
  by (cases target) (auto simp: intent_execution_def intent_role_def split: if_splits)

end
