(* ===== verification/Cpp_Declarations.thy ===== *)
theory Cpp_Declarations
  imports Cpp_Members Source_Intent
begin

text \<open>
  Marker comments and what they mark (\<^verbatim>\<open>cpp_declarations.py\<close>): which line comments are markers, how
  adjacent markers form stacks, what intent a stack carries, which member each stack of a class
  belongs to, and the namespace a marker stands in.  An error is a \<open>decl_error\<close>: the line, the export
  name when one is known, and one \<open>decl_fault\<close> per message of the source.
\<close>

section \<open>Data\<close>

datatype decl_fault =
    UnknownMarker string
  | MalformedMarker
  | IntentFault source_model_error
  | MarkerNotOnOwnLine
  | MarkerInConditional
  | MarkerBraceDepth string nat
  | MarkerBraceMessage string
  | MemberMarkerUnfollowed
  | TextBeforeMember
  | SharedMemberMarkers
  | MarkedTypeNotAtNamespaceDepth

record decl_error =
  de_line :: nat
  de_export :: "string option"
  de_fault :: decl_fault

definition decl_fail :: "nat \<Rightarrow> string option \<Rightarrow> decl_fault \<Rightarrow> decl_error + 'a" where
  "decl_fail line export fault = Inl \<lparr>de_line = line, de_export = export, de_fault = fault\<rparr>"

record marker_stack =
  mk_comments :: "line_comment list"
  mk_markers :: "supernote_marker list"

definition stack_first :: "marker_stack \<Rightarrow> line_comment" where
  "stack_first s = hd (mk_comments s)"

definition stack_last :: "marker_stack \<Rightarrow> line_comment" where
  "stack_last s = last (mk_comments s)"

record member_marker_bindings =
  mb_stacks :: "(nat \<times> marker_stack) list"
  mb_consumed :: "nat set"

datatype class_stack_kind = StackClass | StackEnum | StackIgnore

record class_stack_route =
  cr_kind :: class_stack_kind
  cr_following :: "token option"

section \<open>Marker comments\<close>

text \<open>\<open>_SOURCE_MARKER.fullmatch(value)\<close>: the \<open>name\<close> group of \<open>@(Supernote[A-Za-z][A-Za-z0-9_]*)\<close>.\<close>

definition marker_group :: "string \<Rightarrow> string option" where
  "marker_group val =
     (if starts_at ''@Supernote'' val 0 \<and> 10 < length val \<and> ascii_alpha (val ! 10) \<and>
         list_all ident_char (drop 11 val)
      then Some (tl val) else None)"

definition source_markers :: "string \<Rightarrow> supernote_marker option" where
  "source_markers name = find (\<lambda>m. marker_name m = name) all_markers"

text \<open>\<open>re.match(r"@SupernoteExportObject(?:\b|\()", value)\<close>.\<close>

definition legacy_export_object :: "string \<Rightarrow> bool" where
  "legacy_export_object val =
     (let n = length ''@SupernoteExportObject'' in
      starts_at ''@SupernoteExportObject'' val 0 \<and>
      (length val = n \<or> \<not> word_char (val ! n) \<or> val ! n = CHR ''(''))"

definition marker_candidate :: "string \<Rightarrow> bool" where
  "marker_candidate val =
     (starts_at ''@Supernote'' val 0 \<and> 10 < length val \<and>
      (ident_char (val ! 10) \<or> val ! 10 = CHR ''(''))"

definition source_marker :: "line_comment \<Rightarrow> bool \<times> supernote_marker option" where
  "source_marker comment =
     (let val = py_strip (c_text comment) in
      if legacy_export_object val then (False, None)
      else case marker_group val of
             Some name \<Rightarrow> (True, source_markers name)
           | None \<Rightarrow> (marker_candidate val, None))"

definition invalid_marker :: "line_comment \<Rightarrow> decl_error" where
  "invalid_marker comment =
     (let val = py_strip (c_text comment) in
      \<lparr>de_line = c_line comment, de_export = None,
       de_fault = (case marker_group val of
                     Some name \<Rightarrow> if source_markers name = None then UnknownMarker name else MalformedMarker
                   | None \<Rightarrow> MalformedMarker)\<rparr>)"

fun marker_entries_of :: "line_comment list \<Rightarrow> decl_error + (line_comment \<times> supernote_marker) list" where
  "marker_entries_of [] = Inr []"
| "marker_entries_of (comment # rest) =
     (let (is_candidate, marker) = source_marker comment in
      if \<not> is_candidate then marker_entries_of rest
      else case marker of
             None \<Rightarrow> Inl (invalid_marker comment)
           | Some m \<Rightarrow> ebind (marker_entries_of rest) (\<lambda>entries. Inr ((comment, m) # entries)))"

definition marker_entries :: "lexed_source \<Rightarrow> decl_error + (line_comment \<times> supernote_marker) list" where
  "marker_entries lexed = marker_entries_of (ls_comments lexed)"

section \<open>Stacks\<close>

text \<open>Only whitespace separates two adjacent comments of a stack.\<close>

definition adjacent_comments :: "string \<Rightarrow> line_comment \<Rightarrow> line_comment \<Rightarrow> bool" where
  "adjacent_comments src a b = (py_strip (slice src (c_end a) (c_start b)) = [])"

fun marker_stack_loop ::
    "string \<Rightarrow> line_comment list \<Rightarrow> supernote_marker list \<Rightarrow>
     (line_comment \<times> supernote_marker) list \<Rightarrow> marker_stack list" where
  "marker_stack_loop src comments markers [] =
     (if comments = [] then [] else [\<lparr>mk_comments = comments, mk_markers = markers\<rparr>])"
| "marker_stack_loop src comments markers ((comment, marker) # entries) =
     (if comments \<noteq> [] \<and> \<not> adjacent_comments src (last comments) comment
      then \<lparr>mk_comments = comments, mk_markers = markers\<rparr> #
           marker_stack_loop src [comment] [marker] entries
      else marker_stack_loop src (comments @ [comment]) (markers @ [marker]) entries)"

definition marker_stacks :: "string \<Rightarrow> (line_comment \<times> supernote_marker) list \<Rightarrow> marker_stack list" where
  "marker_stacks src entries = marker_stack_loop src [] [] entries"

section \<open>The intent of a stack\<close>

definition stack_pairs :: "marker_stack \<Rightarrow> (supernote_marker \<times> line_comment) list" where
  "stack_pairs s = zip (mk_markers s) (mk_comments s)"

fun first_repeat :: "supernote_marker set \<Rightarrow> (supernote_marker \<times> line_comment) list \<Rightarrow> line_comment option" where
  "first_repeat seen [] = None"
| "first_repeat seen ((m, c) # rest) =
     (if m \<in> seen then Some c else first_repeat (insert m seen) rest)"

definition comment_of_marker :: "marker_stack \<Rightarrow> supernote_marker \<Rightarrow> line_comment" where
  "comment_of_marker s m =
     mk_comments s ! the (find (\<lambda>i. mk_markers s ! i = m) [0..<length (mk_markers s)])"

definition intent_diagnostic :: "marker_stack \<Rightarrow> line_comment" where
  "intent_diagnostic s =
     (case (if length (mk_markers s) \<noteq> card (set (mk_markers s))
            then first_repeat {} (stack_pairs s) else None) of
        Some c \<Rightarrow> c
      | None \<Rightarrow>
          if MAsync \<in> set (mk_markers s) then comment_of_marker s MAsync
          else if MConstructor \<in> set (mk_markers s) then comment_of_marker s MConstructor
          else stack_last s)"

text \<open>
  The occurrences are built before the \<open>try\<close>; a comment's line is at least 1
  (\<open>lexed_comment_lines\<close>), so that step cannot raise and its column is the default 1.
\<close>

definition intent_from_stack ::
    "marker_stack \<Rightarrow> declaration_target \<Rightarrow> string option \<Rightarrow> decl_error + source_intent" where
  "intent_from_stack s target export_name =
     (let occurrences = map (\<lambda>(m, c). \<lparr>mo_marker = m, mo_line = int (c_line c), mo_column = 1\<rparr>)
                          (stack_pairs s)
      in ewrap (\<lambda>e. \<lparr>de_line = c_line (intent_diagnostic s), de_export = export_name,
                     de_fault = IntentFault e\<rparr>)
           (mk_intent target occurrences))"

section \<open>Locations\<close>

definition validate_marker_location ::
    "nat \<Rightarrow> string \<Rightarrow> string option \<Rightarrow> string option \<Rightarrow> line_comment \<Rightarrow> decl_error + unit" where
  "validate_marker_location brace_depth description export_name brace_message comment =
     (if \<not> c_line_only comment then decl_fail (c_line comment) export_name MarkerNotOnOwnLine
      else if c_cond comment \<noteq> 0 then decl_fail (c_line comment) export_name MarkerInConditional
      else if c_brace comment \<noteq> brace_depth then
        decl_fail (c_line comment) export_name
          (case brace_message of
             Some msg \<Rightarrow> if msg = [] then MarkerBraceDepth description brace_depth
                         else MarkerBraceMessage msg
           | None \<Rightarrow> MarkerBraceDepth description brace_depth)
      else Inr ())"

definition validate_marker_stack_location ::
    "marker_stack \<Rightarrow> nat \<Rightarrow> string \<Rightarrow> string option \<Rightarrow> string option \<Rightarrow> decl_error + unit" where
  "validate_marker_stack_location s brace_depth description export_name brace_message =
     echeck (validate_marker_location brace_depth description export_name brace_message) (mk_comments s)"

section \<open>Markers of class members\<close>

text \<open>
  \<open>stack is not class_stack\<close> compares the objects.  Two stacks of one source never have equal
  comments, so on the stacks of one call it is inequality.
\<close>

definition member_stacks_of ::
    "marker_stack list \<Rightarrow> marker_stack option \<Rightarrow> nat \<Rightarrow> nat \<Rightarrow> marker_stack list" where
  "member_stacks_of stacks class_stack opening_end closing_start =
     filter (\<lambda>s. opening_end \<le> c_start (stack_first s) \<and> c_start (stack_first s) < closing_start \<and>
                 Some s \<noteq> class_stack) stacks"

definition following_declaration ::
    "member_declaration list \<Rightarrow> marker_stack \<Rightarrow> member_declaration option" where
  "following_declaration declarations s =
     find (\<lambda>d. snd d \<noteq> [] \<and> c_end (stack_last s) \<le> t_start (hd (snd d))) declarations"

definition bind_member_stack ::
    "string \<Rightarrow> member_declaration list \<Rightarrow> nat \<Rightarrow> string \<Rightarrow> member_marker_bindings \<Rightarrow> marker_stack \<Rightarrow>
     decl_error + member_marker_bindings" where
  "bind_member_stack src declarations member_depth class_name b s =
     ebind (validate_marker_stack_location s member_depth ''class member'' None None) (\<lambda>_.
     let fail = (\<lambda>f. decl_fail (c_line (stack_first s)) (Some class_name) f) in
     case following_declaration declarations s of
       None \<Rightarrow> fail MemberMarkerUnfollowed
     | Some (access, tokens) \<Rightarrow>
         if py_strip (slice src (c_end (stack_last s)) (t_start (hd tokens))) \<noteq> []
         then fail TextBeforeMember
         else if t_start (hd tokens) \<in> set (map fst (mb_stacks b)) then fail SharedMemberMarkers
         else Inr \<lparr>mb_stacks = mb_stacks b @ [(t_start (hd tokens), s)],
                   mb_consumed = mb_consumed b \<union> set (map c_start (mk_comments s))\<rparr>)"

fun bind_member_stacks ::
    "string \<Rightarrow> member_declaration list \<Rightarrow> nat \<Rightarrow> string \<Rightarrow> member_marker_bindings \<Rightarrow> marker_stack list \<Rightarrow>
     decl_error + member_marker_bindings" where
  "bind_member_stacks src declarations member_depth class_name b [] = Inr b"
| "bind_member_stacks src declarations member_depth class_name b (s # rest) =
     ebind (bind_member_stack src declarations member_depth class_name b s)
       (\<lambda>b'. bind_member_stacks src declarations member_depth class_name b' rest)"

definition member_marker_bindings_of ::
    "string \<Rightarrow> member_declaration list \<Rightarrow> marker_stack list \<Rightarrow> marker_stack option \<Rightarrow> nat \<Rightarrow> nat \<Rightarrow>
     nat \<Rightarrow> string \<Rightarrow> decl_error + member_marker_bindings" where
  "member_marker_bindings_of src declarations stacks class_stack opening_end closing_start
       member_depth class_name =
     bind_member_stacks src declarations member_depth class_name
       \<lparr>mb_stacks = [],
        mb_consumed = (case class_stack of None \<Rightarrow> {} | Some s \<Rightarrow> set (map c_start (mk_comments s)))\<rparr>
       (member_stacks_of stacks class_stack opening_end closing_start)"

section \<open>Namespaces\<close>

function namespace_opening_loop ::
    "token list \<Rightarrow> nat \<Rightarrow> string list \<Rightarrow> bool \<Rightarrow> (string list \<times> nat) option" where
  "namespace_opening_loop toks cursor names expect_name =
     (if cursor < length toks \<and> t_value (toks ! cursor) \<noteq> ''{'' then
        if expect_name \<and> t_kind (toks ! cursor) = TIdentifier then
          namespace_opening_loop toks (cursor + 1) (names @ [t_value (toks ! cursor)]) False
        else if \<not> expect_name \<and> t_value (toks ! cursor) = ''::'' then
          namespace_opening_loop toks (cursor + 1) names True
        else None
      else if length toks \<le> cursor \<or> names = [] \<or> expect_name then None
      else Some (names, cursor))"
  by pat_completeness auto
termination
  by (relation "measure (\<lambda>(toks, cursor, names, expect). length toks - cursor)") auto

declare namespace_opening_loop.simps [simp del]

definition namespace_opening :: "token list \<Rightarrow> nat \<Rightarrow> (string list \<times> nat) option" where
  "namespace_opening toks cursor = namespace_opening_loop toks cursor [] True"

definition namespace_range :: "token list \<Rightarrow> nat \<Rightarrow> nat \<Rightarrow> (nat \<times> nat \<times> string list) option" where
  "namespace_range toks index offset =
     (let tok = toks ! index in
      if t_value tok \<noteq> ''namespace'' \<or> offset \<le> t_start tok then None
      else case namespace_opening toks (index + 1) of
             None \<Rightarrow> None
           | Some (names, opening_index) \<Rightarrow>
               let opn = toks ! opening_index in
               (case find (\<lambda>x. t_value x = ''}'' \<and> t_brace x = t_brace opn + 1)
                       (drop (opening_index + 1) toks) of
                  None \<Rightarrow> None
                | Some closing \<Rightarrow>
                    if t_end opn \<le> offset \<and> offset < t_start closing
                    then Some (t_start opn, t_start closing, names) else None))"

definition namespace_ranges :: "token list \<Rightarrow> nat \<Rightarrow> (nat \<times> nat \<times> string list) list" where
  "namespace_ranges toks offset =
     List.map_filter (\<lambda>i. namespace_range toks i offset) [0..<length toks]"

definition namespace_at :: "lexed_source \<Rightarrow> nat \<Rightarrow> string list \<times> nat" where
  "namespace_at lexed offset =
     (let toks = filter (\<lambda>t. t_cond t = 0) (ls_tokens lexed);
          ranges = sort_key fst (namespace_ranges toks offset)
      in (concat (map (\<lambda>(_, _, names). names) ranges), length ranges))"

section \<open>Stacks on classes\<close>

definition class_stack_route_of :: "lexed_source \<Rightarrow> marker_stack \<Rightarrow> decl_error + class_stack_route" where
  "class_stack_route_of lexed s =
     (let namespace_depth = snd (namespace_at lexed (c_start (stack_first s))) in
      if c_brace (stack_first s) \<noteq> namespace_depth then
        if list_ex (\<lambda>m. m \<in> {MObject, MValue}) (mk_markers s)
        then decl_fail (c_line (stack_first s)) None MarkedTypeNotAtNamespaceDepth
        else Inr \<lparr>cr_kind = StackIgnore, cr_following = None\<rparr>
      else
        let following = find (\<lambda>t. t_cond t = 0 \<and> c_end (stack_last s) \<le> t_start t) (ls_tokens lexed)
        in Inr \<lparr>cr_kind = (case following of
                             Some t \<Rightarrow> if t_value t = ''enum'' then StackEnum else StackClass
                           | None \<Rightarrow> StackClass),
                cr_following = following\<rparr>)"

definition owner_of_stack ::
    "(token \<times> token \<times> token) list \<Rightarrow> marker_stack \<Rightarrow> (token \<times> token \<times> token) option" where
  "owner_of_stack extents s =
     find (\<lambda>(kw, opn, close). t_end opn \<le> c_start (stack_first s) \<and>
                              c_start (stack_first s) < t_start close) extents"

definition unmarked_class_owner_offsets ::
    "marker_stack list \<Rightarrow> nat set \<Rightarrow> (token \<times> token \<times> token) list \<Rightarrow> nat set \<Rightarrow> nat list" where
  "unmarked_class_owner_offsets stacks consumed extents parsed =
     sorted_list_of_set (set (List.map_filter (\<lambda>s.
       if list_all (\<lambda>c. c_start c \<in> consumed) (mk_comments s) then None
       else case owner_of_stack extents s of
              None \<Rightarrow> None
            | Some (kw, _, _) \<Rightarrow> if t_start kw \<in> parsed then None else Some (t_start kw)) stacks))"

definition first_unconsumed_marker ::
    "(line_comment \<times> supernote_marker) list \<Rightarrow> nat set \<Rightarrow> line_comment option" where
  "first_unconsumed_marker entries consumed =
     map_option fst (find (\<lambda>(c, _). c_start c \<notin> consumed) entries)"

end
