(* ===== verification/Cpp_Declarations_Props.thy ===== *)
theory Cpp_Declarations_Props
  imports Cpp_Declarations Cpp_Lexer_Props
begin

text \<open>
  What the marker phase promises: exactly the marker spellings are recognised, stacking partitions
  the markers of a file, and every stack inside a class body is bound to its own member.
\<close>

section \<open>Recognition\<close>

lemma starts_at_0: "starts_at p s 0 \<longleftrightarrow> (\<exists>r. s = p @ r)"
  by (auto simp: starts_at_def) (metis append_take_drop_id)

lemma marker_name_group:
  "marker_group (CHR ''@'' # marker_name m) = Some (marker_name m)"
  "\<not> legacy_export_object (CHR ''@'' # marker_name m)"
  by (induction m) code_simp+

lemma marker_group_Some: "marker_group val = Some name \<Longrightarrow> val = CHR ''@'' # name"
  by (auto simp: marker_group_def starts_at_0 split: if_splits)

lemma source_markers_Some [simp]: "source_markers name = Some m \<longleftrightarrow> name = marker_name m"
proof
  assume "name = marker_name m"
  then show "source_markers name = Some m"
    by (cases m) (simp_all add: source_markers_def all_markers_def)
next
  assume "source_markers name = Some m"
  then show "name = marker_name m" by (auto simp: source_markers_def find_Some_iff)
qed

text \<open>
  A line comment is recognised as the marker \<open>m\<close> exactly when its text, stripped of
  surrounding whitespace, is \<open>@\<close> followed by the marker's name.
\<close>

theorem source_marker_spelling:
  "source_marker comment = (True, Some m) \<longleftrightarrow>
     py_strip (c_text comment) = CHR ''@'' # marker_name m"
proof
  assume "source_marker comment = (True, Some m)"
  then obtain name where "marker_group (py_strip (c_text comment)) = Some name" "name = marker_name m"
    by (auto simp: source_marker_def Let_def split: if_splits option.splits)
  then show "py_strip (c_text comment) = CHR ''@'' # marker_name m" by (blast dest: marker_group_Some)
next
  assume "py_strip (c_text comment) = CHR ''@'' # marker_name m"
  then show "source_marker comment = (True, Some m)"
    by (simp add: source_marker_def marker_name_group)
qed

lemma marker_entries_spelled:
  assumes "marker_entries lexed = Inr entries" "(c, m) \<in> set entries"
  shows "c \<in> set (ls_comments lexed) \<and> py_strip (c_text c) = CHR ''@'' # marker_name m"
proof -
  have "c \<in> set cs \<and> source_marker c = (True, Some m)"
    if "marker_entries_of cs = Inr es" "(c, m) \<in> set es" for cs es
    using that
    by (induction cs arbitrary: es) (auto simp: Let_def split: if_splits prod.splits option.splits)
  then show ?thesis using assms by (auto simp: marker_entries_def source_marker_spelling)
qed

section \<open>Stacking\<close>

definition stack_entries :: "marker_stack \<Rightarrow> (line_comment \<times> supernote_marker) list" where
  "stack_entries s = zip (mk_comments s) (mk_markers s)"

definition stack_wf :: "string \<Rightarrow> marker_stack \<Rightarrow> bool" where
  "stack_wf src s \<longleftrightarrow> mk_comments s \<noteq> [] \<and> length (mk_markers s) = length (mk_comments s) \<and>
     successively (adjacent_comments src) (mk_comments s)"

definition separated :: "string \<Rightarrow> marker_stack \<Rightarrow> marker_stack \<Rightarrow> bool" where
  "separated src s t = (\<not> adjacent_comments src (stack_last s) (stack_first t))"

lemma marker_stack_loop_first:
  "stacks = marker_stack_loop src comments markers entries \<Longrightarrow> comments \<noteq> [] \<Longrightarrow>
     stacks \<noteq> [] \<and> hd (mk_comments (hd stacks)) = hd comments"
proof (induction src comments markers entries arbitrary: stacks rule: marker_stack_loop.induct)
  case (1 src comments markers)
  then show ?case by simp
next
  case (2 src comments markers comment marker entries)
  then show ?case by (cases "adjacent_comments src (last comments) comment") auto
qed

lemma marker_stack_loop_partition:
  assumes "length markers = length comments" "successively (adjacent_comments src) comments"
  shows "concat (map stack_entries (marker_stack_loop src comments markers entries)) =
           zip comments markers @ entries \<and>
         list_all (stack_wf src) (marker_stack_loop src comments markers entries) \<and>
         successively (separated src) (marker_stack_loop src comments markers entries)"
  using assms
proof (induction src comments markers entries rule: marker_stack_loop.induct)
  case (1 src comments markers)
  then show ?case by (simp add: stack_entries_def stack_wf_def)
next
  case (2 src comments markers comment marker entries)
  show ?case
  proof (cases "comments \<noteq> [] \<and> \<not> adjacent_comments src (last comments) comment")
    case True
    let ?rest = "marker_stack_loop src [comment] [marker] entries"
    from True 2(1) have ih: "concat (map stack_entries ?rest) = (comment, marker) # entries"
      "list_all (stack_wf src) ?rest" "successively (separated src) ?rest" by auto
    have "?rest \<noteq> []" "hd (mk_comments (hd ?rest)) = comment"
      using marker_stack_loop_first [OF refl, of "[comment]" src "[marker]" entries] by auto
    moreover have "stack_entries \<lparr>mk_comments = comments, mk_markers = markers\<rparr> = zip comments markers"
      "stack_wf src \<lparr>mk_comments = comments, mk_markers = markers\<rparr>"
      using True "2.prems" by (simp_all add: stack_entries_def stack_wf_def)
    ultimately show ?thesis using True ih
      by (auto simp: successively_Cons separated_def stack_first_def stack_last_def)
  next
    case False
    with "2.prems" have "successively (adjacent_comments src) (comments @ [comment])"
      by (auto simp: successively_append_iff)
    with False 2(2) "2.prems" show ?thesis by auto
  qed
qed

text \<open>
  C32. Stacking partitions the marker comments of a file in order: the entries of the stacks,
  concatenated, are the entries given; inside a stack only whitespace separates consecutive comments,
  and between two consecutive stacks there is something else.
\<close>

theorem marker_stacks_partition:
  "concat (map stack_entries (marker_stacks src entries)) = entries \<and>
   list_all (stack_wf src) (marker_stacks src entries) \<and>
   successively (separated src) (marker_stacks src entries)"
  using marker_stack_loop_partition [of "[]" "[]" src entries] by (simp add: marker_stacks_def)

section \<open>Intents of stacks\<close>

text \<open>
  A well-formed stack gets an intent exactly when its markers are pairwise different and their
  set is in the table of the declaration's kind; the intent then carries exactly those markers.
\<close>

theorem stack_intent_markers:
  assumes "stack_wf src s"
  shows "(\<exists>i. intent_from_stack s target export = Inr i \<and> intent_markers i = mk_markers s) \<longleftrightarrow>
         distinct (mk_markers s) \<and> set (mk_markers s) \<in> allowed_marker_sets target"
proof -
  have "map fst (stack_pairs s) = mk_markers s"
    using assms by (simp add: stack_wf_def stack_pairs_def)
  then have "map mo_marker (map (\<lambda>(m, c). \<lparr>mo_marker = m, mo_line = int (c_line c), mo_column = 1\<rparr>)
      (stack_pairs s)) = mk_markers s"
    by (simp add: comp_def case_prod_unfold)
  then show ?thesis
    by (simp add: intent_from_stack_def mk_intent_Inr intent_markers_def)
qed

theorem stack_intent_markers_witness:
  "\<exists>i. intent_from_stack
     \<lparr>mk_comments = ls_comments (lex_source (''//@SupernotePluginExport'' @ [newline_char] @
                                    ''//@SupernotePluginAsync'')),
      mk_markers = [MExport, MAsync]\<rparr> TgFunction (Some ''f'') = Inr i \<and>
     intent_markers i = [MExport, MAsync]"
proof -
  let ?src = "''//@SupernotePluginExport'' @ [newline_char] @ ''//@SupernotePluginAsync''"
  let ?s = "\<lparr>mk_comments = ls_comments (lex_source ?src), mk_markers = [MExport, MAsync]\<rparr>"
  have "stack_wf ?src ?s" by code_simp
  from stack_intent_markers [OF this, of TgFunction "Some ''f''"] show ?thesis by simp
qed

section \<open>Members\<close>

definition placed_comment :: "nat \<Rightarrow> line_comment \<Rightarrow> bool" where
  "placed_comment depth c = (c_line_only c \<and> c_cond c = 0 \<and> c_brace c = depth)"

text \<open>The binding of one stack: the next declaration, reached over whitespace only.\<close>

definition bound_to_next ::
    "string \<Rightarrow> member_declaration list \<Rightarrow> nat \<Rightarrow> nat \<times> marker_stack \<Rightarrow> bool" where
  "bound_to_next src declarations depth = (\<lambda>(offset, s).
     list_all (placed_comment depth) (mk_comments s) \<and>
     (case following_declaration declarations s of
        None \<Rightarrow> False
      | Some (access, tokens) \<Rightarrow>
          offset = t_start (hd tokens) \<and>
          py_strip (slice src (c_end (stack_last s)) offset) = []))"

lemma validate_marker_location_Inr:
  "validate_marker_location depth what export msg c = Inr () \<longleftrightarrow> placed_comment depth c"
  by (simp add: validate_marker_location_def placed_comment_def decl_fail_def)

lemma validate_marker_stack_location_Inr:
  "validate_marker_stack_location s depth what export msg = Inr () \<longleftrightarrow>
     list_all (placed_comment depth) (mk_comments s)"
  by (simp add: validate_marker_stack_location_def validate_marker_location_Inr list_all_iff)

lemma bind_member_stacks_Inr:
  assumes "bind_member_stacks src decls depth cls b stacks = Inr b'" "distinct (map fst (mb_stacks b))"
  shows "\<exists>new. mb_stacks b' = mb_stacks b @ new \<and> map snd new = stacks \<and>
           list_all (bound_to_next src decls depth) new \<and> distinct (map fst (mb_stacks b')) \<and>
           mb_consumed b' = mb_consumed b \<union> (\<Union>s \<in> set stacks. set (map c_start (mk_comments s)))"
  using assms
proof (induction stacks arbitrary: b)
  case Nil
  then show ?case by simp
next
  case (Cons s rest)
  from Cons.prems(1) obtain b1 where b1: "bind_member_stack src decls depth cls b s = Inr b1"
    and rest: "bind_member_stacks src decls depth cls b1 rest = Inr b'" by auto
  from b1 obtain off where off: "mb_stacks b1 = mb_stacks b @ [(off, s)]"
      "off \<notin> set (map fst (mb_stacks b))" "bound_to_next src decls depth (off, s)"
      "mb_consumed b1 = mb_consumed b \<union> set (map c_start (mk_comments s))"
    by (auto simp: bind_member_stack_def bound_to_next_def validate_marker_stack_location_Inr
        decl_fail_def Let_def split: if_splits option.splits prod.splits)
  with Cons.prems(2) have "distinct (map fst (mb_stacks b1))" by simp
  from Cons.IH [OF rest this] off(1,3,4) show ?case by (fastforce simp: Un_assoc)
qed

text \<open>
  C31. When the members of a class are bound, no marker stack of the class body is lost and none is
  used twice: the bindings list exactly the stacks inside the body, in order, each at the start of
  the declaration that follows it with only whitespace between, the declarations are pairwise
  different, every comment stands alone on its line at member depth outside conditionals, and the
  comments reported as consumed are exactly those of the class stack and of these stacks.
\<close>

theorem member_stacks_all_bound:
  assumes "member_marker_bindings_of src decls stacks class_stack opening_end closing_start depth cls
             = Inr b"
  shows "map snd (mb_stacks b) = member_stacks_of stacks class_stack opening_end closing_start \<and>
         distinct (map fst (mb_stacks b)) \<and>
         list_all (bound_to_next src decls depth) (mb_stacks b) \<and>
         mb_consumed b =
           (case class_stack of None \<Rightarrow> {} | Some s \<Rightarrow> set (map c_start (mk_comments s))) \<union>
           (\<Union>s \<in> set (member_stacks_of stacks class_stack opening_end closing_start).
              set (map c_start (mk_comments s)))"
  using bind_member_stacks_Inr [OF assms [unfolded member_marker_bindings_of_def]]
  by (cases class_stack) auto

definition member_sample :: string where
  "member_sample = ''class A {'' @ [newline_char] @ ''//@SupernotePluginExport'' @ [newline_char] @
                   ''int f();'' @ [newline_char] @ ''};''"

definition member_sample_tokens :: "token list" where
  "member_sample_tokens = ls_tokens (lex_source member_sample)"

definition member_sample_stacks :: "marker_stack list" where
  "member_sample_stacks = marker_stacks member_sample
     (case marker_entries (lex_source member_sample) of Inr es \<Rightarrow> es | Inl _ \<Rightarrow> [])"

definition member_sample_bindings :: "decl_error + member_marker_bindings" where
  "member_sample_bindings = member_marker_bindings_of member_sample
     (member_declarations (slice member_sample_tokens 3 8) ''private'')
     member_sample_stacks None 9 43 1 ''A''"

theorem member_stacks_all_bound_witness:
  "\<exists>b. member_sample_bindings = Inr b \<and> length (mb_stacks b) = 1 \<and>
     map snd (mb_stacks b) = member_stacks_of member_sample_stacks None 9 43"
proof -
  have "(case member_sample_bindings of Inr b \<Rightarrow> length (mb_stacks b) = 1 | Inl _ \<Rightarrow> False)"
    by code_simp
  then obtain b where b: "member_sample_bindings = Inr b" "length (mb_stacks b) = 1"
    by (auto split: sum.splits)
  from member_stacks_all_bound [OF b(1) [unfolded member_sample_bindings_def]] b show ?thesis by blast
qed

end
