(* ===== verification/Semantic_Types.thy ===== *)
theory Semantic_Types
  imports Model_Prelude
begin

text \<open>
  The recursive, backend-neutral type algebra (\<^verbatim>\<open>semantic_types.py\<close>).  A \<open>SemanticType\<close> is one node
  with a kind and three optional payloads; the constructor function \<open>mk_type\<close> runs the checks of
  \<open>__post_init__\<close>, and \<open>wf_type\<close> says that a node and all nodes below it passed them.  The manifest
  reader is the inverse of the manifest writer on exactly the well-formed types.
\<close>

section \<open>Nodes\<close>

datatype type_kind = KVoid | KScalar | KEnumRef | KValueRef | KObjectRef | KArray | KNullable

datatype scalar_kind = SBool | SInt32 | SInt64 | SFloat32 | SFloat64 | SString | SBytes

datatype sem_type = SemType
  (st_kind: type_kind)
  (st_scalar: "scalar_kind option")
  (st_type_id: "string option")
  (st_element: "sem_type option")

fun kind_name :: "type_kind \<Rightarrow> string" where
  "kind_name KVoid = ''void''"
| "kind_name KScalar = ''scalar''"
| "kind_name KEnumRef = ''enum_ref''"
| "kind_name KValueRef = ''value_ref''"
| "kind_name KObjectRef = ''object_ref''"
| "kind_name KArray = ''array''"
| "kind_name KNullable = ''nullable''"

fun scalar_name :: "scalar_kind \<Rightarrow> string" where
  "scalar_name SBool = ''bool''"
| "scalar_name SInt32 = ''int32''"
| "scalar_name SInt64 = ''int64''"
| "scalar_name SFloat32 = ''float32''"
| "scalar_name SFloat64 = ''float64''"
| "scalar_name SString = ''string''"
| "scalar_name SBytes = ''bytes''"

definition type_kinds :: "type_kind list" where
  "type_kinds = [KVoid, KScalar, KEnumRef, KValueRef, KObjectRef, KArray, KNullable]"

definition scalar_kinds :: "scalar_kind list" where
  "scalar_kinds = [SBool, SInt32, SInt64, SFloat32, SFloat64, SString, SBytes]"

text \<open>\<open>SemanticTypeKind(text)\<close> and \<open>ScalarKind(text)\<close>: lookup by value.\<close>

definition kind_of_name :: "string \<Rightarrow> type_kind option" where
  "kind_of_name s = find (\<lambda>k. kind_name k = s) type_kinds"

definition scalar_of_name :: "string \<Rightarrow> scalar_kind option" where
  "scalar_of_name s = find (\<lambda>k. scalar_name k = s) scalar_kinds"

lemma kind_of_name_inverse [simp]: "kind_of_name (kind_name k) = Some k"
  by (cases k) (simp_all add: kind_of_name_def type_kinds_def)

lemma scalar_of_name_inverse [simp]: "scalar_of_name (scalar_name k) = Some k"
  by (cases k) (simp_all add: scalar_of_name_def scalar_kinds_def)

lemma kind_of_name_Some: "kind_of_name s = Some k \<Longrightarrow> kind_name k = s"
  by (auto simp: kind_of_name_def find_Some_iff)

lemma scalar_of_name_Some: "scalar_of_name s = Some k \<Longrightarrow> scalar_name k = s"
  by (auto simp: scalar_of_name_def find_Some_iff)

lemma kind_name_nonempty [simp]: "kind_name k \<noteq> []" by (cases k) simp_all
lemma scalar_name_nonempty [simp]: "scalar_name k \<noteq> []" by (cases k) simp_all

datatype type_error =
    ScalarWithoutKind
  | ScalarWithPayload
  | NamedWithoutId
  | NamedWithPayload
  | WrapperWithoutElement
  | WrapperWithPayload
  | NestedVoid
  | NestedNullable
  | VoidWithPayload
  | TypeNotObject label
  | TypeKindNotString label
  | TypeKindInvalid label string
  | TypeFields label
  | TypeInvalid label type_error
  | ScalarNameNotString label
  | ScalarNameUnknown string
  | TypeIdNotString label

definition is_void :: "sem_type \<Rightarrow> bool" where
  "is_void t = (st_kind t = KVoid)"

definition is_named :: "type_kind \<Rightarrow> bool" where
  "is_named k = (k \<in> {KEnumRef, KValueRef, KObjectRef})"

definition is_wrapper :: "type_kind \<Rightarrow> bool" where
  "is_wrapper k = (k \<in> {KArray, KNullable})"

definition check_scalar :: "sem_type \<Rightarrow> type_error + unit" where
  "check_scalar t =
     ebind (raise_if (st_scalar t = None) ScalarWithoutKind) (\<lambda>_.
     raise_if (st_type_id t \<noteq> None \<or> st_element t \<noteq> None) ScalarWithPayload)"

definition check_named :: "sem_type \<Rightarrow> type_error + unit" where
  "check_named t =
     ebind (raise_if (st_type_id t = None \<or> st_type_id t = Some []) NamedWithoutId) (\<lambda>_.
     raise_if (st_scalar t \<noteq> None \<or> st_element t \<noteq> None) NamedWithPayload)"

definition check_wrapper :: "sem_type \<Rightarrow> type_error + unit" where
  "check_wrapper t =
     (case st_element t of
        None \<Rightarrow> Inl WrapperWithoutElement
      | Some e \<Rightarrow>
          ebind (raise_if (st_scalar t \<noteq> None \<or> st_type_id t \<noteq> None) WrapperWithPayload) (\<lambda>_.
          ebind (raise_if (is_void e) NestedVoid) (\<lambda>_.
          raise_if (st_kind t = KNullable \<and> st_kind e = KNullable) NestedNullable)))"

definition check_void :: "sem_type \<Rightarrow> type_error + unit" where
  "check_void t =
     raise_if (st_scalar t \<noteq> None \<or> st_type_id t \<noteq> None \<or> st_element t \<noteq> None) VoidWithPayload"

definition check_type :: "sem_type \<Rightarrow> type_error + unit" where
  "check_type t =
     (if st_kind t = KScalar then check_scalar t
      else if is_named (st_kind t) then check_named t
      else if is_wrapper (st_kind t) then check_wrapper t
      else check_void t)"

definition mk_type ::
    "type_kind \<Rightarrow> scalar_kind option \<Rightarrow> string option \<Rightarrow> sem_type option \<Rightarrow> type_error + sem_type" where
  "mk_type kind scalar type_id element =
     (let t = SemType kind scalar type_id element in ebind (check_type t) (\<lambda>_. Inr t))"

definition t_void :: sem_type where "t_void = SemType KVoid None None None"

definition t_scalar :: "scalar_kind \<Rightarrow> sem_type" where
  "t_scalar s = SemType KScalar (Some s) None None"

definition enum_ref :: "string \<Rightarrow> type_error + sem_type" where
  "enum_ref type_id = mk_type KEnumRef None (Some type_id) None"

definition value_ref :: "string \<Rightarrow> type_error + sem_type" where
  "value_ref type_id = mk_type KValueRef None (Some type_id) None"

definition object_ref :: "string \<Rightarrow> type_error + sem_type" where
  "object_ref type_id = mk_type KObjectRef None (Some type_id) None"

definition array_of :: "sem_type \<Rightarrow> type_error + sem_type" where
  "array_of element = mk_type KArray None None (Some element)"

definition nullable_of :: "sem_type \<Rightarrow> type_error + sem_type" where
  "nullable_of inner = mk_type KNullable None None (Some inner)"

text \<open>The short label kept for scalar-oriented lowering code.\<close>

definition type_value :: "sem_type \<Rightarrow> string" where
  "type_value t = (case st_scalar t of Some s \<Rightarrow> scalar_name s | None \<Rightarrow> kind_name (st_kind t))"

text \<open>Every node that exists was built by the constructor, from an element built the same way.\<close>

fun wf_type :: "sem_type \<Rightarrow> bool" where
  "wf_type (SemType k s i None) = (check_type (SemType k s i None) = Inr ())"
| "wf_type (SemType k s i (Some e)) = (check_type (SemType k s i (Some e)) = Inr () \<and> wf_type e)"

lemma mk_type_Inr:
  "mk_type k s i e = Inr t \<longleftrightarrow> t = SemType k s i e \<and> check_type (SemType k s i e) = Inr ()"
  by (auto simp: mk_type_def Let_def)

section \<open>Shapes of well-formed types\<close>

inductive wf_shape :: "sem_type \<Rightarrow> bool" where
  shape_void: "wf_shape t_void"
| shape_scalar: "wf_shape (t_scalar s)"
| shape_named: "is_named k \<Longrightarrow> i \<noteq> [] \<Longrightarrow> wf_shape (SemType k None (Some i) None)"
| shape_array: "wf_shape e \<Longrightarrow> \<not> is_void e \<Longrightarrow> wf_shape (SemType KArray None None (Some e))"
| shape_nullable: "wf_shape e \<Longrightarrow> \<not> is_void e \<Longrightarrow> st_kind e \<noteq> KNullable \<Longrightarrow>
     wf_shape (SemType KNullable None None (Some e))"

lemma check_type_cases:
  "check_type (SemType k s i e) = Inr () \<longleftrightarrow>
     (case k of
        KVoid \<Rightarrow> s = None \<and> i = None \<and> e = None
      | KScalar \<Rightarrow> s \<noteq> None \<and> i = None \<and> e = None
      | KArray \<Rightarrow> s = None \<and> i = None \<and> (\<exists>x. e = Some x \<and> \<not> is_void x)
      | KNullable \<Rightarrow> s = None \<and> i = None \<and> (\<exists>x. e = Some x \<and> \<not> is_void x \<and> st_kind x \<noteq> KNullable)
      | _ \<Rightarrow> s = None \<and> e = None \<and> (\<exists>x. i = Some x \<and> x \<noteq> []))"
  by (cases k; cases i; cases e)
    (auto simp: check_type_def check_scalar_def check_named_def check_wrapper_def check_void_def
      is_named_def is_wrapper_def)

lemma wf_type_shape: "wf_type t \<longleftrightarrow> wf_shape t"
proof
  show "wf_type t \<Longrightarrow> wf_shape t"
    by (induction t rule: wf_type.induct)
      (auto simp: check_type_cases is_named_def t_void_def [symmetric] t_scalar_def [symmetric]
        split: type_kind.splits intro: wf_shape.intros)
  show "wf_shape t \<Longrightarrow> wf_type t"
    by (induction rule: wf_shape.induct)
      (auto simp: check_type_cases is_named_def t_void_def t_scalar_def)
qed

section \<open>Manifests\<close>

fun type_manifest :: "sem_type \<Rightarrow> json" where
  "type_manifest (SemType k s i e) =
     (if k = KVoid then JObj [(''kind'', JStr (kind_name k))]
      else if k = KScalar then
        JObj [(''kind'', JStr (kind_name k)),
              (''name'', JStr (case s of Some x \<Rightarrow> scalar_name x | None \<Rightarrow> []))]
      else case i of
        Some type_id \<Rightarrow> JObj [(''kind'', JStr (kind_name k)), (''type_id'', JStr type_id)]
      | None \<Rightarrow>
          (case e of
             Some x \<Rightarrow> JObj [(''kind'', JStr (kind_name k)),
                            (if k = KArray then ''element'' else ''inner'', type_manifest x)]
           | None \<Rightarrow> JNull))"

definition type_fields :: "type_kind \<Rightarrow> string list" where
  "type_fields k =
     [''kind''] @
     (if k = KScalar then [''name'']
      else if is_named k then [''type_id'']
      else if k = KArray then [''element'']
      else if k = KNullable then [''inner''] else [])"

definition type_kind_of :: "(string \<times> json) list \<Rightarrow> label \<Rightarrow> type_error + type_kind" where
  "type_kind_of raw lbl =
     (case jget raw ''kind'' of
        Some (JStr s) \<Rightarrow>
          if s = [] then Inl (TypeKindNotString (lbl @ [LKey ''kind'']))
          else (case kind_of_name s of
                  None \<Rightarrow> Inl (TypeKindInvalid (lbl @ [LKey ''kind'']) s)
                | Some k \<Rightarrow> Inr k)
      | _ \<Rightarrow> Inl (TypeKindNotString (lbl @ [LKey ''kind''])))"

definition scalar_from_manifest :: "json \<Rightarrow> label \<Rightarrow> type_error + sem_type" where
  "scalar_from_manifest raw lbl =
     (case raw of
        JStr s \<Rightarrow> (case scalar_of_name s of
                     None \<Rightarrow> Inl (ScalarNameUnknown s)
                   | Some k \<Rightarrow> Inr (t_scalar k))
      | _ \<Rightarrow> Inl (ScalarNameNotString (lbl @ [LKey ''name''])))"

definition named_from_manifest :: "json \<Rightarrow> type_kind \<Rightarrow> label \<Rightarrow> type_error + sem_type" where
  "named_from_manifest raw kind lbl =
     (case raw of
        JStr s \<Rightarrow> if s = [] then Inl (TypeIdNotString (lbl @ [LKey ''type_id'']))
                  else mk_type kind None (Some s) None
      | _ \<Rightarrow> Inl (TypeIdNotString (lbl @ [LKey ''type_id''])))"

function type_from_manifest :: "json \<Rightarrow> label \<Rightarrow> type_error + sem_type" where
  "type_from_manifest raw lbl =
     (case raw of
        JObj fields \<Rightarrow>
          ebind (type_kind_of fields lbl) (\<lambda>kind.
            if \<not> jkeys_are fields (type_fields kind) then Inl (TypeFields lbl)
            else ewrap (TypeInvalid lbl)
              (if kind = KVoid then Inr t_void
               else if kind = KScalar then scalar_from_manifest (jitem fields ''name'') lbl
               else if is_named kind then named_from_manifest (jitem fields ''type_id'') kind lbl
               else
                 let key = (if kind = KArray then ''element'' else ''inner'') in
                 ebind (type_from_manifest (jitem fields key) (lbl @ [LKey key])) (\<lambda>e.
                   mk_type kind None None (Some e))))
      | _ \<Rightarrow> Inl (TypeNotObject lbl))"
  by pat_completeness auto
termination
proof (relation "measure (\<lambda>(raw, lbl). size raw)", goal_cases)
  case 1
  then show ?case by simp
next
  case (2 raw lbl fields kind key)
  then have "key \<in> set (type_fields kind)"
    by (cases kind) (auto simp: type_fields_def is_named_def)
  with 2 jitem_size' [of fields "type_fields kind" key] show ?case by simp
qed

declare type_from_manifest.simps [simp del]

lemmas type_reader_defs = type_kind_of_def scalar_from_manifest_def named_from_manifest_def
  type_fields_def is_named_def mk_type_Inr

section \<open>The reader inverts the writer\<close>

lemma type_reader_complete:
  "wf_shape t \<Longrightarrow> json_eq raw (type_manifest t) \<Longrightarrow> type_from_manifest raw lbl = Inr t"
proof (induction arbitrary: raw lbl rule: wf_shape.induct)
  case shape_void
  then obtain a where "raw = JObj a" "jkeys_are a [''kind'']" "jget a ''kind'' = Some (JStr ''void'')"
    by (auto simp: t_void_def json_eq_obj)
  then show ?case
    using kind_of_name_inverse [of KVoid] by (simp add: type_from_manifest.simps type_reader_defs)
next
  case (shape_scalar s)
  then obtain a where a: "raw = JObj a" "jkeys_are a [''kind'', ''name'']"
      "jget a ''kind'' = Some (JStr ''scalar'')" "jget a ''name'' = Some (JStr (scalar_name s))"
    by (auto simp: t_scalar_def json_eq_obj)
  then show ?case
    using kind_of_name_inverse [of KScalar]
    by (simp add: type_from_manifest.simps type_reader_defs jitem_def)
next
  case (shape_named k i)
  then obtain a where a: "raw = JObj a" "jkeys_are a [''kind'', ''type_id'']"
      "jget a ''kind'' = Some (JStr (kind_name k))" "jget a ''type_id'' = Some (JStr i)"
    by (auto simp: json_eq_obj is_named_def)
  with shape_named show ?case
    by (auto simp: type_from_manifest.simps type_reader_defs jitem_def check_type_cases)
next
  case (shape_array e)
  from shape_array.prems obtain a v where a: "raw = JObj a" "jkeys_are a [''kind'', ''element'']"
      "jget a ''kind'' = Some (JStr ''array'')" "jget a ''element'' = Some v" "json_eq v (type_manifest e)"
    by (auto simp: json_eq_obj)
  then show ?case
    using shape_array.hyps shape_array.IH [of v] kind_of_name_inverse [of KArray]
    by (simp add: type_from_manifest.simps [of "JObj a"] type_reader_defs jitem_def check_type_cases)
next
  case (shape_nullable e)
  from shape_nullable.prems obtain a v where a: "raw = JObj a" "jkeys_are a [''kind'', ''inner'']"
      "jget a ''kind'' = Some (JStr ''nullable'')" "jget a ''inner'' = Some v" "json_eq v (type_manifest e)"
    by (auto simp: json_eq_obj)
  then show ?case
    using shape_nullable.hyps shape_nullable.IH [of v] kind_of_name_inverse [of KNullable]
    by (simp add: type_from_manifest.simps [of "JObj a"] type_reader_defs jitem_def check_type_cases)
qed

lemma type_kind_of_Inr:
  "type_kind_of fields lbl = Inr k \<longleftrightarrow> jget fields ''kind'' = Some (JStr (kind_name k))"
proof
  assume "type_kind_of fields lbl = Inr k"
  then show "jget fields ''kind'' = Some (JStr (kind_name k))"
    by (auto simp: type_kind_of_def dest: kind_of_name_Some split: option.splits json.splits if_splits)
qed (simp add: type_kind_of_def)

lemma jkeys_are_iff_eq: "set (jkeys b) = set ks \<Longrightarrow> jkeys_are a ks \<longleftrightarrow> jkeys_are a (jkeys b)"
  by (simp add: jkeys_are_def)

lemma jitem_key: "jkeys_are a ks \<Longrightarrow> k \<in> set ks \<Longrightarrow> jget a k = Some (jitem a k)"
  using jget_iff_key [of k a] by (auto simp: jkeys_are_def jitem_def)

lemma type_reader_sound:
  "type_from_manifest raw lbl = Inr t \<Longrightarrow> wf_type t \<and> json_eq raw (type_manifest t)"
proof (induction raw lbl arbitrary: t rule: type_from_manifest.induct)
  case (1 raw lbl)
  from "1.prems" obtain fields kind where raw: "raw = JObj fields"
    and kind: "type_kind_of fields lbl = Inr kind" "jkeys_are fields (type_fields kind)"
    by (auto simp: type_from_manifest.simps [of raw lbl] split: json.splits if_splits)
  have body: "(if kind = KVoid then Inr t_void
       else if kind = KScalar then scalar_from_manifest (jitem fields ''name'') lbl
       else if is_named kind then named_from_manifest (jitem fields ''type_id'') kind lbl
       else let key = (if kind = KArray then ''element'' else ''inner'') in
         ebind (type_from_manifest (jitem fields key) (lbl @ [LKey key])) (\<lambda>e.
           mk_type kind None None (Some e))) = Inr t"
    using "1.prems" raw kind
    by (simp only: type_from_manifest.simps [of "JObj fields" lbl] json.case ebind_simps not_True_eq_False if_False
        ewrap_simps)
  have kv: "jget fields ''kind'' = Some (JStr (kind_name kind))" using kind(1) by (simp add: type_kind_of_Inr)
  consider (void) "kind = KVoid" | (scalar) "kind = KScalar" | (named) "is_named kind"
    | (wrapper) "is_wrapper kind" by (cases kind) (auto simp: is_named_def is_wrapper_def)
  then show ?case
  proof cases
    case void
    with body have "t = t_void" by simp
    with void kind(2) kv raw show ?thesis
      by (auto simp: t_void_def type_fields_def is_named_def json_eq_obj check_type_cases)
  next
    case scalar
    with body kind(2) obtain x where "jitem fields ''name'' = JStr (scalar_name x)" "t = t_scalar x"
      by (auto simp: scalar_from_manifest_def dest: scalar_of_name_Some split: json.splits option.splits)
    with scalar kind(2) kv raw jitem_key [OF kind(2), of "''name''"] show ?thesis
      by (auto simp: t_scalar_def type_fields_def json_eq_obj check_type_cases)
  next
    case named
    with body kind(2) obtain x where "jitem fields ''type_id'' = JStr x" "x \<noteq> []"
        "t = SemType kind None (Some x) None"
      by (auto simp: named_from_manifest_def mk_type_Inr is_named_def split: json.splits if_splits)
    with named kind(2) kv raw jitem_key [OF kind(2), of "''type_id''"] show ?thesis
      by (auto simp: type_fields_def json_eq_obj check_type_cases is_named_def)
  next
    case wrapper
    define key where "key = (if kind = KArray then ''element'' else ''inner'')"
    from wrapper have k: "kind \<noteq> KVoid" "kind \<noteq> KScalar" "\<not> is_named kind" "set (type_fields kind) = {''kind'', key}"
      by (auto simp: is_wrapper_def is_named_def type_fields_def key_def)
    from body k kind(2) obtain e where e: "type_from_manifest (jitem fields key) (lbl @ [LKey key]) = Inr e"
        "t = SemType kind None None (Some e)" "check_type t = Inr ()"
      by (auto simp: Let_def mk_type_Inr key_def)
    have "wf_type e \<and> json_eq (jitem fields key) (type_manifest e)"
      using "1.IH" [OF raw kind(1) _ k(1-3) key_def e(1)] kind(2) by simp
    moreover have "jget fields key = Some (jitem fields key)" "key \<noteq> ''kind''"
      using jitem_key [OF kind(2), of key] k(4) by (auto simp: key_def)
    ultimately show ?thesis
      using k kind(2) kv raw e(2,3) wrapper
      by (auto simp: json_eq_obj jkeys_are_def is_wrapper_def key_def)
  qed
qed

text \<open>
  C6. The manifest reader and writer are inverse: reading a JSON value gives the type \<open>t\<close> exactly
  when \<open>t\<close> is a well-formed type and the value equals the manifest of \<open>t\<close> (Python equality of
  dictionaries).  So every well-formed type is read back unchanged, the reader accepts nothing else,
  and it never produces an impossible node.
\<close>

theorem type_manifest_roundtrip:
  "type_from_manifest raw lbl = Inr t \<longleftrightarrow> wf_type t \<and> json_eq raw (type_manifest t)"
  using type_reader_sound type_reader_complete wf_type_shape by blast

end
