(* ===== verification/Semantic_Model.thy ===== *)
theory Semantic_Model
  imports Semantic_Types Source_Intent
begin

text \<open>
  The backend-neutral API model (\<^verbatim>\<open>semantic.py\<close>, records and their \<open>__post_init__\<close> checks).  For a
  dataclass \<open>X\<close>, \<open>check_x\<close> is its \<open>__post_init__\<close> in the order of the source and \<open>mk_x\<close> the
  constructor.  The \<open>isinstance\<close> checks on enum and type arguments have no counterpart: the model's
  types make those raises impossible.
\<close>

section \<open>Enums\<close>

datatype binding_kind = BkFunction | BkObjectMethod | BkServiceMethod

datatype semantic_class_kind = CkJsObject | CkInternalService

datatype backend_family = BfCpp | BfJvm

datatype member_scope = ScTopLevel | ScInstance | ScStatic

datatype declaration_kind = DkEnum | DkValue | DkObject

fun binding_kind_name :: "binding_kind \<Rightarrow> string" where
  "binding_kind_name BkFunction = ''function''"
| "binding_kind_name BkObjectMethod = ''object_method''"
| "binding_kind_name BkServiceMethod = ''service_method''"

fun class_kind_name :: "semantic_class_kind \<Rightarrow> string" where
  "class_kind_name CkJsObject = ''js_object''"
| "class_kind_name CkInternalService = ''internal_service''"

fun execution_name :: "execution_mode \<Rightarrow> string" where
  "execution_name ExecSync = ''sync''"
| "execution_name ExecAsync = ''async''"

fun backend_name :: "backend_family \<Rightarrow> string" where
  "backend_name BfCpp = ''cpp''"
| "backend_name BfJvm = ''jvm''"

fun scope_name :: "member_scope \<Rightarrow> string" where
  "scope_name ScTopLevel = ''top_level''"
| "scope_name ScInstance = ''instance''"
| "scope_name ScStatic = ''static''"

fun declaration_kind_name :: "declaration_kind \<Rightarrow> string" where
  "declaration_kind_name DkEnum = ''enum''"
| "declaration_kind_name DkValue = ''value''"
| "declaration_kind_name DkObject = ''object''"

section \<open>Errors\<close>

text \<open>What a duplicate is a duplicate of.\<close>

datatype dup_label =
    DupParameter string
  | DupConstructorParameter
  | DupMethodBinding string
  | DupMethodSource string
  | DupMethodName string
  | DupEnumConstant string
  | DupBackend string
  | DupFieldId string
  | DupFieldName string
  | DupStaticName string
  | DupInstanceName string
  | DupSemanticId
  | DupSourceId
  | DupPublicName

datatype shape_error =
    PublicNotRoutable
  | EmptyDeclarationId
  | EmptyLanguage
  | EmptyPath
  | SourcePosition
  | EmptyFeatureId
  | EmptyFieldIdentity
  | VoidField
  | FieldNotExported
  | StaticField
  | OptionalField
  | VoidParameter
  | EmptyBindingId
  | OrdinaryBinding
  | OwnerRequired
  | OwnerTogether
  | EmptyOwnerId
  | FunctionScope
  | MethodTopLevel
  | EmptyClassId
  | JsObjectCapabilities
  | ServiceCapabilities
  | ServiceConstructorParameters
  | ServiceMethodPublic
  | TopLevelKind

datatype manifest_error =
    NotAnObject label
  | BadFields label
  | NotAnArray label
  | NotAString label
  | NotAnInteger label
  | NotABoolean label
  | UnknownEnumValue string
  | SchemaMismatch string
  | ManifestKind
  | SourceIdentityDisagrees label
  | OwnerAppearTogether label

text \<open>One constructor per message; the fixed messages and those of the reader are grouped.\<close>

datatype semantic_error =
    Shape shape_error
  | Manifest manifest_error
  | InvalidName string string
  | ProjectionLanguage backend_family string
  | Duplicate dup_label string
  | MethodKind string
  | MethodOwner string
  | EnumWithoutConstant string
  | ValueWithoutField string
  | FieldOwner string
  | NoProjection string
  | TypeIdentity string string string
  | ObjectMemberKind string
  | ObjectMemberBackend string
  | UnsupportedLanguage string
  | UnknownTypeId type_kind string
  | NominalKind string type_kind declaration_kind
  | ValueCycle "string list"
  | ObjectsDoNotMerge string
  | MismatchedProjections string
  | DuplicateProjection string backend_family
  | TypeFault type_error
  | At label semantic_error
  | RouteObjectCrossing string
  | RouteObjectMissing string
  | RouteValueMissing string

text \<open>\<open>_reject_duplicates\<close>, \<open>_validate_identifier\<close>.\<close>

definition reject_duplicates :: "string list \<Rightarrow> dup_label \<Rightarrow> semantic_error + unit" where
  "reject_duplicates values what =
     (case first_dup_from [] values of None \<Rightarrow> Inr () | Some v \<Rightarrow> Inl (Duplicate what v))"

definition validate_identifier :: "string \<Rightarrow> string \<Rightarrow> semantic_error + unit" where
  "validate_identifier name what = raise_if (\<not> is_identifier name) (InvalidName what name)"

lemma reject_duplicates_Inr [simp]: "reject_duplicates vs what = Inr () \<longleftrightarrow> distinct vs"
proof (cases "first_dup_from [] vs")
  case None
  then show ?thesis by (simp add: reject_duplicates_def del: first_dup_from_None)
      (use None in simp)
next
  case (Some v)
  then have "\<not> distinct vs" by (metis empty_set first_dup_from_None inf_bot_left option.distinct(1))
  with Some show ?thesis by (simp add: reject_duplicates_def)
qed

lemma validate_identifier_Inr [simp]: "validate_identifier s what = Inr () \<longleftrightarrow> is_identifier s"
  by (simp add: validate_identifier_def)

section \<open>Capabilities and provenance\<close>

record binding_capabilities =
  bc_routable :: bool
  bc_public :: bool

definition check_capabilities :: "binding_capabilities \<Rightarrow> semantic_error + unit" where
  "check_capabilities c = raise_if (bc_public c \<and> \<not> bc_routable c) (Shape PublicNotRoutable)"

definition mk_capabilities :: "bool \<Rightarrow> bool \<Rightarrow> semantic_error + binding_capabilities" where
  "mk_capabilities routable public =
     (let c = \<lparr>bc_routable = routable, bc_public = public\<rparr>
      in ebind (check_capabilities c) (\<lambda>_. Inr c))"

fun capabilities_for_role :: "declaration_role \<Rightarrow> binding_capabilities" where
  "capabilities_for_role RoleOrdinary = \<lparr>bc_routable = False, bc_public = False\<rparr>"
| "capabilities_for_role RoleInternal = \<lparr>bc_routable = True, bc_public = False\<rparr>"
| "capabilities_for_role RoleExported = \<lparr>bc_routable = True, bc_public = True\<rparr>"

definition capabilities_role :: "binding_capabilities \<Rightarrow> declaration_role" where
  "capabilities_role c =
     (if bc_public c then RoleExported else if bc_routable c then RoleInternal else RoleOrdinary)"

record source_provenance =
  sp_declaration :: string
  sp_language :: string
  sp_path :: string
  sp_line :: int
  sp_column :: int

definition check_provenance :: "source_provenance \<Rightarrow> semantic_error + unit" where
  "check_provenance p =
     ebind (raise_if (sp_declaration p = []) (Shape EmptyDeclarationId)) (\<lambda>_.
     ebind (raise_if (sp_language p = []) (Shape EmptyLanguage)) (\<lambda>_.
     ebind (raise_if (sp_path p = []) (Shape EmptyPath)) (\<lambda>_.
     raise_if (sp_line p < 1 \<or> sp_column p < 1) (Shape SourcePosition))))"

definition mk_provenance ::
    "string \<Rightarrow> string \<Rightarrow> string \<Rightarrow> int \<Rightarrow> int \<Rightarrow> semantic_error + source_provenance" where
  "mk_provenance declaration language path line column =
     (let p = \<lparr>sp_declaration = declaration, sp_language = language, sp_path = path,
               sp_line = line, sp_column = column\<rparr>
      in ebind (check_provenance p) (\<lambda>_. Inr p))"

text \<open>\<open>semantic_type_id\<close>: the identity every backend projection shares.\<close>

definition semantic_type_id :: "string \<Rightarrow> string \<Rightarrow> semantic_error + string" where
  "semantic_type_id feature_id public_name =
     ebind (raise_if (feature_id = []) (Shape EmptyFeatureId)) (\<lambda>_.
     ebind (validate_identifier public_name ''public semantic type'') (\<lambda>_.
     Inr (feature_id @ '':type:'' @ public_name)))"

record semantic_projection =
  pr_backend :: backend_family
  pr_source :: source_provenance

definition check_projection :: "semantic_projection \<Rightarrow> semantic_error + unit" where
  "check_projection p =
     raise_if (sp_language (pr_source p) \<notin>
                 (if pr_backend p = BfCpp then {''cpp''} else {''kotlin'', ''java''}))
       (ProjectionLanguage (pr_backend p) (sp_language (pr_source p)))"

definition mk_projection :: "backend_family \<Rightarrow> source_provenance \<Rightarrow> semantic_error + semantic_projection" where
  "mk_projection backend source =
     (let p = \<lparr>pr_backend = backend, pr_source = source\<rparr>
      in ebind (check_projection p) (\<lambda>_. Inr p))"

section \<open>Fields, parameters and bindings\<close>

record semantic_field =
  f_id :: string
  f_owner :: string
  f_name :: string
  f_type :: sem_type
  f_source :: source_provenance
  f_mutable :: bool
  f_capabilities :: binding_capabilities
  f_scope :: member_scope
  f_required :: bool

definition check_field :: "semantic_field \<Rightarrow> semantic_error + unit" where
  "check_field f =
     ebind (raise_if (f_id f = [] \<or> f_owner f = []) (Shape EmptyFieldIdentity)) (\<lambda>_.
     ebind (validate_identifier (f_name f) ''semantic field'') (\<lambda>_.
     ebind (raise_if (is_void (f_type f)) (Shape VoidField)) (\<lambda>_.
     ebind (raise_if (\<not> bc_public (f_capabilities f)) (Shape FieldNotExported)) (\<lambda>_.
     ebind (raise_if (f_scope f \<noteq> ScInstance) (Shape StaticField)) (\<lambda>_.
     raise_if (\<not> f_required f) (Shape OptionalField))))))"

definition mk_field ::
    "string \<Rightarrow> string \<Rightarrow> string \<Rightarrow> sem_type \<Rightarrow> source_provenance \<Rightarrow> bool \<Rightarrow> binding_capabilities \<Rightarrow>
     member_scope \<Rightarrow> bool \<Rightarrow> semantic_error + semantic_field" where
  "mk_field field_id owner_id name ty source mutable caps scope required =
     (let f = \<lparr>f_id = field_id, f_owner = owner_id, f_name = name, f_type = ty, f_source = source,
               f_mutable = mutable, f_capabilities = caps, f_scope = scope, f_required = required\<rparr>
      in ebind (check_field f) (\<lambda>_. Inr f))"

record semantic_parameter =
  p_name :: string
  p_type :: sem_type

definition check_parameter :: "semantic_parameter \<Rightarrow> semantic_error + unit" where
  "check_parameter p =
     ebind (validate_identifier (p_name p) ''semantic parameter'') (\<lambda>_.
     raise_if (is_void (p_type p)) (Shape VoidParameter))"

definition mk_parameter :: "string \<Rightarrow> sem_type \<Rightarrow> semantic_error + semantic_parameter" where
  "mk_parameter name ty =
     (let p = \<lparr>p_name = name, p_type = ty\<rparr> in ebind (check_parameter p) (\<lambda>_. Inr p))"

record semantic_binding =
  b_id :: string
  b_kind :: binding_kind
  b_name :: string
  b_capabilities :: binding_capabilities
  b_execution :: execution_mode
  b_parameters :: "semantic_parameter list"
  b_result :: sem_type
  b_source :: source_provenance
  b_owner_id :: "string option"
  b_owner_name :: "string option"
  b_scope :: "member_scope option"

definition check_binding :: "semantic_binding \<Rightarrow> semantic_error + unit" where
  "check_binding b =
     (let is_member = (b_kind b \<in> {BkObjectMethod, BkServiceMethod});
          has_owner = (b_owner_id b \<noteq> None \<and> b_owner_name b \<noteq> None) in
     ebind (raise_if (b_id b = []) (Shape EmptyBindingId)) (\<lambda>_.
     ebind (raise_if (\<not> bc_routable (b_capabilities b)) (Shape OrdinaryBinding)) (\<lambda>_.
     ebind (validate_identifier (b_name b) ''semantic binding'') (\<lambda>_.
     ebind (reject_duplicates (map p_name (b_parameters b)) (DupParameter (b_name b))) (\<lambda>_.
     ebind (raise_if (is_member \<noteq> has_owner) (Shape OwnerRequired)) (\<lambda>_.
     ebind (raise_if ((b_owner_id b = None) \<noteq> (b_owner_name b = None)) (Shape OwnerTogether)) (\<lambda>_.
     ebind (raise_if (b_owner_id b = Some []) (Shape EmptyOwnerId)) (\<lambda>_.
     ebind (case b_owner_name b of None \<Rightarrow> Inr () | Some n \<Rightarrow> validate_identifier n ''semantic owner'') (\<lambda>_.
     case b_scope b of
       None \<Rightarrow> Inr ()
     | Some sc \<Rightarrow>
         if b_kind b = BkFunction then raise_if (sc \<noteq> ScTopLevel) (Shape FunctionScope)
         else raise_if (sc = ScTopLevel) (Shape MethodTopLevel))))))))))"

text \<open>\<open>object.__setattr__(self, "member_scope", inferred_scope)\<close>.\<close>

definition infer_scope :: "semantic_binding \<Rightarrow> semantic_binding" where
  "infer_scope b =
     (case b_scope b of
        None \<Rightarrow> b\<lparr>b_scope := Some (if b_kind b = BkFunction then ScTopLevel else ScInstance)\<rparr>
      | Some _ \<Rightarrow> b)"

definition mk_binding ::
    "string \<Rightarrow> binding_kind \<Rightarrow> string \<Rightarrow> binding_capabilities \<Rightarrow> execution_mode \<Rightarrow>
     semantic_parameter list \<Rightarrow> sem_type \<Rightarrow> source_provenance \<Rightarrow> string option \<Rightarrow> string option \<Rightarrow>
     member_scope option \<Rightarrow> semantic_error + semantic_binding" where
  "mk_binding binding_id kind name caps execution parameters result source owner_id owner_name scope =
     (let b = \<lparr>b_id = binding_id, b_kind = kind, b_name = name, b_capabilities = caps,
               b_execution = execution, b_parameters = parameters, b_result = result,
               b_source = source, b_owner_id = owner_id, b_owner_name = owner_name, b_scope = scope\<rparr>
      in ebind (check_binding b) (\<lambda>_. Inr (infer_scope b)))"

section \<open>Classes\<close>

record semantic_constructor =
  k_source :: source_provenance
  k_parameters :: "semantic_parameter list"

definition check_constructor :: "semantic_constructor \<Rightarrow> semantic_error + unit" where
  "check_constructor k = reject_duplicates (map p_name (k_parameters k)) DupConstructorParameter"

definition mk_constructor ::
    "source_provenance \<Rightarrow> semantic_parameter list \<Rightarrow> semantic_error + semantic_constructor" where
  "mk_constructor source parameters =
     (let k = \<lparr>k_source = source, k_parameters = parameters\<rparr>
      in ebind (check_constructor k) (\<lambda>_. Inr k))"

record semantic_class =
  c_id :: string
  c_kind :: semantic_class_kind
  c_name :: string
  c_capabilities :: binding_capabilities
  c_source :: source_provenance
  c_constructor :: semantic_constructor
  c_methods :: "semantic_binding list"

definition check_class_method :: "semantic_class \<Rightarrow> binding_kind \<Rightarrow> semantic_binding \<Rightarrow> semantic_error + unit" where
  "check_class_method c expected m =
     ebind (raise_if (b_kind m \<noteq> expected) (MethodKind (b_name m))) (\<lambda>_.
     ebind (raise_if (b_owner_id m \<noteq> Some (c_id c) \<or> b_owner_name m \<noteq> Some (c_name c))
              (MethodOwner (b_name m))) (\<lambda>_.
     raise_if (c_kind c = CkInternalService \<and> bc_public (b_capabilities m)) (Shape ServiceMethodPublic)))"

definition check_class :: "semantic_class \<Rightarrow> semantic_error + unit" where
  "check_class c =
     ebind (raise_if (c_id c = []) (Shape EmptyClassId)) (\<lambda>_.
     ebind (validate_identifier (c_name c) ''semantic class'') (\<lambda>_.
     ebind (case c_kind c of
              CkJsObject \<Rightarrow>
                ebind (raise_if (capabilities_role (c_capabilities c) \<noteq> RoleExported) (Shape JsObjectCapabilities))
                  (\<lambda>_. Inr BkObjectMethod)
            | CkInternalService \<Rightarrow>
                ebind (raise_if (capabilities_role (c_capabilities c) \<noteq> RoleInternal) (Shape ServiceCapabilities))
                  (\<lambda>_. ebind (raise_if (k_parameters (c_constructor c) \<noteq> []) (Shape ServiceConstructorParameters))
                  (\<lambda>_. Inr BkServiceMethod))) (\<lambda>expected.
     ebind (echeck (check_class_method c expected) (c_methods c)) (\<lambda>_.
     ebind (reject_duplicates (map b_id (c_methods c)) (DupMethodBinding (c_name c))) (\<lambda>_.
     ebind (reject_duplicates (map (sp_declaration \<circ> b_source) (c_methods c))
              (DupMethodSource (c_name c))) (\<lambda>_.
     reject_duplicates (map b_name (c_methods c)) (DupMethodName (c_name c))))))))"

definition mk_class ::
    "string \<Rightarrow> semantic_class_kind \<Rightarrow> string \<Rightarrow> binding_capabilities \<Rightarrow> source_provenance \<Rightarrow>
     semantic_constructor \<Rightarrow> semantic_binding list \<Rightarrow> semantic_error + semantic_class" where
  "mk_class class_id kind name caps source constructor methods =
     (let c = \<lparr>c_id = class_id, c_kind = kind, c_name = name, c_capabilities = caps,
               c_source = source, c_constructor = constructor, c_methods = methods\<rparr>
      in ebind (check_class c) (\<lambda>_. Inr c))"

section \<open>Declarations\<close>

record enum_declaration =
  e_feature :: string
  e_type_id :: string
  e_name :: string
  e_constants :: "string list"
  e_projections :: "semantic_projection list"

record value_declaration =
  v_feature :: string
  v_type_id :: string
  v_name :: string
  v_fields :: "semantic_field list"
  v_projections :: "semantic_projection list"

record object_declaration =
  o_feature :: string
  o_type_id :: string
  o_name :: string
  o_projection :: semantic_projection
  o_constructor :: "semantic_constructor option"
  o_methods :: "semantic_binding list"
  o_fields :: "semantic_field list"

datatype semantic_declaration =
    EnumDecl enum_declaration
  | ValueDecl value_declaration
  | ObjectDecl object_declaration

definition check_header :: "string \<Rightarrow> string \<Rightarrow> string \<Rightarrow> semantic_error + unit" where
  "check_header feature_id type_id name =
     ebind (raise_if (feature_id = []) (Shape EmptyFeatureId)) (\<lambda>_.
     ebind (validate_identifier name ''semantic declaration'') (\<lambda>_.
     ebind (semantic_type_id feature_id name) (\<lambda>expected.
     raise_if (type_id \<noteq> expected) (TypeIdentity name expected type_id))))"

definition check_projections :: "string \<Rightarrow> semantic_projection list \<Rightarrow> semantic_error + unit" where
  "check_projections name projections =
     ebind (raise_if (projections = []) (NoProjection name)) (\<lambda>_.
     reject_duplicates (map (backend_name \<circ> pr_backend) projections) (DupBackend name))"

definition check_fields :: "string \<Rightarrow> string \<Rightarrow> semantic_field list \<Rightarrow> semantic_error + unit" where
  "check_fields owner_id owner_name fs =
     ebind (echeck (\<lambda>f. raise_if (f_owner f \<noteq> owner_id) (FieldOwner (f_name f))) fs) (\<lambda>_.
     ebind (reject_duplicates (map f_id fs) (DupFieldId owner_name)) (\<lambda>_.
     reject_duplicates (map f_name fs) (DupFieldName owner_name)))"

definition check_enum :: "enum_declaration \<Rightarrow> semantic_error + unit" where
  "check_enum d =
     ebind (check_header (e_feature d) (e_type_id d) (e_name d)) (\<lambda>_.
     ebind (raise_if (e_constants d = []) (EnumWithoutConstant (e_name d))) (\<lambda>_.
     ebind (echeck (\<lambda>c. validate_identifier c ''enum constant'') (e_constants d)) (\<lambda>_.
     ebind (reject_duplicates (e_constants d) (DupEnumConstant (e_name d))) (\<lambda>_.
     check_projections (e_name d) (e_projections d)))))"

definition check_value :: "value_declaration \<Rightarrow> semantic_error + unit" where
  "check_value d =
     ebind (check_header (v_feature d) (v_type_id d) (v_name d)) (\<lambda>_.
     ebind (raise_if (v_fields d = []) (ValueWithoutField (v_name d))) (\<lambda>_.
     ebind (check_fields (v_type_id d) (v_name d) (v_fields d)) (\<lambda>_.
     check_projections (v_name d) (v_projections d))))"

definition backend_for_language :: "string \<Rightarrow> semantic_error + backend_family" where
  "backend_for_language language =
     (if language = ''cpp'' then Inr BfCpp
      else if language \<in> {''kotlin'', ''java''} then Inr BfJvm
      else Inl (UnsupportedLanguage language))"

definition check_object_method :: "object_declaration \<Rightarrow> semantic_binding \<Rightarrow> semantic_error + unit" where
  "check_object_method d m =
     ebind (raise_if (b_kind m \<noteq> BkObjectMethod) (ObjectMemberKind (b_name m))) (\<lambda>_.
     raise_if (b_owner_id m \<noteq> Some (o_type_id d) \<or> b_owner_name m \<noteq> Some (o_name d))
       (MethodOwner (b_name m)))"

definition owned_sources :: "object_declaration \<Rightarrow> source_provenance list" where
  "owned_sources d =
     map f_source (o_fields d) @
     (case o_constructor d of None \<Rightarrow> [] | Some k \<Rightarrow> [k_source k]) @
     map b_source (o_methods d)"

definition static_methods :: "object_declaration \<Rightarrow> semantic_binding list" where
  "static_methods d = filter (\<lambda>m. b_scope m = Some ScStatic) (o_methods d)"

definition instance_methods :: "object_declaration \<Rightarrow> semantic_binding list" where
  "instance_methods d = filter (\<lambda>m. b_scope m \<noteq> Some ScStatic) (o_methods d)"

definition check_object :: "object_declaration \<Rightarrow> semantic_error + unit" where
  "check_object d =
     ebind (check_header (o_feature d) (o_type_id d) (o_name d)) (\<lambda>_.
     ebind (check_fields (o_type_id d) (o_name d) (o_fields d)) (\<lambda>_.
     ebind (echeck (check_object_method d) (o_methods d)) (\<lambda>_.
     ebind (echeck (\<lambda>s. ebind (backend_for_language (sp_language s)) (\<lambda>bf.
              raise_if (bf \<noteq> pr_backend (o_projection d)) (ObjectMemberBackend (sp_declaration s))))
              (owned_sources d)) (\<lambda>_.
     ebind (reject_duplicates (map b_id (o_methods d)) (DupMethodBinding (o_name d))) (\<lambda>_.
     ebind (reject_duplicates (map (sp_declaration \<circ> b_source) (o_methods d)) (DupMethodSource (o_name d))) (\<lambda>_.
     ebind (reject_duplicates (map b_name (static_methods d)) (DupStaticName (o_name d))) (\<lambda>_.
     reject_duplicates (map b_name (instance_methods d) @ map f_name (o_fields d))
       (DupInstanceName (o_name d)))))))))"

definition mk_enum :: "enum_declaration \<Rightarrow> semantic_error + semantic_declaration" where
  "mk_enum d = ebind (check_enum d) (\<lambda>_. Inr (EnumDecl d))"

definition mk_value :: "value_declaration \<Rightarrow> semantic_error + semantic_declaration" where
  "mk_value d = ebind (check_value d) (\<lambda>_. Inr (ValueDecl d))"

definition mk_object :: "object_declaration \<Rightarrow> semantic_error + semantic_declaration" where
  "mk_object d = ebind (check_object d) (\<lambda>_. Inr (ObjectDecl d))"

fun decl_kind :: "semantic_declaration \<Rightarrow> declaration_kind" where
  "decl_kind (EnumDecl _) = DkEnum"
| "decl_kind (ValueDecl _) = DkValue"
| "decl_kind (ObjectDecl _) = DkObject"

fun decl_type_id :: "semantic_declaration \<Rightarrow> string" where
  "decl_type_id (EnumDecl d) = e_type_id d"
| "decl_type_id (ValueDecl d) = v_type_id d"
| "decl_type_id (ObjectDecl d) = o_type_id d"

fun decl_feature :: "semantic_declaration \<Rightarrow> string" where
  "decl_feature (EnumDecl d) = e_feature d"
| "decl_feature (ValueDecl d) = v_feature d"
| "decl_feature (ObjectDecl d) = o_feature d"

fun decl_name :: "semantic_declaration \<Rightarrow> string" where
  "decl_name (EnumDecl d) = e_name d"
| "decl_name (ValueDecl d) = v_name d"
| "decl_name (ObjectDecl d) = o_name d"

fun decl_projections :: "semantic_declaration \<Rightarrow> semantic_projection list" where
  "decl_projections (EnumDecl d) = e_projections d"
| "decl_projections (ValueDecl d) = v_projections d"
| "decl_projections (ObjectDecl d) = [o_projection d]"

fun decl_fields :: "semantic_declaration \<Rightarrow> semantic_field list" where
  "decl_fields (EnumDecl d) = []"
| "decl_fields (ValueDecl d) = v_fields d"
| "decl_fields (ObjectDecl d) = o_fields d"

fun decl_methods :: "semantic_declaration \<Rightarrow> semantic_binding list" where
  "decl_methods (ObjectDecl d) = o_methods d"
| "decl_methods _ = []"

fun decl_constructor :: "semantic_declaration \<Rightarrow> semantic_constructor option" where
  "decl_constructor (ObjectDecl d) = o_constructor d"
| "decl_constructor _ = None"

end
