(* ===== verification/Semantic_Api.thy ===== *)
theory Semantic_Api
  imports Semantic_Model
begin

text \<open>
  \<^verbatim>\<open>SemanticApi\<close> and its whole-API checks: identities, public names, nominal references and value
  cycles (\<^verbatim>\<open>semantic.py\<close>).  The cycle check is the recursive depth-first search of the source; its
  \<open>visiting\<close> stack and \<open>complete\<close> set are arguments, and \<open>visit\<close> returns the grown \<open>complete\<close>.
\<close>

section \<open>The record\<close>

record semantic_api =
  a_functions :: "semantic_binding list"
  a_classes :: "semantic_class list"
  a_declarations :: "semantic_declaration list"

definition all_bindings :: "semantic_api \<Rightarrow> semantic_binding list" where
  "all_bindings api =
     a_functions api @ concat (map c_methods (a_classes api)) @
     concat (map decl_methods (a_declarations api))"

definition semantic_ids :: "semantic_api \<Rightarrow> string list" where
  "semantic_ids api =
     map b_id (all_bindings api) @ map c_id (a_classes api) @
     map decl_type_id (a_declarations api) @
     concat (map (map f_id \<circ> decl_fields) (a_declarations api))"

definition declaration_source_ids :: "semantic_declaration \<Rightarrow> string list" where
  "declaration_source_ids d =
     map (sp_declaration \<circ> pr_source) (decl_projections d) @
     (case decl_constructor d of None \<Rightarrow> [] | Some k \<Rightarrow> [sp_declaration (k_source k)]) @
     map (sp_declaration \<circ> f_source) (decl_fields d)"

definition api_source_ids :: "semantic_api \<Rightarrow> string list" where
  "api_source_ids api =
     map (sp_declaration \<circ> b_source) (all_bindings api) @
     map (sp_declaration \<circ> c_source) (a_classes api) @
     map (sp_declaration \<circ> k_source \<circ> c_constructor) (a_classes api) @
     concat (map declaration_source_ids (a_declarations api))"

definition public_names :: "semantic_api \<Rightarrow> string list" where
  "public_names api =
     map b_name (filter (bc_public \<circ> b_capabilities) (a_functions api)) @
     map c_name (filter (bc_public \<circ> c_capabilities) (a_classes api))"

section \<open>Nominal references\<close>

fun walk_type :: "sem_type \<Rightarrow> sem_type list" where
  "walk_type (SemType k s i None) = [SemType k s i None]"
| "walk_type (SemType k s i (Some e)) = SemType k s i (Some e) # walk_type e"

definition binding_types :: "semantic_binding \<Rightarrow> sem_type list" where
  "binding_types b = map p_type (b_parameters b) @ [b_result b]"

definition constructor_types :: "semantic_constructor \<Rightarrow> sem_type list" where
  "constructor_types k = map p_type (k_parameters k)"

definition class_types :: "semantic_class \<Rightarrow> sem_type list" where
  "class_types c = constructor_types (c_constructor c) @ concat (map binding_types (c_methods c))"

definition declaration_types :: "semantic_declaration \<Rightarrow> sem_type list" where
  "declaration_types d =
     map f_type (decl_fields d) @
     (case decl_constructor d of None \<Rightarrow> [] | Some k \<Rightarrow> constructor_types k) @
     concat (map binding_types (decl_methods d))"

definition all_api_types :: "semantic_api \<Rightarrow> sem_type list" where
  "all_api_types api =
     concat (map binding_types (a_functions api)) @
     concat (map class_types (a_classes api)) @
     concat (map declaration_types (a_declarations api))"

text \<open>\<open>{item.type_id: item for item in api.declarations}\<close>: a later entry replaces an earlier one.\<close>

definition declaration_map :: "semantic_api \<Rightarrow> string \<Rightarrow> semantic_declaration option" where
  "declaration_map api = map_of (rev (map (\<lambda>d. (decl_type_id d, d)) (a_declarations api)))"

fun expected_declaration :: "type_kind \<Rightarrow> declaration_kind option" where
  "expected_declaration KEnumRef = Some DkEnum"
| "expected_declaration KValueRef = Some DkValue"
| "expected_declaration KObjectRef = Some DkObject"
| "expected_declaration _ = None"

definition node_id :: "sem_type \<Rightarrow> string" where
  "node_id t = (case st_type_id t of Some i \<Rightarrow> i | None \<Rightarrow> [])"

definition check_reference ::
    "(string \<Rightarrow> semantic_declaration option) \<Rightarrow> sem_type \<Rightarrow> semantic_error + unit" where
  "check_reference decls t =
     (case expected_declaration (st_kind t) of
        None \<Rightarrow> Inr ()
      | Some dk \<Rightarrow>
          (case decls (node_id t) of
             None \<Rightarrow> Inl (UnknownTypeId (st_kind t) (node_id t))
           | Some d \<Rightarrow> raise_if (decl_kind d \<noteq> dk) (NominalKind (node_id t) (st_kind t) (decl_kind d))))"

definition check_named_references :: "semantic_api \<Rightarrow> semantic_error + unit" where
  "check_named_references api =
     echeck (\<lambda>root. echeck (check_reference (declaration_map api)) (walk_type root)) (all_api_types api)"

section \<open>Value cycles\<close>

definition value_refs :: "sem_type \<Rightarrow> string list" where
  "value_refs t = map node_id (filter (\<lambda>n. st_kind n = KValueRef \<and> st_type_id n \<noteq> None) (walk_type t))"

definition value_dependencies :: "value_declaration \<Rightarrow> string set" where
  "value_dependencies d = set (concat (map (value_refs \<circ> f_type) (v_fields d)))"

fun value_entry :: "semantic_declaration \<Rightarrow> (string \<times> value_declaration) list" where
  "value_entry (ValueDecl v) = [(v_type_id v, v)]"
| "value_entry _ = []"

definition value_map :: "semantic_api \<Rightarrow> (string \<times> value_declaration) list" where
  "value_map api =
     rev (concat (map value_entry (a_declarations api)))"

text \<open>
  The search over an explicit dependency table; a missing key is Python's \<open>KeyError\<close>.  \<open>visit_all\<close> is
  the loop over a node's sorted dependencies.
\<close>

datatype cycle_error = CycleFound "string list" | CycleKeyError string

type_synonym dependency_table = "(string \<times> string list) list"

function (sequential) visit ::
    "dependency_table \<Rightarrow> string \<Rightarrow> string list \<Rightarrow> string list \<Rightarrow> cycle_error + string list"
  and visit_all ::
    "dependency_table \<Rightarrow> string list \<Rightarrow> string list \<Rightarrow> string list \<Rightarrow> cycle_error + string list" where
  "visit deps type_id visiting complete =
     (if type_id \<in> set complete then Inr complete
      else if type_id \<in> set visiting then
        Inl (CycleFound (dropWhile (\<lambda>x. x \<noteq> type_id) visiting @ [type_id]))
      else case map_of deps type_id of
        None \<Rightarrow> Inl (CycleKeyError type_id)
      | Some ds \<Rightarrow>
          ebind (visit_all deps ds (visiting @ [type_id]) complete) (\<lambda>complete'.
            Inr (type_id # complete')))"
| "visit_all deps [] visiting complete = Inr complete"
| "visit_all deps (d # ds) visiting complete =
     ebind (visit deps d visiting complete) (\<lambda>complete'. visit_all deps ds visiting complete')"
  by pat_completeness auto
termination
proof (relation "measures
    [\<lambda>x. case x of
        Inl (deps, t, visiting, c) \<Rightarrow> card (fst ` set deps - set visiting)
      | Inr (deps, ds, visiting, c) \<Rightarrow> card (fst ` set deps - set visiting),
     \<lambda>x. case x of Inl _ \<Rightarrow> 0 | Inr (deps, ds, _) \<Rightarrow> length ds]", goal_cases)
  case 1
  then show ?case by simp
next
  case (2 deps type_id visiting complete ds)
  then have "type_id \<in> fst ` set deps" by (force dest: map_of_SomeD)
  with 2 have "fst ` set deps - set (visiting @ [type_id]) \<subset> fst ` set deps - set visiting" by auto
  then have "card (fst ` set deps - set (visiting @ [type_id])) < card (fst ` set deps - set visiting)"
    by (intro psubset_card_mono) simp
  then show ?case by simp
qed simp_all

declare visit.simps [simp del]

definition dependency_table_of :: "semantic_api \<Rightarrow> dependency_table" where
  "dependency_table_of api =
     map (\<lambda>(i, d). (i, sorted_list_of_set (value_dependencies d))) (value_map api)"

definition check_value_cycles :: "semantic_api \<Rightarrow> semantic_error + unit" where
  "check_value_cycles api =
     (case visit_all (dependency_table_of api)
             (sorted_list_of_set (fst ` set (value_map api))) [] [] of
        Inl (CycleFound cyc) \<Rightarrow> Inl (ValueCycle cyc)
      | Inl (CycleKeyError k) \<Rightarrow> Inl (UnknownTypeId KValueRef k)
      | Inr _ \<Rightarrow> Inr ())"

section \<open>The constructor\<close>

definition check_api :: "semantic_api \<Rightarrow> semantic_error + unit" where
  "check_api api =
     ebind (echeck (\<lambda>b. raise_if (b_kind b \<noteq> BkFunction) (Shape TopLevelKind)) (a_functions api)) (\<lambda>_.
     ebind (reject_duplicates (semantic_ids api) DupSemanticId) (\<lambda>_.
     ebind (reject_duplicates (api_source_ids api) DupSourceId) (\<lambda>_.
     ebind (reject_duplicates (public_names api) DupPublicName) (\<lambda>_.
     ebind (check_named_references api) (\<lambda>_.
     check_value_cycles api)))))"

definition mk_api ::
    "semantic_binding list \<Rightarrow> semantic_class list \<Rightarrow> semantic_declaration list \<Rightarrow>
     semantic_error + semantic_api" where
  "mk_api fs cs ds =
     (let api = \<lparr>a_functions = fs, a_classes = cs, a_declarations = ds\<rparr>
      in ebind (check_api api) (\<lambda>_. Inr api))"

section \<open>Declared identities\<close>

definition declared_ids :: "semantic_api \<Rightarrow> string set" where
  "declared_ids api = decl_type_id ` set (a_declarations api)"

lemma declaration_map_in:
  assumes "declaration_map api i = Some d" shows "d \<in> set (a_declarations api)" "decl_type_id d = i"
  using map_of_SomeD [OF assms [unfolded declaration_map_def]] by auto

lemma declared_idI: "declaration_map api i = Some d \<Longrightarrow> i \<in> declared_ids api"
  using declaration_map_in by (fastforce simp: declared_ids_def)

lemma finite_declared_ids [simp]: "finite (declared_ids api)" by (simp add: declared_ids_def)

lemma card_insert_less:
  assumes "finite A" "x \<in> A" "x \<notin> B" shows "card (A - insert x B) < card (A - B)"
  using assms by (intro psubset_card_mono) auto

end
