(* ===== verification/Semantic_Api_Props.thy ===== *)
theory Semantic_Api_Props
  imports Semantic_Api
begin

text \<open>
  The cycle search of \<open>SemanticApi\<close> against its specification: it succeeds exactly on acyclic value
  graphs, and a reported cycle is one.
\<close>

section \<open>Depth-first search\<close>

text \<open>The edges of a table, and paths along them.\<close>

definition edge :: "dependency_table \<Rightarrow> string \<Rightarrow> string \<Rightarrow> bool" where
  "edge deps a b \<longleftrightarrow> (\<exists>ds. map_of deps a = Some ds \<and> b \<in> set ds)"

definition path :: "dependency_table \<Rightarrow> string list \<Rightarrow> bool" where
  "path deps xs = successively (edge deps) xs"

text \<open>A finished set is closed under edges and carries no cycle.\<close>

definition finished :: "dependency_table \<Rightarrow> string set \<Rightarrow> bool" where
  "finished deps C \<longleftrightarrow>
     (\<forall>a \<in> C. \<forall>b. edge deps a b \<longrightarrow> b \<in> C) \<and> acyclic {(a, b). a \<in> C \<and> edge deps a b}"

lemma acyclic_Un_source:
  assumes "acyclic r" "\<And>a b. (a, b) \<in> r \<Longrightarrow> b \<noteq> x" "\<And>a b. (a, b) \<in> s \<Longrightarrow> a = x \<and> b \<noteq> x"
  shows "acyclic (r \<union> s)"
proof (rule acyclicI, intro allI notI)
  fix y assume y: "(y, y) \<in> (r \<union> s)\<^sup>+"
  have no: "b \<noteq> x" if "(a, b) \<in> (r \<union> s)\<^sup>+" for a b
    using that by (induction rule: trancl.induct) (use assms(2,3) in blast)+
  have "(a, b) \<in> r\<^sup>+" if "(a, b) \<in> (r \<union> s)\<^sup>+" "a \<noteq> x" for a b
    using that
  proof (induction rule: trancl.induct)
    case (r_into_trancl a b)
    then show ?case using assms(3) by blast
  next
    case (trancl_into_trancl a b c)
    then have "(a, b) \<in> r\<^sup>+" "b \<noteq> x" using no by blast+
    moreover from this trancl_into_trancl(2) have "(b, c) \<in> r" using assms(3) by blast
    ultimately show ?case by (meson trancl.trancl_into_trancl)
  qed
  with y no have "(y, y) \<in> r\<^sup>+" by blast
  with assms(1) show False by (simp add: acyclic_def)
qed

lemma finished_insert:
  assumes fin: "finished deps C" and sub: "\<And>b. edge deps x b \<Longrightarrow> b \<in> C"
  shows "finished deps (insert x C)"
proof (cases "x \<in> C")
  case True
  with fin show ?thesis by (simp add: insert_absorb)
next
  case False
  let ?r = "{(a, b). a \<in> C \<and> edge deps a b}" and ?s = "{(a, b). a = x \<and> edge deps a b}"
  have "acyclic (?r \<union> ?s)"
    using fin sub False by (intro acyclic_Un_source [where x = x]) (auto simp: finished_def)
  moreover have "{(a, b). a \<in> insert x C \<and> edge deps a b} = ?r \<union> ?s" by auto
  ultimately have "acyclic {(a, b). a \<in> insert x C \<and> edge deps a b}" by metis
  with fin sub show ?thesis by (auto simp: finished_def)
qed

lemma visit_sound:
  "visit deps t visiting complete = Inr complete' \<Longrightarrow> finished deps (set complete) \<Longrightarrow>
     finished deps (set complete') \<and> set complete \<subseteq> set complete' \<and> t \<in> set complete'"
  "visit_all deps ts visiting complete = Inr complete' \<Longrightarrow> finished deps (set complete) \<Longrightarrow>
     finished deps (set complete') \<and> set complete \<subseteq> set complete' \<and> set ts \<subseteq> set complete'"
proof (induction deps t visiting complete and deps ts visiting complete
    arbitrary: complete' and complete' rule: visit_visit_all.induct)
  case (1 deps t visiting complete)
  show ?case
  proof (cases "t \<in> set complete")
    case True
    with "1.prems" show ?thesis by (simp add: visit.simps)
  next
    case False
    with "1.prems"(1) obtain ds c1 where ds: "t \<notin> set visiting" "map_of deps t = Some ds"
      "visit_all deps ds (visiting @ [t]) complete = Inr c1" "complete' = t # c1"
      by (auto simp: visit.simps [of deps t] split: if_splits option.splits)
    with "1.IH" [OF False ds(1,2) ds(3) "1.prems"(2)] have
      "finished deps (set c1)" "set complete \<subseteq> set c1" "set ds \<subseteq> set c1" by auto
    with ds finished_insert [of deps "set c1" t] show ?thesis by (auto simp: edge_def)
  qed
next
  case (2 deps visiting complete)
  then show ?case by simp
next
  case (3 deps d ds visiting complete)
  from "3.prems"(1) obtain c1 where c1: "visit deps d visiting complete = Inr c1"
    "visit_all deps ds visiting c1 = Inr complete'" by auto
  from "3.IH"(1) [OF c1(1) "3.prems"(2)] have "finished deps (set c1)"
    "set complete \<subseteq> set c1" "d \<in> set c1" by auto
  with "3.IH"(2) [OF c1(1) c1(2)] show ?case by auto
qed

lemma path_snoc:
  "path deps (xs @ [y]) \<longleftrightarrow> path deps xs \<and> (xs = [] \<or> edge deps (last xs) y)"
  by (auto simp: path_def successively_append_iff)

lemma path_suffix: "path deps (xs @ ys) \<Longrightarrow> path deps ys"
  by (auto simp: path_def successively_append_iff)

lemma cycle_tail:
  assumes "path deps (xs @ [t])" "t \<in> set xs"
  shows "path deps (dropWhile (\<lambda>x. x \<noteq> t) xs @ [t]) \<and> hd (dropWhile (\<lambda>x. x \<noteq> t) xs @ [t]) = t"
proof -
  have "path deps ((takeWhile (\<lambda>x. x \<noteq> t) xs @ dropWhile (\<lambda>x. x \<noteq> t) xs) @ [t])"
    using assms(1) by (simp only: takeWhile_dropWhile_id)
  then have "path deps (takeWhile (\<lambda>x. x \<noteq> t) xs @ (dropWhile (\<lambda>x. x \<noteq> t) xs @ [t]))"
    by (simp only: append_assoc)
  then have "path deps (dropWhile (\<lambda>x. x \<noteq> t) xs @ [t])" by (rule path_suffix)
  moreover have ne: "dropWhile (\<lambda>x. x \<noteq> t) xs \<noteq> []" using assms(2) by auto
  then have "hd (dropWhile (\<lambda>x. x \<noteq> t) xs @ [t]) = t"
    using hd_dropWhile [OF ne] ne by (simp only: hd_append2 not_not simp_thms)
  ultimately show ?thesis by blast
qed

definition real_cycle :: "dependency_table \<Rightarrow> string list \<Rightarrow> bool" where
  "real_cycle deps cyc \<longleftrightarrow> 2 \<le> length cyc \<and> hd cyc = last cyc \<and> path deps cyc"

lemma visit_errors:
  "visit deps t visiting complete = Inl (CycleFound cyc) \<Longrightarrow> path deps (visiting @ [t]) \<Longrightarrow>
     real_cycle deps cyc"
  "visit_all deps ts visiting complete = Inl (CycleFound cyc) \<Longrightarrow> path deps visiting \<Longrightarrow>
     (\<forall>t \<in> set ts. visiting = [] \<or> edge deps (last visiting) t) \<Longrightarrow> real_cycle deps cyc"
proof (induction deps t visiting complete and deps ts visiting complete
    rule: visit_visit_all.induct)
  case (1 deps t visiting complete)
  have nc: "t \<notin> set complete" using "1.prems"(1) by (auto simp: visit.simps [of deps t])
  show ?case
  proof (cases "t \<in> set visiting")
    case True
    with nc "1.prems"(1) have "cyc = dropWhile (\<lambda>x. x \<noteq> t) visiting @ [t]"
      by (simp add: visit.simps [of deps t])
    moreover have "dropWhile (\<lambda>x. x \<noteq> t) visiting \<noteq> []" using True by auto
    then have "2 \<le> length (dropWhile (\<lambda>x. x \<noteq> t) visiting @ [t])"
      by (cases "dropWhile (\<lambda>x. x \<noteq> t) visiting") auto
    ultimately show ?thesis
      using cycle_tail [OF "1.prems"(2) True] by (simp add: real_cycle_def)
  next
    case False
    with nc "1.prems"(1) obtain ds where ds: "map_of deps t = Some ds"
      "visit_all deps ds (visiting @ [t]) complete = Inl (CycleFound cyc)"
      by (auto simp: visit.simps [of deps t] ebind_Inl split: option.splits)
    then show ?thesis using "1.IH" [OF nc False ds(1) ds(2) "1.prems"(2)] by (auto simp: edge_def)
  qed
next
  case (2 deps visiting complete)
  then show ?case by simp
next
  case (3 deps d ds visiting complete)
  from "3.prems"(1) consider "visit deps d visiting complete = Inl (CycleFound cyc)"
    | c1 where "visit deps d visiting complete = Inr c1" "visit_all deps ds visiting c1 = Inl (CycleFound cyc)"
    by (auto simp: ebind_Inl)
  then show ?case
  proof cases
    case 1
    with "3.IH"(1) "3.prems"(2,3) show ?thesis by (auto simp: path_snoc)
  next
    case 2
    with "3.IH"(2) "3.prems"(2,3) show ?thesis by auto
  qed
qed

lemma visit_keys:
  "visit deps t visiting complete = Inl (CycleKeyError k) \<Longrightarrow>
     (\<And>a b. edge deps a b \<Longrightarrow> b \<in> fst ` set deps) \<Longrightarrow> t \<in> fst ` set deps \<Longrightarrow> False"
  "visit_all deps ts visiting complete = Inl (CycleKeyError k) \<Longrightarrow>
     (\<And>a b. edge deps a b \<Longrightarrow> b \<in> fst ` set deps) \<Longrightarrow> set ts \<subseteq> fst ` set deps \<Longrightarrow> False"
proof (induction deps t visiting complete and deps ts visiting complete
    rule: visit_visit_all.induct)
  case (1 deps t visiting complete)
  from "1.prems"(3) obtain ds where ds: "map_of deps t = Some ds"
    by (metis domIff dom_map_of_conv_image_fst not_None_eq)
  then have "set ds \<subseteq> fst ` set deps" using "1.prems"(2) by (auto simp: edge_def)
  with 1 ds show ?case
    by (auto simp: visit.simps [of deps t] ebind_Inl split: if_splits)
next
  case (2 deps visiting complete)
  then show ?case by simp
next
  case (3 deps d ds visiting complete)
  then show ?case by (auto simp: ebind_Inl)
qed

lemma real_cycle_not_acyclic:
  assumes "real_cycle deps cyc" shows "\<not> acyclic {(a, b). edge deps a b}"
proof -
  have "path deps xs \<Longrightarrow> 2 \<le> length xs \<Longrightarrow> (hd xs, last xs) \<in> {(a, b). edge deps a b}\<^sup>+" for xs
  proof (induction xs)
    case Nil
    then show ?case by simp
  next
    case (Cons x xs)
    show ?case
    proof (cases "2 \<le> length xs")
      case True
      with Cons have "(hd xs, last xs) \<in> {(a, b). edge deps a b}\<^sup>+" "edge deps x (hd xs)"
        by (auto simp: path_def successively_Cons)
      with True show ?thesis by (auto intro: trancl_into_trancl2)
    next
      case False
      with Cons.prems obtain y where "xs = [y]" by (cases xs; cases "tl xs") auto
      with Cons.prems show ?thesis by (auto simp: path_def)
    qed
  qed
  with assms show ?thesis unfolding real_cycle_def acyclic_def by metis
qed

lemma visit_all_decides:
  assumes closed: "\<And>a b. edge deps a b \<Longrightarrow> b \<in> fst ` set deps" and ts: "set ts = fst ` set deps"
  shows "(\<exists>c. visit_all deps ts [] [] = Inr c) \<longleftrightarrow> acyclic {(a, b). edge deps a b}"
    "visit_all deps ts [] [] = Inl (CycleFound cyc) \<Longrightarrow> real_cycle deps cyc"
    "visit_all deps ts [] [] \<noteq> Inl (CycleKeyError k)"
proof -
  show key: "visit_all deps ts [] [] \<noteq> Inl (CycleKeyError k)" for k
    using visit_keys(2) [of deps ts "[]" "[]" k] closed ts by blast
  show cyc: "visit_all deps ts [] [] = Inl (CycleFound cyc) \<Longrightarrow> real_cycle deps cyc" for cyc
    using visit_errors(2) [of deps ts "[]" "[]" cyc] by (simp add: path_def)
  show "(\<exists>c. visit_all deps ts [] [] = Inr c) \<longleftrightarrow> acyclic {(a, b). edge deps a b}"
  proof
    assume "\<exists>c. visit_all deps ts [] [] = Inr c"
    then obtain c where c: "visit_all deps ts [] [] = Inr c" by blast
    from visit_sound(2) [OF c] ts have "finished deps (set c)" "fst ` set deps \<subseteq> set c"
      by (auto simp: finished_def acyclic_def)
    moreover have "{(a, b). edge deps a b} = {(a, b). a \<in> set c \<and> edge deps a b}"
      using calculation(2) by (force simp: edge_def dest: map_of_SomeD)
    ultimately show "acyclic {(a, b). edge deps a b}" by (simp add: finished_def)
  next
    assume acyc: "acyclic {(a, b). edge deps a b}"
    show "\<exists>c. visit_all deps ts [] [] = Inr c"
    proof (cases "visit_all deps ts [] []")
      case (Inl e)
      then show ?thesis using key cyc real_cycle_not_acyclic acyc by (cases e) blast+
    qed blast
  qed
qed

section \<open>Declarations by identity\<close>

definition value_edge :: "semantic_api \<Rightarrow> string \<Rightarrow> string \<Rightarrow> bool" where
  "value_edge api a b \<longleftrightarrow>
     (\<exists>v. ValueDecl v \<in> set (a_declarations api) \<and> v_type_id v = a \<and> b \<in> value_dependencies v)"

text \<open>A node of a type refers to a declaration of the right kind.\<close>

definition resolves :: "semantic_api \<Rightarrow> sem_type \<Rightarrow> bool" where
  "resolves api n \<longleftrightarrow>
     (\<forall>dk. expected_declaration (st_kind n) = Some dk \<longrightarrow>
        (\<exists>d \<in> set (a_declarations api). decl_type_id d = node_id n \<and> decl_kind d = dk))"

definition references_resolve :: "semantic_api \<Rightarrow> bool" where
  "references_resolve api \<longleftrightarrow> (\<forall>t \<in> set (all_api_types api). \<forall>n \<in> set (walk_type t). resolves api n)"

lemma declaration_map_Some:
  assumes "distinct (map decl_type_id (a_declarations api))"
  shows "declaration_map api i = Some d \<longleftrightarrow> d \<in> set (a_declarations api) \<and> decl_type_id d = i"
proof -
  have "distinct (map fst (rev (map (\<lambda>d. (decl_type_id d, d)) (a_declarations api))))"
    using assms by (simp only: rev_map [symmetric] distinct_rev map_map comp_def fst_conv)
  then show ?thesis by (auto simp: declaration_map_def)
qed

lemma semantic_ids_distinctD:
  assumes "distinct (semantic_ids api)"
  shows "distinct (map decl_type_id (a_declarations api))"
  using assms by (simp add: semantic_ids_def)

lemma check_named_references_Inr:
  assumes "distinct (map decl_type_id (a_declarations api))"
  shows "check_named_references api = Inr () \<longleftrightarrow> references_resolve api"
proof -
  have "check_reference (declaration_map api) n = Inr () \<longleftrightarrow> resolves api n" for n
  proof (cases "expected_declaration (st_kind n)")
    case None
    then show ?thesis by (simp add: check_reference_def resolves_def)
  next
    case (Some dk)
    have "(\<exists>d \<in> set (a_declarations api). decl_type_id d = node_id n \<and> decl_kind d = dk) \<longleftrightarrow>
        (\<exists>d. declaration_map api (node_id n) = Some d \<and> decl_kind d = dk)"
      using declaration_map_Some [OF assms] by auto
    with Some show ?thesis by (auto simp: check_reference_def resolves_def split: option.splits)
  qed
  then show ?thesis by (simp add: check_named_references_def references_resolve_def)
qed

lemma value_entry_set: "(i, v) \<in> set (value_entry d) \<longleftrightarrow> d = ValueDecl v \<and> v_type_id v = i"
  by (cases d) auto

lemma value_map_set: "(i, v) \<in> set (value_map api) \<longleftrightarrow> ValueDecl v \<in> set (a_declarations api) \<and> v_type_id v = i"
  by (auto simp: value_map_def value_entry_set)

lemma value_entries_distinct:
  "distinct (map decl_type_id ds) \<Longrightarrow>
     distinct (map fst (concat (map value_entry ds))) \<and>
     fst ` set (concat (map value_entry ds)) \<subseteq> decl_type_id ` set ds"
proof (induction ds)
  case Nil
  then show ?case by simp
next
  case (Cons d ds)
  then show ?case by (cases d) auto
qed

lemma value_map_distinct:
  assumes "distinct (map decl_type_id (a_declarations api))" shows "distinct (map fst (value_map api))"
  using value_entries_distinct [OF assms]
  by (simp only: value_map_def rev_map [symmetric] distinct_rev)

lemma finite_value_dependencies [simp]: "finite (value_dependencies v)"
  by (simp add: value_dependencies_def)

lemma edge_dependency_table:
  assumes "distinct (map decl_type_id (a_declarations api))"
  shows "edge (dependency_table_of api) a b \<longleftrightarrow> value_edge api a b"
proof -
  have "map_of (dependency_table_of api) a =
      map_option (\<lambda>d. sorted_list_of_set (value_dependencies d)) (map_of (value_map api) a)"
    by (simp add: dependency_table_of_def map_of_map)
  moreover have "map_of (value_map api) a = Some v \<longleftrightarrow>
      ValueDecl v \<in> set (a_declarations api) \<and> v_type_id v = a" for v
    using map_of_eq_Some_iff [OF value_map_distinct [OF assms]] value_map_set by simp
  ultimately show ?thesis by (auto simp: edge_def value_edge_def)
qed

lemma value_edge_closed:
  assumes "references_resolve api" "value_edge api a b"
  shows "\<exists>v. ValueDecl v \<in> set (a_declarations api) \<and> v_type_id v = b"
proof -
  from assms(2) obtain v f n where v: "ValueDecl v \<in> set (a_declarations api)" "f \<in> set (v_fields v)"
    "n \<in> set (walk_type (f_type f))" "st_kind n = KValueRef" "node_id n = b"
    by (auto simp: value_edge_def value_dependencies_def value_refs_def)
  then have "f_type f \<in> set (all_api_types api)"
    by (auto simp: all_api_types_def declaration_types_def intro!: bexI [of _ "ValueDecl v"])
  with assms(1) v(3) have "resolves api n" by (auto simp: references_resolve_def)
  with v(4,5) obtain d where "d \<in> set (a_declarations api)" "decl_type_id d = b" "decl_kind d = DkValue"
    by (auto simp: resolves_def)
  moreover from this(3) obtain v where "d = ValueDecl v" by (cases d) auto
  ultimately show ?thesis by auto
qed

lemma check_value_cycles_Inr:
  assumes d: "distinct (map decl_type_id (a_declarations api))" and r: "references_resolve api"
  shows "check_value_cycles api = Inr () \<longleftrightarrow> acyclic {(a, b). value_edge api a b}"
    "check_value_cycles api = Inl (ValueCycle cyc) \<Longrightarrow> real_cycle (dependency_table_of api) cyc"
    "check_value_cycles api \<noteq> Inl (UnknownTypeId k i)"
proof -
  let ?t = "dependency_table_of api" and ?ts = "sorted_list_of_set (fst ` set (value_map api))"
  have keys: "fst ` set ?t = fst ` set (value_map api)" by (force simp: dependency_table_of_def)
  have closed: "b \<in> fst ` set ?t" if "edge ?t a b" for a b
  proof -
    from that value_edge_closed [OF r] obtain v
      where "ValueDecl v \<in> set (a_declarations api)" "v_type_id v = b"
      unfolding edge_dependency_table [OF d] by blast
    then have "(b, v) \<in> set (value_map api)" by (simp add: value_map_set)
    then show ?thesis unfolding keys by force
  qed
  have ts: "set ?ts = fst ` set ?t" by (simp add: keys)
  note dec = visit_all_decides [of ?t ?ts, OF closed ts]
  have "check_value_cycles api = Inr () \<longleftrightarrow> (\<exists>c. visit_all ?t ?ts [] [] = Inr c)"
    by (auto simp: check_value_cycles_def split: sum.splits cycle_error.splits)
  with dec(1) show "check_value_cycles api = Inr () \<longleftrightarrow> acyclic {(a, b). value_edge api a b}"
    by (simp add: edge_dependency_table [OF d])
  show "check_value_cycles api = Inl (ValueCycle cyc) \<Longrightarrow> real_cycle ?t cyc"
    using dec(2) by (auto simp: check_value_cycles_def split: sum.splits cycle_error.splits)
  show "check_value_cycles api \<noteq> Inl (UnknownTypeId k i)"
    using dec(3) by (auto simp: check_value_cycles_def split: sum.splits cycle_error.splits)
qed

section \<open>What an API is\<close>

definition api_ok :: "semantic_api \<Rightarrow> bool" where
  "api_ok api \<longleftrightarrow>
     list_all (\<lambda>b. b_kind b = BkFunction) (a_functions api) \<and>
     distinct (semantic_ids api) \<and> distinct (api_source_ids api) \<and> distinct (public_names api) \<and>
     references_resolve api \<and> acyclic {(a, b). value_edge api a b}"

lemma check_api_Inr: "check_api api = Inr () \<longleftrightarrow> api_ok api"
proof (cases "distinct (semantic_ids api)")
  case True
  note d = semantic_ids_distinctD [OF True]
  have "check_api api = Inr () \<longleftrightarrow>
      list_all (\<lambda>b. b_kind b = BkFunction) (a_functions api) \<and> distinct (semantic_ids api) \<and>
      distinct (api_source_ids api) \<and> distinct (public_names api) \<and>
      check_named_references api = Inr () \<and> check_value_cycles api = Inr ()"
    by (auto simp: check_api_def list_all_iff)
  then show ?thesis
    using check_named_references_Inr [OF d] check_value_cycles_Inr(1) [OF d] by (auto simp: api_ok_def)
next
  case False
  then show ?thesis by (auto simp: check_api_def api_ok_def)
qed

lemma not_cycle_errors:
  "reject_duplicates vs what \<noteq> Inl (ValueCycle cyc)"
  "check_named_references api \<noteq> Inl (ValueCycle cyc)"
proof -
  show "reject_duplicates vs what \<noteq> Inl (ValueCycle cyc)"
    by (simp add: reject_duplicates_def split: option.splits)
  have "check_reference m t \<noteq> Inl (ValueCycle cyc)" for m t
    by (simp add: check_reference_def split: option.splits)
  then show "check_named_references api \<noteq> Inl (ValueCycle cyc)"
    unfolding check_named_references_def by (blast elim: echeck_InlE)
qed

text \<open>
  C4. An API is accepted exactly when its top-level bindings are functions, its semantic identities,
  source identities and public names are each pairwise different, every nominal reference inside every
  type names a declaration of the right kind, and the value declarations form an acyclic graph: the
  depth-first search with its sorted order and early exits decides acyclicity.
\<close>

theorem semantic_api_accepts:
  "mk_api fs cs ds = Inr api \<longleftrightarrow>
     api = \<lparr>a_functions = fs, a_classes = cs, a_declarations = ds\<rparr> \<and> api_ok api"
  by (auto simp: mk_api_def Let_def check_api_Inr)

text \<open>
  C5. The cycle in the error message is one: it has at least one step, it ends where it starts, and
  each entry is a value declaration with a field that mentions the next.
\<close>

theorem reported_cycle_is_real:
  assumes "mk_api fs cs ds = Inl (ValueCycle cyc)"
  shows "2 \<le> length cyc \<and> hd cyc = last cyc \<and>
         successively (value_edge \<lparr>a_functions = fs, a_classes = cs, a_declarations = ds\<rparr>) cyc"
proof -
  let ?api = "\<lparr>a_functions = fs, a_classes = cs, a_declarations = ds\<rparr>"
  have "check_api ?api = Inl (ValueCycle cyc)" using assms by (auto simp: mk_api_def Let_def ebind_Inl)
  then have ids: "distinct (semantic_ids ?api)" and named: "check_named_references ?api = Inr ()"
    and cyc: "check_value_cycles ?api = Inl (ValueCycle cyc)"
    using not_cycle_errors by (fastforce simp: check_api_def ebind_Inl elim: echeck_InlE)+
  note d = semantic_ids_distinctD [OF ids]
  have "references_resolve ?api" using named by (simp add: check_named_references_Inr [OF d])
  from check_value_cycles_Inr(2) [OF d this cyc] show ?thesis
    by (simp add: real_cycle_def path_def edge_dependency_table [OF d, abs_def])
qed

definition sample_source :: "string \<Rightarrow> source_provenance" where
  "sample_source i = \<lparr>sp_declaration = i, sp_language = ''cpp'', sp_path = ''a.cpp'', sp_line = 1, sp_column = 1\<rparr>"

definition sample_projection :: "string \<Rightarrow> semantic_projection" where
  "sample_projection i = \<lparr>pr_backend = BfCpp, pr_source = sample_source i\<rparr>"

definition sample_field :: "string \<Rightarrow> string \<Rightarrow> sem_type \<Rightarrow> semantic_field" where
  "sample_field owner name ty =
     \<lparr>f_id = owner @ ''.'' @ name, f_owner = owner, f_name = name, f_type = ty,
      f_source = sample_source (owner @ ''.'' @ name), f_mutable = True,
      f_capabilities = capabilities_for_role RoleExported, f_scope = ScInstance, f_required = True\<rparr>"

definition sample_value :: "string \<Rightarrow> sem_type \<Rightarrow> semantic_declaration" where
  "sample_value name ty = ValueDecl
     \<lparr>v_feature = ''f'', v_type_id = ''f:type:'' @ name, v_name = name,
      v_fields = [sample_field (''f:type:'' @ name) ''x'' ty],
      v_projections = [sample_projection (''cpp.'' @ name)]\<rparr>"

definition sample_cycle :: "semantic_declaration list" where
  "sample_cycle =
     [sample_value ''A'' (SemType KArray None None (Some (SemType KValueRef None (Some ''f:type:B'') None))),
      sample_value ''B'' (SemType KValueRef None (Some ''f:type:A'') None)]"

theorem reported_cycle_is_real_witness:
  "mk_api [] [] sample_cycle = Inl (ValueCycle [''f:type:A'', ''f:type:B'', ''f:type:A'']) \<and>
   successively (value_edge \<lparr>a_functions = [], a_classes = [], a_declarations = sample_cycle\<rparr>)
     [''f:type:A'', ''f:type:B'', ''f:type:A'']"
proof -
  have "mk_api [] [] sample_cycle = Inl (ValueCycle [''f:type:A'', ''f:type:B'', ''f:type:A''])"
    by code_simp
  with reported_cycle_is_real [OF this] show ?thesis by blast
qed

end
