(* ===== verification/Semantic_Manifest.thy ===== *)
theory Semantic_Manifest
  imports Semantic_Api
begin

text \<open>
  The strict semantic manifest used between build stages (\<^verbatim>\<open>semantic.py\<close>: the \<open>manifest\<close> methods and
  the \<open>_..._from_manifest\<close> readers).  \<open>try ... except ValueError\<close> is \<open>ewrap (At lbl)\<close>: every
  exception the wrapped part can raise is a \<open>ValueError\<close>.
\<close>

section \<open>Writers\<close>

definition provenance_manifest :: "source_provenance \<Rightarrow> json" where
  "provenance_manifest p = JObj
     [(''declaration_id'', JStr (sp_declaration p)), (''language'', JStr (sp_language p)),
      (''path'', JStr (sp_path p)), (''line'', JInt (sp_line p)), (''column'', JInt (sp_column p))]"

definition projection_manifest :: "semantic_projection \<Rightarrow> json" where
  "projection_manifest p = JObj
     [(''backend'', JStr (backend_name (pr_backend p))), (''source'', provenance_manifest (pr_source p))]"

definition field_manifest :: "semantic_field \<Rightarrow> json" where
  "field_manifest f = JObj
     [(''field_id'', JStr (f_id f)), (''owner_id'', JStr (f_owner f)), (''name'', JStr (f_name f)),
      (''type'', type_manifest (f_type f)), (''mutable'', JBool (f_mutable f)),
      (''required'', JBool (f_required f)), (''routable'', JBool (bc_routable (f_capabilities f))),
      (''javascript_public'', JBool (bc_public (f_capabilities f))),
      (''scope'', JStr (scope_name (f_scope f))), (''source'', provenance_manifest (f_source f))]"

definition parameter_manifest :: "semantic_parameter \<Rightarrow> json" where
  "parameter_manifest p = JObj [(''name'', JStr (p_name p)), (''type'', type_manifest (p_type p))]"

text \<open>The constructor sets \<open>member_scope\<close>, so the \<open>assert\<close> of the source holds.\<close>

definition binding_manifest :: "semantic_binding \<Rightarrow> json" where
  "binding_manifest b = JObj
     ([(''binding_id'', JStr (b_id b)),
       (''source_declaration_id'', JStr (sp_declaration (b_source b))),
       (''kind'', JStr (binding_kind_name (b_kind b))), (''name'', JStr (b_name b)),
       (''routable'', JBool (bc_routable (b_capabilities b))),
       (''javascript_public'', JBool (bc_public (b_capabilities b))),
       (''execution'', JStr (execution_name (b_execution b))),
       (''parameters'', JArr (map parameter_manifest (b_parameters b))),
       (''result'', type_manifest (b_result b)),
       (''member_scope'', JStr (case b_scope b of Some sc \<Rightarrow> scope_name sc | None \<Rightarrow> [])),
       (''source'', provenance_manifest (b_source b))] @
      (case b_owner_id b of
         None \<Rightarrow> []
       | Some i \<Rightarrow> [(''owner_id'', JStr i),
                    (''owner'', case b_owner_name b of Some n \<Rightarrow> JStr n | None \<Rightarrow> JNull)]))"

definition constructor_manifest :: "semantic_constructor \<Rightarrow> json" where
  "constructor_manifest k = JObj
     [(''source_declaration_id'', JStr (sp_declaration (k_source k))),
      (''parameters'', JArr (map parameter_manifest (k_parameters k))),
      (''source'', provenance_manifest (k_source k))]"

definition class_manifest :: "semantic_class \<Rightarrow> json" where
  "class_manifest c = JObj
     [(''class_id'', JStr (c_id c)), (''source_declaration_id'', JStr (sp_declaration (c_source c))),
      (''kind'', JStr (class_kind_name (c_kind c))), (''name'', JStr (c_name c)),
      (''routable'', JBool (bc_routable (c_capabilities c))),
      (''javascript_public'', JBool (bc_public (c_capabilities c))),
      (''source'', provenance_manifest (c_source c)),
      (''constructor'', constructor_manifest (c_constructor c)),
      (''methods'', JArr (map binding_manifest (sort_key b_id (c_methods c))))]"

definition projection_manifests :: "semantic_projection list \<Rightarrow> json" where
  "projection_manifests ps = JArr (map projection_manifest (sort_key (backend_name \<circ> pr_backend) ps))"

fun declaration_manifest :: "semantic_declaration \<Rightarrow> json" where
  "declaration_manifest (EnumDecl d) = JObj
     [(''kind'', JStr (declaration_kind_name DkEnum)), (''feature_id'', JStr (e_feature d)),
      (''type_id'', JStr (e_type_id d)), (''name'', JStr (e_name d)),
      (''constants'', JArr (map JStr (e_constants d))),
      (''projections'', projection_manifests (e_projections d))]"
| "declaration_manifest (ValueDecl d) = JObj
     [(''kind'', JStr (declaration_kind_name DkValue)), (''feature_id'', JStr (v_feature d)),
      (''type_id'', JStr (v_type_id d)), (''name'', JStr (v_name d)),
      (''fields'', JArr (map field_manifest (v_fields d))),
      (''projections'', projection_manifests (v_projections d))]"
| "declaration_manifest (ObjectDecl d) = JObj
     [(''kind'', JStr (declaration_kind_name DkObject)), (''feature_id'', JStr (o_feature d)),
      (''type_id'', JStr (o_type_id d)), (''name'', JStr (o_name d)),
      (''projection'', projection_manifest (o_projection d)),
      (''constructor'', case o_constructor d of Some k \<Rightarrow> constructor_manifest k | None \<Rightarrow> JNull),
      (''methods'', JArr (map binding_manifest (sort_key b_id (o_methods d)))),
      (''fields'', JArr (map field_manifest (o_fields d)))]"

definition schema_version :: string where "schema_version = ''1.0''"

definition manifest_kind :: string where "manifest_kind = ''supernote_module_semantic_manifest''"

definition api_manifest :: "semantic_api \<Rightarrow> json" where
  "api_manifest api = JObj
     [(''schema_version'', JStr schema_version), (''kind'', JStr manifest_kind),
      (''functions'', JArr (map binding_manifest (sort_key b_id (a_functions api)))),
      (''classes'', JArr (map class_manifest (sort_key c_id (a_classes api)))),
      (''types'', JArr (map declaration_manifest (sort_key decl_type_id (a_declarations api))))]"

section \<open>Typed access\<close>

definition m_object :: "json \<Rightarrow> label \<Rightarrow> semantic_error + (string \<times> json) list" where
  "m_object raw lbl = (case raw of JObj kvs \<Rightarrow> Inr kvs | _ \<Rightarrow> Inl (Manifest (NotAnObject lbl)))"

definition m_keys :: "(string \<times> json) list \<Rightarrow> string list \<Rightarrow> label \<Rightarrow> semantic_error + unit" where
  "m_keys kvs expected lbl = raise_if (\<not> jkeys_are kvs expected) (Manifest (BadFields lbl))"

definition m_list :: "json \<Rightarrow> label \<Rightarrow> semantic_error + json list" where
  "m_list raw lbl = (case raw of JArr xs \<Rightarrow> Inr xs | _ \<Rightarrow> Inl (Manifest (NotAnArray lbl)))"

definition m_string :: "json \<Rightarrow> label \<Rightarrow> semantic_error + string" where
  "m_string raw lbl =
     (case raw of
        JStr s \<Rightarrow> if s = [] then Inl (Manifest (NotAString lbl)) else Inr s
      | _ \<Rightarrow> Inl (Manifest (NotAString lbl)))"

definition m_int :: "json \<Rightarrow> label \<Rightarrow> semantic_error + int" where
  "m_int raw lbl = (case raw of JInt i \<Rightarrow> Inr i | _ \<Rightarrow> Inl (Manifest (NotAnInteger lbl)))"

definition m_bool :: "json \<Rightarrow> label \<Rightarrow> semantic_error + bool" where
  "m_bool raw lbl = (case raw of JBool b \<Rightarrow> Inr b | _ \<Rightarrow> Inl (Manifest (NotABoolean lbl)))"

text \<open>\<open>SomeEnum(_manifest_string(...))\<close>: lookup by value among the members.\<close>

definition m_enum :: "('a \<Rightarrow> string) \<Rightarrow> 'a list \<Rightarrow> json \<Rightarrow> label \<Rightarrow> semantic_error + 'a" where
  "m_enum name members raw lbl =
     ebind (m_string raw lbl) (\<lambda>s.
       case find (\<lambda>x. name x = s) members of
         Some x \<Rightarrow> Inr x
       | None \<Rightarrow> Inl (Manifest (UnknownEnumValue s)))"

definition m_items ::
    "(json \<Rightarrow> label \<Rightarrow> semantic_error + 'a) \<Rightarrow> json \<Rightarrow> label \<Rightarrow> semantic_error + 'a list" where
  "m_items reader raw lbl =
     ebind (m_list raw lbl) (\<lambda>xs. emap (\<lambda>(i, x). reader x (lbl @ [LIdx i])) (enumerated xs))"

section \<open>Readers\<close>

definition source_from_manifest :: "json \<Rightarrow> label \<Rightarrow> semantic_error + source_provenance" where
  "source_from_manifest raw lbl =
     ebind (m_object raw lbl) (\<lambda>v.
     ebind (m_keys v [''declaration_id'', ''language'', ''path'', ''line'', ''column''] lbl) (\<lambda>_.
     ewrap (At lbl) (
       ebind (m_string (jitem v ''declaration_id'') (lbl @ [LKey ''declaration_id''])) (\<lambda>d.
       ebind (m_string (jitem v ''language'') (lbl @ [LKey ''language''])) (\<lambda>l.
       ebind (m_string (jitem v ''path'') (lbl @ [LKey ''path''])) (\<lambda>p.
       ebind (m_int (jitem v ''line'') (lbl @ [LKey ''line''])) (\<lambda>n.
       ebind (m_int (jitem v ''column'') (lbl @ [LKey ''column''])) (\<lambda>c.
       mk_provenance d l p n c))))))))"

definition type_of_manifest :: "json \<Rightarrow> label \<Rightarrow> semantic_error + sem_type" where
  "type_of_manifest raw lbl = ewrap TypeFault (type_from_manifest raw lbl)"

definition parameter_from_manifest :: "json \<Rightarrow> label \<Rightarrow> semantic_error + semantic_parameter" where
  "parameter_from_manifest raw lbl =
     ebind (m_object raw lbl) (\<lambda>v.
     ebind (m_keys v [''name'', ''type''] lbl) (\<lambda>_.
     ewrap (At lbl) (
       ebind (m_string (jitem v ''name'') (lbl @ [LKey ''name''])) (\<lambda>n.
       ebind (type_of_manifest (jitem v ''type'') (lbl @ [LKey ''type''])) (\<lambda>t.
       mk_parameter n t)))))"

definition capabilities_from_manifest ::
    "(string \<times> json) list \<Rightarrow> label \<Rightarrow> semantic_error + binding_capabilities" where
  "capabilities_from_manifest v lbl =
     ebind (m_bool (jitem v ''routable'') (lbl @ [LKey ''routable''])) (\<lambda>r.
     ebind (m_bool (jitem v ''javascript_public'') (lbl @ [LKey ''javascript_public''])) (\<lambda>p.
     mk_capabilities r p))"

definition binding_required_keys :: "string list" where
  "binding_required_keys =
     [''binding_id'', ''source_declaration_id'', ''kind'', ''name'', ''routable'', ''javascript_public'',
      ''execution'', ''parameters'', ''result'', ''source'', ''member_scope'']"

definition binding_optional_keys :: "string list" where
  "binding_optional_keys = [''owner_id'', ''owner'']"

definition check_binding_keys :: "(string \<times> json) list \<Rightarrow> label \<Rightarrow> semantic_error + unit" where
  "check_binding_keys v lbl =
     (let actual = set (jkeys v) in
      if \<not> set binding_required_keys \<subseteq> actual \<or>
         actual - set binding_required_keys - set binding_optional_keys \<noteq> {}
      then m_keys v (binding_required_keys @ filter (\<lambda>k. k \<in> actual) binding_optional_keys) lbl
      else Inr ())"

definition optional_string :: "(string \<times> json) list \<Rightarrow> string \<Rightarrow> label \<Rightarrow> semantic_error + string option" where
  "optional_string v k lbl =
     (if k \<in> set (jkeys v) then ebind (m_string (jitem v k) (lbl @ [LKey k])) (\<lambda>s. Inr (Some s))
      else Inr None)"

definition binding_from_manifest :: "json \<Rightarrow> label \<Rightarrow> semantic_error + semantic_binding" where
  "binding_from_manifest raw lbl =
     ebind (m_object raw lbl) (\<lambda>v.
     ebind (check_binding_keys v lbl) (\<lambda>_.
     ebind (source_from_manifest (jitem v ''source'') (lbl @ [LKey ''source''])) (\<lambda>source.
     ebind (m_string (jitem v ''source_declaration_id'') (lbl @ [LKey ''source_declaration_id''])) (\<lambda>source_id.
     ebind (raise_if (source_id \<noteq> sp_declaration source) (Manifest (SourceIdentityDisagrees lbl))) (\<lambda>_.
     ebind (raise_if ((''owner_id'' \<in> set (jkeys v)) \<noteq> (''owner'' \<in> set (jkeys v)))
              (Manifest (OwnerAppearTogether lbl))) (\<lambda>_.
     ewrap (At lbl) (
       ebind (m_string (jitem v ''binding_id'') (lbl @ [LKey ''binding_id''])) (\<lambda>bid.
       ebind (m_enum binding_kind_name [BkFunction, BkObjectMethod, BkServiceMethod]
                (jitem v ''kind'') (lbl @ [LKey ''kind''])) (\<lambda>kind.
       ebind (m_string (jitem v ''name'') (lbl @ [LKey ''name''])) (\<lambda>name.
       ebind (capabilities_from_manifest v lbl) (\<lambda>caps.
       ebind (m_enum execution_name [ExecSync, ExecAsync]
                (jitem v ''execution'') (lbl @ [LKey ''execution''])) (\<lambda>execution.
       ebind (m_items parameter_from_manifest (jitem v ''parameters'') (lbl @ [LKey ''parameters''])) (\<lambda>ps.
       ebind (type_of_manifest (jitem v ''result'') (lbl @ [LKey ''result''])) (\<lambda>result.
       ebind (optional_string v ''owner_id'' lbl) (\<lambda>owner_id.
       ebind (optional_string v ''owner'' lbl) (\<lambda>owner.
       ebind (m_enum scope_name [ScTopLevel, ScInstance, ScStatic]
                (jitem v ''member_scope'') (lbl @ [LKey ''member_scope''])) (\<lambda>scope.
       mk_binding bid kind name caps execution ps result source owner_id owner (Some scope))))))))))))))))))"

text \<open>The constructor entry of a class and that of an object differ only in the error they raise for
  disagreeing identities and in where the parameters are read.\<close>

definition constructor_source :: "(string \<times> json) list \<Rightarrow> label \<Rightarrow> semantic_error + source_provenance" where
  "constructor_source v lbl =
     ebind (m_keys v [''source_declaration_id'', ''parameters'', ''source''] lbl) (\<lambda>_.
     ebind (source_from_manifest (jitem v ''source'') (lbl @ [LKey ''source''])) (\<lambda>source.
     ebind (m_string (jitem v ''source_declaration_id'') (lbl @ [LKey ''source_declaration_id''])) (\<lambda>source_id.
     ebind (raise_if (source_id \<noteq> sp_declaration source) (Manifest (SourceIdentityDisagrees lbl))) (\<lambda>_.
     Inr source))))"

definition constructor_from_manifest :: "json \<Rightarrow> label \<Rightarrow> semantic_error + semantic_constructor" where
  "constructor_from_manifest raw lbl =
     ebind (m_object raw lbl) (\<lambda>v.
     ebind (constructor_source v lbl) (\<lambda>source.
     ebind (m_items parameter_from_manifest (jitem v ''parameters'') (lbl @ [LKey ''parameters''])) (\<lambda>ps.
     mk_constructor source ps)))"

definition class_keys :: "string list" where
  "class_keys = [''class_id'', ''source_declaration_id'', ''kind'', ''name'', ''routable'',
     ''javascript_public'', ''source'', ''constructor'', ''methods'']"

definition class_from_manifest :: "json \<Rightarrow> label \<Rightarrow> semantic_error + semantic_class" where
  "class_from_manifest raw lbl =
     ebind (m_object raw lbl) (\<lambda>v.
     ebind (m_keys v class_keys lbl) (\<lambda>_.
     ebind (source_from_manifest (jitem v ''source'') (lbl @ [LKey ''source''])) (\<lambda>source.
     ebind (m_string (jitem v ''source_declaration_id'') (lbl @ [LKey ''source_declaration_id''])) (\<lambda>source_id.
     ebind (raise_if (source_id \<noteq> sp_declaration source) (Manifest (SourceIdentityDisagrees lbl))) (\<lambda>_.
     ebind (m_object (jitem v ''constructor'') (lbl @ [LKey ''constructor''])) (\<lambda>k.
     ebind (constructor_source k (lbl @ [LKey ''constructor''])) (\<lambda>constructor_source.
     ewrap (At lbl) (
       ebind (m_string (jitem v ''class_id'') (lbl @ [LKey ''class_id''])) (\<lambda>cid.
       ebind (m_enum class_kind_name [CkJsObject, CkInternalService]
                (jitem v ''kind'') (lbl @ [LKey ''kind''])) (\<lambda>kind.
       ebind (m_string (jitem v ''name'') (lbl @ [LKey ''name''])) (\<lambda>name.
       ebind (capabilities_from_manifest v lbl) (\<lambda>caps.
       ebind (m_items parameter_from_manifest (jitem k ''parameters'')
                (lbl @ [LKey ''constructor'', LKey ''parameters''])) (\<lambda>ps.
       ebind (mk_constructor constructor_source ps) (\<lambda>constructor.
       ebind (m_items binding_from_manifest (jitem v ''methods'') (lbl @ [LKey ''methods''])) (\<lambda>methods.
       mk_class cid kind name caps source constructor methods)))))))))))))))"

definition projection_from_manifest :: "json \<Rightarrow> label \<Rightarrow> semantic_error + semantic_projection" where
  "projection_from_manifest raw lbl =
     ebind (m_object raw lbl) (\<lambda>v.
     ebind (m_keys v [''backend'', ''source''] lbl) (\<lambda>_.
     ewrap (At lbl) (
       ebind (m_enum backend_name [BfCpp, BfJvm] (jitem v ''backend'') (lbl @ [LKey ''backend''])) (\<lambda>bf.
       ebind (source_from_manifest (jitem v ''source'') (lbl @ [LKey ''source''])) (\<lambda>source.
       mk_projection bf source)))))"

definition projections_from_manifest :: "json \<Rightarrow> label \<Rightarrow> semantic_error + semantic_projection list" where
  "projections_from_manifest = m_items projection_from_manifest"

definition field_keys :: "string list" where
  "field_keys = [''field_id'', ''owner_id'', ''name'', ''type'', ''mutable'', ''required'', ''routable'',
     ''javascript_public'', ''scope'', ''source'']"

definition field_from_manifest :: "json \<Rightarrow> label \<Rightarrow> semantic_error + semantic_field" where
  "field_from_manifest raw lbl =
     ebind (m_object raw lbl) (\<lambda>v.
     ebind (m_keys v field_keys lbl) (\<lambda>_.
     ewrap (At lbl) (
       ebind (m_string (jitem v ''field_id'') (lbl @ [LKey ''field_id''])) (\<lambda>fid.
       ebind (m_string (jitem v ''owner_id'') (lbl @ [LKey ''owner_id''])) (\<lambda>owner.
       ebind (m_string (jitem v ''name'') (lbl @ [LKey ''name''])) (\<lambda>name.
       ebind (type_of_manifest (jitem v ''type'') (lbl @ [LKey ''type''])) (\<lambda>ty.
       ebind (source_from_manifest (jitem v ''source'') (lbl @ [LKey ''source''])) (\<lambda>source.
       ebind (m_bool (jitem v ''mutable'') (lbl @ [LKey ''mutable''])) (\<lambda>mut.
       ebind (capabilities_from_manifest v lbl) (\<lambda>caps.
       ebind (m_enum scope_name [ScTopLevel, ScInstance, ScStatic]
                (jitem v ''scope'') (lbl @ [LKey ''scope''])) (\<lambda>scope.
       ebind (m_bool (jitem v ''required'') (lbl @ [LKey ''required''])) (\<lambda>required.
       mk_field fid owner name ty source mut caps scope required))))))))))))"

definition declaration_common_keys :: "string list" where
  "declaration_common_keys = [''kind'', ''feature_id'', ''type_id'', ''name'']"

definition declaration_kind_of :: "(string \<times> json) list \<Rightarrow> label \<Rightarrow> semantic_error + declaration_kind" where
  "declaration_kind_of v lbl =
     m_enum declaration_kind_name [DkEnum, DkValue, DkObject] (jitem v ''kind'') (lbl @ [LKey ''kind''])"

definition declaration_from_manifest :: "json \<Rightarrow> label \<Rightarrow> semantic_error + semantic_declaration" where
  "declaration_from_manifest raw lbl =
     ebind (m_object raw lbl) (\<lambda>v.
     ebind (declaration_kind_of v lbl) (\<lambda>kind.
     ebind (m_string (jitem v ''feature_id'') (lbl @ [LKey ''feature_id''])) (\<lambda>feature.
     ebind (m_string (jitem v ''type_id'') (lbl @ [LKey ''type_id''])) (\<lambda>tid.
     ebind (m_string (jitem v ''name'') (lbl @ [LKey ''name''])) (\<lambda>name.
     case kind of
       DkEnum \<Rightarrow>
         ebind (m_keys v (declaration_common_keys @ [''constants'', ''projections'']) lbl) (\<lambda>_.
         ebind (m_items m_string (jitem v ''constants'') (lbl @ [LKey ''constants''])) (\<lambda>constants.
         ebind (projections_from_manifest (jitem v ''projections'') (lbl @ [LKey ''projections''])) (\<lambda>ps.
         mk_enum \<lparr>e_feature = feature, e_type_id = tid, e_name = name, e_constants = constants,
                  e_projections = ps\<rparr>)))
     | DkValue \<Rightarrow>
         ebind (m_keys v (declaration_common_keys @ [''fields'', ''projections'']) lbl) (\<lambda>_.
         ebind (m_items field_from_manifest (jitem v ''fields'') (lbl @ [LKey ''fields''])) (\<lambda>fs.
         ebind (projections_from_manifest (jitem v ''projections'') (lbl @ [LKey ''projections''])) (\<lambda>ps.
         mk_value \<lparr>v_feature = feature, v_type_id = tid, v_name = name, v_fields = fs,
                   v_projections = ps\<rparr>)))
     | DkObject \<Rightarrow>
         ebind (m_keys v (declaration_common_keys @ [''projection'', ''constructor'', ''methods'', ''fields'']) lbl) (\<lambda>_.
         ebind (projection_from_manifest (jitem v ''projection'') (lbl @ [LKey ''projection''])) (\<lambda>p.
         ebind (if jitem v ''constructor'' = JNull then Inr None
                else ebind (constructor_from_manifest (jitem v ''constructor'') (lbl @ [LKey ''constructor'']))
                       (\<lambda>k. Inr (Some k))) (\<lambda>k.
         ebind (m_items binding_from_manifest (jitem v ''methods'') (lbl @ [LKey ''methods''])) (\<lambda>methods.
         ebind (m_items field_from_manifest (jitem v ''fields'') (lbl @ [LKey ''fields''])) (\<lambda>fs.
         mk_object \<lparr>o_feature = feature, o_type_id = tid, o_name = name, o_projection = p,
                    o_constructor = k, o_methods = methods, o_fields = fs\<rparr>))))))))))"

definition check_schema :: "json \<Rightarrow> semantic_error + unit" where
  "check_schema raw =
     (case raw of
        JStr s \<Rightarrow> raise_if (s = [] \<or> s \<noteq> schema_version) (Manifest (SchemaMismatch s))
      | _ \<Rightarrow> Inl (Manifest (SchemaMismatch [])))"

definition api_keys :: "string list" where
  "api_keys = [''schema_version'', ''kind'', ''functions'', ''classes'', ''types'']"

definition semantic_api_from_manifest :: "json \<Rightarrow> semantic_error + semantic_api" where
  "semantic_api_from_manifest raw =
     ebind (m_object raw [LRoot ''semantic manifest'']) (\<lambda>v.
     ebind (m_keys v api_keys [LRoot ''semantic manifest'']) (\<lambda>_.
     ebind (check_schema (jitem v ''schema_version'')) (\<lambda>_.
     ebind (m_string (jitem v ''kind'') [LRoot ''kind'']) (\<lambda>kind.
     ebind (raise_if (kind \<noteq> manifest_kind) (Manifest ManifestKind)) (\<lambda>_.
     ebind (m_items binding_from_manifest (jitem v ''functions'') [LRoot ''functions'']) (\<lambda>fs.
     ebind (m_items class_from_manifest (jitem v ''classes'') [LRoot ''classes'']) (\<lambda>cs.
     ebind (m_items declaration_from_manifest (jitem v ''types'') [LRoot ''types'']) (\<lambda>ds.
     mk_api fs cs ds))))))))"

end
