(* ===== verification/Manifest_Codec.thy ===== *)
theory Manifest_Codec
  imports Model_Prelude
begin

text \<open>
  The interface between the writer and the reader of a record in a JSON manifest.  The law of a
  \<open>codec\<close> is that reading back what was written gives the record in canonical form; an \<open>exact_codec\<close>
  moreover reads only records that pass their checks, and writes a record and its canonical form alike.
  The manifests of \<^verbatim>\<open>semantic.py\<close> and of \<^verbatim>\<open>jvm_manifest.py\<close> interpret it.
\<close>

lemma json_case_Inr:
  "(case j of JObj kvs \<Rightarrow> f kvs | _ \<Rightarrow> Inl e) = Inr y \<longleftrightarrow> (\<exists>kvs. j = JObj kvs \<and> f kvs = Inr y)"
  "(case j of JArr xs \<Rightarrow> g xs | _ \<Rightarrow> Inl e) = Inr y \<longleftrightarrow> (\<exists>xs. j = JArr xs \<and> g xs = Inr y)"
  by (cases j; simp)+

locale codec =
  fixes writer :: "'a \<Rightarrow> json"
    and reader :: "json \<Rightarrow> label \<Rightarrow> 'e + 'a"
    and ok :: "'a \<Rightarrow> bool"
    and canon :: "'a \<Rightarrow> 'a"
  assumes reads_back: "ok x \<Longrightarrow> reader (writer x) lbl = Inr (canon x)"
begin

lemma items_read:
  assumes "list_all ok xs"
  shows "emap (\<lambda>(i, x). reader x (lbl @ [LIdx i])) (enumerated (map writer xs)) = Inr (map canon xs)"
proof -
  have "enumerated (map writer xs) = map (\<lambda>(i, x). (i, writer x)) (enumerated xs)"
    by (simp add: enumerated_def zip_map2)
  then have "emap (\<lambda>(i, x). reader x (lbl @ [LIdx i])) (enumerated (map writer xs)) =
      emap (\<lambda>(i, x). reader (writer x) (lbl @ [LIdx i])) (enumerated xs)"
    by (simp add: emap_map case_prod_unfold)
  also have "\<dots> = Inr (map canon xs)"
    using assms reads_back by (intro emap_enumerated_map) (simp add: list_all_iff)
  finally show ?thesis .
qed

lemma written_once: "ok x \<Longrightarrow> ok y \<Longrightarrow> writer x = writer y \<Longrightarrow> canon x = canon y"
  using reads_back [of x "[]"] reads_back [of y "[]"] by simp

end

locale exact_codec = codec +
  assumes reads_ok: "reader raw lbl = Inr x \<Longrightarrow> ok x"
    and canon_ok: "ok x \<Longrightarrow> ok (canon x)"
    and canon_writes: "ok x \<Longrightarrow> writer (canon x) = writer x"
begin

lemma items_ok:
  assumes "emap (\<lambda>(i, x). reader x (lbl @ [LIdx i])) (enumerated raws) = Inr ys"
  shows "list_all ok ys"
  by (rule emap_list_all [OF assms]) (auto intro: reads_ok)

text \<open>Whatever was read can be written, is read back in canonical form, and stays there.\<close>

lemma settles:
  assumes "reader raw lbl = Inr x"
  shows "ok x \<and> reader (writer x) lbl' = Inr (canon x) \<and> reader (writer (canon x)) lbl' = Inr (canon x)"
  using reads_ok [OF assms] reads_back canon_writes by simp

end

end
