(* ===== verification/Semantic_Manifest_Props.thy ===== *)
theory Semantic_Manifest_Props
  imports Semantic_Manifest Semantic_Api_Props Manifest_Codec
begin

text \<open>
  Manifests are a canonical form of APIs: reading the manifest of a valid API gives the same API with
  its functions, classes, methods, declarations and projections in manifest order, and that API is
  valid again.
\<close>

section \<open>Validity\<close>

text \<open>A record that exists passed its constructor's checks, and so did the records in it.\<close>

definition valid_source :: "source_provenance \<Rightarrow> bool" where
  "valid_source p \<longleftrightarrow> check_provenance p = Inr ()"

definition valid_capabilities :: "binding_capabilities \<Rightarrow> bool" where
  "valid_capabilities c \<longleftrightarrow> check_capabilities c = Inr ()"

definition valid_projection :: "semantic_projection \<Rightarrow> bool" where
  "valid_projection p \<longleftrightarrow> check_projection p = Inr () \<and> valid_source (pr_source p)"

definition valid_field :: "semantic_field \<Rightarrow> bool" where
  "valid_field f \<longleftrightarrow> check_field f = Inr () \<and> wf_type (f_type f) \<and> valid_source (f_source f) \<and>
     valid_capabilities (f_capabilities f)"

definition valid_parameter :: "semantic_parameter \<Rightarrow> bool" where
  "valid_parameter p \<longleftrightarrow> check_parameter p = Inr () \<and> wf_type (p_type p)"

definition valid_binding :: "semantic_binding \<Rightarrow> bool" where
  "valid_binding b \<longleftrightarrow> check_binding b = Inr () \<and> b_scope b \<noteq> None \<and>
     list_all valid_parameter (b_parameters b) \<and> wf_type (b_result b) \<and>
     valid_source (b_source b) \<and> valid_capabilities (b_capabilities b)"

definition valid_constructor :: "semantic_constructor \<Rightarrow> bool" where
  "valid_constructor k \<longleftrightarrow> check_constructor k = Inr () \<and> valid_source (k_source k) \<and>
     list_all valid_parameter (k_parameters k)"

definition valid_class :: "semantic_class \<Rightarrow> bool" where
  "valid_class c \<longleftrightarrow> check_class c = Inr () \<and> valid_source (c_source c) \<and>
     valid_capabilities (c_capabilities c) \<and> valid_constructor (c_constructor c) \<and>
     list_all valid_binding (c_methods c)"

fun valid_declaration :: "semantic_declaration \<Rightarrow> bool" where
  "valid_declaration (EnumDecl d) \<longleftrightarrow> check_enum d = Inr () \<and> list_all valid_projection (e_projections d)"
| "valid_declaration (ValueDecl d) \<longleftrightarrow> check_value d = Inr () \<and>
     list_all valid_field (v_fields d) \<and> list_all valid_projection (v_projections d)"
| "valid_declaration (ObjectDecl d) \<longleftrightarrow> check_object d = Inr () \<and> valid_projection (o_projection d) \<and>
     (case o_constructor d of None \<Rightarrow> True | Some k \<Rightarrow> valid_constructor k) \<and>
     list_all valid_binding (o_methods d) \<and> list_all valid_field (o_fields d)"

definition valid_api :: "semantic_api \<Rightarrow> bool" where
  "valid_api api \<longleftrightarrow> check_api api = Inr () \<and> list_all valid_binding (a_functions api) \<and>
     list_all valid_class (a_classes api) \<and> list_all valid_declaration (a_declarations api)"

text \<open>Every type an API mentions is well formed.\<close>

lemma valid_api_types: "valid_api api \<Longrightarrow> t \<in> set (all_api_types api) \<Longrightarrow> wf_type t"
proof -
  have b: "valid_binding b \<Longrightarrow> t \<in> set (binding_types b) \<Longrightarrow> wf_type t" for b
    by (auto simp: valid_binding_def binding_types_def list_all_iff valid_parameter_def)
  have k: "valid_constructor k \<Longrightarrow> t \<in> set (constructor_types k) \<Longrightarrow> wf_type t" for k
    by (auto simp: valid_constructor_def constructor_types_def list_all_iff valid_parameter_def)
  have c: "valid_class c \<Longrightarrow> t \<in> set (class_types c) \<Longrightarrow> wf_type t" for c
    using b k by (auto simp: valid_class_def class_types_def list_all_iff)
  have d: "valid_declaration d \<Longrightarrow> t \<in> set (declaration_types d) \<Longrightarrow> wf_type t" for d
    using b k by (cases d) (auto simp: declaration_types_def list_all_iff valid_field_def split: option.splits)
  show "valid_api api \<Longrightarrow> t \<in> set (all_api_types api) \<Longrightarrow> wf_type t"
    using b c d by (auto simp: valid_api_def all_api_types_def list_all_iff)
qed

section \<open>Readers on written values\<close>

lemma m_object_JObj [simp]: "m_object (JObj kvs) lbl = Inr kvs" by (simp add: m_object_def)
lemma m_list_JArr [simp]: "m_list (JArr xs) lbl = Inr xs" by (simp add: m_list_def)
lemma m_string_JStr [simp]: "s \<noteq> [] \<Longrightarrow> m_string (JStr s) lbl = Inr s" by (simp add: m_string_def)
lemma m_int_JInt [simp]: "m_int (JInt i) lbl = Inr i" by (simp add: m_int_def)
lemma m_bool_JBool [simp]: "m_bool (JBool b) lbl = Inr b" by (simp add: m_bool_def)

lemma m_keys_self: "set ks = set (jkeys kvs) \<Longrightarrow> m_keys kvs ks lbl = Inr ()"
  by (simp add: m_keys_def jkeys_are_def)

lemma binding_kind_read [simp]:
  "m_enum binding_kind_name [BkFunction, BkObjectMethod, BkServiceMethod]
     (JStr (binding_kind_name k)) lbl = Inr k"
  by (cases k) (simp_all add: m_enum_def)

lemma class_kind_read [simp]:
  "m_enum class_kind_name [CkJsObject, CkInternalService] (JStr (class_kind_name k)) lbl = Inr k"
  by (cases k) (simp_all add: m_enum_def)

lemma execution_read [simp]:
  "m_enum execution_name [ExecSync, ExecAsync] (JStr (execution_name k)) lbl = Inr k"
  by (cases k) (simp_all add: m_enum_def)

lemma backend_read [simp]:
  "m_enum backend_name [BfCpp, BfJvm] (JStr (backend_name k)) lbl = Inr k"
  by (cases k) (simp_all add: m_enum_def)

lemma scope_read [simp]:
  "m_enum scope_name [ScTopLevel, ScInstance, ScStatic] (JStr (scope_name k)) lbl = Inr k"
  by (cases k) (simp_all add: m_enum_def)

lemma declaration_kind_read [simp]:
  "m_enum declaration_kind_name [DkEnum, DkValue, DkObject] (JStr (declaration_kind_name k)) lbl = Inr k"
  by (cases k) (simp_all add: m_enum_def)

lemma m_items_codec:
  "codec writer reader ok canon \<Longrightarrow> list_all ok xs \<Longrightarrow> m_items reader (JArr (map writer xs)) lbl = Inr (map canon xs)"
  by (simp add: m_items_def codec.items_read)

lemma source_read [simp]:
  "valid_source p \<Longrightarrow> source_from_manifest (provenance_manifest p) lbl = Inr p"
  by (auto simp: source_from_manifest_def provenance_manifest_def m_keys_self valid_source_def
      check_provenance_def mk_provenance_def)

lemma type_read [simp]: "wf_type t \<Longrightarrow> type_of_manifest (type_manifest t) lbl = Inr t"
  using type_reader_complete [of t "type_manifest t" lbl] wf_type_shape by (simp add: type_of_manifest_def)

lemma parameter_read [simp]:
  "valid_parameter p \<Longrightarrow> parameter_from_manifest (parameter_manifest p) lbl = Inr p"
  by (cases "p_name p") (auto simp: parameter_from_manifest_def parameter_manifest_def m_keys_self
      valid_parameter_def check_parameter_def mk_parameter_def)

interpretation sm_parameter: codec parameter_manifest parameter_from_manifest valid_parameter "\<lambda>p. p"
  by unfold_locales (rule parameter_read)

lemma parameters_read [simp]:
  "list_all valid_parameter ps \<Longrightarrow>
     m_items parameter_from_manifest (JArr (map parameter_manifest ps)) lbl = Inr ps"
  using m_items_codec [OF sm_parameter.codec_axioms] by simp

lemma capabilities_made [simp]:
  "valid_capabilities c \<Longrightarrow> mk_capabilities (bc_routable c) (bc_public c) = Inr c"
  by (cases c) (simp add: valid_capabilities_def mk_capabilities_def)

lemma projection_read [simp]:
  "valid_projection p \<Longrightarrow> projection_from_manifest (projection_manifest p) lbl = Inr p"
  by (cases p) (simp add: projection_from_manifest_def projection_manifest_def m_keys_self
      valid_projection_def mk_projection_def)

lemma field_read [simp]:
  assumes "valid_field f" shows "field_from_manifest (field_manifest f) lbl = Inr f"
proof -
  have "f_id f \<noteq> []" "f_owner f \<noteq> []" "f_name f \<noteq> []"
    using assms by (auto simp: valid_field_def check_field_def)
  with assms show ?thesis
    by (cases f) (simp add: field_from_manifest_def field_manifest_def m_keys_self field_keys_def
        capabilities_from_manifest_def valid_field_def mk_field_def Let_def)
qed

interpretation sm_field: codec field_manifest field_from_manifest valid_field "\<lambda>f. f"
  by unfold_locales (rule field_read)

lemma fields_read [simp]:
  "list_all valid_field fs \<Longrightarrow> m_items field_from_manifest (JArr (map field_manifest fs)) lbl = Inr fs"
  using m_items_codec [OF sm_field.codec_axioms] by simp

lemma infer_scope_id [simp]: "b_scope b \<noteq> None \<Longrightarrow> infer_scope b = b"
  by (cases "b_scope b") (simp_all add: infer_scope_def)

lemma binding_read [simp]:
  assumes "valid_binding b" shows "binding_from_manifest (binding_manifest b) lbl = Inr b"
proof -
  from assms obtain sc where sc: "b_scope b = Some sc" by (auto simp: valid_binding_def)
  have ne: "b_id b \<noteq> []" "b_name b \<noteq> []" "sp_declaration (b_source b) \<noteq> []" "b_owner_id b \<noteq> Some []"
      "b_owner_name b \<noteq> Some []" "(b_owner_id b = None) = (b_owner_name b = None)"
    using assms by (auto simp: valid_binding_def check_binding_def valid_source_def check_provenance_def)
  show ?thesis
  proof (cases "b_owner_id b")
    case None
    with ne have "b_owner_name b = None" by simp
    with None assms sc ne show ?thesis
      by (cases b) (simp add: binding_from_manifest_def binding_manifest_def check_binding_keys_def
          binding_required_keys_def binding_optional_keys_def optional_string_def capabilities_from_manifest_def
          valid_binding_def mk_binding_def Let_def)
  next
    case (Some i)
    with ne obtain n where "b_owner_name b = Some n" "i \<noteq> []" "n \<noteq> []" by auto
    with Some assms sc ne show ?thesis
      by (cases b) (simp add: binding_from_manifest_def binding_manifest_def check_binding_keys_def
          binding_required_keys_def binding_optional_keys_def optional_string_def capabilities_from_manifest_def
          valid_binding_def mk_binding_def Let_def)
  qed
qed

interpretation sm_binding: codec binding_manifest binding_from_manifest valid_binding "\<lambda>b. b"
  by unfold_locales (rule binding_read)

lemma bindings_read [simp]:
  "list_all valid_binding bs \<Longrightarrow> m_items binding_from_manifest (JArr (map binding_manifest bs)) lbl = Inr bs"
  using m_items_codec [OF sm_binding.codec_axioms] by simp

lemma constructor_source_read [simp]:
  "valid_source (k_source k) \<Longrightarrow>
     constructor_source [(''source_declaration_id'', JStr (sp_declaration (k_source k))),
       (''parameters'', ps), (''source'', provenance_manifest (k_source k))] lbl = Inr (k_source k)"
  by (cases "sp_declaration (k_source k)")
    (auto simp: constructor_source_def m_keys_self valid_source_def check_provenance_def)

lemma constructor_made [simp]:
  "valid_constructor k \<Longrightarrow> mk_constructor (k_source k) (k_parameters k) = Inr k"
  by (cases k) (simp add: valid_constructor_def mk_constructor_def)

lemma constructor_read [simp]:
  "valid_constructor k \<Longrightarrow> constructor_from_manifest (constructor_manifest k) lbl = Inr k"
  by (simp add: constructor_from_manifest_def constructor_manifest_def valid_constructor_def [of k, THEN iffD1])

lemma constructor_manifest_not_null: "constructor_manifest k \<noteq> JNull"
  by (simp add: constructor_manifest_def)

section \<open>Canonical order\<close>

definition canonical_class :: "semantic_class \<Rightarrow> semantic_class" where
  "canonical_class c = c\<lparr>c_methods := sort_key b_id (c_methods c)\<rparr>"

definition canonical_projections :: "semantic_projection list \<Rightarrow> semantic_projection list" where
  "canonical_projections = sort_key (backend_name \<circ> pr_backend)"

fun canonical_declaration :: "semantic_declaration \<Rightarrow> semantic_declaration" where
  "canonical_declaration (EnumDecl d) =
     EnumDecl (d\<lparr>e_projections := canonical_projections (e_projections d)\<rparr>)"
| "canonical_declaration (ValueDecl d) =
     ValueDecl (d\<lparr>v_projections := canonical_projections (v_projections d)\<rparr>)"
| "canonical_declaration (ObjectDecl d) =
     ObjectDecl (d\<lparr>o_methods := sort_key b_id (o_methods d)\<rparr>)"

definition canonical_api :: "semantic_api \<Rightarrow> semantic_api" where
  "canonical_api api =
     \<lparr>a_functions = sort_key b_id (a_functions api),
      a_classes = map canonical_class (sort_key c_id (a_classes api)),
      a_declarations = map canonical_declaration (sort_key decl_type_id (a_declarations api))\<rparr>"

lemma canonical_class_check [simp]: "check_class (canonical_class c) = Inr () \<longleftrightarrow> check_class c = Inr ()"
  by (cases c; cases "c_kind c")
    (auto simp: canonical_class_def check_class_def check_class_method_def)

lemma canonical_projections_check [simp]:
  "check_projections n (canonical_projections ps) = Inr () \<longleftrightarrow> check_projections n ps = Inr ()"
  "list_all P (canonical_projections ps) \<longleftrightarrow> list_all P ps"
proof -
  have "canonical_projections ps = [] \<longleftrightarrow> ps = []"
    unfolding canonical_projections_def by (metis length_0_conv length_sort)
  then show "check_projections n (canonical_projections ps) = Inr () \<longleftrightarrow> check_projections n ps = Inr ()"
    by (simp add: check_projections_def canonical_projections_def)
qed (simp add: canonical_projections_def)

lemma valid_canonical_class [simp]: "valid_class (canonical_class c) \<longleftrightarrow> valid_class c"
  by (simp add: valid_class_def) (simp add: canonical_class_def)

lemma valid_canonical_declaration [simp]: "valid_declaration (canonical_declaration d) \<longleftrightarrow> valid_declaration d"
proof (cases d)
  case (EnumDecl e)
  then show ?thesis by (simp add: check_enum_def)
next
  case (ValueDecl v)
  then show ?thesis by (simp add: check_value_def)
next
  case (ObjectDecl ob)
  have "check_object (ob\<lparr>o_methods := sort_key b_id (o_methods ob)\<rparr>) = Inr () \<longleftrightarrow> check_object ob = Inr ()"
    by (auto simp: check_object_def check_object_method_def owned_sources_def static_methods_def
        instance_methods_def filter_sort)
  with ObjectDecl show ?thesis by simp
qed

lemma canonical_declaration_parts [simp]:
  "decl_type_id (canonical_declaration d) = decl_type_id d"
  "decl_kind (canonical_declaration d) = decl_kind d"
  "decl_fields (canonical_declaration d) = decl_fields d"
  "decl_constructor (canonical_declaration d) = decl_constructor d"
  "mset (decl_methods (canonical_declaration d)) = mset (decl_methods d)"
  "mset (decl_projections (canonical_declaration d)) = mset (decl_projections d)"
  by (cases d; simp add: canonical_projections_def)+

section \<open>Classes, declarations, APIs\<close>

lemma class_read [simp]:
  assumes "valid_class c" shows "class_from_manifest (class_manifest c) lbl = Inr (canonical_class c)"
proof -
  have ne: "c_id c \<noteq> []" "c_name c \<noteq> []" "sp_declaration (c_source c) \<noteq> []"
    using assms by (auto simp: valid_class_def check_class_def valid_source_def check_provenance_def)
  have methods: "list_all valid_binding (sort_key b_id (c_methods c))" and k: "valid_constructor (c_constructor c)"
    and chk: "check_class (canonical_class c) = Inr ()"
    using assms by (simp_all add: valid_class_def)
  have ps: "list_all valid_parameter (k_parameters (c_constructor c))" "valid_source (k_source (c_constructor c))"
    using k by (simp_all add: valid_constructor_def)
  have made: "mk_class (c_id c) (c_kind c) (c_name c) (c_capabilities c) (c_source c) (c_constructor c)
      (sort_key b_id (c_methods c)) = Inr (canonical_class c)"
    using chk by (cases c) (simp add: mk_class_def canonical_class_def)
  show ?thesis
    using assms ne methods k ps made
    by (simp add: class_from_manifest_def class_manifest_def constructor_manifest_def m_keys_self class_keys_def
        capabilities_from_manifest_def valid_class_def insert_commute)
qed

interpretation sm_projection: codec projection_manifest projection_from_manifest valid_projection "\<lambda>p. p"
  by unfold_locales (rule projection_read)

interpretation sm_text: codec JStr m_string "\<lambda>s. s \<noteq> []" "\<lambda>s. s"
  by unfold_locales (simp add: m_string_def)

lemma projections_read [simp]:
  "list_all valid_projection ps \<Longrightarrow>
     projections_from_manifest (projection_manifests ps) lbl = Inr (canonical_projections ps)"
  unfolding projections_from_manifest_def projection_manifests_def canonical_projections_def
  using m_items_codec [OF sm_projection.codec_axioms] by (simp add: list_all_iff)

lemma check_header_nonempty:
  "check_header feature tid name = Inr () \<Longrightarrow> feature \<noteq> [] \<and> tid \<noteq> [] \<and> name \<noteq> []"
  by (auto simp: check_header_def semantic_type_id_def)

lemma declaration_read [simp]:
  assumes "valid_declaration d"
  shows "declaration_from_manifest (declaration_manifest d) lbl = Inr (canonical_declaration d)"
proof (cases d)
  case (EnumDecl e)
  with assms have e: "check_enum e = Inr ()" "list_all valid_projection (e_projections e)" by simp_all
  then have hdr: "check_header (e_feature e) (e_type_id e) (e_name e) = Inr ()"
    and cs: "\<forall>c \<in> set (e_constants e). c \<noteq> []" by (auto simp: check_enum_def)
  have constants: "m_items m_string (JArr (map JStr (e_constants e))) l = Inr (e_constants e)" for l
    using m_items_codec [OF sm_text.codec_axioms] cs by (simp add: list_all_iff)
  have "mk_enum (e\<lparr>e_projections := canonical_projections (e_projections e)\<rparr>) =
      Inr (canonical_declaration d)"
    using e(1) EnumDecl by (simp add: mk_enum_def check_enum_def)
  with EnumDecl e(2) check_header_nonempty [OF hdr] constants show ?thesis
    using declaration_kind_read [of DkEnum]
    by (cases e) (simp add: declaration_from_manifest_def declaration_kind_of_def m_keys_self
        declaration_common_keys_def)
next
  case (ValueDecl v)
  with assms have v: "check_value v = Inr ()" "list_all valid_projection (v_projections v)"
    "list_all valid_field (v_fields v)" by simp_all
  then have hdr: "check_header (v_feature v) (v_type_id v) (v_name v) = Inr ()"
    by (auto simp: check_value_def)
  have "mk_value (v\<lparr>v_projections := canonical_projections (v_projections v)\<rparr>) =
      Inr (canonical_declaration d)"
    using v(1) ValueDecl by (simp add: mk_value_def check_value_def)
  with ValueDecl v(2,3) check_header_nonempty [OF hdr] show ?thesis
    using declaration_kind_read [of DkValue]
    by (cases v) (simp add: declaration_from_manifest_def declaration_kind_of_def m_keys_self
        declaration_common_keys_def)
next
  case (ObjectDecl ob)
  with assms have ob: "check_object ob = Inr ()" "valid_projection (o_projection ob)"
    "list_all valid_binding (sort_key b_id (o_methods ob))" "list_all valid_field (o_fields ob)"
    "\<And>k. o_constructor ob = Some k \<Longrightarrow> valid_constructor k" by simp_all
  then have hdr: "check_header (o_feature ob) (o_type_id ob) (o_name ob) = Inr ()"
    by (auto simp: check_object_def)
  have "valid_declaration (canonical_declaration d)" using assms by simp
  then have made: "mk_object (ob\<lparr>o_methods := sort_key b_id (o_methods ob)\<rparr>) = Inr (canonical_declaration d)"
    using ObjectDecl by (simp add: mk_object_def)
  note facts = ObjectDecl ob(2-4) check_header_nonempty [OF hdr] declaration_kind_read [of DkObject] made
  note defs = declaration_from_manifest_def declaration_kind_of_def m_keys_self declaration_common_keys_def
  show ?thesis
  proof (cases "o_constructor ob")
    case None
    with facts show ?thesis by (cases ob) (simp add: defs insert_commute)
  next
    case (Some k)
    with ob(5) have "valid_constructor k" by simp
    with facts Some show ?thesis
      by (cases ob) (simp add: defs insert_commute constructor_manifest_not_null)
  qed
qed

lemma canonical_class_parts [simp]:
  "c_id (canonical_class c) = c_id c" "c_name (canonical_class c) = c_name c"
  "c_capabilities (canonical_class c) = c_capabilities c" "c_source (canonical_class c) = c_source c"
  "c_constructor (canonical_class c) = c_constructor c"
  "mset (c_methods (canonical_class c)) = mset (c_methods c)"
  by (simp_all add: canonical_class_def)

lemma mset_map_concat_cong:
  assumes "\<And>x. mset (f (g x)) = mset (f x)" "mset xs = mset ys"
  shows "mset (concat (map f (map g xs))) = mset (concat (map f ys))"
proof -
  have "mset (concat (map f (map g xs))) = (\<Sum>x\<in>#mset xs. mset (f (g x)))"
    by (simp add: mset_concat_map comp_def flip: mset_concat_map)
  also have "\<dots> = mset (concat (map f ys))" using assms by (simp add: mset_concat_map)
  finally show ?thesis .
qed

lemma all_bindings_canonical: "mset (all_bindings (canonical_api api)) = mset (all_bindings api)"
proof -
  have "mset (concat (map c_methods (map canonical_class (sort_key c_id (a_classes api))))) =
      mset (concat (map c_methods (a_classes api)))"
    by (rule mset_map_concat_cong) simp_all
  moreover have "mset (concat (map decl_methods (map canonical_declaration
      (sort_key decl_type_id (a_declarations api))))) = mset (concat (map decl_methods (a_declarations api)))"
    by (rule mset_map_concat_cong) simp_all
  ultimately show ?thesis by (simp add: all_bindings_def canonical_api_def)
qed

lemma mset_map_eq: "mset xs = mset ys \<Longrightarrow> mset (map f xs) = mset (map f ys)"
  by simp

lemma semantic_ids_canonical: "mset (semantic_ids (canonical_api api)) = mset (semantic_ids api)"
proof -
  have "mset (concat (map (map f_id \<circ> decl_fields) (map canonical_declaration
      (sort_key decl_type_id (a_declarations api))))) =
      mset (concat (map (map f_id \<circ> decl_fields) (a_declarations api)))"
    by (rule mset_map_concat_cong) simp_all
  with mset_map_eq [OF all_bindings_canonical, of b_id api] show ?thesis
    unfolding semantic_ids_def by (simp add: canonical_api_def comp_def)
qed

lemma source_ids_canonical: "mset (api_source_ids (canonical_api api)) = mset (api_source_ids api)"
proof -
  have "mset (declaration_source_ids (canonical_declaration d)) = mset (declaration_source_ids d)" for d
    using mset_map_eq [OF canonical_declaration_parts(6), of "sp_declaration \<circ> pr_source" d]
    by (simp add: declaration_source_ids_def)
  then have "mset (concat (map declaration_source_ids (map canonical_declaration
      (sort_key decl_type_id (a_declarations api))))) =
      mset (concat (map declaration_source_ids (a_declarations api)))"
    by (intro mset_map_concat_cong) simp_all
  with mset_map_eq [OF all_bindings_canonical, of "sp_declaration \<circ> b_source" api] show ?thesis
    unfolding api_source_ids_def by (simp add: canonical_api_def comp_def)
qed

lemma public_names_canonical: "mset (public_names (canonical_api api)) = mset (public_names api)"
proof -
  have "filter (bc_public \<circ> c_capabilities) (map canonical_class cs) =
      map canonical_class (filter (bc_public \<circ> c_capabilities) cs)" for cs
    by (induction cs) simp_all
  then show ?thesis
    by (simp add: public_names_def canonical_api_def filter_sort [symmetric] comp_def)
qed

lemma canonical_sets [simp]:
  "set (c_methods (canonical_class c)) = set (c_methods c)"
  "set (decl_methods (canonical_declaration d)) = set (decl_methods d)"
  by (rule mset_eq_setD, simp)+

lemma canonical_types:
  "set (all_api_types (canonical_api api)) = set (all_api_types api)"
proof -
  have "set (class_types (canonical_class c)) = set (class_types c)" for c
    by (simp add: class_types_def)
  moreover have "set (declaration_types (canonical_declaration d)) = set (declaration_types d)" for d
    by (simp add: declaration_types_def)
  ultimately show ?thesis by (simp add: all_api_types_def canonical_api_def)
qed

lemma canonical_declarations:
  "set (a_declarations (canonical_api api)) = canonical_declaration ` set (a_declarations api)"
  by (simp add: canonical_api_def)

lemma resolves_canonical [simp]: "resolves (canonical_api api) n \<longleftrightarrow> resolves api n"
  by (simp add: resolves_def canonical_declarations)

lemma value_edge_canonical [simp]: "value_edge (canonical_api api) a b \<longleftrightarrow> value_edge api a b"
proof -
  have "ValueDecl v \<in> canonical_declaration ` set (a_declarations api) \<longleftrightarrow>
      (\<exists>w. ValueDecl w \<in> set (a_declarations api) \<and>
         v = w\<lparr>v_projections := canonical_projections (v_projections w)\<rparr>)" for v
  proof
    assume "ValueDecl v \<in> canonical_declaration ` set (a_declarations api)"
    then obtain d where "d \<in> set (a_declarations api)" "ValueDecl v = canonical_declaration d" by blast
    then show "\<exists>w. ValueDecl w \<in> set (a_declarations api) \<and>
        v = w\<lparr>v_projections := canonical_projections (v_projections w)\<rparr>"
      by - (cases d; auto)
  next
    assume "\<exists>w. ValueDecl w \<in> set (a_declarations api) \<and>
        v = w\<lparr>v_projections := canonical_projections (v_projections w)\<rparr>"
    then show "ValueDecl v \<in> canonical_declaration ` set (a_declarations api)"
      by (metis canonical_declaration.simps(2) imageI)
  qed
  moreover have "value_dependencies (w\<lparr>v_projections := ps\<rparr>) = value_dependencies w" for w ps
    by (simp add: value_dependencies_def)
  ultimately show ?thesis
    unfolding value_edge_def canonical_declarations by (simp only:) fastforce
qed

lemma api_ok_canonical: "api_ok api \<Longrightarrow> api_ok (canonical_api api)"
  unfolding api_ok_def references_resolve_def canonical_types resolves_canonical value_edge_canonical
  using mset_eq_imp_distinct_iff [OF semantic_ids_canonical] mset_eq_imp_distinct_iff [OF source_ids_canonical]
    mset_eq_imp_distinct_iff [OF public_names_canonical]
  by (simp add: canonical_api_def)

lemma canonical_valid: "valid_api api \<Longrightarrow> valid_api (canonical_api api)"
  unfolding valid_api_def check_api_Inr using api_ok_canonical [of api]
  by (auto simp: canonical_api_def list_all_iff)

lemma manifest_canonical: "api_manifest (canonical_api api) = api_manifest api"
proof -
  have c: "class_manifest (canonical_class c) = class_manifest c" for c
    by (simp add: class_manifest_def) (simp add: canonical_class_def)
  have "projection_manifests (canonical_projections ps) = projection_manifests ps" for ps
    by (simp add: projection_manifests_def canonical_projections_def)
  then have d: "declaration_manifest (canonical_declaration d) = declaration_manifest d" for d
    by (cases d) simp_all
  have sc: "sort_key c_id (map canonical_class (sort_key c_id cs)) = map canonical_class (sort_key c_id cs)" for cs
    by (rule sort_key_sorted_map) simp
  have sd: "sort_key decl_type_id (map canonical_declaration (sort_key decl_type_id ds)) =
      map canonical_declaration (sort_key decl_type_id ds)" for ds
    by (rule sort_key_sorted_map) simp
  show ?thesis by (simp add: api_manifest_def canonical_api_def sc sd c d)
qed

interpretation sm_class: codec class_manifest class_from_manifest valid_class canonical_class
  by unfold_locales (rule class_read)

interpretation sm_declaration: codec declaration_manifest declaration_from_manifest valid_declaration canonical_declaration
  by unfold_locales (rule declaration_read)

lemma api_manifest_reads_back:
  assumes "valid_api api"
  shows "semantic_api_from_manifest (api_manifest api) = Inr (canonical_api api) \<and>
         valid_api (canonical_api api) \<and> api_manifest (canonical_api api) = api_manifest api"
proof -
  have fs: "list_all valid_binding (a_functions api)" using assms by (simp add: valid_api_def)
  have "list_all valid_class (a_classes api)" using assms by (simp add: valid_api_def)
  then have cs: "m_items class_from_manifest (JArr (map class_manifest (sort_key c_id (a_classes api)))) l =
      Inr (map canonical_class (sort_key c_id (a_classes api)))" for l
    using m_items_codec [OF sm_class.codec_axioms] by (simp add: list_all_iff)
  have "list_all valid_declaration (a_declarations api)" using assms by (simp add: valid_api_def)
  then have ds: "m_items declaration_from_manifest
        (JArr (map declaration_manifest (sort_key decl_type_id (a_declarations api)))) l =
      Inr (map canonical_declaration (sort_key decl_type_id (a_declarations api)))" for l
    using m_items_codec [OF sm_declaration.codec_axioms] by (simp add: list_all_iff)
  have valid: "valid_api (canonical_api api)" using assms by (rule canonical_valid)
  then have made: "mk_api (sort_key b_id (a_functions api)) (map canonical_class (sort_key c_id (a_classes api)))
      (map canonical_declaration (sort_key decl_type_id (a_declarations api))) = Inr (canonical_api api)"
    by (simp add: mk_api_def valid_api_def flip: canonical_api_def)
  have "semantic_api_from_manifest (api_manifest api) = Inr (canonical_api api)"
    by (simp add: semantic_api_from_manifest_def api_manifest_def m_keys_self api_keys_def check_schema_def
        schema_version_def manifest_kind_def fs cs ds made insert_commute)
  with valid manifest_canonical show ?thesis by blast
qed

interpretation sm_api: codec api_manifest "\<lambda>raw _. semantic_api_from_manifest raw" valid_api canonical_api
  by unfold_locales (simp add: api_manifest_reads_back)

text \<open>
  C3. A manifest determines its API up to order: reading the manifest of a valid API succeeds and
  gives the API in canonical order, which is valid again and has the same manifest.  So a second
  round of writing and reading changes nothing.
\<close>

theorem api_manifest_roundtrip:
  assumes "valid_api api"
  shows "semantic_api_from_manifest (api_manifest api) = Inr (canonical_api api) \<and>
         valid_api (canonical_api api) \<and> api_manifest (canonical_api api) = api_manifest api"
  using assms by (rule api_manifest_reads_back)

definition sample_api :: semantic_api where
  "sample_api = \<lparr>a_functions = [], a_classes = [],
     a_declarations = [sample_value ''B'' (SemType KValueRef None (Some ''f:type:A'') None),
                       sample_value ''A'' (t_scalar SInt32)]\<rparr>"

theorem api_manifest_roundtrip_witness:
  "semantic_api_from_manifest (api_manifest sample_api) = Inr (canonical_api sample_api) \<and>
   map decl_name (a_declarations (canonical_api sample_api)) = [''A'', ''B'']"
proof -
  have "valid_api sample_api" by code_simp
  from api_manifest_roundtrip [OF this] have "semantic_api_from_manifest (api_manifest sample_api) =
    Inr (canonical_api sample_api)" by blast
  moreover have "map decl_name (a_declarations (canonical_api sample_api)) = [''A'', ''B'']" by code_simp
  ultimately show ?thesis by blast
qed

end
