(* ===== verification/Semantic_Merge.thy ===== *)
theory Semantic_Merge
  imports Semantic_Api
begin

text \<open>
  Merging the language frontends' APIs, and the backend check of a value on a route
  (\<^verbatim>\<open>merge_semantic_apis\<close>, \<^verbatim>\<open>_merge_declarations\<close> and \<^verbatim>\<open>validate_semantic_route\<close> of
  \<^verbatim>\<open>semantic.py\<close>).  A dictionary keyed by type identity is the list of its values in insertion
  order: storing under a known key replaces the value in place.
\<close>

section \<open>Merging\<close>

text \<open>\<open>_declaration_schema\<close>: what two projections of one logical type must agree on.\<close>

datatype declaration_schema =
    EnumSchema string "string list"
  | ValueSchema string "(string \<times> string \<times> sem_type \<times> bool) list"
  | ObjectSchema string

fun decl_schema :: "semantic_declaration \<Rightarrow> declaration_schema" where
  "decl_schema (EnumDecl d) = EnumSchema (e_name d) (e_constants d)"
| "decl_schema (ValueDecl d) =
     ValueSchema (v_name d) (map (\<lambda>f. (f_id f, f_name f, f_type f, f_required f)) (v_fields d))"
| "decl_schema (ObjectDecl d) = ObjectSchema (o_name d)"

fun merge_projections ::
    "string \<Rightarrow> semantic_projection list \<Rightarrow> semantic_projection list \<Rightarrow>
     semantic_error + semantic_projection list" where
  "merge_projections type_id existing [] = Inr existing"
| "merge_projections type_id existing (p # ps) =
     (if pr_backend p \<in> set (map pr_backend existing)
      then Inl (DuplicateProjection type_id (pr_backend p))
      else merge_projections type_id (existing @ [p]) ps)"

definition merge_declarations ::
    "semantic_declaration \<Rightarrow> semantic_declaration \<Rightarrow> semantic_error + semantic_declaration" where
  "merge_declarations d1 d2 =
     (if decl_kind d1 = DkObject \<or> decl_kind d2 = DkObject then Inl (ObjectsDoNotMerge (decl_type_id d1))
      else if decl_kind d1 \<noteq> decl_kind d2 \<or> decl_schema d1 \<noteq> decl_schema d2
      then Inl (MismatchedProjections (decl_type_id d1))
      else
        ebind (merge_projections (decl_type_id d1) (decl_projections d1) (decl_projections d2)) (\<lambda>existing.
        let ps = sort_key (backend_name \<circ> pr_backend) existing in
        case d1 of
          EnumDecl e \<Rightarrow> mk_enum (e\<lparr>e_projections := ps\<rparr>)
        | ValueDecl v \<Rightarrow> mk_value (v\<lparr>v_projections := ps\<rparr>)
        | ObjectDecl _ \<Rightarrow> Inl (ObjectsDoNotMerge (decl_type_id d1))))"

definition merge_insert ::
    "semantic_declaration list \<Rightarrow> semantic_declaration \<Rightarrow> semantic_error + semantic_declaration list" where
  "merge_insert acc d =
     (case find (\<lambda>p. decl_type_id p = decl_type_id d) acc of
        None \<Rightarrow> Inr (acc @ [d])
      | Some previous \<Rightarrow>
          ebind (merge_declarations previous d) (\<lambda>m.
            Inr (map (\<lambda>p. if decl_type_id p = decl_type_id d then m else p) acc)))"

fun merge_all ::
    "semantic_declaration list \<Rightarrow> semantic_declaration list \<Rightarrow> semantic_error + semantic_declaration list" where
  "merge_all acc [] = Inr acc"
| "merge_all acc (d # ds) = ebind (merge_insert acc d) (\<lambda>acc'. merge_all acc' ds)"

definition merge_semantic_apis :: "semantic_api list \<Rightarrow> semantic_error + semantic_api" where
  "merge_semantic_apis apis =
     ebind (merge_all [] (concat (map a_declarations apis))) (\<lambda>ds.
       mk_api (concat (map a_functions apis)) (concat (map a_classes apis)) ds)"

section \<open>Routes\<close>

definition available_backends :: "semantic_declaration \<Rightarrow> backend_family set" where
  "available_backends d = pr_backend ` set (decl_projections d)"

text \<open>
  The checks of one named node; \<open>checked_values\<close> makes the walk through value fields visit each value
  once.  The set is state: \<open>check_route\<close> returns the grown set.
\<close>

definition check_route_node ::
    "backend_family \<Rightarrow> backend_family \<Rightarrow> type_kind \<Rightarrow> semantic_declaration \<Rightarrow> semantic_error + unit" where
  "check_route_node sb tb kind d =
     (if kind = KObjectRef then
        ebind (raise_if (sb \<noteq> tb) (RouteObjectCrossing (decl_name d))) (\<lambda>_.
        raise_if (sb \<notin> available_backends d) (RouteObjectMissing (decl_name d)))
      else raise_if ({sb, tb} - available_backends d \<noteq> {}) (RouteValueMissing (decl_name d)))"

function (sequential) check_route ::
    "semantic_declaration list \<Rightarrow> backend_family \<Rightarrow> backend_family \<Rightarrow> sem_type \<Rightarrow> string list \<Rightarrow>
     semantic_error + string list"
  and check_route_fields ::
    "semantic_declaration list \<Rightarrow> backend_family \<Rightarrow> backend_family \<Rightarrow> sem_type list \<Rightarrow> string list \<Rightarrow>
     semantic_error + string list" where
  "check_route ds sb tb (SemType k s i e) checked =
     (if is_wrapper k then
        (case e of Some x \<Rightarrow> check_route ds sb tb x checked | None \<Rightarrow> Inr checked)
      else case i of
        None \<Rightarrow> Inr checked
      | Some type_id \<Rightarrow>
          (case find (\<lambda>d. decl_type_id d = type_id) ds of
             None \<Rightarrow> Inl (UnknownTypeId k type_id)
           | Some d \<Rightarrow>
               ebind (check_route_node sb tb k d) (\<lambda>_.
                 case d of
                   ValueDecl v \<Rightarrow>
                     if k = KObjectRef \<or> type_id \<in> set checked then Inr checked
                     else check_route_fields ds sb tb (map f_type (v_fields v)) (type_id # checked)
                 | _ \<Rightarrow> Inr checked)))"
| "check_route_fields ds sb tb [] checked = Inr checked"
| "check_route_fields ds sb tb (t # ts) checked =
     ebind (check_route ds sb tb t checked) (\<lambda>checked'. check_route_fields ds sb tb ts checked')"
  by pat_completeness auto

lemma check_route_grows_dom:
  "check_route_check_route_fields_dom (Inl (ds, sb, tb, t, checked)) \<Longrightarrow>
     check_route ds sb tb t checked = Inr c \<Longrightarrow> set checked \<subseteq> set c"
  "check_route_check_route_fields_dom (Inr (ds, sb, tb, ts, checked)) \<Longrightarrow>
     check_route_fields ds sb tb ts checked = Inr c \<Longrightarrow> set checked \<subseteq> set c"
proof (induction ds sb tb t checked and ds sb tb ts checked arbitrary: c and c
    rule: check_route_check_route_fields.pinduct)
  case (1 ds sb tb k s i e checked)
  then show ?case
    by (fastforce simp: check_route.psimps split: if_splits option.splits semantic_declaration.splits)
next
  case (2 ds sb tb checked)
  then show ?case by (simp add: check_route_fields.psimps)
next
  case (3 ds sb tb t ts checked)
  then show ?case by (fastforce simp: check_route_fields.psimps)
qed

termination check_route
proof (relation "measures
    [\<lambda>x. case x of Inl (ds, sb, tb, t, checked) \<Rightarrow> card (decl_type_id ` set ds - set checked)
                | Inr (ds, sb, tb, ts, checked) \<Rightarrow> card (decl_type_id ` set ds - set checked),
     \<lambda>x. case x of Inl (ds, sb, tb, t, checked) \<Rightarrow> 2 * size t
                | Inr (ds, sb, tb, ts, checked) \<Rightarrow> (\<Sum>t\<leftarrow>ts. 2 * size t + 1)]", goal_cases)
  case 1
  then show ?case by simp
next
  case (2 ds sb tb k s i e checked x2)
  then show ?case by simp
next
  case (3 ds sb tb k s i e checked type_id d u v)
  then have "type_id \<in> decl_type_id ` set ds - set checked" by (auto simp: find_Some_iff)
  then have "decl_type_id ` set ds - set (type_id # checked) \<subset> decl_type_id ` set ds - set checked" by auto
  then have "card (decl_type_id ` set ds - set (type_id # checked)) < card (decl_type_id ` set ds - set checked)"
    by (intro psubset_card_mono) simp
  then show ?case by simp
next
  case (4 ds sb tb t ts checked)
  then show ?case by simp
next
  case (5 ds sb tb t ts checked c)
  then have "set checked \<subseteq> set c" by (intro check_route_grows_dom(1))
  then have "card (decl_type_id ` set ds - set c) \<le> card (decl_type_id ` set ds - set checked)"
    by (intro card_mono) auto
  then show ?case by auto
qed

declare check_route.simps [simp del]

definition validate_semantic_route ::
    "semantic_api \<Rightarrow> sem_type \<Rightarrow> backend_family \<Rightarrow> backend_family \<Rightarrow> semantic_error + unit" where
  "validate_semantic_route api ty sb tb =
     ebind (check_route (rev (a_declarations api)) sb tb ty []) (\<lambda>_. Inr ())"

end
