(* ===== verification/Semantic_Merge_Props.thy ===== *)
theory Semantic_Merge_Props
  imports Semantic_Merge Semantic_Api_Props
begin

text \<open>
  A route is accepted exactly when every named node it can reach has the backends it needs, and merging
  the frontends neither loses nor invents a projection.
\<close>

section \<open>Routes\<close>

definition lookup :: "semantic_declaration list \<Rightarrow> string \<Rightarrow> semantic_declaration option" where
  "lookup ds i = find (\<lambda>d. decl_type_id d = i) ds"

text \<open>The types a route can meet: through wrappers, and through the fields of copied values.\<close>

inductive route_reaches :: "semantic_declaration list \<Rightarrow> sem_type \<Rightarrow> sem_type \<Rightarrow> bool" for ds where
  reach_refl: "route_reaches ds t t"
| reach_element: "is_wrapper k \<Longrightarrow> route_reaches ds e u \<Longrightarrow> route_reaches ds (SemType k s i (Some e)) u"
| reach_field: "\<not> is_wrapper k \<Longrightarrow> k \<noteq> KObjectRef \<Longrightarrow> lookup ds i = Some (ValueDecl v) \<Longrightarrow>
     f \<in> set (v_fields v) \<Longrightarrow> route_reaches ds (f_type f) u \<Longrightarrow>
     route_reaches ds (SemType k s (Some i) e) u"

text \<open>What a named node needs on a route.\<close>

definition node_allowed ::
    "semantic_declaration list \<Rightarrow> backend_family \<Rightarrow> backend_family \<Rightarrow> sem_type \<Rightarrow> bool" where
  "node_allowed ds sb tb u \<longleftrightarrow>
     is_wrapper (st_kind u) \<or> st_type_id u = None \<or>
     (case lookup ds (node_id u) of
        None \<Rightarrow> False
      | Some d \<Rightarrow>
          if st_kind u = KObjectRef then sb = tb \<and> sb \<in> available_backends d
          else {sb, tb} \<subseteq> available_backends d)"

definition route_allowed ::
    "semantic_declaration list \<Rightarrow> backend_family \<Rightarrow> backend_family \<Rightarrow> sem_type \<Rightarrow> bool" where
  "route_allowed ds sb tb t \<longleftrightarrow> (\<forall>u. route_reaches ds t u \<longrightarrow> node_allowed ds sb tb u)"

lemma check_route_node_Inr:
  "check_route_node sb tb k d = Inr () \<longleftrightarrow>
     (if k = KObjectRef then sb = tb \<and> sb \<in> available_backends d
      else {sb, tb} \<subseteq> available_backends d)"
  by (auto simp: check_route_node_def)

text \<open>One step: the named node under the wrappers is fine, and a value it names is in \<open>C\<close>.\<close>

fun step_ok ::
    "semantic_declaration list \<Rightarrow> backend_family \<Rightarrow> backend_family \<Rightarrow> string set \<Rightarrow> sem_type \<Rightarrow> bool" where
  "step_ok ds sb tb C (SemType k s i e) =
     (if is_wrapper k then (case e of Some x \<Rightarrow> step_ok ds sb tb C x | None \<Rightarrow> True)
      else case i of
        None \<Rightarrow> True
      | Some type_id \<Rightarrow>
          (case lookup ds type_id of
             None \<Rightarrow> False
           | Some d \<Rightarrow> check_route_node sb tb k d = Inr () \<and>
               (case d of ValueDecl v \<Rightarrow> k = KObjectRef \<or> type_id \<in> C | _ \<Rightarrow> True)))"

definition fields_ok ::
    "semantic_declaration list \<Rightarrow> backend_family \<Rightarrow> backend_family \<Rightarrow> string set \<Rightarrow> string \<Rightarrow> bool" where
  "fields_ok ds sb tb C i \<longleftrightarrow>
     (\<forall>v f. lookup ds i = Some (ValueDecl v) \<longrightarrow> f \<in> set (v_fields v) \<longrightarrow> step_ok ds sb tb C (f_type f))"

lemma step_ok_mono: "step_ok ds sb tb C t \<Longrightarrow> C \<subseteq> D \<Longrightarrow> step_ok ds sb tb D t"
  by (induction ds sb tb C t rule: step_ok.induct)
    (auto split: if_splits option.splits semantic_declaration.splits)

lemma fields_ok_mono: "fields_ok ds sb tb C i \<Longrightarrow> C \<subseteq> D \<Longrightarrow> fields_ok ds sb tb D i"
  unfolding fields_ok_def using step_ok_mono by blast

lemma check_route_sound:
  "check_route ds sb tb t checked = Inr c \<Longrightarrow>
     set checked \<subseteq> set c \<and> step_ok ds sb tb (set c) t \<and>
     (\<forall>i \<in> set c - set checked. fields_ok ds sb tb (set c) i)"
  "check_route_fields ds sb tb ts checked = Inr c \<Longrightarrow>
     set checked \<subseteq> set c \<and> (\<forall>t \<in> set ts. step_ok ds sb tb (set c) t) \<and>
     (\<forall>i \<in> set c - set checked. fields_ok ds sb tb (set c) i)"
proof (induction ds sb tb t checked and ds sb tb ts checked arbitrary: c and c
    rule: check_route_check_route_fields.induct)
  case (1 ds sb tb k s i e checked)
  show ?case
  proof (cases "is_wrapper k")
    case True
    with 1 show ?thesis by (cases e) (auto simp: check_route.simps)
  next
    case nw: False
    show ?thesis
    proof (cases i)
      case None
      with nw "1.prems" show ?thesis by (simp add: check_route.simps)
    next
      case (Some type_id)
      with nw "1.prems" obtain d where d: "lookup ds type_id = Some d" "check_route_node sb tb k d = Inr ()"
        by (auto simp: check_route.simps lookup_def split: option.splits)
      show ?thesis
      proof (cases "\<exists>v. d = ValueDecl v \<and> k \<noteq> KObjectRef \<and> type_id \<notin> set checked")
        case True
        then obtain v where v: "d = ValueDecl v" "k \<noteq> KObjectRef" "type_id \<notin> set checked" by blast
        with nw Some d "1.prems" have rec:
          "check_route_fields ds sb tb (map f_type (v_fields v)) (type_id # checked) = Inr c"
          by (simp add: check_route.simps lookup_def)
        have "set (type_id # checked) \<subseteq> set c \<and>
            (\<forall>t \<in> set (map f_type (v_fields v)). step_ok ds sb tb (set c) t) \<and>
            (\<forall>i \<in> set c - set (type_id # checked). fields_ok ds sb tb (set c) i)"
          using "1.IH"(2) [OF nw Some d(1) [unfolded lookup_def] d(2) v(1) _ rec] v by simp
        moreover from this have "fields_ok ds sb tb (set c) type_id"
          using d v by (auto simp: fields_ok_def)
        ultimately show ?thesis using nw Some d v by auto
      next
        case False
        with nw Some d "1.prems" have "c = checked"
          by (auto simp: check_route.simps lookup_def split: semantic_declaration.splits if_splits)
        with False nw Some d show ?thesis by (auto split: semantic_declaration.splits)
      qed
    qed
  qed
next
  case (2 ds sb tb checked)
  then show ?case by simp
next
  case (3 ds sb tb t ts checked)
  from "3.prems" obtain c1 where c1: "check_route ds sb tb t checked = Inr c1"
    "check_route_fields ds sb tb ts c1 = Inr c" by auto
  note a = "3.IH"(1) [OF c1(1)] and b = "3.IH"(2) [OF c1]
  have "fields_ok ds sb tb (set c) i" if "i \<in> set c - set checked" for i
    using that a b fields_ok_mono by (cases "i \<in> set c1") blast+
  with a b step_ok_mono show ?case by fastforce
qed

lemma step_ok_allowed: "step_ok ds sb tb C t \<Longrightarrow> node_allowed ds sb tb t"
  by (cases t) (auto simp: node_allowed_def node_id_def check_route_node_Inr split: option.splits if_splits)

lemma closed_reaches:
  "route_reaches ds t u \<Longrightarrow> step_ok ds sb tb C t \<Longrightarrow> (\<forall>i \<in> C. fields_ok ds sb tb C i) \<Longrightarrow>
     step_ok ds sb tb C u"
proof (induction rule: route_reaches.induct)
  case (reach_field k i v f u s e)
  then have "i \<in> C" by (auto split: semantic_declaration.splits)
  with reach_field show ?case by (auto simp: fields_ok_def)
qed auto

lemma check_route_complete:
  "check_route ds sb tb t checked = Inl err \<Longrightarrow> \<not> route_allowed ds sb tb t"
  "check_route_fields ds sb tb ts checked = Inl err \<Longrightarrow> \<exists>t \<in> set ts. \<not> route_allowed ds sb tb t"
proof (induction ds sb tb t checked and ds sb tb ts checked
    rule: check_route_check_route_fields.induct)
  case (1 ds sb tb k s i e checked)
  show ?case
  proof (cases "is_wrapper k")
    case True
    with "1.prems" obtain x where x: "e = Some x" "check_route ds sb tb x checked = Inl err"
      by (auto simp: check_route.simps split: option.splits)
    with "1.IH"(1) [OF True x] show ?thesis
      unfolding route_allowed_def using reach_element [OF True] by blast
  next
    case nw: False
    with "1.prems" obtain type_id where i: "i = Some type_id"
      by (auto simp: check_route.simps split: option.splits)
    let ?t = "SemType k s i e"
    show ?thesis
    proof (cases "node_allowed ds sb tb ?t")
      case False
      then show ?thesis using reach_refl by (auto simp: route_allowed_def)
    next
      case True
      with nw i obtain d where d: "lookup ds type_id = Some d" "check_route_node sb tb k d = Inr ()"
        by (auto simp: node_allowed_def node_id_def check_route_node_Inr split: option.splits)
      with nw i "1.prems" obtain v where v: "d = ValueDecl v" "\<not> (k = KObjectRef \<or> type_id \<in> set checked)"
        and rec: "check_route_fields ds sb tb (map f_type (v_fields v)) (type_id # checked) = Inl err"
        by (auto simp: check_route.simps lookup_def split: semantic_declaration.splits if_splits)
      from "1.IH"(2) [OF nw i d(1) [unfolded lookup_def] d(2) v rec] obtain f
        where f: "f \<in> set (v_fields v)" "\<not> route_allowed ds sb tb (f_type f)" by auto
      then show ?thesis
        using reach_field [of k ds type_id v f] nw i d v by (auto simp: route_allowed_def)
    qed
  qed
next
  case (2 ds sb tb checked)
  then show ?case by simp
next
  case (3 ds sb tb t ts checked)
  then show ?case by (auto simp: ebind_Inl)
qed

text \<open>
  C22. A value may cross from one backend to another exactly when every named type it can reach,
  through wrappers and through the fields of copied values at any depth, is known and has what it
  needs: a copied type a projection on both sides, an object one on the single backend of the route.
  Visiting each value once does not weaken the check, and a recursive value does not make it loop.
\<close>

theorem semantic_route_accepts:
  "validate_semantic_route api ty sb tb = Inr () \<longleftrightarrow>
     route_allowed (rev (a_declarations api)) sb tb ty"
proof (cases "check_route (rev (a_declarations api)) sb tb ty []")
  case (Inl err)
  then show ?thesis using check_route_complete(1) by (simp add: validate_semantic_route_def)
next
  case (Inr c)
  from check_route_sound(1) [OF Inr] have
    "step_ok (rev (a_declarations api)) sb tb (set c) ty"
    "\<forall>i \<in> set c. fields_ok (rev (a_declarations api)) sb tb (set c) i" by auto
  then have "route_allowed (rev (a_declarations api)) sb tb ty"
    unfolding route_allowed_def using closed_reaches step_ok_allowed by blast
  with Inr show ?thesis by (simp add: validate_semantic_route_def)
qed

section \<open>Merging\<close>

definition contributes :: "semantic_declaration \<Rightarrow> semantic_declaration \<Rightarrow> bool" where
  "contributes d m \<longleftrightarrow> decl_type_id m = decl_type_id d \<and> decl_schema m = decl_schema d \<and>
     set (decl_projections d) \<subseteq> set (decl_projections m)"

text \<open>
  Nothing lost: every input declaration is part of an output with its identity and schema.  Nothing
  invented: every projection of an output comes from an input with that identity.
\<close>

definition faithful_merge :: "semantic_declaration list \<Rightarrow> semantic_declaration list \<Rightarrow> bool" where
  "faithful_merge ds out \<longleftrightarrow>
     distinct (map decl_type_id out) \<and>
     (\<forall>d \<in> set ds. \<exists>m \<in> set out. contributes d m) \<and>
     (\<forall>m \<in> set out. \<forall>p \<in> set (decl_projections m).
        \<exists>d \<in> set ds. decl_type_id d = decl_type_id m \<and> p \<in> set (decl_projections d))"

lemma contributes_refl [simp]: "contributes d d" by (simp add: contributes_def)

lemma contributes_trans: "contributes a b \<Longrightarrow> contributes b c \<Longrightarrow> contributes a c"
  by (auto simp: contributes_def)

lemma merge_projections_set:
  "merge_projections i existing ps = Inr out \<Longrightarrow> set out = set existing \<union> set ps"
  by (induction i existing ps rule: merge_projections.induct) (auto split: if_splits)

lemma merge_declarations_spec:
  assumes "merge_declarations d1 d2 = Inr m" "decl_type_id d1 = decl_type_id d2"
  shows "contributes d1 m \<and> contributes d2 m \<and>
         set (decl_projections m) = set (decl_projections d1) \<union> set (decl_projections d2)"
proof -
  from assms(1) obtain ex where ex: "merge_projections (decl_type_id d1) (decl_projections d1)
      (decl_projections d2) = Inr ex" "decl_schema d1 = decl_schema d2"
    and m: "(case d1 of EnumDecl e \<Rightarrow> mk_enum (e\<lparr>e_projections := sort_key (backend_name \<circ> pr_backend) ex\<rparr>)
      | ValueDecl v \<Rightarrow> mk_value (v\<lparr>v_projections := sort_key (backend_name \<circ> pr_backend) ex\<rparr>)
      | ObjectDecl _ \<Rightarrow> Inl (ObjectsDoNotMerge (decl_type_id d1))) = Inr m"
    by (auto simp: merge_declarations_def Let_def split: if_splits)
  from m have "decl_type_id m = decl_type_id d1 \<and> decl_schema m = decl_schema d1 \<and>
      set (decl_projections m) = set ex"
    by (cases d1) (auto simp: mk_enum_def mk_value_def)
  with merge_projections_set [OF ex(1)] ex(2) assms(2) show ?thesis by (auto simp: contributes_def)
qed

lemma merge_insert_faithful:
  assumes ins: "merge_insert acc d = Inr acc'" and f: "faithful_merge ds acc"
  shows "faithful_merge (ds @ [d]) acc'"
proof (cases "find (\<lambda>p. decl_type_id p = decl_type_id d) acc")
  case None
  with ins have "acc' = acc @ [d]" by (simp add: merge_insert_def)
  moreover have "decl_type_id d \<notin> set (map decl_type_id acc)" using None by (auto simp: find_None_iff)
  ultimately show ?thesis using f by (fastforce simp: faithful_merge_def)
next
  case (Some q)
  then have q: "q \<in> set acc" "decl_type_id q = decl_type_id d" by (auto simp: find_Some_iff)
  from ins Some obtain m where m: "merge_declarations q d = Inr m"
    and acc': "acc' = map (\<lambda>p. if decl_type_id p = decl_type_id d then m else p) acc"
    by (auto simp: merge_insert_def)
  note spec = merge_declarations_spec [OF m q(2)]
  have id: "decl_type_id m = decl_type_id d" using spec unfolding contributes_def by blast
  have only: "p = q" if "p \<in> set acc" "decl_type_id p = decl_type_id d" for p
    using f q that by (auto simp: faithful_merge_def distinct_map inj_on_def)
  have ids: "map decl_type_id acc' = map decl_type_id acc" using id by (simp add: acc')
  have kept: "\<exists>m' \<in> set acc'. contributes p m'" if "p \<in> set acc" for p
  proof (cases "decl_type_id p = decl_type_id d")
    case True
    with only that spec have "contributes p m" by blast
    moreover have "m \<in> set acc'" using that True by (force simp: acc')
    ultimately show ?thesis by blast
  next
    case False
    with that have "p \<in> set acc'" by (force simp: acc')
    then show ?thesis using contributes_refl by blast
  qed
  have m_in: "m \<in> set acc'" using q by (force simp: acc')
  have "\<exists>m' \<in> set acc'. contributes x m'" if "x \<in> set (ds @ [d])" for x
  proof (cases "x = d")
    case True
    with spec m_in show ?thesis by blast
  next
    case False
    with that f obtain p where "p \<in> set acc" "contributes x p" by (auto simp: faithful_merge_def)
    with kept contributes_trans show ?thesis by blast
  qed
  moreover have "\<exists>x \<in> set (ds @ [d]). decl_type_id x = decl_type_id m' \<and> p \<in> set (decl_projections x)"
    if "m' \<in> set acc'" "p \<in> set (decl_projections m')" for m' p
  proof (cases "m' = m")
    case True
    with that spec consider "p \<in> set (decl_projections q)" | "p \<in> set (decl_projections d)" by blast
    then show ?thesis using f q id True by cases (fastforce simp: faithful_merge_def)+
  next
    case False
    with that(1) have "m' \<in> set acc" by (auto simp: acc')
    with that(2) f show ?thesis by (auto simp: faithful_merge_def)
  qed
  ultimately show ?thesis using f ids by (simp add: faithful_merge_def)
qed

lemma merge_all_faithful:
  "merge_all acc ds = Inr out \<Longrightarrow> faithful_merge before acc \<Longrightarrow> faithful_merge (before @ ds) out"
proof (induction acc ds arbitrary: before rule: merge_all.induct)
  case (1 acc)
  then show ?case by simp
next
  case (2 acc d ds)
  from "2.prems"(1) obtain acc' where a: "merge_insert acc d = Inr acc'" "merge_all acc' ds = Inr out" by auto
  from "2.IH" [OF a merge_insert_faithful [OF a(1) "2.prems"(2)]] show ?case by simp
qed

section \<open>The exact result of a merge\<close>

text \<open>
  An independent description of the merged declarations, without an accumulator: one for every type
  identity, in the order of first appearance; a type declared once is kept as it is, a type declared
  several times is its first declaration with the projections of all of them, sorted by backend.
\<close>

fun with_projections :: "semantic_projection list \<Rightarrow> semantic_declaration \<Rightarrow> semantic_declaration" where
  "with_projections ps (EnumDecl d) = EnumDecl (d\<lparr>e_projections := ps\<rparr>)"
| "with_projections ps (ValueDecl d) = ValueDecl (d\<lparr>v_projections := ps\<rparr>)"
| "with_projections ps (ObjectDecl d) = ObjectDecl d"

lemma with_projections_simps [simp]:
  "decl_type_id (with_projections ps d) = decl_type_id d" "decl_schema (with_projections ps d) = decl_schema d"
  "decl_kind (with_projections ps d) = decl_kind d" "with_projections ps (with_projections qs d) = with_projections ps d"
  "decl_kind d \<noteq> DkObject \<Longrightarrow> decl_projections (with_projections ps d) = ps"
  by (cases d; simp)+

definition type_order :: "semantic_declaration list \<Rightarrow> string list" where
  "type_order ds = rev (remdups (rev (map decl_type_id ds)))"

definition of_type :: "string \<Rightarrow> semantic_declaration list \<Rightarrow> semantic_declaration list" where
  "of_type i ds = filter (\<lambda>d. decl_type_id d = i) ds"

definition sorted_projections :: "semantic_declaration list \<Rightarrow> semantic_projection list" where
  "sorted_projections g = sort_key (backend_name \<circ> pr_backend) (concat (map decl_projections g))"

definition merged_group :: "semantic_declaration list \<Rightarrow> semantic_declaration" where
  "merged_group g = (if length g = 1 then hd g else with_projections (sorted_projections g) (hd g))"

text \<open>What several declarations of one type must satisfy to be merged at all.\<close>

definition mergeable :: "semantic_declaration list \<Rightarrow> bool" where
  "mergeable g \<longleftrightarrow> list_all (\<lambda>d. decl_schema d = decl_schema (hd g)) g \<and>
     (1 < length g \<longrightarrow> list_all (\<lambda>d. decl_kind d \<noteq> DkObject) g \<and>
        distinct (map pr_backend (concat (map decl_projections g))))"

lemma type_order_snoc:
  "type_order (ds @ [d]) = (if decl_type_id d \<in> set (map decl_type_id ds) then type_order ds else type_order ds @ [decl_type_id d])"
  by (simp add: type_order_def)

lemma set_type_order [simp]: "set (type_order ds) = set (map decl_type_id ds)" "distinct (type_order ds)"
  by (simp_all add: type_order_def)

lemma of_type_snoc: "of_type i (ds @ [d]) = of_type i ds @ (if decl_type_id d = i then [d] else [])"
  by (simp add: of_type_def)

lemma of_type_nonempty: "i \<in> set (map decl_type_id ds) \<longleftrightarrow> of_type i ds \<noteq> []"
  by (auto simp: of_type_def filter_empty_conv)

lemma merged_group_id: "of_type i ds \<noteq> [] \<Longrightarrow> decl_type_id (merged_group (of_type i ds)) = i"
proof -
  assume "of_type i ds \<noteq> []"
  then have "hd (of_type i ds) \<in> set (of_type i ds)" by simp
  then have "decl_type_id (hd (of_type i ds)) = i" by (simp add: of_type_def)
  then show ?thesis by (simp add: merged_group_def)
qed

lemma merge_projections_append: "merge_projections i ex ps = Inr out \<Longrightarrow> out = ex @ ps"
  by (induction i ex ps rule: merge_projections.induct) (auto split: if_splits)

lemma checked_backends:
  assumes "mk_enum e = Inr m \<or> mk_value v = Inr m" shows "distinct (map pr_backend (decl_projections m))"
proof -
  have "distinct (map (backend_name \<circ> pr_backend) (decl_projections m))"
    using assms by (auto simp: mk_enum_def mk_value_def check_enum_def check_value_def check_projections_def)
  then have "distinct (map backend_name (map pr_backend (decl_projections m)))" by (simp add: comp_def)
  then show ?thesis by (simp only: distinct_map)
qed

lemma merge_declarations_exact:
  assumes "merge_declarations d1 d2 = Inr m"
  shows "decl_kind d1 \<noteq> DkObject \<and> decl_kind d2 \<noteq> DkObject \<and> decl_schema d1 = decl_schema d2 \<and>
     distinct (map pr_backend (decl_projections d1 @ decl_projections d2)) \<and>
     m = with_projections (sort_key (backend_name \<circ> pr_backend) (decl_projections d1 @ decl_projections d2)) d1"
proof -
  from assms obtain ex where ex: "merge_projections (decl_type_id d1) (decl_projections d1) (decl_projections d2) = Inr ex"
      "decl_kind d1 \<noteq> DkObject" "decl_kind d2 \<noteq> DkObject" "decl_schema d1 = decl_schema d2"
    and m: "(case d1 of EnumDecl e \<Rightarrow> mk_enum (e\<lparr>e_projections := sort_key (backend_name \<circ> pr_backend) ex\<rparr>)
      | ValueDecl v \<Rightarrow> mk_value (v\<lparr>v_projections := sort_key (backend_name \<circ> pr_backend) ex\<rparr>)
      | ObjectDecl _ \<Rightarrow> Inl (ObjectsDoNotMerge (decl_type_id d1))) = Inr m"
    by (auto simp: merge_declarations_def Let_def split: if_splits)
  from m have "m = with_projections (sort_key (backend_name \<circ> pr_backend) ex) d1"
    by (cases d1) (auto simp: mk_enum_def mk_value_def)
  moreover from m have "distinct (map pr_backend (decl_projections m))"
    using checked_backends by (cases d1) (simp_all, blast+)
  ultimately show ?thesis using ex merge_projections_append [OF ex(1)] by simp
qed

lemma merged_group_snoc:
  assumes "g \<noteq> []" "mergeable g" "merge_declarations (merged_group g) d = Inr m"
  shows "m = merged_group (g @ [d]) \<and> mergeable (g @ [d])"
proof -
  note e = merge_declarations_exact [OF assms(3)]
  have hd: "hd (g @ [d]) = hd g" using assms(1) by simp
  show ?thesis
  proof (cases "length g = 1")
    case True
    then obtain q where "g = [q]" by (auto simp: length_Suc_conv)
    with e show ?thesis by (simp add: merged_group_def mergeable_def sorted_projections_def)
  next
    case False
    with assms(1) have long: "1 < length g" by (cases g) auto
    with assms(2) have objects: "list_all (\<lambda>d. decl_kind d \<noteq> DkObject) g" by (simp add: mergeable_def)
    with assms(1) have "decl_kind (hd g) \<noteq> DkObject" by (cases g) simp_all
    with False e have "m = with_projections (sort_key (backend_name \<circ> pr_backend) (sorted_projections g @ decl_projections d)) (hd g)"
      "decl_schema d = decl_schema (hd g)" "decl_kind d \<noteq> DkObject"
      "distinct (map pr_backend (sorted_projections g @ decl_projections d))"
      by (simp_all add: merged_group_def)
    with False assms(1,2) objects hd show ?thesis
      by (auto simp: merged_group_def mergeable_def sorted_projections_def sort_key_sorted_prefix)
  qed
qed

definition exact_merge :: "semantic_declaration list \<Rightarrow> semantic_declaration list \<Rightarrow> bool" where
  "exact_merge ds out \<longleftrightarrow> out = map (\<lambda>i. merged_group (of_type i ds)) (type_order ds) \<and>
     list_all (\<lambda>i. mergeable (of_type i ds)) (type_order ds)"

lemma exact_merge_insert:
  assumes "merge_insert acc d = Inr acc'" "exact_merge ds acc" shows "exact_merge (ds @ [d]) acc'"
proof -
  let ?i = "decl_type_id d"
  have acc: "acc = map (\<lambda>i. merged_group (of_type i ds)) (type_order ds)"
    and ok: "list_all (\<lambda>i. mergeable (of_type i ds)) (type_order ds)" using assms(2) by (simp_all add: exact_merge_def)
  have id: "decl_type_id (merged_group (of_type i ds)) = i" if "i \<in> set (type_order ds)" for i
    using that merged_group_id of_type_nonempty by simp
  show ?thesis
  proof (cases "?i \<in> set (map decl_type_id ds)")
    case False
    have "find (\<lambda>p. decl_type_id p = ?i) acc = None"
      using False id unfolding acc by (auto simp: find_None_iff)
    with assms(1) have "acc' = acc @ [d]" by (simp add: merge_insert_def)
    moreover have "of_type ?i ds = []" using False of_type_nonempty by blast
    moreover have "of_type i (ds @ [d]) = of_type i ds" if "i \<in> set (type_order ds)" for i
      using that False by (auto simp: of_type_snoc)
    ultimately show ?thesis
      using False ok acc
      by (auto simp: exact_merge_def type_order_snoc of_type_snoc merged_group_def mergeable_def list_all_iff)
  next
    case True
    let ?g = "of_type ?i ds"
    have g: "?g \<noteq> []" using True of_type_nonempty by blast
    have mg: "mergeable ?g" using ok True unfolding set_type_order(1) [symmetric] list_all_iff by blast
    have "find (\<lambda>p. decl_type_id p = ?i) acc = Some (merged_group ?g)"
    proof -
      have "?i \<in> set (type_order ds)" using True by (simp only: set_type_order(1))
      then have "merged_group ?g \<in> set acc" unfolding acc set_map by (rule imageI)
      then have "find (\<lambda>p. decl_type_id p = ?i) acc \<noteq> None"
        using merged_group_id [OF g] unfolding find_None_iff by blast
      then obtain q where q: "find (\<lambda>p. decl_type_id p = ?i) acc = Some q" by blast
      then have "q \<in> set acc" "decl_type_id q = ?i" by (auto simp: find_Some_iff)
      then obtain j where "j \<in> set (type_order ds)" "q = merged_group (of_type j ds)" unfolding acc by fastforce
      with id [of j] \<open>decl_type_id q = ?i\<close> have "q = merged_group ?g" by simp
      with q show ?thesis by simp
    qed
    with assms(1) obtain m where m: "merge_declarations (merged_group ?g) d = Inr m"
      and acc': "acc' = map (\<lambda>p. if decl_type_id p = ?i then m else p) acc"
      by (auto simp: merge_insert_def)
    note snoc = merged_group_snoc [OF g mg m]
    have "acc' = map (\<lambda>i. merged_group (of_type i (ds @ [d]))) (type_order ds)"
      unfolding acc' acc map_map by (rule map_cong [OF refl]) (use id snoc in \<open>simp add: of_type_snoc\<close>)
    moreover have "mergeable (of_type i (ds @ [d]))" if "i \<in> set (type_order ds)" for i
    proof (cases "i = ?i")
      case True
      with snoc show ?thesis by (simp add: of_type_snoc)
    next
      case False
      have "mergeable (of_type i ds)" using that ok unfolding list_all_iff by blast
      with False show ?thesis by (simp add: of_type_snoc)
    qed
    ultimately show ?thesis using True unfolding exact_merge_def list_all_iff by (simp only: type_order_snoc if_True) blast
  qed
qed

lemma exact_merge_all: "merge_all acc ds = Inr out \<Longrightarrow> exact_merge before acc \<Longrightarrow> exact_merge (before @ ds) out"
proof (induction acc ds arbitrary: before rule: merge_all.induct)
  case (2 acc d ds)
  from "2.prems"(1) obtain acc' where a: "merge_insert acc d = Inr acc'" "merge_all acc' ds = Inr out" by auto
  from "2.IH" [OF a exact_merge_insert [OF a(1) "2.prems"(2)]] show ?case by simp
qed simp

text \<open>
  C21. The merged API has exactly one declaration per type identity of the inputs, in the order in
  which the identities first appear.  A type declared once is the input declaration itself, an object
  with its constructor, methods and fields included; a type declared by several frontends is the
  first of its declarations with all their projections, in the order of the backends, and then all
  of them have one schema, none is an object and no backend projects the type twice.  Bindings and
  classes are concatenated in order, and the result is a valid API.
\<close>

theorem merge_is_faithful:
  assumes "merge_semantic_apis apis = Inr api"
  shows "exact_merge (concat (map a_declarations apis)) (a_declarations api) \<and>
         a_functions api = concat (map a_functions apis) \<and>
         a_classes api = concat (map a_classes apis) \<and> api_ok api"
proof -
  from assms obtain ds where ds: "merge_all [] (concat (map a_declarations apis)) = Inr ds"
    and api: "mk_api (concat (map a_functions apis)) (concat (map a_classes apis)) ds = Inr api"
    by (auto simp: merge_semantic_apis_def)
  have "exact_merge ([] @ concat (map a_declarations apis)) ds"
    by (rule exact_merge_all [OF ds]) (simp add: exact_merge_def type_order_def)
  with api show ?thesis by (auto simp: mk_api_def Let_def check_api_Inr)
qed

definition jvm_value :: semantic_declaration where
  "jvm_value = ValueDecl
     \<lparr>v_feature = ''f'', v_type_id = ''f:type:A'', v_name = ''A'',
      v_fields = [sample_field ''f:type:A'' ''x'' (t_scalar SInt32)],
      v_projections = [\<lparr>pr_backend = BfJvm, pr_source = \<lparr>sp_declaration = ''jvm.A'', sp_language = ''kotlin'',
         sp_path = ''A.kt'', sp_line = 1, sp_column = 1\<rparr>\<rparr>]\<rparr>"

definition merged_sample :: "semantic_error + semantic_api" where
  "merged_sample = merge_semantic_apis
     [\<lparr>a_functions = [], a_classes = [], a_declarations = [sample_value ''A'' (t_scalar SInt32)]\<rparr>,
      \<lparr>a_functions = [], a_classes = [], a_declarations = [jvm_value]\<rparr>]"

theorem merge_is_faithful_witness:
  "\<exists>api. merged_sample = Inr api \<and> length (a_declarations api) = 1 \<and>
     a_declarations api = [with_projections (decl_projections (sample_value ''A'' (t_scalar SInt32)) @ decl_projections jvm_value)
        (sample_value ''A'' (t_scalar SInt32))]"
proof -
  have "(case merged_sample of Inr api \<Rightarrow> True | Inl _ \<Rightarrow> False)" by code_simp
  then obtain api where api: "merged_sample = Inr api" by (auto split: sum.splits)
  have "map (\<lambda>i. merged_group (of_type i [sample_value ''A'' (t_scalar SInt32), jvm_value]))
      (type_order [sample_value ''A'' (t_scalar SInt32), jvm_value]) =
     [with_projections (decl_projections (sample_value ''A'' (t_scalar SInt32)) @ decl_projections jvm_value)
        (sample_value ''A'' (t_scalar SInt32))]" by code_simp
  with merge_is_faithful [OF api [unfolded merged_sample_def]] api show ?thesis by (auto simp: exact_merge_def)
qed

end
