(* ===== verification/Reachability.thy ===== *)
theory Reachability
  imports Semantic_Api "HOL-Library.Product_Lexorder"
begin

text \<open>
  The JavaScript-public type graph (\<^verbatim>\<open>reachability.py\<close>): a worklist of types over a state of five
  sets, then the checks for unreachable exported members and for colliding public names.  The locals
  of \<^verbatim>\<open>compute_public_api\<close> are the record \<open>reach_state\<close>; the deque is a list.
\<close>

section \<open>State\<close>

record reach_state =
  r_reachable :: "string set"
  r_namespaces :: "string set"
  r_instances :: "string set"
  r_values :: "string set"
  r_objects :: "string set"
  r_pending :: "sem_type list"

record public_api =
  pa_functions :: "semantic_binding list"
  pa_declarations :: "semantic_declaration list"
  pa_namespaces :: "string set"
  pa_instances :: "string set"

text \<open>The namespace a name is claimed in.\<close>

datatype claim_space = FeatureRoot | TypeNamespace string

datatype reach_error =
    ReachKeyError string
  | UnreachableValueField source_provenance string string
  | UnreachableMethod source_provenance string string
  | UnreachableObjectField source_provenance string string
  | NameCollision source_provenance string claim_space source_provenance
  | RootCollision source_provenance string source_provenance
  | GeneratedCollision source_provenance string

definition public_declaration :: "public_api \<Rightarrow> string \<Rightarrow> semantic_declaration option" where
  "public_declaration p type_id = find (\<lambda>d. decl_type_id d = type_id) (pa_declarations p)"

section \<open>Roots\<close>

definition is_public :: "semantic_binding \<Rightarrow> bool" where
  "is_public b = bc_public (b_capabilities b)"

definition queue_binding :: "sem_type list \<Rightarrow> semantic_binding \<Rightarrow> sem_type list" where
  "queue_binding pending b = pending @ map p_type (b_parameters b) @ [b_result b]"

definition public_functions_of :: "semantic_api \<Rightarrow> semantic_binding list" where
  "public_functions_of api = sort_key (\<lambda>b. (b_name b, b_id b)) (filter is_public (a_functions api))"

definition public_static_methods :: "object_declaration \<Rightarrow> semantic_binding list" where
  "public_static_methods d = filter (\<lambda>m. is_public m \<and> b_scope m = Some ScStatic) (o_methods d)"

definition public_instance_methods :: "object_declaration \<Rightarrow> semantic_binding list" where
  "public_instance_methods d = filter (\<lambda>m. is_public m \<and> b_scope m = Some ScInstance) (o_methods d)"

definition object_ref_type :: "string \<Rightarrow> sem_type" where
  "object_ref_type i = SemType KObjectRef None (Some i) None"

fun seed_declaration :: "reach_state \<Rightarrow> semantic_declaration \<Rightarrow> reach_state" where
  "seed_declaration st (ObjectDecl d) =
     (let statics = public_static_methods d;
          st1 = (if o_constructor d \<noteq> None \<or> statics \<noteq> []
                 then st\<lparr>r_namespaces := insert (o_type_id d) (r_namespaces st),
                         r_reachable := insert (o_type_id d) (r_reachable st)\<rparr> else st);
          st2 = (case o_constructor d of
                   None \<Rightarrow> st1
                 | Some k \<Rightarrow> st1\<lparr>r_instances := insert (o_type_id d) (r_instances st1),
                                r_pending := r_pending st1 @ object_ref_type (o_type_id d) #
                                             map p_type (k_parameters k)\<rparr>)
      in st2\<lparr>r_pending := foldl queue_binding (r_pending st2) statics\<rparr>)"
| "seed_declaration st _ = st"

definition initial_state :: "semantic_api \<Rightarrow> reach_state" where
  "initial_state api =
     foldl seed_declaration
       \<lparr>r_reachable = {}, r_namespaces = {}, r_instances = {}, r_values = {}, r_objects = {},
        r_pending = foldl queue_binding [] (public_functions_of api)\<rparr>
       (a_declarations api)"

section \<open>The worklist\<close>

definition expand_object :: "reach_state \<Rightarrow> string \<Rightarrow> object_declaration \<Rightarrow> reach_state" where
  "expand_object st i d =
     st\<lparr>r_objects := insert i (r_objects st),
        r_pending := foldl queue_binding (r_pending st) (public_instance_methods d) @ map f_type (o_fields d)\<rparr>"

text \<open>\<open>while True: unexpanded = sorted(object_instances - expanded_objects) ...\<close>\<close>

function expand_objects ::
    "(string \<Rightarrow> semantic_declaration option) \<Rightarrow> reach_state \<Rightarrow> reach_error + reach_state" where
  "expand_objects decls st =
     (case sorted_list_of_set (r_instances st - r_objects st) of
        [] \<Rightarrow> Inr st
      | i # _ \<Rightarrow>
          (case decls i of
             Some (ObjectDecl d) \<Rightarrow> expand_objects decls (expand_object st i d)
           | _ \<Rightarrow> Inl (ReachKeyError i)))"
  by pat_completeness auto

lemma sorted_list_of_set_ConsD:
  assumes "sorted_list_of_set A = x # xs" shows "finite A" "x \<in> A"
proof -
  show "finite A" using assms by (metis list.distinct(1) sorted_list_of_set.fold_insort_key.infinite)
  then show "x \<in> A" using assms by (metis list.set_intros(1) set_sorted_list_of_set)
qed

termination expand_objects
proof (relation "measure (\<lambda>(decls, st). card (r_instances st - r_objects st))", goal_cases)
  case 1
  then show ?case by simp
next
  case (2 decls st i xs dd d)
  note fin = sorted_list_of_set_ConsD [OF 2(1)]
  then have "r_instances st - insert i (r_objects st) \<subset> r_instances st - r_objects st" by auto
  with fin(1) have "card (r_instances st - insert i (r_objects st)) < card (r_instances st - r_objects st)"
    by (intro psubset_card_mono)
  then show ?case by (simp add: expand_object_def)
qed

declare expand_objects.simps [simp del]

definition reach_step ::
    "(string \<Rightarrow> semantic_declaration option) \<Rightarrow> sem_type \<Rightarrow> reach_state \<Rightarrow> reach_error + reach_state" where
  "reach_step decls t st =
     (if is_wrapper (st_kind t) then
        (case st_element t of
           Some e \<Rightarrow> Inr (st\<lparr>r_pending := r_pending st @ [e]\<rparr>)
         | None \<Rightarrow> Inr st)
      else case st_type_id t of
        None \<Rightarrow> Inr st
      | Some i \<Rightarrow>
          (case decls i of
             None \<Rightarrow> Inl (ReachKeyError i)
           | Some d \<Rightarrow>
               let st1 = st\<lparr>r_reachable := insert (decl_type_id d) (r_reachable st)\<rparr> in
               (case d of
                  ValueDecl v \<Rightarrow>
                    if v_type_id v \<in> r_values st1 then Inr st1
                    else expand_objects decls
                      (st1\<lparr>r_values := insert (v_type_id v) (r_values st1),
                           r_pending := r_pending st1 @ map f_type (v_fields v)\<rparr>)
                | ObjectDecl ob \<Rightarrow>
                    expand_objects decls (st1\<lparr>r_instances := insert (o_type_id ob) (r_instances st1)\<rparr>)
                | EnumDecl _ \<Rightarrow> expand_objects decls st1)))"

text \<open>
  The measure of the loop: unexpanded declarations first, then the size of the worklist.  The object
  loop only ever expands.
\<close>

definition unexpanded :: "string set \<Rightarrow> reach_state \<Rightarrow> nat" where
  "unexpanded ids st = card (ids - r_values st) + card (ids - r_objects st)"

definition pending_size :: "reach_state \<Rightarrow> nat" where
  "pending_size st = (\<Sum>t\<leftarrow>r_pending st. size t)"

lemma expand_objects_measure:
  "expand_objects (declaration_map api) st = Inr st' \<Longrightarrow>
     st' = st \<or> unexpanded (declared_ids api) st' < unexpanded (declared_ids api) st"
proof (induction "declaration_map api" st rule: expand_objects.induct)
  case (1 st)
  show ?case
  proof (cases "sorted_list_of_set (r_instances st - r_objects st)")
    case Nil
    with "1.prems" show ?thesis by (simp add: expand_objects.simps [of _ st])
  next
    case (Cons i xs)
    with "1.prems" obtain d where d: "declaration_map api i = Some (ObjectDecl d)"
      "expand_objects (declaration_map api) (expand_object st i d) = Inr st'"
      by (auto simp: expand_objects.simps [of _ st] split: option.splits semantic_declaration.splits)
    have "i \<in> declared_ids api" using d(1) by (rule declared_idI)
    moreover have "i \<notin> r_objects st" using sorted_list_of_set_ConsD [OF Cons] by auto
    ultimately have "unexpanded (declared_ids api) (expand_object st i d) < unexpanded (declared_ids api) st"
      using card_insert_less [of "declared_ids api" i "r_objects st"]
      by (simp add: unexpanded_def expand_object_def)
    with "1.hyps" [OF Cons d(1) refl d(2)] show ?thesis by auto
  qed
qed

lemma reach_step_measure:
  assumes "reach_step (declaration_map api) t st = Inr st'"
  shows "unexpanded (declared_ids api) st' < unexpanded (declared_ids api) st \<or>
     unexpanded (declared_ids api) st' = unexpanded (declared_ids api) st \<and>
     pending_size st' < pending_size st + size t"
proof -
  have pos: "0 < size t" by (cases t) simp
  show ?thesis
  proof (cases "is_wrapper (st_kind t)")
    case True
    with assms pos show ?thesis
      by (cases t) (auto simp: reach_step_def unexpanded_def pending_size_def split: option.splits)
  next
    case nw: False
    show ?thesis
    proof (cases "st_type_id t")
      case None
      with nw assms pos show ?thesis by (simp add: reach_step_def)
    next
      case (Some i)
      with nw assms obtain d where d: "declaration_map api i = Some d"
        by (auto simp: reach_step_def split: option.splits)
      note facts = nw Some d assms
      note di = declaration_map_in [OF d]
      show ?thesis
      proof (cases d)
        case (EnumDecl e)
        with facts expand_objects_measure pos show ?thesis
          by (fastforce simp: reach_step_def unexpanded_def pending_size_def)
      next
        case (ObjectDecl ob)
        with facts expand_objects_measure pos show ?thesis
          by (fastforce simp: reach_step_def Let_def unexpanded_def pending_size_def)
      next
        case (ValueDecl v)
        show ?thesis
        proof (cases "v_type_id v \<in> r_values st")
          case True
          with facts ValueDecl pos show ?thesis
            by (auto simp: reach_step_def Let_def unexpanded_def pending_size_def)
        next
          case False
          let ?s = "st\<lparr>r_reachable := insert (v_type_id v) (r_reachable st),
                       r_values := insert (v_type_id v) (r_values st),
                       r_pending := r_pending st @ map f_type (v_fields v)\<rparr>"
          from facts ValueDecl False have "expand_objects (declaration_map api) ?s = Inr st'"
            by (simp add: reach_step_def Let_def)
          moreover have "unexpanded (declared_ids api) ?s < unexpanded (declared_ids api) st"
            using card_insert_less [of "declared_ids api" "v_type_id v" "r_values st"] False di(2) ValueDecl
              declared_idI [OF d]
            by (simp add: unexpanded_def)
          ultimately show ?thesis using expand_objects_measure by fastforce
        qed
      qed
    qed
  qed
qed

function reach_loop :: "semantic_api \<Rightarrow> reach_state \<Rightarrow> reach_error + reach_state" where
  "reach_loop api st =
     (case r_pending st of
        [] \<Rightarrow> Inr st
      | t # rest \<Rightarrow>
          ebind (reach_step (declaration_map api) t (st\<lparr>r_pending := rest\<rparr>)) (\<lambda>st'. reach_loop api st'))"
  by pat_completeness auto
termination
proof (relation "measures [\<lambda>(api, st). unexpanded (declared_ids api) st, \<lambda>(api, st). pending_size st]",
    goal_cases)
  case 1
  then show ?case by simp
next
  case (2 api st t rest st')
  from reach_step_measure [OF 2(2)] 2(1) show ?case
    by (auto simp: unexpanded_def pending_size_def)
qed

declare reach_loop.simps [simp del]

section \<open>Unreachable members\<close>

fun reject_unreachable :: "string set \<Rightarrow> string set \<Rightarrow> semantic_declaration \<Rightarrow> reach_error + unit" where
  "reject_unreachable reachable instances (ValueDecl d) =
     (case v_fields d of
        f # _ \<Rightarrow> raise_if (v_type_id d \<notin> reachable) (UnreachableValueField (f_source f) (v_name d) (f_name f))
      | [] \<Rightarrow> Inr ())"
| "reject_unreachable reachable instances (ObjectDecl d) =
     (if o_type_id d \<in> instances then Inr ()
      else case public_instance_methods d of
        m # _ \<Rightarrow> Inl (UnreachableMethod (b_source m) (o_name d) (b_name m))
      | [] \<Rightarrow>
          (case o_fields d of
             f # _ \<Rightarrow> Inl (UnreachableObjectField (f_source f) (o_name d) (f_name f))
           | [] \<Rightarrow> Inr ()))"
| "reject_unreachable reachable instances (EnumDecl d) = Inr ()"

section \<open>Public names\<close>

type_synonym claims = "(string \<times> source_provenance) list"

definition declaration_location :: "semantic_declaration \<Rightarrow> source_provenance" where
  "declaration_location d = pr_source (hd (decl_projections d))"

definition claim_name :: "claims \<Rightarrow> string \<Rightarrow> source_provenance \<Rightarrow> claim_space \<Rightarrow> reach_error + claims" where
  "claim_name claims name location space =
     (case map_of claims name of
        Some previous \<Rightarrow> Inl (NameCollision location name space previous)
      | None \<Rightarrow> Inr ((name, location) # claims))"

fun claim_all :: "claim_space \<Rightarrow> claims \<Rightarrow> (string \<times> source_provenance) list \<Rightarrow> reach_error + claims" where
  "claim_all space cs [] = Inr cs"
| "claim_all space cs ((name, location) # rest) =
     ebind (claim_name cs name location space) (\<lambda>cs'. claim_all space cs' rest)"

definition generated_type_names :: "string option \<Rightarrow> string list" where
  "generated_type_names feature_name =
     [''SupernoteError'', ''SupernoteErrorCode'', ''SupernoteValidationReason'',
      ''SupernoteValidationDetails'', ''SupernoteTypeError'', ''SupernoteRangeError'',
      ''SupernoteValidationResult'', ''SupernoteCallable'', ''SupernoteTypeCompanion'',
      ''SupernoteFeatureStatus'', ''SupernoteNativeObjectInfo''] @
     (case feature_name of None \<Rightarrow> [] | Some n \<Rightarrow> [n @ ''Feature''])"

text \<open>The loop over reachable declarations; \<open>generated\<close> grows with each name.\<close>

fun claim_types ::
    "claims \<Rightarrow> string list \<Rightarrow> semantic_declaration list \<Rightarrow> reach_error + unit" where
  "claim_types functions generated [] = Inr ()"
| "claim_types functions generated (d # ds) =
     (case map_of functions (decl_name d) of
        Some root \<Rightarrow> Inl (RootCollision (declaration_location d) (decl_name d) root)
      | None \<Rightarrow>
          if decl_name d \<in> set generated then Inl (GeneratedCollision (declaration_location d) (decl_name d))
          else claim_types functions (decl_name d # generated) ds)"

text \<open>The names of one object's type namespace, in the order they are claimed.\<close>

definition namespace_names :: "object_declaration \<Rightarrow> (string \<times> source_provenance) list" where
  "namespace_names d =
     [(''is'', declaration_location (ObjectDecl d)), (''check'', declaration_location (ObjectDecl d))] @
     (case o_constructor d of None \<Rightarrow> [] | Some k \<Rightarrow> [(''create'', k_source k)]) @
     map (\<lambda>m. (b_name m, b_source m)) (public_static_methods d)"

definition claim_namespace :: "public_api \<Rightarrow> string \<Rightarrow> reach_error + unit" where
  "claim_namespace p type_id =
     (case map_of (rev (map (\<lambda>d. (decl_type_id d, d)) (pa_declarations p))) type_id of
        Some (ObjectDecl d) \<Rightarrow>
          ebind (claim_all (TypeNamespace (o_name d)) [] (namespace_names d)) (\<lambda>_. Inr ())
      | _ \<Rightarrow> Inl (ReachKeyError type_id))"

definition feature_root_names :: "public_api \<Rightarrow> (string \<times> source_provenance) list" where
  "feature_root_names p =
     map (\<lambda>b. (b_name b, b_source b)) (pa_functions p) @
     map (\<lambda>d. (decl_name d, declaration_location d)) (pa_declarations p)"

definition validate_public_names :: "public_api \<Rightarrow> string option \<Rightarrow> reach_error + unit" where
  "validate_public_names p feature_name =
     ebind (claim_all FeatureRoot [] (feature_root_names p)) (\<lambda>_.
     ebind (claim_types (rev (map (\<lambda>b. (b_name b, b_source b)) (pa_functions p)))
              (generated_type_names feature_name) (pa_declarations p)) (\<lambda>_.
     echeck (claim_namespace p) (sorted_list_of_set (pa_namespaces p))))"

section \<open>The public API\<close>

definition compute_public_api :: "semantic_api \<Rightarrow> string option \<Rightarrow> reach_error + public_api" where
  "compute_public_api api feature_name =
     ebind (reach_loop api (initial_state api)) (\<lambda>st.
     ebind (echeck (reject_unreachable (r_reachable st) (r_instances st)) (a_declarations api)) (\<lambda>_.
     let public = \<lparr>pa_functions = public_functions_of api,
                   pa_declarations = sort_key (\<lambda>d. (decl_name d, decl_type_id d))
                     (filter (\<lambda>d. decl_type_id d \<in> r_reachable st) (a_declarations api)),
                   pa_namespaces = r_namespaces st, pa_instances = r_instances st\<rparr>
     in ebind (validate_public_names public feature_name) (\<lambda>_. Inr public)))"

end
