(* ===== verification/Reachability_Props.thy ===== *)
theory Reachability_Props
  imports Reachability Semantic_Api_Props
begin

text \<open>
  The worklist computes the least set of types closed under the rules of publication.
  \<open>public_type\<close> states those rules; \<open>sound\<close> and \<open>complete\<close> are the two invariants of the loop.
\<close>

section \<open>The rules of publication\<close>

text \<open>The declaration a type node names.\<close>

definition names :: "semantic_api \<Rightarrow> sem_type \<Rightarrow> semantic_declaration \<Rightarrow> bool" where
  "names api t d \<longleftrightarrow> \<not> is_wrapper (st_kind t) \<and>
     (\<exists>i. st_type_id t = Some i \<and> declaration_map api i = Some d)"

text \<open>The types that become public with an instance of an object.\<close>

definition instance_types :: "object_declaration \<Rightarrow> sem_type list" where
  "instance_types d = concat (map binding_types (public_instance_methods d)) @ map f_type (o_fields d)"

definition root_types :: "semantic_declaration \<Rightarrow> sem_type list" where
  "root_types d = (case d of
      ObjectDecl ob \<Rightarrow>
        (case o_constructor ob of None \<Rightarrow> [] | Some k \<Rightarrow> object_ref_type (o_type_id ob) # constructor_types k) @
        concat (map binding_types (public_static_methods ob))
    | _ \<Rightarrow> [])"

inductive public_type :: "semantic_api \<Rightarrow> sem_type \<Rightarrow> bool" for api where
  pt_function: "b \<in> set (a_functions api) \<Longrightarrow> is_public b \<Longrightarrow> t \<in> set (binding_types b) \<Longrightarrow> public_type api t"
| pt_root: "d \<in> set (a_declarations api) \<Longrightarrow> t \<in> set (root_types d) \<Longrightarrow> public_type api t"
| pt_element: "public_type api (SemType k s i (Some e)) \<Longrightarrow> is_wrapper k \<Longrightarrow> public_type api e"
| pt_value: "public_type api t \<Longrightarrow> names api t (ValueDecl v) \<Longrightarrow> f \<in> set (v_fields v) \<Longrightarrow>
     public_type api (f_type f)"
| pt_object: "public_type api t \<Longrightarrow> names api t (ObjectDecl d) \<Longrightarrow> u \<in> set (instance_types d) \<Longrightarrow>
     public_type api u"

definition named_ids :: "semantic_api \<Rightarrow> string set" where
  "named_ids api = {decl_type_id d | t d. public_type api t \<and> names api t d}"

definition instance_ids :: "semantic_api \<Rightarrow> string set" where
  "instance_ids api = {o_type_id d | t d. public_type api t \<and> names api t (ObjectDecl d)}"

definition namespace_ids :: "semantic_api \<Rightarrow> string set" where
  "namespace_ids api = {o_type_id d | d. ObjectDecl d \<in> set (a_declarations api) \<and>
     (o_constructor d \<noteq> None \<or> public_static_methods d \<noteq> [])}"

section \<open>The initial state\<close>

lemma queue_binding_set: "set (queue_binding p b) = set p \<union> set (binding_types b)"
  by (auto simp: queue_binding_def binding_types_def)

lemma queue_bindings_set:
  "set (foldl queue_binding p bs) = set p \<union> set (concat (map binding_types bs))"
  by (induction bs arbitrary: p) (auto simp: queue_binding_set)

definition constructed_ids :: "semantic_declaration \<Rightarrow> string set" where
  "constructed_ids d = (case d of
      ObjectDecl ob \<Rightarrow> if o_constructor ob \<noteq> None then {o_type_id ob} else {} | _ \<Rightarrow> {})"

lemma in_constructed_ids:
  "i \<in> constructed_ids d \<longleftrightarrow>
     (\<exists>ob k. d = ObjectDecl ob \<and> o_constructor ob = Some k \<and> i = o_type_id ob)"
  by (cases d) (auto simp: constructed_ids_def)

definition own_namespace :: "semantic_declaration \<Rightarrow> string set" where
  "own_namespace d = (case d of
      ObjectDecl ob \<Rightarrow> if o_constructor ob \<noteq> None \<or> public_static_methods ob \<noteq> [] then {o_type_id ob} else {}
    | _ \<Rightarrow> {})"

lemma seed_declaration_spec:
  "set (r_pending (seed_declaration st d)) = set (r_pending st) \<union> set (root_types d)"
  "r_reachable (seed_declaration st d) = r_reachable st \<union> own_namespace d"
  "r_namespaces (seed_declaration st d) = r_namespaces st \<union> own_namespace d"
  "r_instances (seed_declaration st d) = r_instances st \<union> constructed_ids d"
  "r_values (seed_declaration st d) = r_values st"
  "r_objects (seed_declaration st d) = r_objects st"
  by (cases d; cases "\<exists>k ob. d = ObjectDecl ob \<and> o_constructor ob = Some k";
      auto simp: Let_def root_types_def own_namespace_def constructed_ids_def queue_bindings_set
        constructor_types_def split: option.splits)+

lemma seed_all:
  "set (r_pending (foldl seed_declaration st ds)) = set (r_pending st) \<union> (\<Union>d \<in> set ds. set (root_types d))"
  "r_reachable (foldl seed_declaration st ds) = r_reachable st \<union> (\<Union>d \<in> set ds. own_namespace d)"
  "r_namespaces (foldl seed_declaration st ds) = r_namespaces st \<union> (\<Union>d \<in> set ds. own_namespace d)"
  "r_instances (foldl seed_declaration st ds) = r_instances st \<union> (\<Union>d \<in> set ds. constructed_ids d)"
  "r_values (foldl seed_declaration st ds) = r_values st"
  "r_objects (foldl seed_declaration st ds) = r_objects st"
  by (induction ds arbitrary: st) (auto simp: seed_declaration_spec)

lemma namespace_ids_own: "namespace_ids api = (\<Union>d \<in> set (a_declarations api). own_namespace d)"
  by (force simp: namespace_ids_def own_namespace_def split: semantic_declaration.splits if_splits)

lemma initial_state_spec:
  "set (r_pending (initial_state api)) =
     (\<Union>b \<in> {b \<in> set (a_functions api). is_public b}. set (binding_types b)) \<union>
     (\<Union>d \<in> set (a_declarations api). set (root_types d))"
  "r_reachable (initial_state api) = namespace_ids api"
  "r_namespaces (initial_state api) = namespace_ids api"
  "r_instances (initial_state api) = (\<Union>d \<in> set (a_declarations api). constructed_ids d)"
  "r_values (initial_state api) = {}" "r_objects (initial_state api) = {}"
  by (auto simp: initial_state_def seed_all queue_bindings_set public_functions_of_def namespace_ids_own)

section \<open>The object loop\<close>

lemma expand_object_fields:
  "set (r_pending (expand_object st i d)) = set (r_pending st) \<union> set (instance_types d)"
  by (auto simp: expand_object_def queue_bindings_set instance_types_def)

lemma expand_objects_spec:
  "expand_objects decls st = Inr st' \<Longrightarrow> finite (r_instances st) \<Longrightarrow>
     r_reachable st' = r_reachable st \<and> r_namespaces st' = r_namespaces st \<and>
     r_instances st' = r_instances st \<and> r_values st' = r_values st \<and>
     r_objects st' = r_objects st \<union> r_instances st \<and>
     (\<forall>i \<in> r_instances st - r_objects st. \<exists>d. decls i = Some (ObjectDecl d)) \<and>
     (\<forall>t. t \<in> set (r_pending st') \<longleftrightarrow> t \<in> set (r_pending st) \<or>
       (\<exists>i d. i \<in> r_instances st - r_objects st \<and> decls i = Some (ObjectDecl d) \<and> t \<in> set (instance_types d)))"
proof (induction decls st rule: expand_objects.induct)
  case (1 decls st)
  show ?case
  proof (cases "sorted_list_of_set (r_instances st - r_objects st)")
    case Nil
    with "1.prems"(2) have "r_instances st - r_objects st = {}" by simp
    moreover have "st' = st" using Nil "1.prems"(1) by (simp add: expand_objects.simps [of decls st])
    ultimately show ?thesis by auto
  next
    case (Cons i xs)
    with "1.prems" obtain d where d: "decls i = Some (ObjectDecl d)"
      "expand_objects decls (expand_object st i d) = Inr st'"
      by (auto simp: expand_objects.simps [of decls st] split: option.splits semantic_declaration.splits)
    have i: "i \<in> r_instances st" "i \<notin> r_objects st" using sorted_list_of_set_ConsD [OF Cons] by auto
    have same: "r_reachable (expand_object st i d) = r_reachable st"
      "r_namespaces (expand_object st i d) = r_namespaces st"
      "r_instances (expand_object st i d) = r_instances st" "r_values (expand_object st i d) = r_values st"
      "r_objects (expand_object st i d) = insert i (r_objects st)"
      by (simp_all add: expand_object_def)
    note ih = "1.IH" [OF Cons d(1) refl d(2), unfolded same expand_object_fields Un_iff, rule_format, OF "1.prems"(2)]
    have "j = i \<or> j \<in> r_instances st - insert i (r_objects st)" if "j \<in> r_instances st - r_objects st" for j
      using that by blast
    moreover have "r_instances st - insert i (r_objects st) \<subseteq> r_instances st - r_objects st" by blast
    ultimately have split: "(\<exists>j e. j \<in> r_instances st - r_objects st \<and> decls j = Some (ObjectDecl e) \<and> Q e) \<longleftrightarrow>
        Q d \<or> (\<exists>j e. j \<in> r_instances st - insert i (r_objects st) \<and> decls j = Some (ObjectDecl e) \<and> Q e)" for Q
      using d(1) i by (metis DiffI option.inject semantic_declaration.inject(3) subsetD)
    have "\<exists>e. decls j = Some (ObjectDecl e)" if "j \<in> r_instances st - r_objects st" for j
      using that ih d(1) by (cases "j = i") auto
    with ih i show ?thesis unfolding split by auto
  qed
qed

section \<open>Soundness of the worklist\<close>

definition sound :: "semantic_api \<Rightarrow> reach_state \<Rightarrow> bool" where
  "sound api st \<longleftrightarrow>
     (\<forall>t \<in> set (r_pending st). public_type api t) \<and> r_instances st \<subseteq> instance_ids api \<and>
     finite (r_instances st) \<and> r_reachable st \<subseteq> named_ids api \<union> namespace_ids api \<and>
     r_namespaces st = namespace_ids api"

lemma names_id: "names api t d \<Longrightarrow> st_type_id t = Some (decl_type_id d) \<and> declaration_map api (decl_type_id d) = Some d"
  using declaration_map_in by (fastforce simp: names_def)

lemma instance_public:
  assumes "i \<in> instance_ids api" "declaration_map api i = Some (ObjectDecl d)" "u \<in> set (instance_types d)"
  shows "public_type api u"
proof -
  from assms(1) obtain t d0 where t: "public_type api t" "names api t (ObjectDecl d0)" "i = o_type_id d0"
    by (auto simp: instance_ids_def)
  with names_id [OF t(2)] assms(2) have "d0 = d" by simp
  with t assms(3) show ?thesis using pt_object by blast
qed

lemma sound_initial:
  assumes "distinct (map decl_type_id (a_declarations api))" shows "sound api (initial_state api)"
proof -
  have "public_type api t" if "t \<in> set (r_pending (initial_state api))" for t
    using that by (auto simp: initial_state_spec intro: pt_function pt_root)
  moreover have "i \<in> instance_ids api" if "i \<in> r_instances (initial_state api)" for i
  proof -
    from that obtain ob k where ob: "ObjectDecl ob \<in> set (a_declarations api)" "o_constructor ob = Some k"
      "i = o_type_id ob"
      by (auto simp: initial_state_spec in_constructed_ids)
    then have "public_type api (object_ref_type i)"
      by (intro pt_root [of "ObjectDecl ob"]) (simp_all add: root_types_def)
    moreover have "names api (object_ref_type i) (ObjectDecl ob)"
      using ob declaration_map_Some [OF assms] by (simp add: names_def object_ref_type_def is_wrapper_def)
    ultimately show ?thesis using ob by (auto simp: instance_ids_def)
  qed
  moreover have "finite (r_instances (initial_state api))"
    by (auto simp: initial_state_spec constructed_ids_def split: semantic_declaration.splits)
  ultimately show ?thesis unfolding sound_def initial_state_spec(2,3) by blast
qed

lemma sound_expand:
  assumes "expand_objects (declaration_map api) st = Inr st'" "sound api st"
  shows "sound api st'"
proof -
  have "finite (r_instances st)" using assms(2) by (simp add: sound_def)
  note spec = expand_objects_spec [OF assms(1) this]
  have "public_type api u" if "i \<in> r_instances st" "declaration_map api i = Some (ObjectDecl d)"
    "u \<in> set (instance_types d)" for i d u
    using that assms(2) by (intro instance_public [of i]) (auto simp: sound_def)
  then have "public_type api x" if "x \<in> set (r_pending st')" for x
    using spec that assms(2) unfolding sound_def by blast
  with spec assms(2) show ?thesis by (simp add: sound_def)
qed

lemma sound_step:
  assumes step: "reach_step (declaration_map api) t st = Inr st'"
    and t: "public_type api t" and snd: "sound api st"
  shows "sound api st'"
proof (cases "is_wrapper (st_kind t)")
  case True
  with assms pt_element show ?thesis
    by (cases t) (auto simp: reach_step_def sound_def split: option.splits)
next
  case nw: False
  show ?thesis
  proof (cases "st_type_id t")
    case None
    with nw step snd show ?thesis by (simp add: reach_step_def)
  next
    case (Some i)
    with nw step obtain d where d: "declaration_map api i = Some d"
      by (auto simp: reach_step_def split: option.splits)
    have n: "names api t d" using nw Some d by (simp add: names_def)
    have reach: "decl_type_id d \<in> named_ids api" using n t by (auto simp: named_ids_def)
    define st1 where "st1 = st\<lparr>r_reachable := insert (decl_type_id d) (r_reachable st)\<rparr>"
    have snd1: "sound api st1" using snd reach by (auto simp: sound_def st1_def)
    show ?thesis
    proof (cases d)
      case (EnumDecl e)
      with nw Some d step have "expand_objects (declaration_map api) st1 = Inr st'"
        by (simp add: reach_step_def st1_def)
      then show ?thesis using snd1 by (rule sound_expand)
    next
      case (ObjectDecl ob)
      with nw Some d step have
        "expand_objects (declaration_map api) (st1\<lparr>r_instances := insert (o_type_id ob) (r_instances st1)\<rparr>) = Inr st'"
        by (simp add: reach_step_def st1_def)
      moreover have "o_type_id ob \<in> instance_ids api" using n t ObjectDecl by (auto simp: instance_ids_def)
      then have "sound api (st1\<lparr>r_instances := insert (o_type_id ob) (r_instances st1)\<rparr>)"
        using snd1 by (simp add: sound_def)
      ultimately show ?thesis by (rule sound_expand)
    next
      case (ValueDecl v)
      have pub: "\<forall>f \<in> set (v_fields v). public_type api (f_type f)" using n t ValueDecl pt_value by blast
      show ?thesis
      proof (cases "v_type_id v \<in> r_values st")
        case True
        with ValueDecl nw Some d step have "st' = st1" by (simp add: reach_step_def st1_def Let_def)
        with snd1 show ?thesis by simp
      next
        case False
        with ValueDecl nw Some d step have "expand_objects (declaration_map api)
            (st1\<lparr>r_values := insert (v_type_id v) (r_values st1),
                 r_pending := r_pending st1 @ map f_type (v_fields v)\<rparr>) = Inr st'"
          by (simp add: reach_step_def st1_def Let_def)
        moreover have "sound api (st1\<lparr>r_values := insert (v_type_id v) (r_values st1),
                 r_pending := r_pending st1 @ map f_type (v_fields v)\<rparr>)"
          using snd1 pub by (auto simp: sound_def)
        ultimately show ?thesis by (rule sound_expand)
      qed
    qed
  qed
qed

lemma sound_loop: "reach_loop api st = Inr st' \<Longrightarrow> sound api st \<Longrightarrow> sound api st'"
proof (induction api st rule: reach_loop.induct)
  case (1 api st)
  show ?case
  proof (cases "r_pending st")
    case Nil
    with "1.prems" show ?thesis by (simp add: reach_loop.simps [of api st])
  next
    case (Cons t rest)
    with "1.prems"(1) obtain st1 where st1: "reach_step (declaration_map api) t (st\<lparr>r_pending := rest\<rparr>) = Inr st1"
      "reach_loop api st1 = Inr st'"
      by (auto simp: reach_loop.simps [of api st])
    moreover have "sound api st1"
      using st1(1) by (rule sound_step) (use "1.prems"(2) Cons in \<open>auto simp: sound_def\<close>)
    ultimately show ?thesis using "1.IH" [OF Cons] by blast
  qed
qed

section \<open>Completeness of the worklist\<close>

text \<open>A type has been dealt with when it is waiting, or everything it names is recorded.\<close>

fun seen :: "semantic_api \<Rightarrow> reach_state \<Rightarrow> sem_type \<Rightarrow> bool" where
  "seen api st (SemType k s i e) =
     (if is_wrapper k then (case e of Some x \<Rightarrow> x \<in> set (r_pending st) \<or> seen api st x | None \<Rightarrow> True)
      else case i of
        None \<Rightarrow> True
      | Some j \<Rightarrow>
          (case declaration_map api j of
             None \<Rightarrow> False
           | Some d \<Rightarrow> decl_type_id d \<in> r_reachable st \<and>
               (case d of ValueDecl v \<Rightarrow> v_type_id v \<in> r_values st
                | ObjectDecl ob \<Rightarrow> o_type_id ob \<in> r_instances st | _ \<Rightarrow> True)))"

definition covered :: "semantic_api \<Rightarrow> reach_state \<Rightarrow> sem_type \<Rightarrow> bool" where
  "covered api st t \<longleftrightarrow> t \<in> set (r_pending st) \<or> seen api st t"

definition advances :: "semantic_api \<Rightarrow> reach_state \<Rightarrow> reach_state \<Rightarrow> bool" where
  "advances api st st' \<longleftrightarrow> r_reachable st \<subseteq> r_reachable st' \<and> r_values st \<subseteq> r_values st' \<and>
     r_instances st \<subseteq> r_instances st' \<and> (\<forall>t \<in> set (r_pending st). covered api st' t)"

lemma covered_advances:
  assumes "advances api st st'" "covered api st t" shows "covered api st' t"
proof -
  have "seen api st t \<Longrightarrow> advances api st st' \<Longrightarrow> seen api st' t" for t
  proof (induction api st t rule: seen.induct)
    case (1 api st k s i e)
    then show ?case
      by (cases e) (auto simp: advances_def covered_def subset_iff
          split: if_splits option.splits semantic_declaration.splits)
  qed
  with assms show ?thesis by (auto simp: covered_def advances_def)
qed

text \<open>What the loop still owes: every consequence of what is recorded is covered.\<close>

definition complete :: "semantic_api \<Rightarrow> reach_state \<Rightarrow> bool" where
  "complete api st \<longleftrightarrow>
     (\<forall>b \<in> set (a_functions api). is_public b \<longrightarrow> (\<forall>t \<in> set (binding_types b). covered api st t)) \<and>
     (\<forall>d \<in> set (a_declarations api). \<forall>t \<in> set (root_types d). covered api st t) \<and>
     (\<forall>i v. declaration_map api i = Some (ValueDecl v) \<longrightarrow> i \<in> r_values st \<longrightarrow>
        (\<forall>f \<in> set (v_fields v). covered api st (f_type f))) \<and>
     (\<forall>i d. declaration_map api i = Some (ObjectDecl d) \<longrightarrow> i \<in> r_objects st \<longrightarrow>
        (\<forall>t \<in> set (instance_types d). covered api st t)) \<and>
     (\<forall>i \<in> r_instances st - r_objects st. object_ref_type i \<in> set (r_pending st))"

lemma complete_step:
  assumes c: "complete api st" and adv: "advances api st st'"
    and vals: "\<And>i v f. declaration_map api i = Some (ValueDecl v) \<Longrightarrow> i \<in> r_values st' - r_values st \<Longrightarrow>
       f \<in> set (v_fields v) \<Longrightarrow> covered api st' (f_type f)"
    and objects: "\<And>i d t. declaration_map api i = Some (ObjectDecl d) \<Longrightarrow> i \<in> r_objects st' - r_objects st \<Longrightarrow>
       t \<in> set (instance_types d) \<Longrightarrow> covered api st' t"
    and instances: "\<And>i. i \<in> r_instances st' - r_objects st' \<Longrightarrow> object_ref_type i \<in> set (r_pending st')"
  shows "complete api st'"
  unfolding complete_def
proof (intro conjI allI ballI impI)
  note cov = covered_advances [OF adv]
  show "covered api st' t" if "b \<in> set (a_functions api)" "is_public b" "t \<in> set (binding_types b)" for b t
    using c that cov unfolding complete_def by blast
  show "covered api st' t" if "d \<in> set (a_declarations api)" "t \<in> set (root_types d)" for d t
    using c that cov unfolding complete_def by blast
  show "covered api st' (f_type f)" if "declaration_map api i = Some (ValueDecl v)" "i \<in> r_values st'"
    "f \<in> set (v_fields v)" for i v f
    using c that cov vals [OF that(1) _ that(3)] unfolding complete_def by blast
  show "covered api st' t" if "declaration_map api i = Some (ObjectDecl d)" "i \<in> r_objects st'"
    "t \<in> set (instance_types d)" for i d t
    using c that cov objects [OF that(1) _ that(3)] unfolding complete_def by blast
  show "object_ref_type i \<in> set (r_pending st')" if "i \<in> r_instances st' - r_objects st'" for i
    using that by (rule instances)
qed

lemma complete_initial: "complete api (initial_state api)"
proof -
  have "object_ref_type i \<in> set (r_pending (initial_state api))" if "i \<in> r_instances (initial_state api)" for i
  proof -
    from that obtain ob k where "ObjectDecl ob \<in> set (a_declarations api)" "o_constructor ob = Some k"
      "i = o_type_id ob"
      by (auto simp: initial_state_spec in_constructed_ids)
    then show ?thesis unfolding initial_state_spec
      by (intro UnI2 UN_I [of "ObjectDecl ob"]) (simp_all add: root_types_def)
  qed
  then show ?thesis
    unfolding complete_def covered_def initial_state_spec by auto
qed

text \<open>After the object loop nothing is owed for instances; the loop runs on every declared name.\<close>

lemma expand_complete:
  assumes e: "expand_objects (declaration_map api) mid = Inr st'" and fin: "finite (r_instances mid)"
    and c: "complete api st"
    and mid: "r_reachable st \<subseteq> r_reachable mid" "r_values st \<subseteq> r_values mid" "r_instances st \<subseteq> r_instances mid"
      "r_objects mid = r_objects st" "set (r_pending st) \<subseteq> insert t (set (r_pending mid))"
    and vals: "\<And>i v f. declaration_map api i = Some (ValueDecl v) \<Longrightarrow> i \<in> r_values mid - r_values st \<Longrightarrow>
       f \<in> set (v_fields v) \<Longrightarrow> f_type f \<in> set (r_pending mid)"
    and t: "seen api st' t"
  shows "complete api st'"
proof (rule complete_step [OF c])
  note spec = expand_objects_spec [OF e fin]
  show "advances api st st'" using spec mid t by (auto simp: advances_def covered_def)
  show "covered api st' (f_type f)" if "declaration_map api i = Some (ValueDecl v)"
    "i \<in> r_values st' - r_values st" "f \<in> set (v_fields v)" for i v f
    using spec vals that by (auto simp: covered_def)
  show "covered api st' u" if "declaration_map api i = Some (ObjectDecl d)"
    "i \<in> r_objects st' - r_objects st" "u \<in> set (instance_types d)" for i d u
    using spec that mid(4) unfolding covered_def by blast
  show "object_ref_type i \<in> set (r_pending st')" if "i \<in> r_instances st' - r_objects st'" for i
    using spec that by blast
qed

text \<open>The two ways a step keeps the books: it only re-queues, or it ends in the object loop.\<close>

lemma complete_skip:
  assumes c: "complete api st" and st: "r_pending st = t # rest" and s: "seen api st' t"
    and same: "r_reachable st \<subseteq> r_reachable st'" "r_values st' = r_values st" "r_instances st' = r_instances st"
      "r_objects st' = r_objects st" "set rest \<subseteq> set (r_pending st')"
    and owed: "\<And>i. i \<in> r_instances st - r_objects st \<Longrightarrow> t \<noteq> object_ref_type i"
  shows "complete api st'"
proof (rule complete_step [OF c])
  show "advances api st st'" using st s same by (auto simp: advances_def covered_def)
  show "object_ref_type i \<in> set (r_pending st')" if "i \<in> r_instances st' - r_objects st'" for i
    using that owed [of i] c st same unfolding complete_def by auto
qed (use same in auto)

lemma instance_is_object:
  assumes "sound api st" "i \<in> r_instances st" shows "\<exists>ob. declaration_map api i = Some (ObjectDecl ob)"
  using assms names_id by (fastforce simp: sound_def instance_ids_def)

lemma complete_reach_step:
  assumes step: "reach_step (declaration_map api) t (st\<lparr>r_pending := rest\<rparr>) = Inr st'"
    and st: "r_pending st = t # rest" and c: "complete api st" and snd: "sound api st"
  shows "complete api st'"
proof (cases "is_wrapper (st_kind t)")
  case True
  with step have "seen api st' t" "r_reachable st' = r_reachable st" "r_values st' = r_values st"
    "r_instances st' = r_instances st" "r_objects st' = r_objects st" "set rest \<subseteq> set (r_pending st')"
    by (cases t; auto simp: reach_step_def split: option.splits)+
  moreover have "t \<noteq> object_ref_type i" for i using True by (auto simp: object_ref_type_def is_wrapper_def)
  ultimately show ?thesis by (intro complete_skip [OF c st]) auto
next
  case nw: False
  show ?thesis
  proof (cases "st_type_id t")
    case None
    with nw step have "st' = st\<lparr>r_pending := rest\<rparr>" by (simp add: reach_step_def)
    with nw None show ?thesis
      by (intro complete_skip [OF c st]) (cases t; auto simp: object_ref_type_def)+
  next
    case (Some i)
    with nw step obtain d where d: "declaration_map api i = Some d"
      by (auto simp: reach_step_def split: option.splits)
    have di: "decl_type_id d = i" using declaration_map_in [OF d] by simp
    have fin: "finite (r_instances st)" using snd by (simp add: sound_def)
    have t: "t = SemType (st_kind t) (st_scalar t) (Some i) (st_element t)" using Some by (cases t) simp
    define st1 where "st1 = st\<lparr>r_pending := rest, r_reachable := insert (decl_type_id d) (r_reachable st)\<rparr>"
    show ?thesis
    proof (cases d)
      case (EnumDecl e)
      with nw Some d step have x: "expand_objects (declaration_map api) st1 = Inr st'"
        by (simp add: reach_step_def st1_def)
      have "seen api st' t" using expand_objects_spec [OF x] fin nw d EnumDecl
        by (subst t) (simp add: st1_def)
      then show ?thesis using st fin by (intro expand_complete [OF x _ c]) (auto simp: st1_def)
    next
      case (ObjectDecl ob)
      define mid where "mid = st1\<lparr>r_instances := insert (o_type_id ob) (r_instances st)\<rparr>"
      from ObjectDecl nw Some d step have x: "expand_objects (declaration_map api) mid = Inr st'"
        by (simp add: reach_step_def st1_def mid_def)
      have "seen api st' t" using expand_objects_spec [OF x] fin nw d ObjectDecl
        by (subst t) (simp add: st1_def mid_def)
      then show ?thesis using st fin by (intro expand_complete [OF x _ c]) (auto simp: st1_def mid_def)
    next
      case (ValueDecl v)
      show ?thesis
      proof (cases "v_type_id v \<in> r_values st")
        case True
        with ValueDecl nw Some d step have st': "st' = st1" by (simp add: reach_step_def st1_def Let_def)
        have "seen api st' t" using nw d ValueDecl True by (subst t) (simp add: st' st1_def)
        moreover have "t \<noteq> object_ref_type j" if "j \<in> r_instances st - r_objects st" for j
          using instance_is_object [OF snd, of j] that d ValueDecl Some by (auto simp: object_ref_type_def)
        ultimately show ?thesis by (intro complete_skip [OF c st]) (auto simp: st' st1_def)
      next
        case False
        define mid where "mid = st1\<lparr>r_values := insert (v_type_id v) (r_values st),
          r_pending := rest @ map f_type (v_fields v)\<rparr>"
        from ValueDecl nw Some d step False have x: "expand_objects (declaration_map api) mid = Inr st'"
          by (simp add: reach_step_def st1_def mid_def Let_def)
        have "seen api st' t" using expand_objects_spec [OF x] fin nw d ValueDecl
          by (subst t) (simp add: st1_def mid_def)
        moreover have "v_type_id v = i" using di ValueDecl by simp
        ultimately show ?thesis using st fin d ValueDecl
          by (intro expand_complete [OF x _ c]) (auto simp: st1_def mid_def)
      qed
    qed
  qed
qed

lemma complete_loop:
  "reach_loop api st = Inr st' \<Longrightarrow> sound api st \<Longrightarrow> complete api st \<Longrightarrow>
     complete api st' \<and> r_pending st' = []"
proof (induction api st rule: reach_loop.induct)
  case (1 api st)
  show ?case
  proof (cases "r_pending st")
    case Nil
    with "1.prems" show ?thesis by (simp add: reach_loop.simps [of api st])
  next
    case (Cons t rest)
    with "1.prems"(1) obtain st1 where st1: "reach_step (declaration_map api) t (st\<lparr>r_pending := rest\<rparr>) = Inr st1"
      "reach_loop api st1 = Inr st'"
      by (auto simp: reach_loop.simps [of api st])
    moreover have "sound api st1"
      using st1(1) by (rule sound_step) (use "1.prems"(2) Cons in \<open>auto simp: sound_def\<close>)
    moreover have "complete api st1"
      using complete_reach_step [OF st1(1) Cons] "1.prems" by blast
    ultimately show ?thesis using "1.IH" [OF Cons] by blast
  qed
qed

end
