(* ===== verification/Public_Api_Props.thy ===== *)
theory Public_Api_Props
  imports Reachability_Props
begin

text \<open>
  What \<open>compute_public_api\<close> returns: exactly the closure of the rules of publication, under names
  that do not collide; and which inputs it accepts.
\<close>

section \<open>The fixed point\<close>

definition loop_ready :: "semantic_api \<Rightarrow> reach_state \<Rightarrow> bool" where
  "loop_ready api st \<longleftrightarrow> reach_loop api (initial_state api) = Inr st \<and>
     distinct (map decl_type_id (a_declarations api))"

lemma loop_done:
  assumes "loop_ready api st"
  shows "sound api st" "complete api st" "r_pending st = []" "r_instances st \<subseteq> r_objects st"
proof -
  from assms have l: "reach_loop api (initial_state api) = Inr st"
    "distinct (map decl_type_id (a_declarations api))"
    by (simp_all add: loop_ready_def)
  show "sound api st" using sound_loop [OF l(1) sound_initial [OF l(2)]] .
  show c: "complete api st" and p: "r_pending st = []"
    using complete_loop [OF l(1) sound_initial [OF l(2)] complete_initial] by blast+
  show "r_instances st \<subseteq> r_objects st" using c p unfolding complete_def by auto
qed

lemma seen_names:
  assumes "seen api st t" "names api t d"
  shows "decl_type_id d \<in> r_reachable st"
    "d = ValueDecl v \<Longrightarrow> v_type_id v \<in> r_values st" "d = ObjectDecl ob \<Longrightarrow> o_type_id ob \<in> r_instances st"
  using assms by (cases t; auto simp: names_def)+

lemma public_type_seen:
  assumes "loop_ready api st" "public_type api t" shows "seen api st t"
proof -
  note fin = loop_done [OF assms(1)]
  have "covered api st t"
    using assms(2)
  proof (induction rule: public_type.induct)
    case (pt_function b t)
    then show ?case using fin(2) unfolding complete_def by blast
  next
    case (pt_root d t)
    then show ?case using fin(2) unfolding complete_def by blast
  next
    case (pt_element k s i e)
    then show ?case using fin(3) by (simp add: covered_def)
  next
    case (pt_value t v f)
    from pt_value.IH fin(3) have "seen api st t" by (simp add: covered_def)
    from seen_names(2) [OF this pt_value.hyps(2) refl] names_id [OF pt_value.hyps(2)] pt_value.hyps(3)
    show ?case using fin(2) unfolding complete_def by (metis decl_type_id.simps(2))
  next
    case (pt_object t d u)
    from pt_object.IH fin(3) have "seen api st t" by (simp add: covered_def)
    from seen_names(3) [OF this pt_object.hyps(2) refl] fin(4) have "o_type_id d \<in> r_objects st" by blast
    with names_id [OF pt_object.hyps(2)] pt_object.hyps(3)
    show ?case using fin(2) unfolding complete_def by (metis decl_type_id.simps(3))
  qed
  with fin(3) show ?thesis by (simp add: covered_def)
qed

lemma reach_step_keeps:
  assumes "reach_step decls t st = Inr st'" "finite (r_instances st)"
  shows "r_reachable st \<subseteq> r_reachable st' \<and> finite (r_instances st')"
proof -
  have "r_reachable s \<subseteq> r_reachable st' \<and> finite (r_instances st')"
    if "expand_objects decls s = Inr st'" "finite (r_instances s)" for s
    using expand_objects_spec [OF that] that(2) by simp
  note x = this
  show ?thesis
    using assms
    by (auto simp: reach_step_def Let_def split: if_splits option.splits semantic_declaration.splits
        dest!: x)
qed

lemma reach_loop_keeps:
  "reach_loop api st = Inr st' \<Longrightarrow> finite (r_instances st) \<Longrightarrow> r_reachable st \<subseteq> r_reachable st'"
proof (induction api st rule: reach_loop.induct)
  case (1 api st)
  show ?case
  proof (cases "r_pending st")
    case Nil
    with "1.prems" show ?thesis by (simp add: reach_loop.simps [of api st])
  next
    case (Cons t rest)
    with "1.prems"(1) obtain st1 where st1:
      "reach_step (declaration_map api) t (st\<lparr>r_pending := rest\<rparr>) = Inr st1" "reach_loop api st1 = Inr st'"
      by (auto simp: reach_loop.simps [of api st])
    from reach_step_keeps [OF st1(1)] "1.prems"(2)
    have "r_reachable st \<subseteq> r_reachable st1" "finite (r_instances st1)" by auto
    with "1.IH" [OF Cons st1(1) st1(2)] show ?thesis by blast
  qed
qed

lemma loop_result:
  assumes "loop_ready api st"
  shows "r_reachable st = named_ids api \<union> namespace_ids api"
    "r_namespaces st = namespace_ids api" "r_instances st = instance_ids api"
proof -
  note fin = loop_done [OF assms]
  from assms have l: "reach_loop api (initial_state api) = Inr st"
    "distinct (map decl_type_id (a_declarations api))"
    by (simp_all add: loop_ready_def)
  show "r_namespaces st = namespace_ids api" using fin(1) by (simp add: sound_def)
  have "finite (r_instances (initial_state api))" using sound_initial [OF l(2)] by (simp add: sound_def)
  from reach_loop_keeps [OF l(1) this] have "namespace_ids api \<subseteq> r_reachable st"
    by (simp add: initial_state_spec)
  moreover have "named_ids api \<subseteq> r_reachable st"
    using public_type_seen [OF assms] seen_names(1) by (fastforce simp: named_ids_def)
  ultimately show "r_reachable st = named_ids api \<union> namespace_ids api"
    using fin(1) by (auto simp: sound_def)
  have "instance_ids api \<subseteq> r_instances st"
    using public_type_seen [OF assms] seen_names(3) by (fastforce simp: instance_ids_def)
  then show "r_instances st = instance_ids api" using fin(1) by (auto simp: sound_def)
qed

section \<open>The loop does not fail on resolved types\<close>

definition typed_api :: "semantic_api \<Rightarrow> bool" where
  "typed_api api \<longleftrightarrow> distinct (map decl_type_id (a_declarations api)) \<and> references_resolve api \<and>
     (\<forall>t \<in> set (all_api_types api). wf_type t)"

definition sound_type :: "semantic_api \<Rightarrow> sem_type \<Rightarrow> bool" where
  "sound_type api t \<longleftrightarrow> wf_type t \<and> (\<forall>n \<in> set (walk_type t). resolves api n)"

lemma sound_typeI: "typed_api api \<Longrightarrow> t \<in> set (all_api_types api) \<Longrightarrow> sound_type api t"
  by (auto simp: typed_api_def sound_type_def references_resolve_def)

lemma object_types_in_api:
  assumes "ObjectDecl ob \<in> set (a_declarations api)"
  shows "set (instance_types ob) \<subseteq> set (all_api_types api)"
    "o_constructor ob = Some k \<Longrightarrow> set (constructor_types k) \<subseteq> set (all_api_types api)"
    "m \<in> set (public_static_methods ob) \<Longrightarrow> set (binding_types m) \<subseteq> set (all_api_types api)"
  using assms
  by (force simp: all_api_types_def declaration_types_def instance_types_def public_instance_methods_def
      public_static_methods_def)+

lemma wf_object_ref: "wf_type (object_ref_type i) \<longleftrightarrow> i \<noteq> []"
  by (simp add: object_ref_type_def check_type_cases)

lemma public_type_sound:
  assumes ty: "typed_api api" and ids: "\<forall>d \<in> set (a_declarations api). decl_type_id d \<noteq> []"
    and "public_type api t"
  shows "sound_type api t"
  using assms(3)
proof (induction rule: public_type.induct)
  case (pt_function b t)
  then show ?case by (intro sound_typeI [OF ty]) (auto simp: all_api_types_def)
next
  case (pt_root d t)
  then obtain ob where d: "d = ObjectDecl ob" by (cases d) (auto simp: root_types_def)
  note in_api = object_types_in_api [OF pt_root(1) [unfolded d]]
  have "sound_type api (object_ref_type (o_type_id ob))"
    using pt_root(1) d ids wf_object_ref [of "o_type_id ob"]
    by (force simp: sound_type_def resolves_def object_ref_type_def node_id_def)
  moreover have "t = object_ref_type (o_type_id ob) \<or> t \<in> set (all_api_types api)"
    using pt_root(2) d
    by (cases "o_constructor ob") (auto simp: root_types_def dest: subsetD [OF in_api(2)] subsetD [OF in_api(3)])
  ultimately show ?case using sound_typeI [OF ty] by blast
next
  case (pt_element k s i e)
  then show ?case by (simp add: sound_type_def)
next
  case (pt_value t v f)
  from names_id [OF pt_value.hyps(2)] have "ValueDecl v \<in> set (a_declarations api)"
    using declaration_map_in by blast
  with pt_value.hyps(3) show ?case
    by (intro sound_typeI [OF ty]) (force simp: all_api_types_def declaration_types_def)
next
  case (pt_object t d u)
  from names_id [OF pt_object.hyps(2)] have "ObjectDecl d \<in> set (a_declarations api)"
    using declaration_map_in by blast
  with pt_object.hyps(3) object_types_in_api(1) show ?case by (intro sound_typeI [OF ty]) blast
qed

lemma sound_type_declared:
  assumes "distinct (map decl_type_id (a_declarations api))" "sound_type api t"
    "\<not> is_wrapper (st_kind t)" "st_type_id t = Some i"
  shows "declaration_map api i \<noteq> None"
proof -
  from assms(2) have "check_type t = Inr ()" "resolves api t"
    by (cases t; cases "st_element t"; auto simp: sound_type_def)+
  moreover from this(1) assms(3,4) have "expected_declaration (st_kind t) \<noteq> None"
    by (cases t; cases "st_kind t") (auto simp: check_type_cases is_wrapper_def)
  ultimately obtain d where "d \<in> set (a_declarations api)" "decl_type_id d = i"
    using assms(4) by (auto simp: resolves_def node_id_def)
  then have "declaration_map api i = Some d" using declaration_map_Some [OF assms(1)] by simp
  then show ?thesis by simp
qed

lemma expand_objects_total:
  assumes "\<And>i. i \<in> r_instances st \<Longrightarrow> \<exists>ob. decls i = Some (ObjectDecl ob)"
  shows "\<exists>st'. expand_objects decls st = Inr st'"
  using assms
proof (induction decls st rule: expand_objects.induct)
  case (1 decls st)
  show ?case
  proof (cases "sorted_list_of_set (r_instances st - r_objects st)")
    case Nil
    then show ?thesis by (simp add: expand_objects.simps [of decls st])
  next
    case (Cons i xs)
    then have "i \<in> r_instances st" using sorted_list_of_set_ConsD [OF Cons] by auto
    with "1.prems" obtain d where d: "decls i = Some (ObjectDecl d)" by blast
    have "\<exists>st'. expand_objects decls (expand_object st i d) = Inr st'"
      using "1.prems" by (intro "1.IH" [OF Cons d refl]) (simp add: expand_object_def)
    with Cons d show ?thesis by (simp add: expand_objects.simps [of decls st])
  qed
qed

lemma reach_step_total:
  assumes snd: "sound api st" and t: "\<not> is_wrapper (st_kind t) \<Longrightarrow> st_type_id t = Some i \<Longrightarrow> declaration_map api i \<noteq> None"
    and i: "st_type_id t = Some i \<or> st_type_id t = None"
  shows "\<exists>st'. reach_step (declaration_map api) t st = Inr st'"
proof (cases "\<not> is_wrapper (st_kind t) \<and> st_type_id t = Some i")
  case True
  with t obtain d where d: "declaration_map api i = Some d" by auto
  have total: "\<exists>st'. expand_objects (declaration_map api) s = Inr st'"
    if "\<forall>j \<in> r_instances s. j \<in> r_instances st \<or> (\<exists>ob. d = ObjectDecl ob \<and> j = o_type_id ob)" for s
    using that instance_is_object [OF snd] d declaration_map_in [OF d] by (intro expand_objects_total) fastforce
  show ?thesis using True d by (cases d) (auto simp: reach_step_def Let_def intro!: total)
qed (use i in \<open>auto simp: reach_step_def split: option.splits\<close>)

lemma reach_loop_total:
  assumes "\<And>t i. public_type api t \<Longrightarrow> \<not> is_wrapper (st_kind t) \<Longrightarrow> st_type_id t = Some i \<Longrightarrow>
      declaration_map api i \<noteq> None"
  shows "sound api st \<Longrightarrow> \<exists>st'. reach_loop api st = Inr st'"
  using assms
proof (induction api st rule: reach_loop.induct)
  case (1 api st)
  show ?case
  proof (cases "r_pending st")
    case Nil
    then show ?thesis by (simp add: reach_loop.simps [of api st])
  next
    case (Cons t rest)
    have snd: "sound api (st\<lparr>r_pending := rest\<rparr>)" "public_type api t"
      using "1.prems"(1) Cons by (auto simp: sound_def)
    obtain st1 where st1: "reach_step (declaration_map api) t (st\<lparr>r_pending := rest\<rparr>) = Inr st1"
      using reach_step_total [OF snd(1), of t "the (st_type_id t)"] "1.prems"(2) [OF snd(2)]
      by (cases "st_type_id t") auto
    with "1.IH" [OF Cons st1 sound_step [OF st1 snd(2,1)] "1.prems"(2)] Cons show ?thesis
      by (auto simp: reach_loop.simps [of api st])
  qed
qed

section \<open>Names\<close>

lemma claim_all_Inr:
  "(\<exists>cs'. claim_all space cs nls = Inr cs') \<longleftrightarrow>
     distinct (map fst nls) \<and> fst ` set cs \<inter> fst ` set nls = {}"
proof (induction nls arbitrary: cs)
  case Nil
  then show ?case by simp
next
  case (Cons nl nls)
  obtain n l where nl: "nl = (n, l)" by fastforce
  show ?case
  proof (cases "map_of cs n")
    case None
    then have "n \<notin> fst ` set cs" by (simp add: map_of_eq_None_iff)
    with None nl Cons.IH [of "(n, l) # cs"] show ?thesis by (auto simp: claim_name_def)
  next
    case (Some prev)
    then have "n \<in> fst ` set cs" by (metis map_of_eq_None_iff option.distinct(1))
    with Some nl show ?thesis by (auto simp: claim_name_def)
  qed
qed

lemma claim_types_Inr:
  "claim_types functions generated ds = Inr () \<longleftrightarrow>
     distinct (map decl_name ds) \<and> set (map decl_name ds) \<inter> (fst ` set functions \<union> set generated) = {}"
proof (induction ds arbitrary: generated)
  case Nil
  then show ?case by simp
next
  case (Cons d ds)
  have "map_of functions (decl_name d) = None \<longleftrightarrow> decl_name d \<notin> fst ` set functions"
    by (rule map_of_eq_None_iff)
  with Cons.IH [of "decl_name d # generated"] show ?case by (auto split: option.splits)
qed

definition object_names :: "object_declaration \<Rightarrow> string list" where
  "object_names d = [''is'', ''check''] @ (if o_constructor d = None then [] else [''create'']) @
     map b_name (public_static_methods d)"

lemma namespace_names_object: "map fst (namespace_names d) = object_names d"
  by (auto simp: namespace_names_def object_names_def split: option.splits)

lemma claim_namespace_Inr:
  assumes "distinct (map decl_type_id (pa_declarations p))"
  shows "claim_namespace p i = Inr () \<longleftrightarrow>
     (\<exists>d. ObjectDecl d \<in> set (pa_declarations p) \<and> o_type_id d = i \<and> distinct (object_names d))"
proof -
  have "distinct (map fst (rev (map (\<lambda>d. (decl_type_id d, d)) (pa_declarations p))))"
    using assms by (simp only: rev_map [symmetric] distinct_rev map_map comp_def fst_conv)
  then have m: "map_of (rev (map (\<lambda>d. (decl_type_id d, d)) (pa_declarations p))) i = Some d \<longleftrightarrow>
      d \<in> set (pa_declarations p) \<and> decl_type_id d = i" for d
    by auto
  have "claim_namespace p i = Inr () \<longleftrightarrow> (\<exists>d. map_of (rev (map (\<lambda>d. (decl_type_id d, d)) (pa_declarations p))) i =
      Some (ObjectDecl d) \<and> distinct (object_names d))"
    using claim_all_Inr [where cs = "[]"]
    by (auto simp: claim_namespace_def namespace_names_object split: option.splits semantic_declaration.splits)
  then show ?thesis unfolding m by auto
qed

text \<open>What the feature root and each type namespace expose.\<close>

definition root_names :: "public_api \<Rightarrow> string list" where
  "root_names p = map b_name (pa_functions p) @ map decl_name (pa_declarations p)"

definition names_free :: "public_api \<Rightarrow> string option \<Rightarrow> bool" where
  "names_free p feature_name \<longleftrightarrow> distinct (root_names p) \<and>
     set (map decl_name (pa_declarations p)) \<inter> set (generated_type_names feature_name) = {} \<and>
     (\<forall>i \<in> pa_namespaces p.
        \<exists>d. ObjectDecl d \<in> set (pa_declarations p) \<and> o_type_id d = i \<and> distinct (object_names d))"

lemma validate_public_names_Inr:
  assumes "distinct (map decl_type_id (pa_declarations p))" "finite (pa_namespaces p)"
  shows "validate_public_names p feature_name = Inr () \<longleftrightarrow> names_free p feature_name"
proof -
  have "map fst (feature_root_names p) = root_names p"
    by (simp add: feature_root_names_def root_names_def)
  then have "(\<exists>cs. claim_all FeatureRoot [] (feature_root_names p) = Inr cs) \<longleftrightarrow> distinct (root_names p)"
    by (simp add: claim_all_Inr)
  moreover have "fst ` set (rev (map (\<lambda>b. (b_name b, b_source b)) (pa_functions p))) = b_name ` set (pa_functions p)"
    by force
  ultimately show ?thesis
    by (auto simp: validate_public_names_def names_free_def claim_types_Inr claim_namespace_Inr [OF assms(1)]
        assms(2) root_names_def)
qed

section \<open>The accepted inputs and the published interface\<close>

text \<open>The interface the rules of publication describe.\<close>

definition published :: "semantic_api \<Rightarrow> public_api" where
  "published api = \<lparr>
     pa_functions = public_functions_of api,
     pa_declarations = sort_key (\<lambda>d. (decl_name d, decl_type_id d))
       (filter (\<lambda>d. decl_type_id d \<in> named_ids api \<union> namespace_ids api) (a_declarations api)),
     pa_namespaces = namespace_ids api,
     pa_instances = instance_ids api\<rparr>"

text \<open>Every exported member belongs to something JavaScript can get hold of.\<close>

definition members_reachable :: "semantic_api \<Rightarrow> bool" where
  "members_reachable api \<longleftrightarrow>
     (\<forall>v. ValueDecl v \<in> set (a_declarations api) \<longrightarrow> v_fields v \<noteq> [] \<longrightarrow>
        v_type_id v \<in> named_ids api \<union> namespace_ids api) \<and>
     (\<forall>ob. ObjectDecl ob \<in> set (a_declarations api) \<longrightarrow>
        public_instance_methods ob \<noteq> [] \<or> o_fields ob \<noteq> [] \<longrightarrow> o_type_id ob \<in> instance_ids api)"

definition well_typed :: "semantic_api \<Rightarrow> bool" where
  "well_typed api \<longleftrightarrow> typed_api api \<and> (\<forall>d \<in> set (a_declarations api). decl_type_id d \<noteq> [])"

lemma well_typed_loop:
  assumes "well_typed api" shows "\<exists>st. loop_ready api st"
proof -
  from assms have d: "distinct (map decl_type_id (a_declarations api))"
    by (simp add: well_typed_def typed_api_def)
  have "declaration_map api i \<noteq> None"
    if "public_type api t" "\<not> is_wrapper (st_kind t)" "st_type_id t = Some i" for t i
    using sound_type_declared [OF d public_type_sound that(2,3)] that(1) assms
    by (auto simp: well_typed_def)
  from reach_loop_total [OF this sound_initial [OF d]] d show ?thesis by (auto simp: loop_ready_def)
qed

lemma reject_unreachable_Inr:
  assumes "loop_ready api st"
  shows "echeck (reject_unreachable (r_reachable st) (r_instances st)) (a_declarations api) = Inr () \<longleftrightarrow>
     members_reachable api"
proof -
  have "reject_unreachable R I d = Inr () \<longleftrightarrow> (case d of
      ValueDecl v \<Rightarrow> v_fields v \<noteq> [] \<longrightarrow> v_type_id v \<in> R
    | ObjectDecl ob \<Rightarrow> public_instance_methods ob \<noteq> [] \<or> o_fields ob \<noteq> [] \<longrightarrow> o_type_id ob \<in> I
    | EnumDecl e \<Rightarrow> True)" for R I d
    by (cases d) (auto split: list.splits)
  then show ?thesis unfolding loop_result [OF assms] members_reachable_def
    by (auto split: semantic_declaration.splits)
qed

lemma published_ids:
  assumes "distinct (map decl_type_id (a_declarations api))"
  shows "distinct (map decl_type_id (pa_declarations (published api)))"
proof -
  let ?xs = "filter (\<lambda>d. decl_type_id d \<in> named_ids api \<union> namespace_ids api) (a_declarations api)"
  have "distinct (map decl_type_id ?xs)" using assms by (rule distinct_map_filter)
  then have "distinct (map decl_type_id (sort_key (\<lambda>d. (decl_name d, decl_type_id d)) ?xs))"
    by (simp only: distinct_map_sort_key)
  then show ?thesis by (simp only: published_def public_api.simps)
qed

lemma finite_namespace_ids: "finite (namespace_ids api)"
proof -
  have "namespace_ids api \<subseteq> decl_type_id ` set (a_declarations api)"
    by (force simp: namespace_ids_def)
  then show ?thesis by (rule finite_subset) simp
qed

lemma compute_public_api_spec:
  assumes "well_typed api"
  shows "compute_public_api api feature_name =
     ebind (echeck (reject_unreachable (named_ids api \<union> namespace_ids api) (instance_ids api)) (a_declarations api))
       (\<lambda>_. ebind (validate_public_names (published api) feature_name) (\<lambda>_. Inr (published api)))"
proof -
  obtain st where st: "loop_ready api st" using well_typed_loop [OF assms] by blast
  then have l: "reach_loop api (initial_state api) = Inr st" by (simp add: loop_ready_def)
  show ?thesis
    unfolding compute_public_api_def l ebind_simps loop_result [OF st] published_def Let_def ..
qed

text \<open>
  C1. The published interface is exactly what the rules of publication give: \<open>compute_public_api\<close>
  accepts a well-typed API if and only if every exported member is reachable and no two public names
  collide, and then returns the public functions, the declarations some public type names, the
  namespaces of constructible or static objects, and the objects JavaScript can hold.
\<close>

theorem public_api_is_closure:
  assumes "well_typed api"
  shows "compute_public_api api feature_name = Inr p \<longleftrightarrow>
     p = published api \<and> members_reachable api \<and> names_free p feature_name"
proof -
  obtain st where st: "loop_ready api st" using well_typed_loop [OF assms] by blast
  have d: "distinct (map decl_type_id (a_declarations api))" using st by (simp add: loop_ready_def)
  have "finite (pa_namespaces (published api))"
    using finite_namespace_ids by (simp add: published_def)
  from validate_public_names_Inr [OF published_ids [OF d] this] reject_unreachable_Inr [OF st]
  show ?thesis
    by (auto simp: compute_public_api_spec [OF assms] loop_result [OF st])
qed

text \<open>
  No dictionary lookup of \<open>compute_public_api\<close> misses its key on a well-typed API.
\<close>

theorem public_api_has_all_keys:
  assumes "well_typed api"
  shows "compute_public_api api feature_name \<noteq> Inl (ReachKeyError i)"
proof
  assume e: "compute_public_api api feature_name = Inl (ReachKeyError i)"
  obtain st where "loop_ready api st" using well_typed_loop [OF assms] by blast
  then have d: "distinct (map decl_type_id (a_declarations api))" by (simp add: loop_ready_def)
  have reject: "reject_unreachable R I x \<noteq> Inl (ReachKeyError i)" for R I x
    by (cases x) (auto split: list.splits)
  have "echeck (reject_unreachable R I) xs \<noteq> Inl (ReachKeyError i)" for R I xs
    using reject echeck_Inl by metis
  with e have "validate_public_names (published api) feature_name = Inl (ReachKeyError i)"
    by (auto simp: compute_public_api_spec [OF assms] ebind_Inl)
  moreover have cl: "claim_all sp cs ns \<noteq> Inl (ReachKeyError i)" for sp cs ns
    by (induction sp cs ns rule: claim_all.induct) (auto simp: ebind_Inl claim_name_def split: option.splits)
  moreover have "claim_types fs gen ds \<noteq> Inl (ReachKeyError i)" for fs gen ds
    by (induction fs gen ds rule: claim_types.induct) (auto split: option.splits)
  ultimately have "echeck (claim_namespace (published api)) (sorted_list_of_set (namespace_ids api)) =
      Inl (ReachKeyError i)"
    by (auto simp: validate_public_names_def ebind_Inl published_def)
  then obtain j where j: "j \<in> namespace_ids api"
    "claim_namespace (published api) j = Inl (ReachKeyError i)"
    using finite_namespace_ids by (auto elim: echeck_InlE)
  then obtain ob where ob: "ObjectDecl ob \<in> set (pa_declarations (published api))" "o_type_id ob = j"
    by (auto simp: published_def namespace_ids_def)
  have "distinct (map fst (rev (map (\<lambda>d. (decl_type_id d, d)) (pa_declarations (published api)))))"
    using published_ids [OF d] by (simp only: rev_map [symmetric] distinct_rev map_map comp_def fst_conv)
  with ob have "map_of (rev (map (\<lambda>d. (decl_type_id d, d)) (pa_declarations (published api)))) j = Some (ObjectDecl ob)"
    by force
  with j(2) cl show False
    by (simp add: claim_namespace_def ebind_Inl)
qed

lemma pt_nested:
  assumes "public_type api t" "wf_type t" "n \<in> set (walk_type t)" shows "public_type api n"
  using assms
proof (induction t rule: walk_type.induct)
  case (2 k s i e)
  then have "is_wrapper k" by (cases k; cases i) (auto simp: check_type_cases is_wrapper_def)
  with 2 show ?case using pt_element by auto
qed auto

text \<open>
  C27. The published interface is closed: every nominal node of a type in the signature of a published
  function resolves to a published declaration of the kind the node asks for.
\<close>

theorem public_api_closed:
  assumes "well_typed api" and "compute_public_api api feature_name = Inr p"
    and "b \<in> set (pa_functions p)" and "t \<in> set (binding_types b)" and "n \<in> set (walk_type t)"
    and "expected_declaration (st_kind n) = Some dk"
  shows "\<exists>d \<in> set (pa_declarations p). decl_type_id d = node_id n \<and> decl_kind d = dk"
proof -
  obtain st where st: "loop_ready api st" using well_typed_loop [OF assms(1)] by blast
  then have d: "distinct (map decl_type_id (a_declarations api))" by (simp add: loop_ready_def)
  from assms(1,2) have p: "p = published api"
    using reach_loop_total st loop_result [OF st]
    by (auto simp: compute_public_api_spec)
  from assms(3) have "b \<in> set (a_functions api)" "is_public b"
    by (auto simp: p published_def public_functions_of_def)
  then have t: "public_type api t" using assms(4) by (rule pt_function)
  have ids: "\<forall>d \<in> set (a_declarations api). decl_type_id d \<noteq> []" and ty: "typed_api api"
    using assms(1) by (simp_all add: well_typed_def)
  have "sound_type api t" by (rule public_type_sound [OF ty ids t])
  then have n: "public_type api n" "resolves api n"
    using pt_nested [OF t _ assms(5)] assms(5) by (auto simp: sound_type_def)
  from public_type_sound [OF ty ids n(1)] have wf: "wf_type n" by (simp add: sound_type_def)
  from n(2) assms(6) obtain d where dd: "d \<in> set (a_declarations api)" "decl_type_id d = node_id n" "decl_kind d = dk"
    by (auto simp: resolves_def)
  have "\<not> is_wrapper (st_kind n)" using assms(6) by (cases "st_kind n") (auto simp: is_wrapper_def)
  moreover have "st_type_id n = Some (node_id n)" using wf assms(6)
    by (cases n; cases "st_kind n"; cases "st_element n") (auto simp: check_type_cases node_id_def)
  ultimately have "names api n d" using dd declaration_map_Some [OF d] by (simp add: names_def)
  with n(1) have "node_id n \<in> named_ids api"
    unfolding named_ids_def mem_Collect_eq using dd(2) by (intro exI [of _ n] exI [of _ d]) simp
  with dd show ?thesis by (auto simp: p published_def)
qed

section \<open>A sample\<close>

definition sample_ref :: sem_type where
  "sample_ref = SemType KValueRef None (Some ''f:type:A'') None"

definition sample_object :: semantic_declaration where
  "sample_object = ObjectDecl
     \<lparr>o_feature = ''f'', o_type_id = ''f:type:O'', o_name = ''O'', o_projection = sample_projection ''cpp.O'',
      o_constructor = Some \<lparr>k_source = sample_source ''cpp.O.create'', k_parameters = []\<rparr>, o_methods = [],
      o_fields = [sample_field ''f:type:O'' ''items'' (SemType KArray None None (Some sample_ref))]\<rparr>"

definition sample_function :: semantic_binding where
  "sample_function =
     \<lparr>b_id = ''f:read'', b_kind = BkFunction, b_name = ''read'', b_capabilities = capabilities_for_role RoleExported,
      b_execution = ExecSync, b_parameters = [\<lparr>p_name = ''x'', p_type = sample_ref\<rparr>],
      b_result = SemType KNullable None None (Some sample_ref), b_source = sample_source ''cpp.read'',
      b_owner_id = None, b_owner_name = None, b_scope = Some ScTopLevel\<rparr>"

definition sample_public :: semantic_api where
  "sample_public = \<lparr>a_functions = [sample_function], a_classes = [],
     a_declarations = [sample_object, sample_value ''A'' (t_scalar SInt32)]\<rparr>"

lemma sample_public_typed: "well_typed sample_public"
proof -
  have d: "distinct (map decl_type_id (a_declarations sample_public))" by code_simp
  have "check_named_references sample_public = Inr ()" by code_simp
  with check_named_references_Inr [OF d] have "references_resolve sample_public" by blast
  moreover have "list_all wf_type (all_api_types sample_public)" by code_simp
  moreover have "list_all (\<lambda>d. decl_type_id d \<noteq> []) (a_declarations sample_public)" by code_simp
  ultimately show ?thesis using d by (simp add: well_typed_def typed_api_def list_all_iff)
qed

definition sample_interface :: public_api where
  "sample_interface = \<lparr>pa_functions = [sample_function],
     pa_declarations = [sample_value ''A'' (t_scalar SInt32), sample_object],
     pa_namespaces = {''f:type:O''}, pa_instances = {''f:type:O''}\<rparr>"

lemma sample_public_computed: "compute_public_api sample_public (Some ''F'') = Inr sample_interface"
  by code_simp

theorem public_api_is_closure_witness:
  "sample_interface = published sample_public \<and> members_reachable sample_public \<and>
     names_free sample_interface (Some ''F'')"
  using public_api_is_closure [OF sample_public_typed, of "Some ''F''" sample_interface]
    sample_public_computed by blast

theorem public_api_has_all_keys_witness:
  "compute_public_api sample_public (Some ''A'') \<noteq> Inl (ReachKeyError ''f:type:A'')"
  using public_api_has_all_keys [OF sample_public_typed] .

theorem public_api_closed_witness:
  "\<exists>d \<in> set (pa_declarations sample_interface). decl_type_id d = ''f:type:A'' \<and> decl_kind d = DkValue"
proof -
  have "sample_function \<in> set (pa_functions sample_interface)" by (simp add: sample_interface_def)
  moreover have "b_result sample_function \<in> set (binding_types sample_function)" by (simp add: binding_types_def)
  moreover have "sample_ref \<in> set (walk_type (b_result sample_function))" by code_simp
  moreover have "expected_declaration (st_kind sample_ref) = Some DkValue" by code_simp
  ultimately have "\<exists>d \<in> set (pa_declarations sample_interface).
      decl_type_id d = node_id sample_ref \<and> decl_kind d = DkValue"
    by (rule public_api_closed [OF sample_public_typed sample_public_computed])
  moreover have "node_id sample_ref = ''f:type:A''" by code_simp
  ultimately show ?thesis by simp
qed

end
