(* ===== verification/Source_Records.thy ===== *)
theory Source_Records
  imports Semantic_Model
begin

text \<open>
  The declaration facts the frontends retain (\<^verbatim>\<open>source_models.py\<close>, after \<open>SourceIntent\<close>): C++
  functions, classes and enums, and JVM owners and declarations, each with the checks of its
  \<open>__post_init__\<close>.  \<open>check_...\<close> is the check of the record itself; the records inside it were built,
  and checked, before it.
\<close>

datatype source_record_error =
    WrongIntent declaration_target
  | BadDeclarationKind
  | EmptyJvmType
  | EmptyAdapterIdentity
  | EmptyJvmIdentity
  | SuspendLanguage
  | SuspendNotAsync
  | InjectedParameter
  | OwnerFormLanguage
  | ConstructionFreeOwner
  | ExportedOwnerForm
  | ConstructorLanguage
  | InjectedType
  | DeclarationOwner string
  | DeclarationOwnerClass string
  | DeclarationLanguage
  | FieldOwnerIdentity string
  | FieldLanguage
  | NegativeTypeParameters
  | EmptyFieldOwner

section \<open>C++\<close>

record cpp_parameter_source =
  cps_type :: string
  cps_name :: string

record cpp_function_source =
  cfs_provenance :: source_provenance
  cfs_name :: string
  cfs_return :: string
  cfs_parameters :: "cpp_parameter_source list"
  cfs_intent :: source_intent
  cfs_noexcept :: bool
  cfs_offset :: int
  cfs_namespace :: "string list"

record cpp_constructor_source =
  ccs_provenance :: source_provenance
  ccs_parameters :: "cpp_parameter_source list"
  ccs_access :: string
  ccs_intent :: source_intent
  ccs_deleted :: bool
  ccs_explicit :: bool
  ccs_noexcept :: bool
  ccs_implicit :: bool

record cpp_method_source =
  cms_provenance :: source_provenance
  cms_name :: string
  cms_return :: string
  cms_parameters :: "cpp_parameter_source list"
  cms_intent :: source_intent
  cms_access :: string
  cms_const :: bool
  cms_noexcept :: bool
  cms_static :: bool

record cpp_field_source =
  cds_provenance :: source_provenance
  cds_name :: string
  cds_type :: string
  cds_intent :: source_intent
  cds_access :: string
  cds_mutable :: bool
  cds_static :: bool

record cpp_class_source =
  cls_provenance :: source_provenance
  cls_name :: string
  cls_include :: string
  cls_intent :: source_intent
  cls_constructors :: "cpp_constructor_source list"
  cls_methods :: "cpp_method_source list"
  cls_kind :: string
  cls_fields :: "cpp_field_source list"
  cls_namespace :: "string list"

record cpp_enum_source =
  ces_provenance :: source_provenance
  ces_name :: string
  ces_include :: string
  ces_intent :: source_intent
  ces_constants :: "string list"
  ces_namespace :: "string list"

definition require_target :: "declaration_target \<Rightarrow> source_intent \<Rightarrow> source_record_error + unit" where
  "require_target t i = raise_if (si_target i \<noteq> t) (WrongIntent t)"

definition check_cpp_function :: "cpp_function_source \<Rightarrow> source_record_error + unit" where
  "check_cpp_function s = require_target TgFunction (cfs_intent s)"

definition check_cpp_constructor :: "cpp_constructor_source \<Rightarrow> source_record_error + unit" where
  "check_cpp_constructor s = require_target TgConstructor (ccs_intent s)"

definition check_cpp_method :: "cpp_method_source \<Rightarrow> source_record_error + unit" where
  "check_cpp_method s = require_target TgMethod (cms_intent s)"

definition check_cpp_field :: "cpp_field_source \<Rightarrow> source_record_error + unit" where
  "check_cpp_field s = require_target TgField (cds_intent s)"

definition check_cpp_class :: "cpp_class_source \<Rightarrow> source_record_error + unit" where
  "check_cpp_class s =
     ebind (require_target TgClass (cls_intent s)) (\<lambda>_.
     raise_if (cls_kind s \<notin> {''class'', ''struct''}) BadDeclarationKind)"

definition check_cpp_enum :: "cpp_enum_source \<Rightarrow> source_record_error + unit" where
  "check_cpp_enum s = require_target TgEnum (ces_intent s)"

definition constructor_selected :: "cpp_constructor_source \<Rightarrow> bool" where
  "constructor_selected s = selects_constructor (ccs_intent s)"

text \<open>\<open>"::".join(...)\<close>.\<close>

fun scope_join :: "string list \<Rightarrow> string" where
  "scope_join [] = []"
| "scope_join [w] = w"
| "scope_join (w # ws) = w @ ''::'' @ scope_join ws"

definition class_qualified :: "cpp_class_source \<Rightarrow> string" where
  "class_qualified s = scope_join (cls_namespace s @ [cls_name s])"

definition enum_qualified :: "cpp_enum_source \<Rightarrow> string" where
  "enum_qualified s = scope_join (ces_namespace s @ [ces_name s])"

section \<open>JVM\<close>

datatype jvm_language = Kotlin | Java

datatype jvm_owner_form = OfClass | OfKotlinObject | OfKotlinTopLevel | OfJavaStatic

datatype jvm_dependency = DepContext | DepReactContext

fun language_name :: "jvm_language \<Rightarrow> string" where
  "language_name Kotlin = ''kotlin''"
| "language_name Java = ''java''"

fun dependency_name :: "jvm_dependency \<Rightarrow> string" where
  "dependency_name DepContext = ''android.content.Context''"
| "dependency_name DepReactContext = ''com.facebook.react.bridge.ReactApplicationContext''"

datatype jvm_type = JvmType (jt_name: string) (jt_nullable: bool) (jt_arguments: "jvm_type list")

definition mk_jvm_type :: "string \<Rightarrow> bool \<Rightarrow> jvm_type list \<Rightarrow> source_record_error + jvm_type" where
  "mk_jvm_type name nullable arguments =
     ebind (raise_if (name = []) EmptyJvmType) (\<lambda>_. Inr (JvmType name nullable arguments))"

record jvm_parameter_source =
  jps_type :: string
  jps_name :: string
  jps_nullable :: bool
  jps_injected :: "jvm_dependency option"
  jps_arguments :: "jvm_type list"

definition parameter_type_source :: "jvm_parameter_source \<Rightarrow> source_record_error + jvm_type" where
  "parameter_type_source p = mk_jvm_type (jps_type p) (jps_nullable p) (jps_arguments p)"

record jvm_constructor_source =
  jcs_provenance :: source_provenance
  jcs_descriptor :: string
  jcs_parameters :: "jvm_parameter_source list"
  jcs_visibility :: string
  jcs_intent :: source_intent
  jcs_adapter :: string

record jvm_declaration_source =
  jds_provenance :: source_provenance
  jds_owner_id :: string
  jds_owner_class :: string
  jds_name :: string
  jds_descriptor :: string
  jds_parameters :: "jvm_parameter_source list"
  jds_result :: string
  jds_result_nullable :: bool
  jds_intent :: source_intent
  jds_visibility :: string
  jds_adapter :: string
  jds_language :: jvm_language
  jds_suspend :: bool
  jds_static :: bool
  jds_result_arguments :: "jvm_type list"

record jvm_field_source =
  jfs_provenance :: source_provenance
  jfs_owner_id :: string
  jfs_name :: string
  jfs_type :: jvm_type
  jfs_intent :: source_intent
  jfs_visibility :: string
  jfs_mutable :: bool
  jfs_static :: bool
  jfs_accessor :: string

record jvm_owner_source =
  jos_provenance :: source_provenance
  jos_language :: jvm_language
  jos_owner_class :: string
  jos_name :: string
  jos_form :: jvm_owner_form
  jos_intent :: source_intent
  jos_constructors :: "jvm_constructor_source list"
  jos_declarations :: "jvm_declaration_source list"
  jos_visibility :: string
  jos_fields :: "jvm_field_source list"
  jos_constants :: "string list"
  jos_data :: bool
  jos_record :: bool
  jos_final :: bool
  jos_type_parameters :: int
  jos_supertypes :: "string list"

definition check_jvm_constructor :: "jvm_constructor_source \<Rightarrow> source_record_error + unit" where
  "check_jvm_constructor s =
     ebind (require_target TgConstructor (jcs_intent s)) (\<lambda>_.
     raise_if (jcs_adapter s = []) EmptyAdapterIdentity)"

definition jvm_constructor_selected :: "jvm_constructor_source \<Rightarrow> bool" where
  "jvm_constructor_selected s = selects_constructor (jcs_intent s)"

definition result_type_source :: "jvm_declaration_source \<Rightarrow> source_record_error + jvm_type" where
  "result_type_source s = mk_jvm_type (jds_result s) (jds_result_nullable s) (jds_result_arguments s)"

definition check_jvm_declaration :: "jvm_declaration_source \<Rightarrow> source_record_error + unit" where
  "check_jvm_declaration s =
     ebind (raise_if (si_target (jds_intent s) \<notin> {TgFunction, TgMethod}) (WrongIntent TgFunction)) (\<lambda>_.
     ebind (raise_if (jds_owner_id s = [] \<or> jds_adapter s = []) EmptyJvmIdentity) (\<lambda>_.
     ebind (if jds_suspend s then
              ebind (raise_if (jds_language s \<noteq> Kotlin) SuspendLanguage) (\<lambda>_.
              raise_if (intent_execution (jds_intent s) \<noteq> ExecAsync) SuspendNotAsync)
            else Inr ()) (\<lambda>_.
     echeck (\<lambda>p. raise_if (jps_injected p \<noteq> None) InjectedParameter) (jds_parameters s))))"

definition check_jvm_field :: "jvm_field_source \<Rightarrow> source_record_error + unit" where
  "check_jvm_field s =
     ebind (require_target TgField (jfs_intent s)) (\<lambda>_.
     raise_if (jfs_owner_id s = []) EmptyFieldOwner)"

definition check_owner_constructor :: "jvm_owner_source \<Rightarrow> jvm_constructor_source \<Rightarrow> source_record_error + unit" where
  "check_owner_constructor s k =
     ebind (raise_if (sp_language (jcs_provenance k) \<noteq> language_name (jos_language s)) ConstructorLanguage) (\<lambda>_.
     echeck (\<lambda>p. case jps_injected p of
         None \<Rightarrow> Inr ()
       | Some dep \<Rightarrow> raise_if (jps_type p \<noteq> dependency_name dep) InjectedType) (jcs_parameters k))"

definition check_owner_declaration :: "jvm_owner_source \<Rightarrow> jvm_declaration_source \<Rightarrow> source_record_error + unit" where
  "check_owner_declaration s d =
     ebind (raise_if (jds_owner_id d \<noteq> sp_declaration (jos_provenance s))
       (DeclarationOwner (sp_declaration (jds_provenance d)))) (\<lambda>_.
     ebind (raise_if (jds_owner_class d \<noteq> jos_owner_class s)
       (DeclarationOwnerClass (sp_declaration (jds_provenance d)))) (\<lambda>_.
     raise_if (jds_language d \<noteq> jos_language s) DeclarationLanguage))"

definition check_owner_field :: "jvm_owner_source \<Rightarrow> jvm_field_source \<Rightarrow> source_record_error + unit" where
  "check_owner_field s f =
     ebind (raise_if (jfs_owner_id f \<noteq> sp_declaration (jos_provenance s)) (FieldOwnerIdentity (jfs_name f))) (\<lambda>_.
     raise_if (sp_language (jfs_provenance f) \<noteq> language_name (jos_language s)) FieldLanguage)"

definition check_jvm_owner :: "jvm_owner_source \<Rightarrow> source_record_error + unit" where
  "check_jvm_owner s =
     ebind (require_target TgClass (jos_intent s)) (\<lambda>_.
     ebind (raise_if (jos_form s \<in> {OfKotlinObject, OfKotlinTopLevel} \<and> jos_language s \<noteq> Kotlin)
       OwnerFormLanguage) (\<lambda>_.
     ebind (raise_if (jos_form s = OfJavaStatic \<and> jos_language s \<noteq> Java) OwnerFormLanguage) (\<lambda>_.
     ebind (raise_if (jos_form s \<noteq> OfClass \<and> jos_constructors s \<noteq> []) ConstructionFreeOwner) (\<lambda>_.
     ebind (raise_if (intent_role (jos_intent s) = RoleExported \<and> jos_form s \<noteq> OfClass) ExportedOwnerForm) (\<lambda>_.
     ebind (echeck (check_owner_constructor s) (jos_constructors s)) (\<lambda>_.
     ebind (echeck (check_owner_declaration s) (jos_declarations s)) (\<lambda>_.
     ebind (echeck (check_owner_field s) (jos_fields s)) (\<lambda>_.
     raise_if (jos_type_parameters s < 0) NegativeTypeParameters))))))))"

end
