(* ===== verification/Cpp_Projection.thy ===== *)
theory Cpp_Projection
  imports Source_Records Cpp_Type_Syntax Semantic_Api
begin

text \<open>
  From C++ declarations to the semantic API (\<^verbatim>\<open>cpp_projection.py\<close>).  The type registry's two
  dictionaries are one list of named types: \<open>by_qualified\<close> has unique keys, \<open>by_final\<close> groups the same
  entries by public name.
\<close>

section \<open>Errors\<close>

datatype projection_reason =
    VoidNotResult
  | ObjectForm string bool
  | SharedPointerOnly string
  | ExactSpelling string
  | UnsupportedType string
  | AmbiguousType string
  | UnknownMarkedType string
  | MarkedCFunction
  | FrontendLanguage string
  | OrdinaryMethod
  | ServiceMethodRole
  | IneligibleConstructor
  | NoEligibleConstructor
  | ConstructorSelection
  | SelectedOnService
  | ServiceConstruction
  | ImplementationConstruction
  | SelectedOnImplementation
  | FieldNotPublic
  | StaticFieldSource
  | FieldWithoutExport
  | SelectedTwice
  | SelectedUnusable
  | SelectedOnValue
  | ValueWithMethods

datatype projection_error =
    ProjectionAt source_provenance projection_reason
  | DuplicateMarkedType string
  | ProjectionModel semantic_error
  | ProjectionAssertion

section \<open>Spellings\<close>

text \<open>\<open>re.sub(r"\s+", " ", value)\<close>.\<close>

function squash_spaces :: "string \<Rightarrow> string" where
  "squash_spaces [] = []"
| "squash_spaces (c # cs) =
     (if py_isspace c then CHR '' '' # squash_spaces (dropWhile py_isspace cs) else c # squash_spaces cs)"
  by pat_completeness auto
termination squash_spaces
  by (relation "measure length") (auto simp: length_dropWhile_le le_imp_less_Suc)

definition normalized_cpp_type :: "string \<Rightarrow> string" where
  "normalized_cpp_type spelling =
     squash_spaces (sub_trim ''&'' (sub_trim ''>'' (sub_trim ''<'' (sub_trim ''::'' (py_strip spelling)))))"

text \<open>The loop of \<open>_template_inner\<close>: no comma at depth zero, and every bracket closed at the end.\<close>

fun template_depth :: "string \<Rightarrow> int \<Rightarrow> int option" where
  "template_depth [] depth = Some depth"
| "template_depth (c # cs) depth =
     (if c = CHR ''<'' then template_depth cs (depth + 1)
      else if c = CHR ''>'' then template_depth cs (depth - 1)
      else if c = CHR '','' \<and> depth = 0 then None
      else template_depth cs depth)"

definition template_inner :: "string \<Rightarrow> string \<Rightarrow> string option" where
  "template_inner val template =
     (let prefix = template @ ''<'' in
      if take (length prefix) val \<noteq> prefix \<or> val = [] \<or> last val \<noteq> CHR ''>'' then None
      else
        let inner = butlast (drop (length prefix) val) in
        if template_depth inner 0 = Some 0 \<and> inner \<noteq> [] then Some inner else None)"

definition remove_prefix :: "string \<Rightarrow> string \<Rightarrow> string" where
  "remove_prefix p s = (if take (length p) s = p then drop (length p) s else s)"

definition has_prefix :: "string \<Rightarrow> string \<Rightarrow> bool" where
  "has_prefix p s \<longleftrightarrow> take (length p) s = p"

fun has_scope :: "string \<Rightarrow> bool" where
  "has_scope (a # b # cs) = (a = CHR '':'' \<and> b = CHR '':'' \<or> has_scope (b # cs))"
| "has_scope _ = False"

definition cpp_types :: "(string \<times> sem_type) list" where
  "cpp_types =
     [(''void'', t_void), (''bool'', t_scalar SBool), (''int32_t'', t_scalar SInt32),
      (''std::int32_t'', t_scalar SInt32), (''int64_t'', t_scalar SInt64), (''std::int64_t'', t_scalar SInt64),
      (''float'', t_scalar SFloat32), (''double'', t_scalar SFloat64), (''std::string'', t_scalar SString),
      (''std::vector<std::byte>'', t_scalar SBytes)]"

section \<open>The type registry\<close>

datatype named_kind = NkObject | NkValue | NkEnum

record cpp_named_type =
  nq_qualified :: string
  nq_public :: string
  nq_kind :: named_kind
  nq_type_id :: string

definition registry_add ::
    "string \<Rightarrow> cpp_named_type list \<Rightarrow> string \<Rightarrow> string \<Rightarrow> named_kind \<Rightarrow> projection_error + cpp_named_type list" where
  "registry_add feature_id reg qualified public kind =
     ebind (ewrap ProjectionModel (semantic_type_id feature_id public)) (\<lambda>type_id.
     if qualified \<in> set (map nq_qualified reg) then Inl (DuplicateMarkedType qualified)
     else Inr (reg @ [\<lparr>nq_qualified = qualified, nq_public = public, nq_kind = kind, nq_type_id = type_id\<rparr>]))"

fun registry_entries :: "string \<Rightarrow> cpp_named_type list \<Rightarrow> (string \<times> string \<times> named_kind) list \<Rightarrow>
    projection_error + cpp_named_type list" where
  "registry_entries feature_id reg [] = Inr reg"
| "registry_entries feature_id reg ((q, p, k) # es) =
     ebind (registry_add feature_id reg q p k) (\<lambda>reg'. registry_entries feature_id reg' es)"

definition class_entry :: "cpp_class_source \<Rightarrow> (string \<times> string \<times> named_kind) list" where
  "class_entry s =
     (if declares_object (cls_intent s) then [(class_qualified s, cls_name s, NkObject)]
      else if declares_value (cls_intent s) then [(class_qualified s, cls_name s, NkValue)] else [])"

definition build_registry ::
    "string \<Rightarrow> cpp_class_source list \<Rightarrow> cpp_enum_source list \<Rightarrow> projection_error + cpp_named_type list" where
  "build_registry feature_id classes enums =
     registry_entries feature_id []
       (concat (map class_entry classes) @ map (\<lambda>e. (enum_qualified e, ces_name e, NkEnum)) enums)"

definition by_qualified :: "cpp_named_type list \<Rightarrow> string \<Rightarrow> cpp_named_type option" where
  "by_qualified reg name = find (\<lambda>n. nq_qualified n = name) reg"

text \<open>The enclosing scopes of a name, innermost first.\<close>

definition scope_candidates :: "string list \<Rightarrow> string \<Rightarrow> string list" where
  "scope_candidates namespace name =
     map (\<lambda>count. scope_join (take count namespace @ [name])) (rev [0..<Suc (length namespace)])"

definition resolve_named ::
    "cpp_named_type list \<Rightarrow> string \<Rightarrow> string list \<Rightarrow> source_provenance \<Rightarrow> projection_error + cpp_named_type" where
  "resolve_named reg spelling namespace source =
     (let name = remove_prefix ''::'' spelling;
          unknown = Inl (ProjectionAt source (UnknownMarkedType spelling)) in
      if has_scope name then (case by_qualified reg name of Some n \<Rightarrow> Inr n | None \<Rightarrow> unknown)
      else case List.map_filter (by_qualified reg) (scope_candidates namespace name) of
          n # _ \<Rightarrow> Inr n
        | [] \<Rightarrow>
            (case filter (\<lambda>n. nq_public n = name) reg of
               [] \<Rightarrow> unknown
             | [n] \<Rightarrow> Inr n
             | _ \<Rightarrow> Inl (ProjectionAt source (AmbiguousType spelling))))"

section \<open>Types\<close>

datatype cpp_position = PosDirect | PosField | PosContained | PosParameter | PosResult

definition object_form_ok :: "bool \<Rightarrow> cpp_position \<Rightarrow> bool \<Rightarrow> bool \<Rightarrow> bool \<Rightarrow> bool" where
  "object_form_ok result pos shared reference is_const =
     (if result \<or> pos \<in> {PosField, PosContained} then shared \<and> \<not> reference \<and> \<not> is_const
      else if pos = PosParameter \<and> shared then (\<not> reference \<and> \<not> is_const) \<or> (reference \<and> is_const)
      else shared \<or> (reference \<and> \<not> shared \<and> pos = PosParameter))"

definition named_cpp_type ::
    "bool \<Rightarrow> source_provenance \<Rightarrow> cpp_position \<Rightarrow> bool \<Rightarrow> bool \<Rightarrow> bool \<Rightarrow> cpp_named_type \<Rightarrow>
     projection_error + sem_type" where
  "named_cpp_type result source pos shared reference is_const named =
     (let typed = ewrap (ProjectionModel \<circ> TypeFault) in
      case nq_kind named of
        NkObject \<Rightarrow>
          if \<not> object_form_ok result pos shared reference is_const
          then Inl (ProjectionAt source (ObjectForm (nq_public named) (result \<or> pos \<in> {PosField, PosContained})))
          else typed (object_ref (nq_type_id named))
      | k \<Rightarrow>
          ebind (raise_if shared (ProjectionAt source (SharedPointerOnly (nq_public named)))) (\<lambda>_.
          ebind (raise_if (reference \<or> is_const) (ProjectionAt source (ExactSpelling (nq_public named)))) (\<lambda>_.
          typed (if k = NkValue then value_ref (nq_type_id named) else enum_ref (nq_type_id named)))))"

text \<open>The part of \<open>canonical_cpp_type\<close> after the containers: an optional reference, an optional
  \<open>const\<close>, an optional shared pointer, and a name.\<close>

definition nominal_cpp_type ::
    "string \<Rightarrow> string \<Rightarrow> bool \<Rightarrow> source_provenance \<Rightarrow> cpp_named_type list \<Rightarrow> string list \<Rightarrow> cpp_position \<Rightarrow>
     projection_error + sem_type" where
  "nominal_cpp_type spelling canonical result source reg namespace pos =
     (let reference = (canonical \<noteq> [] \<and> last canonical = CHR ''&'');
          core = (if reference then butlast canonical else canonical);
          is_const = has_prefix ''const '' core;
          core = (if is_const then drop (length ''const '') core else core);
          shared = template_inner core ''std::shared_ptr'' in
      case resolve_named reg (case shared of Some s \<Rightarrow> s | None \<Rightarrow> core) namespace source of
        Inr named \<Rightarrow> named_cpp_type result source pos (shared \<noteq> None) reference is_const named
      | Inl (ProjectionAt s (AmbiguousType t)) \<Rightarrow> Inl (ProjectionAt s (AmbiguousType t))
      | Inl _ \<Rightarrow> Inl (ProjectionAt source (UnsupportedType spelling)))"

lemma length_squash_spaces: "length (squash_spaces s) \<le> length s"
proof (induction s rule: squash_spaces.induct)
  case (2 c cs)
  have "length (dropWhile py_isspace cs) \<le> length cs" by (rule length_dropWhile_le)
  with 2 show ?case by auto
qed simp

lemma length_sub_trim: "length (sub_trim p s) \<le> length s"
proof (induction p s rule: sub_trim.induct)
  case (1 p s)
  let ?r = "dropWhile py_isspace s"
  have r: "length ?r \<le> length s" by (rule length_dropWhile_le)
  have rr: "length (dropWhile py_isspace (drop (length p) ?r)) \<le> length ?r - length p"
    using length_dropWhile_le [of py_isspace "drop (length p) ?r"] by simp
  show ?case
  proof (cases "s = [] \<or> p = []")
    case True
    then show ?thesis by (simp add: sub_trim.simps [of p s])
  next
    case False
    show ?thesis
    proof (cases "starts_at p ?r 0")
      case True
      then have "length p \<le> length ?r" using False starts_at_length [of p ?r 0] by auto
      moreover have "length (sub_trim p (dropWhile py_isspace (drop (length p) ?r))) \<le>
          length (dropWhile py_isspace (drop (length p) ?r))"
        using "1.IH"(1) [OF False refl True] .
      ultimately show ?thesis using False True r rr by (simp add: sub_trim.simps [of p s] Let_def)
    next
      case nt: False
      have "length (sub_trim p (tl s)) \<le> length (tl s)" using "1.IH"(2) [OF False refl nt] .
      moreover have "Suc (length (tl s)) = length s" using False by (cases s) simp_all
      ultimately show ?thesis using False nt by (simp add: sub_trim.simps [of p s] Let_def del: length_tl)
    qed
  qed
qed

lemma length_normalized: "length (normalized_cpp_type s) \<le> length s"
proof -
  have "length (py_strip s) \<le> length s"
    by (simp add: py_strip_def le_trans [OF length_dropWhile_le] length_dropWhile_le)
  then show ?thesis
    unfolding normalized_cpp_type_def
    by (meson le_trans length_squash_spaces length_sub_trim)
qed

lemma length_template_inner:
  assumes "template_inner s t = Some i" shows "length i < length s"
  using assms by (cases s) (auto simp: template_inner_def Let_def split: if_splits)

function canonical_cpp_type ::
    "string \<Rightarrow> bool \<Rightarrow> source_provenance \<Rightarrow> cpp_named_type list option \<Rightarrow> string list \<Rightarrow> cpp_position \<Rightarrow>
     projection_error + sem_type" where
  "canonical_cpp_type spelling result source registry namespace pos =
     (let canonical = normalized_cpp_type spelling;
          unsupported = Inl (ProjectionAt source (UnsupportedType spelling));
          typed = ewrap (ProjectionModel \<circ> TypeFault) in
      case map_of cpp_types canonical of
        Some t \<Rightarrow> if is_void t \<and> \<not> result then Inl (ProjectionAt source VoidNotResult) else Inr t
      | None \<Rightarrow>
          (case registry of
             None \<Rightarrow> unsupported
           | Some reg \<Rightarrow>
               (case template_inner canonical ''std::vector'' of
                  Some inner \<Rightarrow>
                    ebind (canonical_cpp_type inner False source registry namespace PosContained) (\<lambda>e. typed (array_of e))
                | None \<Rightarrow>
                    (case template_inner canonical ''std::optional'' of
                       Some inner \<Rightarrow>
                         ebind (canonical_cpp_type inner False source registry namespace PosContained) (\<lambda>e.
                           typed (nullable_of e))
                     | None \<Rightarrow> nominal_cpp_type spelling canonical result source reg namespace pos))))"
  by pat_completeness auto
termination canonical_cpp_type
proof (relation "measure (\<lambda>(s, _). length s)", goal_cases)
  case 1
  then show ?case by simp
next
  case (2 spelling)
  then show ?case
    using length_template_inner length_normalized [of spelling] less_le_trans by (simp only: in_measure prod.case) blast
next
  case (3 spelling)
  then show ?case
    using length_template_inner length_normalized [of spelling] less_le_trans by (simp only: in_measure prod.case) blast
qed

declare canonical_cpp_type.simps [simp del]

section \<open>Bindings\<close>

definition declaration_binding_id :: "source_provenance \<Rightarrow> string" where
  "declaration_binding_id p = ''supernote:binding:'' @ sp_declaration p"

definition semantic_binding_id :: "cpp_function_source \<Rightarrow> string" where
  "semantic_binding_id s = declaration_binding_id (cfs_provenance s)"

definition semantic_class_id :: "cpp_class_source \<Rightarrow> string" where
  "semantic_class_id s = ''supernote:class:'' @ sp_declaration (cls_provenance s)"

definition project_parameter ::
    "source_provenance \<Rightarrow> cpp_named_type list option \<Rightarrow> string list \<Rightarrow> cpp_parameter_source \<Rightarrow>
     projection_error + semantic_parameter" where
  "project_parameter source registry namespace p =
     ebind (canonical_cpp_type (cps_type p) False source registry namespace PosParameter) (\<lambda>t.
     ewrap ProjectionModel (mk_parameter (cps_name p) t))"

definition project_callable ::
    "source_provenance \<Rightarrow> cpp_named_type list option \<Rightarrow> string list \<Rightarrow> binding_kind \<Rightarrow> string \<Rightarrow> source_intent \<Rightarrow>
     cpp_parameter_source list \<Rightarrow> string \<Rightarrow> string option \<Rightarrow> string option \<Rightarrow> member_scope option \<Rightarrow>
     projection_error + semantic_binding" where
  "project_callable source registry namespace kind name intent parameters return owner_id owner_name scope =
     ebind (emap (project_parameter source registry namespace) parameters) (\<lambda>ps.
     ebind (canonical_cpp_type return True source registry namespace PosResult) (\<lambda>result.
     ewrap ProjectionModel
       (mk_binding (declaration_binding_id source) kind name (capabilities_for_role (intent_role intent))
          (intent_execution intent) ps result source owner_id owner_name scope)))"

definition ends_with :: "string \<Rightarrow> string \<Rightarrow> bool" where
  "ends_with suffix s \<longleftrightarrow> length suffix \<le> length s \<and> drop (length s - length suffix) s = suffix"

definition project_cpp_function ::
    "cpp_named_type list option \<Rightarrow> cpp_function_source \<Rightarrow> projection_error + semantic_binding option" where
  "project_cpp_function registry s =
     (let p = cfs_provenance s in
      if intent_role (cfs_intent s) = RoleOrdinary then Inr None
      else
        ebind (raise_if (sp_language p = ''c'' \<or> ends_with ''.c'' (sp_path p)) (ProjectionAt p MarkedCFunction)) (\<lambda>_.
        ebind (raise_if (sp_language p \<noteq> ''cpp'') (ProjectionAt p (FrontendLanguage (sp_language p)))) (\<lambda>_.
        ebind (project_callable p registry (cfs_namespace s) BkFunction (cfs_name s) (cfs_intent s)
          (cfs_parameters s) (cfs_return s) None None None) (\<lambda>b. Inr (Some b)))))"

definition project_functions ::
    "cpp_named_type list option \<Rightarrow> cpp_function_source list \<Rightarrow> projection_error + semantic_binding list" where
  "project_functions registry sources =
     ebind (emap (project_cpp_function registry) sources) (\<lambda>bs. Inr (List.map_filter id bs))"

definition project_cpp_functions :: "cpp_function_source list \<Rightarrow> projection_error + semantic_api" where
  "project_cpp_functions sources =
     ebind (project_functions None sources) (\<lambda>bs. ewrap ProjectionModel (mk_api bs [] []))"

definition project_method ::
    "cpp_class_source \<Rightarrow> string \<Rightarrow> semantic_class_kind \<Rightarrow> cpp_named_type list option \<Rightarrow> cpp_method_source \<Rightarrow>
     projection_error + semantic_binding" where
  "project_method owner owner_id kind registry s =
     (let p = cms_provenance s; role = intent_role (cms_intent s) in
      ebind (raise_if (role = RoleOrdinary) (ProjectionAt p OrdinaryMethod)) (\<lambda>_.
      ebind (raise_if (kind = CkInternalService \<and> role \<noteq> RoleInternal) (ProjectionAt p ServiceMethodRole)) (\<lambda>_.
      project_callable p registry (cls_namespace owner)
        (if kind = CkJsObject then BkObjectMethod else BkServiceMethod) (cms_name s) (cms_intent s)
        (cms_parameters s) (cms_return s) (Some owner_id) (Some (cls_name owner))
        (Some (if cms_static s then ScStatic else ScInstance)))))"

definition project_implementation_method ::
    "cpp_class_source \<Rightarrow> cpp_named_type list option \<Rightarrow> cpp_method_source \<Rightarrow> projection_error + semantic_binding" where
  "project_implementation_method owner registry s =
     project_callable (cms_provenance s) registry (cls_namespace owner) BkFunction (cms_name s) (cms_intent s)
       (cms_parameters s) (cms_return s) None None None"

definition generated_methods :: "cpp_class_source \<Rightarrow> cpp_method_source list" where
  "generated_methods s = filter (\<lambda>m. intent_role (cms_intent m) \<noteq> RoleOrdinary) (cls_methods s)"

section \<open>Constructors\<close>

text \<open>Every error of the body is a \<open>ValueError\<close>, so the handler sees them all.\<close>

definition constructor_parameters ::
    "cpp_named_type list option \<Rightarrow> string list \<Rightarrow> cpp_constructor_source \<Rightarrow>
     projection_error + semantic_parameter list option" where
  "constructor_parameters registry namespace s =
     (case emap (project_parameter (ccs_provenance s) registry namespace) (ccs_parameters s) of
        Inr ps \<Rightarrow> Inr (Some ps)
      | Inl e \<Rightarrow> if constructor_selected s then Inl e else Inr None)"

fun eligible_constructors ::
    "cpp_named_type list option \<Rightarrow> string list \<Rightarrow> cpp_constructor_source list \<Rightarrow>
     projection_error + (cpp_constructor_source \<times> semantic_parameter list) list" where
  "eligible_constructors registry namespace [] = Inr []"
| "eligible_constructors registry namespace (c # cs) =
     ebind (constructor_parameters registry namespace c) (\<lambda>parameters.
     ebind (if ccs_access c = ''public'' \<and> \<not> ccs_deleted c \<and> parameters \<noteq> None then Inr [(c, the parameters)]
            else if constructor_selected c then Inl (ProjectionAt (ccs_provenance c) IneligibleConstructor)
            else Inr []) (\<lambda>here.
     ebind (eligible_constructors registry namespace cs) (\<lambda>rest. Inr (here @ rest))))"

definition select_js_constructor ::
    "cpp_named_type list option \<Rightarrow> cpp_class_source \<Rightarrow>
     projection_error + cpp_constructor_source \<times> semantic_parameter list" where
  "select_js_constructor registry s =
     ebind (eligible_constructors registry (cls_namespace s) (cls_constructors s)) (\<lambda>eligible.
     let fail = (\<lambda>r. Inl (ProjectionAt (cls_provenance s) r));
         selected = filter (\<lambda>(c, _). constructor_selected c) eligible in
     if eligible = [] then fail NoEligibleConstructor
     else if length eligible = 1 then
       (if 1 < length selected then fail SelectedTwice
        else Inr (if selected \<noteq> [] then hd selected else hd eligible))
     else if length selected \<noteq> 1 then fail ConstructorSelection
     else Inr (hd selected))"

definition zero_argument_constructors :: "cpp_class_source \<Rightarrow> cpp_constructor_source list" where
  "zero_argument_constructors s =
     filter (\<lambda>c. ccs_access c = ''public'' \<and> \<not> ccs_deleted c \<and> ccs_parameters c = []) (cls_constructors s)"

definition select_service_constructor :: "cpp_class_source \<Rightarrow> projection_error + cpp_constructor_source" where
  "select_service_constructor s =
     (let fail = (\<lambda>r. Inl (ProjectionAt (cls_provenance s) r)) in
      if list_ex constructor_selected (cls_constructors s) then fail SelectedOnService
      else if length (zero_argument_constructors s) \<noteq> 1 then fail ServiceConstruction
      else Inr (hd (zero_argument_constructors s)))"

definition project_cpp_class :: "cpp_class_source \<Rightarrow> projection_error + semantic_class option" where
  "project_cpp_class s =
     (let p = cls_provenance s; role = intent_role (cls_intent s);
          kind = (if role = RoleExported then CkJsObject else CkInternalService) in
      if role = RoleOrdinary then Inr None
      else
        ebind (raise_if (sp_language p \<noteq> ''cpp'') (ProjectionAt p (FrontendLanguage (sp_language p)))) (\<lambda>_.
        ebind (if kind = CkJsObject then select_js_constructor None s
               else ebind (select_service_constructor s) (\<lambda>c. Inr (c, []))) (\<lambda>(c, parameters).
        ebind (emap (project_method s (semantic_class_id s) kind None) (generated_methods s)) (\<lambda>methods.
        ebind (ewrap ProjectionModel (mk_constructor (ccs_provenance c) parameters)) (\<lambda>k.
        ebind (ewrap ProjectionModel
          (mk_class (semantic_class_id s) kind (cls_name s) (capabilities_for_role role) p k methods)) (\<lambda>cl.
        Inr (Some cl)))))))"

section \<open>Declarations\<close>

definition projected_field ::
    "cpp_class_source \<Rightarrow> string \<Rightarrow> cpp_named_type list option \<Rightarrow> cpp_field_source \<Rightarrow>
     projection_error + semantic_field" where
  "projected_field owner owner_id registry s =
     (let p = cds_provenance s in
      ebind (raise_if (cds_access s \<noteq> ''public'') (ProjectionAt p FieldNotPublic)) (\<lambda>_.
      ebind (raise_if (cds_static s) (ProjectionAt p StaticFieldSource)) (\<lambda>_.
      ebind (raise_if (intent_role (cds_intent s) \<noteq> RoleExported) (ProjectionAt p FieldWithoutExport)) (\<lambda>_.
      ebind (canonical_cpp_type (cds_type s) False p registry (cls_namespace owner) PosField) (\<lambda>t.
      ewrap ProjectionModel
        (mk_field (owner_id @ '':field:'' @ cds_name s) owner_id (cds_name s) t p (cds_mutable s)
           (capabilities_for_role RoleExported) ScInstance True))))))"

definition selected_object_constructor ::
    "cpp_named_type list option \<Rightarrow> cpp_class_source \<Rightarrow> projection_error + semantic_constructor option" where
  "selected_object_constructor registry s =
     (case filter constructor_selected (cls_constructors s) of
        [] \<Rightarrow> Inr None
      | [c] \<Rightarrow>
          ebind (raise_if (ccs_access c \<noteq> ''public'' \<or> ccs_deleted c)
            (ProjectionAt (ccs_provenance c) SelectedUnusable)) (\<lambda>_.
          ebind (constructor_parameters registry (cls_namespace s) c) (\<lambda>parameters.
          case parameters of
            None \<Rightarrow> Inl ProjectionAssertion
          | Some ps \<Rightarrow> ebind (ewrap ProjectionModel (mk_constructor (ccs_provenance c) ps)) (\<lambda>k. Inr (Some k))))
      | _ \<Rightarrow> Inl (ProjectionAt (cls_provenance s) SelectedTwice))"

definition project_cpp_object ::
    "cpp_named_type list option \<Rightarrow> string \<Rightarrow> cpp_class_source \<Rightarrow> projection_error + semantic_declaration" where
  "project_cpp_object registry feature_id s =
     ebind (ewrap ProjectionModel (semantic_type_id feature_id (cls_name s))) (\<lambda>type_id.
     ebind (emap (project_method s type_id CkJsObject registry) (generated_methods s)) (\<lambda>methods.
     ebind (emap (projected_field s type_id registry) (cls_fields s)) (\<lambda>fs.
     ebind (ewrap ProjectionModel (mk_projection BfCpp (cls_provenance s))) (\<lambda>projection.
     ebind (selected_object_constructor registry s) (\<lambda>k.
     ewrap ProjectionModel (mk_object \<lparr>o_feature = feature_id, o_type_id = type_id, o_name = cls_name s,
       o_projection = projection, o_constructor = k, o_methods = methods, o_fields = fs\<rparr>))))))"

definition project_cpp_value ::
    "cpp_named_type list option \<Rightarrow> string \<Rightarrow> cpp_class_source \<Rightarrow> projection_error + semantic_declaration" where
  "project_cpp_value registry feature_id s =
     ebind (raise_if (list_ex constructor_selected (cls_constructors s))
       (ProjectionAt (cls_provenance s) SelectedOnValue)) (\<lambda>_.
     ebind (raise_if (list_ex (\<lambda>m. intent_role (cms_intent m) \<noteq> RoleOrdinary) (cls_methods s))
       (ProjectionAt (cls_provenance s) ValueWithMethods)) (\<lambda>_.
     ebind (ewrap ProjectionModel (semantic_type_id feature_id (cls_name s))) (\<lambda>type_id.
     ebind (emap (projected_field s type_id registry) (cls_fields s)) (\<lambda>fs.
     ebind (ewrap ProjectionModel (mk_projection BfCpp (cls_provenance s))) (\<lambda>projection.
     ewrap ProjectionModel (mk_value \<lparr>v_feature = feature_id, v_type_id = type_id, v_name = cls_name s,
       v_fields = fs, v_projections = [projection]\<rparr>))))))"

definition project_cpp_enum :: "string \<Rightarrow> cpp_enum_source \<Rightarrow> projection_error + semantic_declaration" where
  "project_cpp_enum feature_id s =
     ebind (ewrap ProjectionModel (semantic_type_id feature_id (ces_name s))) (\<lambda>type_id.
     ebind (ewrap ProjectionModel (mk_projection BfCpp (ces_provenance s))) (\<lambda>projection.
     ewrap ProjectionModel (mk_enum \<lparr>e_feature = feature_id, e_type_id = type_id, e_name = ces_name s,
       e_constants = ces_constants s, e_projections = [projection]\<rparr>)))"

section \<open>The API of a feature\<close>

definition implementation_bindings ::
    "cpp_named_type list option \<Rightarrow> cpp_class_source \<Rightarrow> projection_error + semantic_binding list" where
  "implementation_bindings registry s =
     (let p = cls_provenance s in
      ebind (raise_if (list_ex (\<lambda>m. \<not> cms_static m) (generated_methods s) \<and>
               length (zero_argument_constructors s) \<noteq> 1) (ProjectionAt p ImplementationConstruction)) (\<lambda>_.
      ebind (raise_if (list_ex constructor_selected (cls_constructors s))
        (ProjectionAt p SelectedOnImplementation)) (\<lambda>_.
      emap (project_implementation_method s registry) (generated_methods s))))"

text \<open>What one class contributes: bindings, legacy classes and declarations.\<close>

definition project_class_source ::
    "cpp_named_type list option \<Rightarrow> string \<Rightarrow> cpp_class_source \<Rightarrow>
     projection_error + semantic_binding list \<times> semantic_class list \<times> semantic_declaration list" where
  "project_class_source registry feature_id s =
     (if declares_object (cls_intent s) then
        ebind (project_cpp_object registry feature_id s) (\<lambda>d. Inr ([], [], [d]))
      else if declares_value (cls_intent s) then
        ebind (project_cpp_value registry feature_id s) (\<lambda>d. Inr ([], [], [d]))
      else if generated_methods s \<noteq> [] then
        ebind (implementation_bindings registry s) (\<lambda>bs. Inr (bs, [], []))
      else
        ebind (project_cpp_class s) (\<lambda>c. Inr ([], case c of None \<Rightarrow> [] | Some x \<Rightarrow> [x], [])))"

definition project_cpp_api ::
    "cpp_function_source list \<Rightarrow> cpp_class_source list \<Rightarrow> cpp_enum_source list \<Rightarrow> string \<Rightarrow>
     projection_error + semantic_api" where
  "project_cpp_api functions classes enums feature_id =
     ebind (build_registry feature_id classes enums) (\<lambda>reg.
     ebind (project_functions (Some reg) functions) (\<lambda>bindings.
     ebind (emap (project_class_source (Some reg) feature_id) classes) (\<lambda>parts.
     ebind (emap (project_cpp_enum feature_id) enums) (\<lambda>es.
     ewrap ProjectionModel
       (mk_api (bindings @ concat (map fst parts)) (concat (map (fst \<circ> snd) parts))
          (concat (map (snd \<circ> snd) parts) @ es))))))"

definition cpp_type_table :: "(string \<times> sem_type) list" where
  "cpp_type_table = cpp_types"

end
