(* ===== verification/Cpp_Routes.thy ===== *)
theory Cpp_Routes
  imports Cpp_Projection Semantic_Merge
begin

text \<open>
  Joining a projected API to the declarations it came from (\<^verbatim>\<open>cpp_routes.py\<close>): the routes carry the
  C++ spellings, receivers and namespaces that the semantic API has forgotten.  The dictionaries of
  \<open>plan_cpp_routes\<close> are \<open>dict_by\<close>.
\<close>

section \<open>Routes\<close>

datatype callable_kind = CpFunction | CpConstructor | CpInstance | CpStatic

datatype object_passing = BorrowedMutable | BorrowedConst | SharedValue | SharedConstRef

datatype route_error =
    PassingForm
  | PassingSpelling string
  | ParameterCounts
  | ParameterNames
  | SourceMismatch string string
  | MethodScopes
  | CopiedFieldNames
  | FieldMutability
  | RouteSemantics semantic_error
  | NotAFunction
  | MissingFunction string
  | ManyProjections string
  | MissingEnum string
  | EnumConstants string
  | MissingClass string
  | MissingValueField string
  | MissingConstructor string
  | MissingMethod string
  | MissingField string
  | RouteTypeFault type_error

record cpp_named_type_route =
  nr_type_id :: string
  nr_name :: string
  nr_cpp_type :: string
  nr_include :: string
  nr_kind :: type_kind
  nr_source :: string

record cpp_parameter_route =
  pa_name :: string
  pa_spelling :: string
  pa_type :: sem_type
  pa_passing :: "object_passing option"

record cpp_callable_route =
  cr_source :: string
  cr_kind :: callable_kind
  cr_name :: string
  cr_cpp_name :: string
  cr_owner :: "string option"
  cr_parameters :: "cpp_parameter_route list"
  cr_result :: sem_type
  cr_result_spelling :: string
  cr_execution :: execution_mode
  cr_noexcept :: bool
  cr_public :: bool
  cr_namespace :: "string list"
  cr_const :: bool

record cpp_field_route =
  fr_source :: string
  fr_field_id :: string
  fr_name :: string
  fr_cpp_name :: string
  fr_spelling :: string
  fr_type :: sem_type
  fr_mutable :: bool

record cpp_object_route =
  or_named :: cpp_named_type_route
  or_constructor :: "cpp_callable_route option"
  or_methods :: "cpp_callable_route list"
  or_fields :: "cpp_field_route list"

record cpp_value_route =
  vr_named :: cpp_named_type_route
  vr_fields :: "cpp_field_route list"

record cpp_enum_route =
  er_named :: cpp_named_type_route
  er_constants :: "string list"

record cpp_route_plan =
  rp_functions :: "cpp_callable_route list"
  rp_objects :: "cpp_object_route list"
  rp_values :: "cpp_value_route list"
  rp_enums :: "cpp_enum_route list"
  rp_named_types :: "cpp_named_type_route list"

definition named_types_by_id :: "cpp_route_plan \<Rightarrow> string \<Rightarrow> cpp_named_type_route option" where
  "named_types_by_id plan = dict_by nr_type_id (rp_named_types plan)"

definition check_parameter_route :: "cpp_parameter_route \<Rightarrow> route_error + unit" where
  "check_parameter_route r =
     raise_if ((st_kind (pa_type r) = KObjectRef) \<noteq> (pa_passing r \<noteq> None)) PassingForm"

definition mk_parameter_route ::
    "string \<Rightarrow> string \<Rightarrow> sem_type \<Rightarrow> object_passing option \<Rightarrow> route_error + cpp_parameter_route" where
  "mk_parameter_route name spelling ty passing =
     (let r = \<lparr>pa_name = name, pa_spelling = spelling, pa_type = ty, pa_passing = passing\<rparr>
      in ebind (check_parameter_route r) (\<lambda>_. Inr r))"

section \<open>Spellings\<close>

definition rooted_cpp_type :: "string \<Rightarrow> string" where
  "rooted_cpp_type qualified = ''::'' @ remove_prefix ''::'' qualified"

definition object_passing_of :: "string \<Rightarrow> route_error + object_passing" where
  "object_passing_of spelling =
     (let c = normalized_cpp_type spelling in
      if has_prefix ''const std::shared_ptr<'' c \<and> ends_with ''>&'' c then Inr SharedConstRef
      else if has_prefix ''std::shared_ptr<'' c \<and> ends_with ''>'' c then Inr SharedValue
      else if has_prefix ''const '' c \<and> ends_with ''&'' c then Inr BorrowedConst
      else if ends_with ''&'' c then Inr BorrowedMutable
      else Inl (PassingSpelling spelling))"

section \<open>Callables and fields\<close>

definition parameter_route :: "semantic_parameter \<Rightarrow> cpp_parameter_source \<Rightarrow> route_error + cpp_parameter_route" where
  "parameter_route semantic s =
     ebind (raise_if (p_name semantic \<noteq> cps_name s) ParameterNames) (\<lambda>_.
     ebind (if st_kind (p_type semantic) = KObjectRef
            then ebind (object_passing_of (cps_type s)) (\<lambda>p. Inr (Some p)) else Inr None) (\<lambda>passing.
     mk_parameter_route (p_name semantic) (cps_type s) (p_type semantic) passing))"

definition parameter_routes ::
    "semantic_parameter list \<Rightarrow> cpp_parameter_source list \<Rightarrow> route_error + cpp_parameter_route list" where
  "parameter_routes semantic sources =
     ebind (raise_if (length semantic \<noteq> length sources) ParameterCounts) (\<lambda>_.
     emap (\<lambda>(p, s). parameter_route p s) (zip semantic sources))"

definition require_source :: "string \<Rightarrow> string \<Rightarrow> route_error + unit" where
  "require_source expected actual = raise_if (expected \<noteq> actual) (SourceMismatch expected actual)"

definition function_route :: "semantic_binding \<Rightarrow> cpp_function_source \<Rightarrow> route_error + cpp_callable_route" where
  "function_route b s =
     ebind (require_source (sp_declaration (b_source b)) (sp_declaration (cfs_provenance s))) (\<lambda>_.
     ebind (parameter_routes (b_parameters b) (cfs_parameters s)) (\<lambda>ps.
     Inr \<lparr>cr_source = sp_declaration (cfs_provenance s), cr_kind = CpFunction, cr_name = b_name b,
          cr_cpp_name = rooted_cpp_type (scope_join (cfs_namespace s @ [cfs_name s])), cr_owner = None,
          cr_parameters = ps, cr_result = b_result b, cr_result_spelling = cfs_return s,
          cr_execution = b_execution b, cr_noexcept = cfs_noexcept s,
          cr_public = bc_public (b_capabilities b), cr_namespace = cfs_namespace s, cr_const = False\<rparr>))"

definition constructor_callable_route ::
    "semantic_constructor \<Rightarrow> cpp_constructor_source \<Rightarrow> cpp_class_source \<Rightarrow> string \<Rightarrow>
     route_error + cpp_callable_route" where
  "constructor_callable_route k s owner type_id =
     ebind (require_source (sp_declaration (k_source k)) (sp_declaration (ccs_provenance s))) (\<lambda>_.
     let t = rooted_cpp_type (class_qualified owner) in
     ebind (parameter_routes (k_parameters k) (ccs_parameters s)) (\<lambda>ps.
     ebind (ewrap RouteTypeFault (object_ref type_id)) (\<lambda>result.
     Inr \<lparr>cr_source = sp_declaration (ccs_provenance s), cr_kind = CpConstructor, cr_name = ''create'',
          cr_cpp_name = t, cr_owner = Some t, cr_parameters = ps, cr_result = result,
          cr_result_spelling = ''std::shared_ptr<'' @ t @ ''>'', cr_execution = ExecSync,
          cr_noexcept = ccs_noexcept s, cr_public = True, cr_namespace = cls_namespace owner,
          cr_const = False\<rparr>)))"

definition method_route ::
    "semantic_binding \<Rightarrow> cpp_method_source \<Rightarrow> cpp_class_source \<Rightarrow> route_error + cpp_callable_route" where
  "method_route b s owner =
     ebind (require_source (sp_declaration (b_source b)) (sp_declaration (cms_provenance s))) (\<lambda>_.
     let kind = (if b_scope b = Some ScStatic then CpStatic else CpInstance) in
     ebind (raise_if (cms_static s \<noteq> (kind = CpStatic)) MethodScopes) (\<lambda>_.
     ebind (parameter_routes (b_parameters b) (cms_parameters s)) (\<lambda>ps.
     Inr \<lparr>cr_source = sp_declaration (cms_provenance s), cr_kind = kind, cr_name = b_name b,
          cr_cpp_name = cms_name s, cr_owner = Some (rooted_cpp_type (class_qualified owner)),
          cr_parameters = ps, cr_result = b_result b, cr_result_spelling = cms_return s,
          cr_execution = b_execution b, cr_noexcept = cms_noexcept s,
          cr_public = bc_public (b_capabilities b), cr_namespace = cls_namespace owner,
          cr_const = cms_const s\<rparr>)))"

definition field_route :: "bool \<Rightarrow> semantic_field \<Rightarrow> cpp_field_source \<Rightarrow> route_error + cpp_field_route" where
  "field_route copied f s =
     ebind (if copied then raise_if (f_name f \<noteq> cds_name s) CopiedFieldNames
            else require_source (sp_declaration (f_source f)) (sp_declaration (cds_provenance s))) (\<lambda>_.
     ebind (raise_if (\<not> copied \<and> f_mutable f \<noteq> cds_mutable s) FieldMutability) (\<lambda>_.
     Inr \<lparr>fr_source = sp_declaration (cds_provenance s), fr_field_id = f_id f, fr_name = f_name f,
          fr_cpp_name = cds_name s, fr_spelling = cds_type s, fr_type = f_type f,
          fr_mutable = cds_mutable s\<rparr>))"

section \<open>The plan\<close>

definition route_type :: "semantic_api \<Rightarrow> sem_type \<Rightarrow> route_error + unit" where
  "route_type api t = ewrap RouteSemantics (validate_semantic_route api t BfCpp BfCpp)"

definition route_binding :: "semantic_api \<Rightarrow> semantic_binding \<Rightarrow> route_error + unit" where
  "route_binding api b =
     ebind (echeck (route_type api \<circ> p_type) (b_parameters b)) (\<lambda>_. route_type api (b_result b))"

abbreviation class_key :: "cpp_class_source \<Rightarrow> string" where
  "class_key s \<equiv> sp_declaration (cls_provenance s)"

definition implementation_method_ids :: "cpp_class_source list \<Rightarrow> string list" where
  "implementation_method_ids classes =
     concat (map (\<lambda>s. if dict_by class_key classes (class_key s) = Some s \<and> \<not> declares_object (cls_intent s)
                      then map (sp_declaration \<circ> cms_provenance) (cls_methods s) else []) classes)"

definition plan_function ::
    "semantic_api \<Rightarrow> cpp_function_source list \<Rightarrow> cpp_class_source list \<Rightarrow> semantic_binding \<Rightarrow>
     route_error + cpp_callable_route option" where
  "plan_function api functions classes b =
     (let i = sp_declaration (b_source b) in
      if sp_language (b_source b) \<noteq> ''cpp'' then Inr None
      else
        ebind (route_binding api b) (\<lambda>_.
        ebind (raise_if (b_kind b \<noteq> BkFunction) NotAFunction) (\<lambda>_.
        case dict_by (sp_declaration \<circ> cfs_provenance) functions i of
          Some s \<Rightarrow> ebind (function_route b s) (\<lambda>r. Inr (Some r))
        | None \<Rightarrow>
            if i \<in> set (implementation_method_ids classes) then Inr None else Inl (MissingFunction i))))"

definition plan_enum ::
    "cpp_enum_source list \<Rightarrow> enum_declaration \<Rightarrow> source_provenance \<Rightarrow> route_error + cpp_enum_route" where
  "plan_enum enums d projection =
     (case dict_by (sp_declaration \<circ> ces_provenance) enums (sp_declaration projection) of
        None \<Rightarrow> Inl (MissingEnum (sp_declaration projection))
      | Some s \<Rightarrow>
          ebind (raise_if (e_constants d \<noteq> ces_constants s) (EnumConstants (e_name d))) (\<lambda>_.
          Inr \<lparr>er_named = \<lparr>nr_type_id = e_type_id d, nr_name = e_name d,
                 nr_cpp_type = rooted_cpp_type (enum_qualified s), nr_include = ces_include s,
                 nr_kind = KEnumRef, nr_source = sp_declaration (ces_provenance s)\<rparr>,
               er_constants = ces_constants s\<rparr>))"

definition named_class_route :: "string \<Rightarrow> string \<Rightarrow> type_kind \<Rightarrow> cpp_class_source \<Rightarrow> cpp_named_type_route" where
  "named_class_route type_id name kind owner =
     \<lparr>nr_type_id = type_id, nr_name = name, nr_cpp_type = rooted_cpp_type (class_qualified owner),
      nr_include = cls_include owner, nr_kind = kind, nr_source = class_key owner\<rparr>"

definition plan_value :: "value_declaration \<Rightarrow> cpp_class_source \<Rightarrow> route_error + cpp_value_route" where
  "plan_value d owner =
     ebind (emap (\<lambda>f. case dict_by cds_name (cls_fields owner) (f_name f) of
         None \<Rightarrow> Inl (MissingValueField (v_name d))
       | Some s \<Rightarrow> field_route True f s) (v_fields d)) (\<lambda>fs.
     Inr \<lparr>vr_named = named_class_route (v_type_id d) (v_name d) KValueRef owner, vr_fields = fs\<rparr>)"

definition plan_constructor_route ::
    "semantic_api \<Rightarrow> object_declaration \<Rightarrow> cpp_class_source \<Rightarrow> route_error + cpp_callable_route option" where
  "plan_constructor_route api d owner =
     (case o_constructor d of
        None \<Rightarrow> Inr None
      | Some k \<Rightarrow>
          ebind (echeck (route_type api \<circ> p_type) (k_parameters k)) (\<lambda>_.
          case dict_by (sp_declaration \<circ> ccs_provenance) (cls_constructors owner) (sp_declaration (k_source k)) of
            None \<Rightarrow> Inl (MissingConstructor (o_name d))
          | Some s \<Rightarrow> ebind (constructor_callable_route k s owner (o_type_id d)) (\<lambda>r. Inr (Some r))))"

definition plan_method ::
    "semantic_api \<Rightarrow> cpp_class_source \<Rightarrow> semantic_binding \<Rightarrow> route_error + cpp_callable_route" where
  "plan_method api owner b =
     ebind (route_binding api b) (\<lambda>_.
     case dict_by (sp_declaration \<circ> cms_provenance) (cls_methods owner) (sp_declaration (b_source b)) of
       None \<Rightarrow> Inl (MissingMethod (sp_declaration (b_source b)))
     | Some s \<Rightarrow> method_route b s owner)"

definition plan_field_route ::
    "semantic_api \<Rightarrow> cpp_class_source \<Rightarrow> semantic_field \<Rightarrow> route_error + cpp_field_route" where
  "plan_field_route api owner f =
     ebind (route_type api (f_type f)) (\<lambda>_.
     case dict_by (sp_declaration \<circ> cds_provenance) (cls_fields owner) (sp_declaration (f_source f)) of
       None \<Rightarrow> Inl (MissingField (sp_declaration (f_source f)))
     | Some s \<Rightarrow> field_route False f s)"

definition plan_object ::
    "semantic_api \<Rightarrow> object_declaration \<Rightarrow> cpp_class_source \<Rightarrow> route_error + cpp_object_route" where
  "plan_object api d owner =
     ebind (plan_constructor_route api d owner) (\<lambda>k.
     ebind (emap (plan_method api owner) (o_methods d)) (\<lambda>ms.
     ebind (emap (plan_field_route api owner) (o_fields d)) (\<lambda>fs.
     Inr \<lparr>or_named = named_class_route (o_type_id d) (o_name d) KObjectRef owner, or_constructor = k,
          or_methods = ms, or_fields = fs\<rparr>)))"

datatype planned_declaration =
    PlannedObject cpp_object_route
  | PlannedValue cpp_value_route
  | PlannedEnum cpp_enum_route

fun planned_named :: "planned_declaration \<Rightarrow> cpp_named_type_route" where
  "planned_named (PlannedObject r) = or_named r"
| "planned_named (PlannedValue r) = vr_named r"
| "planned_named (PlannedEnum r) = er_named r"

definition plan_class ::
    "semantic_api \<Rightarrow> cpp_class_source list \<Rightarrow> string \<Rightarrow> (cpp_class_source \<Rightarrow> route_error + planned_declaration) \<Rightarrow>
     route_error + planned_declaration" where
  "plan_class api classes i k =
     (case dict_by class_key classes i of None \<Rightarrow> Inl (MissingClass i) | Some owner \<Rightarrow> k owner)"

definition plan_declaration_route ::
    "semantic_api \<Rightarrow> cpp_class_source list \<Rightarrow> cpp_enum_source list \<Rightarrow> semantic_declaration \<Rightarrow>
     route_error + planned_declaration option" where
  "plan_declaration_route api classes enums d =
     (let cpp = filter (\<lambda>p. pr_backend p = BfCpp) (decl_projections d) in
      if cpp = [] then Inr None
      else if length cpp \<noteq> 1 then Inl (ManyProjections (decl_name d))
      else
        let projection = pr_source (hd cpp) in
        ebind (case d of
            EnumDecl e \<Rightarrow> ebind (plan_enum enums e projection) (\<lambda>r. Inr (PlannedEnum r))
          | ValueDecl v \<Rightarrow> plan_class api classes (sp_declaration projection)
              (\<lambda>owner. ebind (plan_value v owner) (\<lambda>r. Inr (PlannedValue r)))
          | ObjectDecl x \<Rightarrow> plan_class api classes (sp_declaration projection)
              (\<lambda>owner. ebind (plan_object api x owner) (\<lambda>r. Inr (PlannedObject r)))) (\<lambda>r. Inr (Some r)))"

definition planned_objects :: "planned_declaration list \<Rightarrow> cpp_object_route list" where
  "planned_objects ps = List.map_filter (\<lambda>p. case p of PlannedObject r \<Rightarrow> Some r | _ \<Rightarrow> None) ps"

definition planned_values :: "planned_declaration list \<Rightarrow> cpp_value_route list" where
  "planned_values ps = List.map_filter (\<lambda>p. case p of PlannedValue r \<Rightarrow> Some r | _ \<Rightarrow> None) ps"

definition planned_enums :: "planned_declaration list \<Rightarrow> cpp_enum_route list" where
  "planned_enums ps = List.map_filter (\<lambda>p. case p of PlannedEnum r \<Rightarrow> Some r | _ \<Rightarrow> None) ps"

definition plan_cpp_routes ::
    "semantic_api \<Rightarrow> cpp_function_source list \<Rightarrow> cpp_class_source list \<Rightarrow> cpp_enum_source list \<Rightarrow>
     route_error + cpp_route_plan" where
  "plan_cpp_routes api functions classes enums =
     ebind (emap (plan_function api functions classes) (a_functions api)) (\<lambda>fs.
     ebind (emap (plan_declaration_route api classes enums) (a_declarations api)) (\<lambda>ds.
     let ps = List.map_filter id ds in
     Inr \<lparr>rp_functions = List.map_filter id fs, rp_objects = planned_objects ps, rp_values = planned_values ps,
          rp_enums = planned_enums ps, rp_named_types = map planned_named ps\<rparr>))"

end
