(* ===== verification/Conversion_Plan.thy ===== *)
theory Conversion_Plan
  imports Semantic_Api
begin

text \<open>
  Conversion plans (\<^verbatim>\<open>conversion.py\<close>, first part): the backend-neutral tree every lowering consumes,
  built from the semantic types of a binding, a constructor or a field.
\<close>

section \<open>Limits\<close>

record conversion_limits =
  cl_depth :: int
  cl_array :: int
  cl_visited :: int
  cl_string :: int
  cl_bytes :: int
  cl_temporary :: int

datatype plan_error =
    LimitNotPositive string
  | LimitTooLarge string
  | NodeWithoutExpectation
  | ScalarNodeWithoutScalar
  | ScalarOnOtherNode
  | NamedNodeWithoutIdentity
  | IdentityOnOtherNode
  | EnumNodeWithoutConstants
  | ConstantsOnOtherNode
  | ValueNodeWithoutFields
  | FieldsOnOtherNode
  | WrapperNodeWithoutElement
  | ElementOnOtherNode
  | PlanUnknownType string
  | NonEnumReference
  | NonObjectReference
  | NonValueReference
  | RecursiveValue "string list"
  | EmptyPlanIdentity
  | DuplicatePlanParameters
  | OtherBinding
  | ParameterOrder
  | SignatureMismatch
  | PlanAssertion

definition limit_entries :: "conversion_limits \<Rightarrow> (string \<times> int) list" where
  "limit_entries l =
     [(''max_depth'', cl_depth l), (''max_array_length'', cl_array l), (''max_visited_nodes'', cl_visited l),
      (''max_string_bytes'', cl_string l), (''max_byte_buffer_bytes'', cl_bytes l),
      (''max_temporary_bytes'', cl_temporary l)]"

definition max_counter :: int where "max_counter = 2 ^ 63 - 1"

lemma max_counter_value [code]: "max_counter = 9223372036854775807" by (simp add: max_counter_def)

definition check_limits :: "conversion_limits \<Rightarrow> plan_error + unit" where
  "check_limits l = echeck (\<lambda>(name, n).
     ebind (raise_if (n \<le> 0) (LimitNotPositive name)) (\<lambda>_.
     raise_if (n > max_counter) (LimitTooLarge name))) (limit_entries l)"

definition mk_limits :: "int \<Rightarrow> int \<Rightarrow> int \<Rightarrow> int \<Rightarrow> int \<Rightarrow> int \<Rightarrow> plan_error + conversion_limits" where
  "mk_limits depth array visited str_bytes byte_bytes temporary =
     (let l = \<lparr>cl_depth = depth, cl_array = array, cl_visited = visited, cl_string = str_bytes,
               cl_bytes = byte_bytes, cl_temporary = temporary\<rparr>
      in ebind (check_limits l) (\<lambda>_. Inr l))"

definition default_limits :: conversion_limits where
  "default_limits = \<lparr>cl_depth = 32, cl_array = 65536, cl_visited = 262144, cl_string = 8 * 1024 * 1024,
     cl_bytes = 32 * 1024 * 1024, cl_temporary = 64 * 1024 * 1024\<rparr>"

section \<open>Nodes\<close>

datatype conversion_kind = NVoid | NScalar | NEnum | NValue | NObject | NArray | NNullable

fun conversion_kind_name :: "conversion_kind \<Rightarrow> string" where
  "conversion_kind_name NVoid = ''void''"
| "conversion_kind_name NScalar = ''scalar''"
| "conversion_kind_name NEnum = ''enum''"
| "conversion_kind_name NValue = ''value''"
| "conversion_kind_name NObject = ''object''"
| "conversion_kind_name NArray = ''array''"
| "conversion_kind_name NNullable = ''nullable''"

datatype conv_node = ConvNode
  (cn_kind: conversion_kind) (cn_expected: string) (cn_scalar: "scalar_kind option")
  (cn_type_id: "string option") (cn_public_name: "string option") (cn_constants: "string list")
  (cn_fields: "(string \<times> conv_node) list") (cn_element: "conv_node option")

definition no_text :: "string option \<Rightarrow> bool" where
  "no_text t \<longleftrightarrow> t = None \<or> t = Some []"

text \<open>\<open>ConversionNode.__post_init__\<close>.\<close>

definition check_node :: "conv_node \<Rightarrow> plan_error + unit" where
  "check_node n =
     (let k = cn_kind n in
     ebind (raise_if (cn_expected n = []) NodeWithoutExpectation) (\<lambda>_.
     ebind (if k = NScalar then raise_if (cn_scalar n = None) ScalarNodeWithoutScalar
            else raise_if (cn_scalar n \<noteq> None) ScalarOnOtherNode) (\<lambda>_.
     ebind (if k \<in> {NEnum, NValue, NObject}
            then raise_if (no_text (cn_type_id n) \<or> no_text (cn_public_name n)) NamedNodeWithoutIdentity
            else raise_if (cn_type_id n \<noteq> None \<or> cn_public_name n \<noteq> None) IdentityOnOtherNode) (\<lambda>_.
     ebind (if k = NEnum then raise_if (cn_constants n = []) EnumNodeWithoutConstants
            else raise_if (cn_constants n \<noteq> []) ConstantsOnOtherNode) (\<lambda>_.
     ebind (if k = NValue then raise_if (cn_fields n = []) ValueNodeWithoutFields
            else raise_if (cn_fields n \<noteq> []) FieldsOnOtherNode) (\<lambda>_.
     if k \<in> {NArray, NNullable} then raise_if (cn_element n = None) WrapperNodeWithoutElement
     else raise_if (cn_element n \<noteq> None) ElementOnOtherNode))))))"

definition mk_node :: "conv_node \<Rightarrow> plan_error + conv_node" where
  "mk_node n = ebind (check_node n) (\<lambda>_. Inr n)"

text \<open>A node that exists passed its check, and so did the nodes in it; field names are distinct.\<close>

fun node_ok :: "conv_node \<Rightarrow> bool" where
  "node_ok (ConvNode k x s i p cs fs e) \<longleftrightarrow>
     check_node (ConvNode k x s i p cs fs e) = Inr () \<and> distinct (map fst fs) \<and>
     (\<forall>nf \<in> set fs. node_ok (snd nf)) \<and> (case e of None \<Rightarrow> True | Some el \<Rightarrow> node_ok el)"

text \<open>The constructor calls of \<open>_plan_type\<close>, with the defaults of the keyword arguments they leave out.\<close>

definition void_node :: conv_node where
  "void_node = ConvNode NVoid ''void'' None None None [] [] None"

definition scalar_node :: "string \<Rightarrow> scalar_kind \<Rightarrow> conv_node" where
  "scalar_node expected s = ConvNode NScalar expected (Some s) None None [] [] None"

definition wrapper_node :: "conversion_kind \<Rightarrow> string \<Rightarrow> conv_node \<Rightarrow> conv_node" where
  "wrapper_node k expected e = ConvNode k expected None None None [] [] (Some e)"

definition named_node ::
    "conversion_kind \<Rightarrow> string \<Rightarrow> string \<Rightarrow> string list \<Rightarrow> (string \<times> conv_node) list \<Rightarrow> conv_node" where
  "named_node k name type_id constants fs = ConvNode k name None (Some type_id) (Some name) constants fs None"

fun scalar_expected :: "scalar_kind \<Rightarrow> string" where
  "scalar_expected SBool = ''boolean''"
| "scalar_expected SInt32 = ''int32 number''"
| "scalar_expected SInt64 = ''int64 bigint''"
| "scalar_expected SFloat32 = ''float32 number''"
| "scalar_expected SFloat64 = ''float64 number''"
| "scalar_expected SString = ''string''"
| "scalar_expected SBytes = ''Uint8Array''"

section \<open>Planning a type\<close>

text \<open>
  \<open>_plan_type\<close>.  The recursion into value fields extends \<open>active\<close> by a declared identity that is not
  in it yet, so it ends on every API, recursive ones included.
\<close>

function plan_type :: "semantic_api \<Rightarrow> string list \<Rightarrow> sem_type \<Rightarrow> plan_error + conv_node" where
  "plan_type api active (SemType k s i e) =
     (if k = KVoid then mk_node void_node
      else if k = KScalar then
        (case s of
           None \<Rightarrow> Inl PlanAssertion
         | Some sc \<Rightarrow> mk_node (scalar_node (scalar_expected sc) sc))
      else if is_wrapper k then
        (case e of
           None \<Rightarrow> Inl PlanAssertion
         | Some el \<Rightarrow>
             ebind (plan_type api active el) (\<lambda>child.
               if k = KArray
               then mk_node (wrapper_node NArray (''dense Array<'' @ cn_expected child @ ''>'') child)
               else mk_node (wrapper_node NNullable (cn_expected child @ '' or null'') child)))
      else case i of
        None \<Rightarrow> Inl PlanAssertion
      | Some type_id \<Rightarrow>
          (case declaration_map api type_id of
             None \<Rightarrow> Inl (PlanUnknownType type_id)
           | Some (EnumDecl d) \<Rightarrow>
               if k \<noteq> KEnumRef then Inl NonEnumReference
               else mk_node (named_node NEnum (e_name d) (e_type_id d) (e_constants d) [])
           | Some (ObjectDecl d) \<Rightarrow>
               if k \<noteq> KObjectRef then Inl NonObjectReference
               else mk_node (named_node NObject (o_name d) (o_type_id d) [] [])
           | Some (ValueDecl d) \<Rightarrow>
               if k \<noteq> KValueRef then Inl NonValueReference
               else if v_type_id d \<in> set active then Inl (RecursiveValue (active @ [v_type_id d]))
               else ebind (emap (\<lambda>f. ebind (plan_type api (active @ [v_type_id d]) (f_type f)) (\<lambda>n.
                       Inr (f_name f, n))) (v_fields d)) (\<lambda>fs.
                    mk_node (named_node NValue (v_name d) (v_type_id d) [] fs))))"
  by pat_completeness auto
termination plan_type
proof (relation "measures [\<lambda>(api, active, t). card (declared_ids api - set active), \<lambda>(api, active, t). size t]",
    goal_cases)
  case 1
  then show ?case by simp
next
  case (2 api active k s i e el)
  then show ?case by simp
next
  case (3 api active k s i e type_id d v f)
  then have "v_type_id v \<in> declared_ids api" using declared_idI declaration_map_in(2) by fastforce
  with 3 have "card (declared_ids api - insert (v_type_id v) (set active)) < card (declared_ids api - set active)"
    by (intro card_insert_less) auto
  then show ?case by simp
qed

declare plan_type.simps [simp del]

definition plan_type_conversion :: "semantic_api \<Rightarrow> sem_type \<Rightarrow> plan_error + conv_node" where
  "plan_type_conversion api t = plan_type api [] t"

section \<open>Plans of bindings, constructors and fields\<close>

record parameter_conversion =
  pc_name :: string
  pc_type :: sem_type
  pc_node :: conv_node

record binding_plan =
  bp_binding :: string
  bp_parameters :: "parameter_conversion list"
  bp_result_type :: sem_type
  bp_result :: conv_node
  bp_limits :: conversion_limits

record constructor_plan =
  kp_type_id :: string
  kp_name :: string
  kp_parameters :: "parameter_conversion list"
  kp_limits :: conversion_limits

record field_plan =
  fp_field :: string
  fp_owner :: string
  fp_name :: string
  fp_mutable :: bool
  fp_node :: conv_node

record api_plan =
  ap_bindings :: "binding_plan list"
  ap_constructors :: "constructor_plan list"
  ap_fields :: "field_plan list"
  ap_limits :: conversion_limits

definition check_binding_plan :: "binding_plan \<Rightarrow> plan_error + unit" where
  "check_binding_plan p =
     ebind (raise_if (bp_binding p = []) EmptyPlanIdentity) (\<lambda>_.
     raise_if (\<not> distinct (map pc_name (bp_parameters p))) DuplicatePlanParameters)"

definition validate_plan_binding :: "binding_plan \<Rightarrow> semantic_binding \<Rightarrow> plan_error + unit" where
  "validate_plan_binding p b =
     ebind (raise_if (b_id b \<noteq> bp_binding p) OtherBinding) (\<lambda>_.
     ebind (raise_if (map pc_name (bp_parameters p) \<noteq> map p_name (b_parameters b)) ParameterOrder) (\<lambda>_.
     raise_if (map pc_type (bp_parameters p) \<noteq> map p_type (b_parameters b) \<or> bp_result_type p \<noteq> b_result b)
       SignatureMismatch))"

definition plan_parameter :: "semantic_api \<Rightarrow> semantic_parameter \<Rightarrow> plan_error + parameter_conversion" where
  "plan_parameter api p =
     ebind (plan_type api [] (p_type p)) (\<lambda>n. Inr \<lparr>pc_name = p_name p, pc_type = p_type p, pc_node = n\<rparr>)"

definition plan_binding_conversion ::
    "semantic_api \<Rightarrow> conversion_limits \<Rightarrow> semantic_binding \<Rightarrow> plan_error + binding_plan" where
  "plan_binding_conversion api limits b =
     ebind (emap (plan_parameter api) (b_parameters b)) (\<lambda>ps.
     ebind (plan_type api [] (b_result b)) (\<lambda>r.
     let plan = \<lparr>bp_binding = b_id b, bp_parameters = ps, bp_result_type = b_result b, bp_result = r,
                 bp_limits = limits\<rparr> in
     ebind (check_binding_plan plan) (\<lambda>_.
     ebind (validate_plan_binding plan b) (\<lambda>_. Inr plan))))"

definition plan_field :: "semantic_api \<Rightarrow> semantic_field \<Rightarrow> plan_error + field_plan" where
  "plan_field api f =
     ebind (plan_type api [] (f_type f)) (\<lambda>n. Inr
       \<lparr>fp_field = f_id f, fp_owner = f_owner f, fp_name = f_name f, fp_mutable = f_mutable f, fp_node = n\<rparr>)"

text \<open>One round of the loop over declarations: a constructor plan, then the field plans.\<close>

definition plan_constructor ::
    "semantic_api \<Rightarrow> conversion_limits \<Rightarrow> semantic_declaration \<Rightarrow> plan_error + constructor_plan list" where
  "plan_constructor api limits d =
     (case d of
        ObjectDecl ob \<Rightarrow>
          (case o_constructor ob of
             None \<Rightarrow> Inr []
           | Some k \<Rightarrow> ebind (emap (plan_parameter api) (k_parameters k)) (\<lambda>ps. Inr
               [\<lparr>kp_type_id = o_type_id ob, kp_name = o_name ob, kp_parameters = ps, kp_limits = limits\<rparr>]))
      | _ \<Rightarrow> Inr [])"

definition plan_declaration ::
    "semantic_api \<Rightarrow> conversion_limits \<Rightarrow> semantic_declaration \<Rightarrow>
     plan_error + constructor_plan list \<times> field_plan list" where
  "plan_declaration api limits d =
     ebind (plan_constructor api limits d) (\<lambda>ks.
     ebind (emap (plan_field api) (decl_fields d)) (\<lambda>fs. Inr (ks, fs)))"

definition planned_bindings :: "semantic_api \<Rightarrow> semantic_binding list" where
  "planned_bindings api = a_functions api @ concat (map decl_methods (a_declarations api))"

definition plan_api_conversion :: "semantic_api \<Rightarrow> conversion_limits \<Rightarrow> plan_error + api_plan" where
  "plan_api_conversion api limits =
     ebind (emap (plan_declaration api limits) (a_declarations api)) (\<lambda>ds.
     ebind (emap (plan_binding_conversion api limits) (sort_key b_id (planned_bindings api))) (\<lambda>bs. Inr
       \<lparr>ap_bindings = bs,
        ap_constructors = sort_key kp_type_id (concat (map fst ds)),
        ap_fields = sort_key fp_field (concat (map snd ds)),
        ap_limits = limits\<rparr>))"

section \<open>Plan manifests\<close>

fun node_manifest :: "conv_node \<Rightarrow> json" where
  "node_manifest (ConvNode k expected s i name constants fs e) = JObj
     ([(''kind'', JStr (conversion_kind_name k)), (''expected'', JStr expected)] @
      (case s of None \<Rightarrow> [] | Some sc \<Rightarrow> [(''scalar'', JStr (scalar_name sc))]) @
      (case i of None \<Rightarrow> [] | Some type_id \<Rightarrow>
         [(''type_id'', JStr type_id), (''public_name'', case name of None \<Rightarrow> JNull | Some n \<Rightarrow> JStr n)]) @
      (if constants = [] then [] else [(''constants'', JArr (map JStr constants))]) @
      (if fs = [] then []
       else [(''fields'', JArr (map (\<lambda>(n, child). JObj [(''name'', JStr n), (''node'', node_manifest child)]) fs))]) @
      (case e of None \<Rightarrow> [] | Some el \<Rightarrow> [(''element'', node_manifest el)]))"

definition limits_manifest :: "conversion_limits \<Rightarrow> json" where
  "limits_manifest l = JObj (map (\<lambda>(n, v). (n, JInt v)) (limit_entries l))"

definition parameter_plan_manifest :: "parameter_conversion \<Rightarrow> json" where
  "parameter_plan_manifest p = JObj
     [(''name'', JStr (pc_name p)), (''semantic_type'', type_manifest (pc_type p)),
      (''node'', node_manifest (pc_node p))]"

definition binding_plan_manifest :: "binding_plan \<Rightarrow> json" where
  "binding_plan_manifest p = JObj
     [(''binding_id'', JStr (bp_binding p)),
      (''parameters'', JArr (map parameter_plan_manifest (bp_parameters p))),
      (''result_type'', type_manifest (bp_result_type p)), (''result'', node_manifest (bp_result p)),
      (''limits'', limits_manifest (bp_limits p))]"

definition constructor_plan_manifest :: "constructor_plan \<Rightarrow> json" where
  "constructor_plan_manifest p = JObj
     [(''type_id'', JStr (kp_type_id p)), (''public_name'', JStr (kp_name p)),
      (''parameters'', JArr (map parameter_plan_manifest (kp_parameters p))),
      (''limits'', limits_manifest (kp_limits p))]"

definition field_plan_manifest :: "field_plan \<Rightarrow> json" where
  "field_plan_manifest p = JObj
     [(''field_id'', JStr (fp_field p)), (''owner_id'', JStr (fp_owner p)), (''public_name'', JStr (fp_name p)),
      (''mutable'', JBool (fp_mutable p)), (''node'', node_manifest (fp_node p))]"

definition api_plan_manifest :: "api_plan \<Rightarrow> json" where
  "api_plan_manifest p = JObj
     [(''schema_version'', JStr ''1.0''), (''kind'', JStr ''supernote_module_conversion_plan''),
      (''limits'', limits_manifest (ap_limits p)),
      (''bindings'', JArr (map binding_plan_manifest (ap_bindings p))),
      (''constructors'', JArr (map constructor_plan_manifest (ap_constructors p))),
      (''fields'', JArr (map field_plan_manifest (ap_fields p)))]"

end
