(* ===== verification/Conversion_Plan_Props.thy ===== *)
theory Conversion_Plan_Props
  imports Conversion_Plan Semantic_Manifest_Props Public_Api_Props
begin

text \<open>
  Planning is total on valid APIs, and the planned tree mirrors the type: the acyclicity
  \<open>SemanticApi\<close> checks is what makes \<open>active_values\<close> never repeat.
\<close>

section \<open>Valid APIs\<close>

lemma identifier_nonempty: "is_identifier s \<Longrightarrow> s \<noteq> []" by (cases s) auto

lemma valid_declaration_id: "valid_declaration d \<Longrightarrow> decl_type_id d \<noteq> []"
  by (cases d)
    (auto simp: check_enum_def check_value_def check_object_def check_header_def semantic_type_id_def
      split: if_splits)

lemma valid_api_well_typed: "valid_api api \<Longrightarrow> well_typed api"
  using valid_api_types valid_declaration_id check_api_Inr semantic_ids_distinctD
  by (auto simp: well_typed_def typed_api_def valid_api_def api_ok_def list_all_iff)

lemma valid_apiD:
  assumes "valid_api api"
  shows "typed_api api" "acyclic {(a, b). value_edge api a b}"
    "d \<in> set (a_declarations api) \<Longrightarrow> valid_declaration d"
  using valid_api_well_typed [OF assms] assms check_api_Inr
  by (auto simp: well_typed_def valid_api_def list_all_iff api_ok_def)

section \<open>Well-formed nodes and the tree of a type\<close>

inductive planned :: "semantic_api \<Rightarrow> sem_type \<Rightarrow> conv_node \<Rightarrow> bool" for api where
  planned_void: "planned api t_void void_node"
| planned_scalar: "planned api (t_scalar s) (scalar_node (scalar_expected s) s)"
| planned_array: "planned api e n \<Longrightarrow>
     planned api (SemType KArray None None (Some e)) (wrapper_node NArray (''dense Array<'' @ cn_expected n @ ''>'') n)"
| planned_nullable: "planned api e n \<Longrightarrow>
     planned api (SemType KNullable None None (Some e)) (wrapper_node NNullable (cn_expected n @ '' or null'') n)"
| planned_enum: "declaration_map api i = Some (EnumDecl d) \<Longrightarrow>
     planned api (SemType KEnumRef None (Some i) None) (named_node NEnum (e_name d) i (e_constants d) [])"
| planned_object: "declaration_map api i = Some (ObjectDecl d) \<Longrightarrow>
     planned api (SemType KObjectRef None (Some i) None) (named_node NObject (o_name d) i [] [])"
| planned_value: "declaration_map api i = Some (ValueDecl d) \<Longrightarrow>
     list_all2 (\<lambda>f nf. fst nf = f_name f \<and> planned api (f_type f) (snd nf)) (v_fields d) fs \<Longrightarrow>
     planned api (SemType KValueRef None (Some i) None) (named_node NValue (v_name d) i [] fs)"

lemma node_ok_expected: "node_ok n \<Longrightarrow> cn_expected n \<noteq> []"
  by (cases n) (simp add: check_node_def)

lemma no_text_Some [simp]: "no_text (Some t) \<longleftrightarrow> t = []" "no_text None"
  by (auto simp: no_text_def)

lemma scalar_expected_nonempty [simp]: "scalar_expected s \<noteq> []" by (cases s) auto

lemma node_checks [simp]:
  "check_node void_node = Inr ()"
  "x \<noteq> [] \<Longrightarrow> check_node (scalar_node x s) = Inr ()"
  "x \<noteq> [] \<Longrightarrow> k \<in> {NArray, NNullable} \<Longrightarrow> check_node (wrapper_node k x e) = Inr ()"
  "i \<noteq> [] \<Longrightarrow> n \<noteq> [] \<Longrightarrow> cs \<noteq> [] \<Longrightarrow> check_node (named_node NEnum n i cs []) = Inr ()"
  "i \<noteq> [] \<Longrightarrow> n \<noteq> [] \<Longrightarrow> check_node (named_node NObject n i [] []) = Inr ()"
  "i \<noteq> [] \<Longrightarrow> n \<noteq> [] \<Longrightarrow> fs \<noteq> [] \<Longrightarrow> check_node (named_node NValue n i [] fs) = Inr ()"
  by (auto simp: check_node_def void_node_def scalar_node_def wrapper_node_def named_node_def)

lemma mk_node_Inr [simp]: "check_node n = Inr () \<Longrightarrow> mk_node n = Inr n" by (simp add: mk_node_def)

lemma node_ok_made [simp]:
  "node_ok void_node" "x \<noteq> [] \<Longrightarrow> node_ok (scalar_node x s)"
  "x \<noteq> [] \<Longrightarrow> k \<in> {NArray, NNullable} \<Longrightarrow> node_ok (wrapper_node k x e) \<longleftrightarrow> node_ok e"
  "node_ok (named_node k n i cs fs) \<longleftrightarrow> check_node (named_node k n i cs fs) = Inr () \<and>
     distinct (map fst fs) \<and> (\<forall>nf \<in> set fs. node_ok (snd nf))"
  using node_checks(1) node_checks(2) [of x s] node_checks(3) [of x k e]
  unfolding void_node_def scalar_node_def wrapper_node_def named_node_def by auto

section \<open>Totality\<close>

text \<open>Every value on the path to a type comes before the values the type mentions.\<close>

definition above :: "semantic_api \<Rightarrow> string list \<Rightarrow> sem_type \<Rightarrow> bool" where
  "above api active t \<longleftrightarrow>
     (\<forall>a \<in> set active. \<forall>r \<in> set (value_refs t). (a, r) \<in> {(a, b). value_edge api a b}\<^sup>+)"

lemma valid_value:
  assumes "valid_api api" "ValueDecl v \<in> set (a_declarations api)"
  shows "v_type_id v \<noteq> []" "v_name v \<noteq> []" "v_fields v \<noteq> []" "distinct (map f_name (v_fields v))"
    "f \<in> set (v_fields v) \<Longrightarrow> sound_type api (f_type f)"
proof -
  have d: "valid_declaration (ValueDecl v)" using assms valid_apiD(3) by blast
  show "v_type_id v \<noteq> []" using valid_declaration_id [OF d] by simp
  from d show "v_name v \<noteq> []" "v_fields v \<noteq> []" "distinct (map f_name (v_fields v))"
    by (auto simp: check_value_def check_header_def check_fields_def identifier_nonempty)
  show "sound_type api (f_type f)" if "f \<in> set (v_fields v)"
    using assms that
    by (intro sound_typeI [OF valid_apiD(1)]) (force simp: all_api_types_def declaration_types_def)+
qed

lemma valid_names:
  assumes "valid_api api" "d \<in> set (a_declarations api)"
  shows "decl_type_id d \<noteq> []" "decl_name d \<noteq> []" "d = EnumDecl e \<Longrightarrow> e_constants e \<noteq> []"
proof -
  have d: "valid_declaration d" using assms valid_apiD(3) by blast
  show "decl_type_id d \<noteq> []" using valid_declaration_id [OF d] .
  from d show "decl_name d \<noteq> []" "d = EnumDecl e \<Longrightarrow> e_constants e \<noteq> []"
    by (cases d; auto simp: check_value_def check_enum_def check_object_def check_header_def
        identifier_nonempty)+
qed

lemma sound_named:
  assumes "typed_api api" "sound_type api (SemType k s (Some i) e)" "is_named k"
  shows "\<exists>d. declaration_map api i = Some d \<and> expected_declaration k = Some (decl_kind d)"
proof -
  from assms(2) have r: "resolves api (SemType k s (Some i) e)" by (cases e) (auto simp: sound_type_def)
  from assms(3) obtain dk where "expected_declaration k = Some dk" by (cases k) (auto simp: is_named_def)
  with r assms(1) declaration_map_Some show ?thesis
    by (fastforce simp: resolves_def node_id_def typed_api_def)
qed

lemma plan_type_total:
  "valid_api api \<Longrightarrow> sound_type api t \<Longrightarrow> above api active t \<Longrightarrow>
     \<exists>n. plan_type api active t = Inr n \<and> node_ok n \<and> planned api t n"
proof (induction api active t rule: plan_type.induct)
  case (1 api active k s i e)
  note simps = plan_type.simps and v = "1.prems"(1)
  from "1.prems"(2) have c: "check_type (SemType k s i e) = Inr ()" by (cases e) (auto simp: sound_type_def)
  consider "k = KVoid" | "k = KScalar" | "is_wrapper k" | "is_named k"
    by (cases k) (auto simp: is_wrapper_def is_named_def)
  then show ?case
  proof cases
    case 1
    with c have "s = None" "i = None" "e = None" by (simp_all add: check_type_cases)
    with 1 planned_void [of api] show ?thesis by (simp add: simps t_void_def)
  next
    case 2
    with c obtain sc where "s = Some sc" "i = None" "e = None" by (auto simp: check_type_cases)
    with 2 planned_scalar [of api sc] show ?thesis by (simp add: simps t_scalar_def)
  next
    case 3
    with c obtain el where el: "e = Some el" "s = None" "i = None"
      by (cases k) (auto simp: check_type_cases is_wrapper_def)
    have k: "k \<noteq> KVoid" "k \<noteq> KScalar" "k = KArray \<or> k = KNullable" using 3 by (auto simp: is_wrapper_def)
    have "sound_type api el" "above api active el"
      using "1.prems"(2,3) el(1) k(3) by (auto simp: sound_type_def above_def value_refs_def)
    from "1.IH"(1) [OF k(1,2) 3 el(1) v this] obtain n where n: "plan_type api active el = Inr n" "node_ok n"
      "planned api el n" by blast
    with node_ok_expected [OF n(2)] show ?thesis
      using 3 k el planned_array [OF n(3)] planned_nullable [OF n(3)] by (auto simp: simps)
  next
    case 4
    then have k: "k \<noteq> KVoid" "k \<noteq> KScalar" "\<not> is_wrapper k" by (auto simp: is_named_def is_wrapper_def)
    from c 4 obtain j where j: "i = Some j" "s = None" "e = None"
      by (cases k) (auto simp: check_type_cases is_named_def)
    from "1.prems"(2) have "sound_type api (SemType k s (Some j) e)" by (simp only: j)
    with sound_named valid_apiD(1) [OF v] \<open>is_named k\<close> obtain d where
      d: "declaration_map api j = Some d" "expected_declaration k = Some (decl_kind d)" by blast
    note di = declaration_map_in [OF d(1)]
    note names = valid_names [OF v di(1)]
    show ?thesis
    proof (cases d)
      case (EnumDecl ed)
      with d(2) have "k = KEnumRef" by (cases k) auto
      with EnumDecl d(1) di names planned_enum [of api j ed] show ?thesis by (simp add: simps k j is_wrapper_def)
    next
      case (ObjectDecl ob)
      with d(2) have "k = KObjectRef" by (cases k) auto
      with ObjectDecl d(1) di names planned_object [of api j ob] show ?thesis by (simp add: simps k j is_wrapper_def)
    next
      case (ValueDecl vd)
      with d(2) have kv: "k = KValueRef" by (cases k) auto
      have vd: "ValueDecl vd \<in> set (a_declarations api)" "v_type_id vd = j" using di ValueDecl by auto
      note val = valid_value [OF v vd(1)]
      have "j \<in> set (value_refs (SemType k s i e))" by (simp add: j kv value_refs_def node_id_def)
      then have path: "(a, j) \<in> {(a, b). value_edge api a b}\<^sup>+" if "a \<in> set active" for a
        using "1.prems"(3) that by (simp add: above_def)
      have fresh: "v_type_id vd \<notin> set active"
        using path valid_apiD(2) [OF v] vd(2) by (auto simp: acyclic_def)
      have "\<exists>n. plan_type api (active @ [v_type_id vd]) (f_type f) = Inr n \<and> node_ok n \<and> planned api (f_type f) n"
        if f: "f \<in> set (v_fields vd)" for f
      proof (rule "1.IH"(2) [OF k j(1) d(1) ValueDecl _ fresh f v])
        show "\<not> k \<noteq> KValueRef" using kv by simp
        show "sound_type api (f_type f)" using val(5) [OF f] .
        have "(j, r) \<in> {(a, b). value_edge api a b}" if "r \<in> set (value_refs (f_type f))" for r
          using that f vd by (auto simp: value_edge_def value_dependencies_def)
        then show "above api (active @ [v_type_id vd]) (f_type f)"
          using path vd(2) by (auto simp: above_def intro: trancl_into_trancl)
      qed
      then obtain g where g: "\<And>f. f \<in> set (v_fields vd) \<Longrightarrow>
          plan_type api (active @ [v_type_id vd]) (f_type f) = Inr (g f) \<and> node_ok (g f) \<and> planned api (f_type f) (g f)"
        by metis
      let ?fs = "map (\<lambda>f. (f_name f, g f)) (v_fields vd)"
      have fs: "emap (\<lambda>f. ebind (plan_type api (active @ [v_type_id vd]) (f_type f)) (\<lambda>n. Inr (f_name f, n)))
          (v_fields vd) = Inr ?fs"
        by (rule emap_all) (simp add: g)
      have ok: "check_node (named_node NValue (v_name vd) j [] ?fs) = Inr ()"
        using val(1,2,3) vd(2) by (intro node_checks(6)) auto
      have "planned api (SemType KValueRef None (Some j) None) (named_node NValue (v_name vd) j [] ?fs)"
        using d(1) ValueDecl g by (intro planned_value [of api j vd]) (auto simp: list_all2_map2 list_all2_same)
      moreover have "node_ok (named_node NValue (v_name vd) j [] ?fs)"
        using ok g val(4) by (auto simp: comp_def)
      moreover have "plan_type api active (SemType k s i e) = Inr (named_node NValue (v_name vd) j [] ?fs)"
        using d(1) ValueDecl kv fresh fs ok vd(2) by (simp add: simps j is_wrapper_def)
      ultimately show ?thesis using kv j by blast
    qed
  qed
qed

lemma planned_unique: "planned api t n \<Longrightarrow> planned api t m \<Longrightarrow> n = m"
proof (induction arbitrary: m rule: planned.induct)
  case (planned_value i d fs)
  from planned_value.prems obtain gs where gs: "m = named_node NValue (v_name d) i [] gs"
    "list_all2 (\<lambda>f nf. fst nf = f_name f \<and> planned api (f_type f) (snd nf)) (v_fields d) gs"
    using planned_value.hyps(1) by (cases rule: planned.cases; auto simp: t_void_def t_scalar_def)
  have "fs = gs"
  proof (rule nth_equalityI)
    show "length fs = length gs" using planned_value.IH gs(2) by (simp add: list_all2_conv_all_nth)
    fix j assume "j < length fs"
    with planned_value.IH gs(2) show "fs ! j = gs ! j"
      by (simp add: list_all2_conv_all_nth prod_eq_iff)
  qed
  with gs(1) show ?case by simp
next
  case planned_void
  then show ?case by (cases rule: planned.cases; simp add: t_void_def t_scalar_def)
next
  case (planned_scalar s)
  then show ?case by (cases rule: planned.cases; simp add: t_void_def t_scalar_def)
next
  case (planned_array e n)
  from planned_array.prems obtain n' where
    "m = wrapper_node NArray (''dense Array<'' @ cn_expected n' @ ''>'') n'" "planned api e n'"
    by (cases rule: planned.cases; simp add: t_void_def t_scalar_def)
  with planned_array.IH show ?case by blast
next
  case (planned_nullable e n)
  from planned_nullable.prems obtain n' where
    "m = wrapper_node NNullable (cn_expected n' @ '' or null'') n'" "planned api e n'"
    by (cases rule: planned.cases; simp add: t_void_def t_scalar_def)
  with planned_nullable.IH show ?case by blast
next
  case (planned_enum i d)
  from planned_enum.prems planned_enum.hyps show ?case
    by (cases rule: planned.cases; simp add: t_void_def t_scalar_def)
next
  case (planned_object i d)
  from planned_object.prems planned_object.hyps show ?case
    by (cases rule: planned.cases; simp add: t_void_def t_scalar_def)
qed

section \<open>The plan of an API\<close>

definition parameter_planned :: "semantic_api \<Rightarrow> semantic_parameter \<Rightarrow> parameter_conversion \<Rightarrow> bool" where
  "parameter_planned api p pc \<longleftrightarrow> pc_name pc = p_name p \<and> pc_type pc = p_type p \<and>
     planned api (p_type p) (pc_node pc) \<and> node_ok (pc_node pc)"

definition binding_planned :: "semantic_api \<Rightarrow> conversion_limits \<Rightarrow> semantic_binding \<Rightarrow> binding_plan \<Rightarrow> bool" where
  "binding_planned api limits b p \<longleftrightarrow> bp_binding p = b_id b \<and> bp_limits p = limits \<and>
     list_all2 (parameter_planned api) (b_parameters b) (bp_parameters p) \<and>
     bp_result_type p = b_result b \<and> planned api (b_result b) (bp_result p) \<and> node_ok (bp_result p)"

definition field_planned :: "semantic_api \<Rightarrow> semantic_field \<Rightarrow> field_plan \<Rightarrow> bool" where
  "field_planned api f p \<longleftrightarrow> fp_field p = f_id f \<and> fp_owner p = f_owner f \<and> fp_name p = f_name f \<and>
     fp_mutable p = f_mutable f \<and> planned api (f_type f) (fp_node p) \<and> node_ok (fp_node p)"

lemma plan_in_api:
  assumes "valid_api api" "t \<in> set (all_api_types api)"
  obtains n where "plan_type api [] t = Inr n" "node_ok n" "planned api t n"
  using plan_type_total [OF assms(1) sound_typeI [OF valid_apiD(1) [OF assms(1)] assms(2)], of "[]"]
  by (auto simp: above_def)

lemma plan_parameters:
  assumes "valid_api api" "set (map p_type ps) \<subseteq> set (all_api_types api)"
  shows "\<exists>pcs. emap (plan_parameter api) ps = Inr pcs \<and> list_all2 (parameter_planned api) ps pcs"
proof -
  have one: "\<exists>pc. plan_parameter api p = Inr pc \<and> parameter_planned api p pc" if "p \<in> set ps" for p
  proof -
    from that assms(2) have "p_type p \<in> set (all_api_types api)" by auto
    from plan_in_api [OF assms(1) this] show ?thesis
      by (metis (no_types, lifting) ebind_simps(2) parameter_conversion.select_convs parameter_planned_def plan_parameter_def)
  qed
  then show ?thesis
    by (induction ps) fastforce+
qed

lemma plan_binding:
  assumes v: "valid_api api" and b: "valid_binding b" and t: "set (binding_types b) \<subseteq> set (all_api_types api)"
  shows "\<exists>p. plan_binding_conversion api limits b = Inr p \<and> binding_planned api limits b p"
proof -
  obtain pcs where pcs: "emap (plan_parameter api) (b_parameters b) = Inr pcs"
    "list_all2 (parameter_planned api) (b_parameters b) pcs"
    using plan_parameters [OF v, of "b_parameters b"] t by (auto simp: binding_types_def)
  obtain r where r: "plan_type api [] (b_result b) = Inr r" "node_ok r" "planned api (b_result b) r"
    using plan_in_api [OF v, of "b_result b"] t by (auto simp: binding_types_def)
  from pcs(2) have same: "map pc_name pcs = map p_name (b_parameters b)" "map pc_type pcs = map p_type (b_parameters b)"
    by (induction rule: list_all2_induct) (auto simp: parameter_planned_def)
  have "b_id b \<noteq> []" "distinct (map p_name (b_parameters b))"
    using b by (auto simp: valid_binding_def check_binding_def Let_def)
  then show ?thesis
    using pcs r same by (simp add: plan_binding_conversion_def Let_def check_binding_plan_def
        validate_plan_binding_def binding_planned_def)
qed

lemma emap_planned:
  "(\<And>x. x \<in> set xs \<Longrightarrow> \<exists>y. f x = Inr y \<and> P x y) \<Longrightarrow> \<exists>ys. emap f xs = Inr ys \<and> list_all2 P xs ys"
  by (induction xs) fastforce+

lemma api_binding_types:
  "b \<in> set (planned_bindings api) \<Longrightarrow> set (binding_types b) \<subseteq> set (all_api_types api)"
  by (force simp: planned_bindings_def all_api_types_def declaration_types_def)

lemma valid_planned_binding:
  assumes "valid_api api" "b \<in> set (planned_bindings api)" shows "valid_binding b"
proof -
  have "valid_declaration d \<Longrightarrow> m \<in> set (decl_methods d) \<Longrightarrow> valid_binding m" for d m
    by (cases d) (auto simp: list_all_iff)
  with assms show ?thesis by (auto simp: valid_api_def planned_bindings_def list_all_iff)
qed

definition all_fields :: "semantic_api \<Rightarrow> semantic_field list" where
  "all_fields api = concat (map decl_fields (a_declarations api))"

text \<open>The plan accounts for every binding, in identity order, and for every field.\<close>

definition complete_plan :: "semantic_api \<Rightarrow> conversion_limits \<Rightarrow> api_plan \<Rightarrow> bool" where
  "complete_plan api limits p \<longleftrightarrow>
     list_all2 (binding_planned api limits) (sort_key b_id (planned_bindings api)) (ap_bindings p) \<and>
     (\<exists>fs. list_all2 (field_planned api) (all_fields api) fs \<and> ap_fields p = sort_key fp_field fs)"

lemma plan_constructor_total:
  assumes v: "valid_api api" and d: "d \<in> set (a_declarations api)"
  shows "\<exists>ks. plan_constructor api limits d = Inr ks"
proof (cases "decl_constructor d")
  case None
  then show ?thesis by (cases d) (auto simp: plan_constructor_def)
next
  case (Some k)
  then obtain ob where ob: "d = ObjectDecl ob" "o_constructor ob = Some k" by (cases d) auto
  have "set (map p_type (k_parameters k)) \<subseteq> set (all_api_types api)"
    using object_types_in_api(2) [OF _ ob(2), of api] d ob(1) by (simp add: constructor_types_def)
  from plan_parameters [OF v this] ob show ?thesis by (auto simp: plan_constructor_def)
qed

lemma plan_declaration_total:
  assumes v: "valid_api api" and d: "d \<in> set (a_declarations api)"
  shows "\<exists>kf. plan_declaration api limits d = Inr kf \<and> list_all2 (field_planned api) (decl_fields d) (snd kf)"
proof -
  have "\<exists>fp. plan_field api f = Inr fp \<and> field_planned api f fp" if f: "f \<in> set (decl_fields d)" for f
  proof -
    have "f_type f \<in> set (all_api_types api)"
      using d f by (auto simp: all_api_types_def declaration_types_def)
    from plan_in_api [OF v this] obtain n where
      "plan_type api [] (f_type f) = Inr n" "node_ok n" "planned api (f_type f) n" by blast
    then show ?thesis by (simp add: plan_field_def field_planned_def)
  qed
  from emap_planned [of "decl_fields d" "plan_field api" "field_planned api", OF this]
  show ?thesis using plan_constructor_total [OF v d, of limits] by (auto simp: plan_declaration_def)
qed

lemma api_plan_complete:
  assumes "valid_api api"
  shows "\<exists>p. plan_api_conversion api limits = Inr p \<and> complete_plan api limits p"
proof -
  obtain ds where ds: "emap (plan_declaration api limits) (a_declarations api) = Inr ds"
    "list_all2 (\<lambda>d kf. list_all2 (field_planned api) (decl_fields d) (snd kf)) (a_declarations api) ds"
    using emap_planned [of "a_declarations api" "plan_declaration api limits"
        "\<lambda>d kf. list_all2 (field_planned api) (decl_fields d) (snd kf)", OF plan_declaration_total [OF assms]]
    by blast
  have "\<exists>p. plan_binding_conversion api limits b = Inr p \<and> binding_planned api limits b p"
    if "b \<in> set (sort_key b_id (planned_bindings api))" for b
    using that plan_binding [OF assms valid_planned_binding [OF assms] api_binding_types] by simp
  from emap_planned [of "sort_key b_id (planned_bindings api)" "plan_binding_conversion api limits"
      "binding_planned api limits", OF this] obtain bs where
    bs: "emap (plan_binding_conversion api limits) (sort_key b_id (planned_bindings api)) = Inr bs"
    "list_all2 (binding_planned api limits) (sort_key b_id (planned_bindings api)) bs" by blast
  from ds(2) have "list_all2 (field_planned api) (all_fields api) (concat (map snd ds))"
    unfolding all_fields_def by (induction rule: list_all2_induct) (auto intro: list_all2_appendI)
  with ds bs show ?thesis by (auto simp: plan_api_conversion_def complete_plan_def)
qed

text \<open>
  C19. Every valid API has a conversion plan: planning raises nothing, gives each function and method one
  binding plan, in identity order, whose parameter and result trees are the trees of their types, and
  plans every field.
\<close>

theorem api_plan_total:
  assumes "valid_api api"
  shows "\<exists>p. plan_api_conversion api limits = Inr p \<and> complete_plan api limits p"
  using assms by (rule api_plan_complete)

theorem api_plan_total_witness:
  "\<exists>p. plan_api_conversion sample_public default_limits = Inr p \<and> complete_plan sample_public default_limits p"
proof -
  have "valid_api sample_public" by code_simp
  then show ?thesis by (rule api_plan_total)
qed

end
