(* ===== verification/Frontend.thy ===== *)
theory Frontend
  imports Semantic_Manifest_Props Semantic_Merge_Props Conversion_Plan_Props Source_Intent
begin

text \<open>
  What a language frontend owes the rest of the generator.  A frontend projects the declarations it
  retained to a semantic API.  Its contract, the locale \<open>frontend\<close>, is that the API is valid and its
  declarations have one projection, to the frontend's backend.  From the contract follow the facts every
  consumer of an API uses, and for a pair of frontends the same facts for the merged API.  The C++ and
  the JVM projection interpret the contract.
\<close>

section \<open>Records that frontends build\<close>

lemma role_capabilities_valid [simp]: "valid_capabilities (capabilities_for_role r)"
  by (cases r) (simp_all add: valid_capabilities_def check_capabilities_def)

lemma mk_binding_valid:
  assumes "mk_binding i k n c e ps r p oi on sc = Inr b" "list_all valid_parameter ps" "wf_type r"
    "valid_source p" "valid_capabilities c"
  shows "valid_binding b"
proof -
  let ?b = "\<lparr>b_id = i, b_kind = k, b_name = n, b_capabilities = c, b_execution = e, b_parameters = ps,
      b_result = r, b_source = p, b_owner_id = oi, b_owner_name = on, b_scope = sc\<rparr>"
  from assms(1) have b: "check_binding ?b = Inr ()" "b = infer_scope ?b"
    by (auto simp: mk_binding_def Let_def)
  from b(1) have "check_binding (infer_scope ?b) = Inr ()"
    by (cases sc) (auto simp: check_binding_def infer_scope_def Let_def)
  with b(2) assms show ?thesis
    by (cases sc) (auto simp: valid_binding_def infer_scope_def)
qed

lemma mk_constructor_valid:
  "mk_constructor p ps = Inr k \<Longrightarrow> valid_source p \<Longrightarrow> list_all valid_parameter ps \<Longrightarrow> valid_constructor k"
  by (auto simp: mk_constructor_def valid_constructor_def Let_def)

lemma mk_projection_valid: "mk_projection b p = Inr x \<Longrightarrow> valid_source p \<Longrightarrow> valid_projection x"
  by (auto simp: mk_projection_def valid_projection_def Let_def)

lemma mk_projection_fields: "mk_projection b p = Inr x \<Longrightarrow> pr_backend x = b \<and> pr_source x = p"
  by (auto simp: mk_projection_def Let_def)

lemma infer_scope_fields [simp]:
  "b_source (infer_scope b) = b_source b" "b_name (infer_scope b) = b_name b"
  "b_parameters (infer_scope b) = b_parameters b" "b_result (infer_scope b) = b_result b"
  "b_kind (infer_scope b) = b_kind b" "b_capabilities (infer_scope b) = b_capabilities b"
  "b_execution (infer_scope b) = b_execution b" "b_id (infer_scope b) = b_id b"
  by (simp_all add: infer_scope_def split: option.splits)

lemma mk_binding_fields:
  "mk_binding i k n c e ps r p oi on sc = Inr b \<Longrightarrow>
     b_id b = i \<and> b_kind b = k \<and> b_name b = n \<and> b_capabilities b = c \<and> b_execution b = e \<and>
     b_parameters b = ps \<and> b_result b = r \<and> b_source b = p \<and> (sc \<noteq> None \<longrightarrow> b_scope b = sc)"
  by (cases sc) (auto simp: mk_binding_def infer_scope_def Let_def)

lemma wrapper_wf:
  assumes "array_of e = Inr t \<or> nullable_of e = Inr t" "wf_type e" shows "wf_type t \<and> \<not> is_void t"
  using assms by (auto simp: array_of_def nullable_of_def mk_type_Inr is_void_def)

lemma reference_wf:
  assumes "object_ref i = Inr t \<or> value_ref i = Inr t \<or> enum_ref i = Inr t"
  shows "wf_type t \<and> is_named (st_kind t)"
  using assms by (auto simp: object_ref_def value_ref_def enum_ref_def mk_type_Inr is_named_def)

text \<open>The intents of types and owners were built by \<open>SourceIntent\<close>, which lets a class carry a type
  marker only.\<close>

definition built_class_intent :: "source_intent \<Rightarrow> bool" where
  "built_class_intent i \<longleftrightarrow> mk_intent TgClass (si_occurrences i) = Inr i"

lemma built_intent_role:
  assumes "built_class_intent i" shows "intent_role i = RoleOrdinary"
proof -
  have "marker_set i \<in> {{}, {MObject}, {MValue}}"
    using assms by (auto simp: built_class_intent_def mk_intent_def Let_def marker_set_def intent_markers_def
        target_markers_check_def split: option.splits)
  then show ?thesis by (auto simp: intent_role_def)
qed

lemma list_all2_right: "list_all2 P xs ys \<Longrightarrow> y \<in> set ys \<Longrightarrow> \<exists>x \<in> set xs. P x y"
  by (induction rule: list_all2_induct) auto

lemma list_all2_sources:
  "list_all2 P xs ys \<Longrightarrow> (\<And>x y. x \<in> set xs \<Longrightarrow> P x y \<Longrightarrow> g y = f x) \<Longrightarrow> map g ys = map f xs"
  by (induction rule: list_all2_induct) auto

lemma public_role [simp]: "bc_public (capabilities_for_role r) \<longleftrightarrow> r = RoleExported"
  by (cases r) simp_all

text \<open>A projected declaration is valid and has exactly one projection, to its frontend's backend.\<close>

definition declared_by :: "backend_family \<Rightarrow> source_provenance \<Rightarrow> semantic_declaration \<Rightarrow> bool" where
  "declared_by bf p d \<longleftrightarrow> valid_declaration d \<and> decl_projections d = [\<lparr>pr_backend = bf, pr_source = p\<rparr>]"

lemma declared_by_valid: "declared_by bf p d \<Longrightarrow> valid_declaration d \<and> map pr_backend (decl_projections d) = [bf]"
  by (simp add: declared_by_def)

section \<open>Merging keeps validity\<close>

lemma merge_declarations_valid:
  assumes "merge_declarations d1 d2 = Inr m" "valid_declaration d1" "valid_declaration d2"
  shows "valid_declaration m"
proof -
  from assms(1) obtain ex where ex: "merge_projections (decl_type_id d1) (decl_projections d1)
      (decl_projections d2) = Inr ex" "decl_kind d1 = decl_kind d2" "decl_kind d1 \<noteq> DkObject"
    and m: "(case d1 of EnumDecl e \<Rightarrow> mk_enum (e\<lparr>e_projections := sort_key (backend_name \<circ> pr_backend) ex\<rparr>)
      | ValueDecl v \<Rightarrow> mk_value (v\<lparr>v_projections := sort_key (backend_name \<circ> pr_backend) ex\<rparr>)
      | ObjectDecl _ \<Rightarrow> Inl (ObjectsDoNotMerge (decl_type_id d1))) = Inr m"
    by (auto simp: merge_declarations_def Let_def split: if_splits)
  have "list_all valid_projection (decl_projections d1)" "list_all valid_projection (decl_projections d2)"
    using assms(2,3) ex(2,3) by (cases d1; cases d2; simp)+
  then have "list_all valid_projection ex"
    using merge_projections_set [OF ex(1)] by (auto simp: list_all_iff)
  with m assms(2) show ?thesis
    by (cases d1) (auto simp: mk_enum_def mk_value_def list_all_iff)
qed

lemma merge_all_valid:
  "merge_all acc ds = Inr out \<Longrightarrow> list_all valid_declaration acc \<Longrightarrow> list_all valid_declaration ds \<Longrightarrow>
     list_all valid_declaration out"
proof (induction acc ds rule: merge_all.induct)
  case (2 acc d ds)
  from "2.prems"(1) obtain acc' where a: "merge_insert acc d = Inr acc'" "merge_all acc' ds = Inr out" by auto
  have "list_all valid_declaration acc'"
  proof (cases "find (\<lambda>p. decl_type_id p = decl_type_id d) acc")
    case None
    with a(1) "2.prems" show ?thesis by (auto simp: merge_insert_def)
  next
    case (Some q)
    then have "q \<in> set acc" by (auto simp: find_Some_iff)
    moreover from a(1) Some obtain m where m: "merge_declarations q d = Inr m"
      "acc' = map (\<lambda>p. if decl_type_id p = decl_type_id d then m else p) acc"
      by (auto simp: merge_insert_def)
    ultimately have "valid_declaration m"
      using merge_declarations_valid [OF m(1)] "2.prems" by (auto simp: list_all_iff)
    with m(2) "2.prems"(2) show ?thesis by (auto simp: list_all_iff)
  qed
  with "2.IH" [OF a] "2.prems"(3) show ?case by simp
qed simp

lemma merge_valid:
  assumes "merge_semantic_apis apis = Inr api" "list_all valid_api apis" shows "valid_api api"
proof -
  from assms(1) obtain ds where ds: "merge_all [] (concat (map a_declarations apis)) = Inr ds"
    and api: "mk_api (concat (map a_functions apis)) (concat (map a_classes apis)) ds = Inr api"
    by (auto simp: merge_semantic_apis_def)
  have "list_all valid_declaration (concat (map a_declarations apis))"
    "list_all valid_binding (concat (map a_functions apis))" "list_all valid_class (concat (map a_classes apis))"
    using assms(2) by (auto simp: list_all_iff valid_api_def)
  with merge_all_valid [OF ds] api show ?thesis
    by (auto simp: mk_api_def valid_api_def Let_def)
qed

section \<open>Types of one backend can cross\<close>

lemma lookup_rev:
  assumes "distinct (map decl_type_id ds)" "d \<in> set ds" shows "lookup (rev ds) (decl_type_id d) = Some d"
  using dict_by_distinct [OF assms] by (simp add: lookup_def dict_by_def)

lemma lookup_Some: "lookup ds i = Some d \<Longrightarrow> d \<in> set ds \<and> decl_type_id d = i"
  by (auto simp: lookup_def find_Some_iff)

text \<open>An API whose declarations all have one projection, to one backend.\<close>

definition backend_only :: "backend_family \<Rightarrow> semantic_api \<Rightarrow> bool" where
  "backend_only bf api \<longleftrightarrow> valid_api api \<and> list_all (\<lambda>d. map pr_backend (decl_projections d) = [bf]) (a_declarations api)"

definition crossing :: "semantic_api \<Rightarrow> sem_type \<Rightarrow> bool" where
  "crossing api t \<longleftrightarrow> wf_type t \<and> (\<forall>n \<in> set (walk_type t). resolves api n)"

lemma backend_only_api_ok: "backend_only bf api \<Longrightarrow> api_ok api"
  by (simp add: backend_only_def valid_api_def check_api_Inr)

lemma crossing_api_type:
  assumes "backend_only bf api" "t \<in> set (all_api_types api)" shows "crossing api t"
  using assms valid_api_types backend_only_api_ok
  by (auto simp: crossing_def backend_only_def api_ok_def references_resolve_def)

lemma reaches_crossing:
  assumes "backend_only bf api"
  shows "route_reaches (rev (a_declarations api)) t u \<Longrightarrow> crossing api t \<Longrightarrow> crossing api u"
proof (induction rule: route_reaches.induct)
  case (reach_field k i v f u s e)
  then have "ValueDecl v \<in> set (a_declarations api)" using lookup_Some by fastforce
  with reach_field(4) have "f_type f \<in> set (all_api_types api)"
    by (force simp: all_api_types_def declaration_types_def)
  with reach_field crossing_api_type [OF assms] show ?case by blast
qed (auto simp: crossing_def)

lemma crossing_allowed:
  assumes "backend_only bf api" "crossing api u"
  shows "node_allowed (rev (a_declarations api)) bf bf u"
proof -
  obtain k s i e where u: "u = SemType k s i e" by (cases u)
  show ?thesis
  proof (cases "is_wrapper k \<or> i = None")
    case True
    with u show ?thesis by (auto simp: node_allowed_def)
  next
    case False
    with u assms(2) have "is_named k"
      by (cases e) (auto simp: crossing_def check_type_cases is_wrapper_def is_named_def split: type_kind.splits)
    then obtain dk where dk: "expected_declaration k = Some dk" by (auto simp: is_named_def)
    have "u \<in> set (walk_type u)" by (cases u rule: walk_type.cases) simp_all
    then have "resolves api u" using assms(2) by (simp add: crossing_def)
    with dk u obtain d where d: "d \<in> set (a_declarations api)" "decl_type_id d = node_id u"
      by (force simp: resolves_def)
    have "distinct (map decl_type_id (a_declarations api))"
      using backend_only_api_ok [OF assms(1)] semantic_ids_distinctD by (simp add: api_ok_def)
    with d have "lookup (rev (a_declarations api)) (node_id u) = Some d" using lookup_rev by metis
    moreover have "bf \<in> available_backends d"
      using assms(1) d(1) by (force simp: backend_only_def list_all_iff available_backends_def)
    ultimately show ?thesis by (simp add: node_allowed_def)
  qed
qed

lemma backend_type_crosses:
  assumes "backend_only bf api" "t \<in> set (all_api_types api)" shows "validate_semantic_route api t bf bf = Inr ()"
proof -
  have "route_allowed (rev (a_declarations api)) bf bf t"
    unfolding route_allowed_def
    using reaches_crossing [OF assms(1)] crossing_allowed [OF assms(1)] crossing_api_type [OF assms] by blast
  then have "check_route (rev (a_declarations api)) bf bf t [] \<noteq> Inl e" for e
    using check_route_complete(1) by blast
  then show ?thesis
    by (cases "check_route (rev (a_declarations api)) bf bf t []") (auto simp: validate_semantic_route_def)
qed

section \<open>The contract\<close>

locale frontend =
  fixes project :: "'s \<Rightarrow> string \<Rightarrow> 'e + semantic_api"
    and located :: "'s \<Rightarrow> bool"
    and backend :: backend_family
  assumes projects_valid: "project s feature_id = Inr api \<Longrightarrow> located s \<Longrightarrow> valid_api api"
    and projects_backend: "project s feature_id = Inr api \<Longrightarrow> located s \<Longrightarrow> d \<in> set (a_declarations api) \<Longrightarrow>
      map pr_backend (decl_projections d) = [backend]"
begin

lemma manifest_reads_back:
  "project s feature_id = Inr api \<Longrightarrow> located s \<Longrightarrow>
     semantic_api_from_manifest (api_manifest api) = Inr (canonical_api api)"
  using projects_valid api_manifest_reads_back by blast

lemma interface_keys:
  "project s feature_id = Inr api \<Longrightarrow> located s \<Longrightarrow> well_typed api"
  using projects_valid valid_api_well_typed by blast

lemma one_backend: "project s feature_id = Inr api \<Longrightarrow> located s \<Longrightarrow> backend_only backend api"
  using projects_valid projects_backend by (simp add: backend_only_def list_all_iff)

text \<open>Every type the API mentions can cross on the frontend's own backend.\<close>

lemma types_cross:
  "project s feature_id = Inr api \<Longrightarrow> located s \<Longrightarrow> t \<in> set (all_api_types api) \<Longrightarrow>
     validate_semantic_route api t backend backend = Inr ()"
  using one_backend backend_type_crosses by blast

lemma declared_backend:
  "project s feature_id = Inr api \<Longrightarrow> located s \<Longrightarrow> d \<in> set (a_declarations api) \<Longrightarrow>
     available_backends d = {backend}"
  using projects_backend [of s feature_id api d] by (cases "decl_projections d") (auto simp: available_backends_def)

end

text \<open>Two frontends of one feature, merged.\<close>

locale frontends = left: frontend project1 located1 backend1 + right: frontend project2 located2 backend2
  for project1 :: "'s \<Rightarrow> string \<Rightarrow> 'e + semantic_api" and located1 backend1
    and project2 :: "'t \<Rightarrow> string \<Rightarrow> 'f + semantic_api" and located2 backend2
begin

lemma merged_valid:
  assumes "project1 s feature_id = Inr a" "located1 s" "project2 t feature_id = Inr b" "located2 t"
    and "merge_semantic_apis [a, b] = Inr m"
  shows "valid_api m"
  using merge_valid [OF assms(5)] left.projects_valid [OF assms(1,2)] right.projects_valid [OF assms(3,4)] by simp

text \<open>A merged declaration has no backend but those of the two.\<close>

lemma merged_backends:
  assumes "project1 s feature_id = Inr a" "located1 s" "project2 t feature_id = Inr b" "located2 t"
    and m: "merge_semantic_apis [a, b] = Inr m" and d: "d \<in> set (a_declarations m)"
  shows "available_backends d \<subseteq> {backend1, backend2}"
proof
  fix x assume "x \<in> available_backends d"
  then obtain p where p: "p \<in> set (decl_projections d)" "x = pr_backend p" by (auto simp: available_backends_def)
  obtain ds where "merge_all [] (a_declarations a @ a_declarations b) = Inr ds" "a_declarations m = ds"
    using m by (auto simp: merge_semantic_apis_def mk_api_def Let_def)
  then have "faithful_merge (a_declarations a @ a_declarations b) (a_declarations m)"
    using merge_all_faithful [of "[]" "a_declarations a @ a_declarations b" ds "[]"] by (auto simp: faithful_merge_def)
  then have "\<exists>e \<in> set (a_declarations a @ a_declarations b). p \<in> set (decl_projections e)"
    using d p(1) unfolding faithful_merge_def by blast
  then obtain e where e: "e \<in> set (a_declarations a) \<union> set (a_declarations b)" "p \<in> set (decl_projections e)"
    by auto
  then have "x \<in> available_backends e" using p(2) by (auto simp: available_backends_def)
  with e(1) left.declared_backend [OF assms(1,2)] right.declared_backend [OF assms(3,4)] show "x \<in> {backend1, backend2}"
    by auto
qed

end

end
