(* ===== verification/Cpp_Projection_Props.thy ===== *)
theory Cpp_Projection_Props
  imports Cpp_Projection Frontend
begin

text \<open>
  What the projection of C++ declarations guarantees: whatever it returns is a valid API, so the facts
  about manifests, merging, publication and conversion plans apply to it.
\<close>

section \<open>Types\<close>

lemma table_types: "map_of cpp_types s = Some t \<Longrightarrow> wf_type t \<and> st_kind t \<in> {KVoid, KScalar}"
  by (auto simp: cpp_types_def t_void_def t_scalar_def check_type_cases split: if_splits)

lemma named_cpp_type_Inr:
  "named_cpp_type result source pos shared reference is_const n = Inr t \<longleftrightarrow>
     (case nq_kind n of
        NkObject \<Rightarrow> object_form_ok result pos shared reference is_const \<and> object_ref (nq_type_id n) = Inr t
      | NkValue \<Rightarrow> \<not> shared \<and> \<not> reference \<and> \<not> is_const \<and> value_ref (nq_type_id n) = Inr t
      | NkEnum \<Rightarrow> \<not> shared \<and> \<not> reference \<and> \<not> is_const \<and> enum_ref (nq_type_id n) = Inr t)"
  by (cases "nq_kind n") (auto simp: named_cpp_type_def Let_def)

lemma named_cpp_type_wf:
  "named_cpp_type result source pos shared reference is_const n = Inr t \<Longrightarrow> wf_type t \<and> is_named (st_kind t)"
  using reference_wf by (auto simp: named_cpp_type_Inr split: named_kind.splits)

lemma nominal_cpp_type_Inr:
  assumes "nominal_cpp_type spelling canonical result source reg namespace pos = Inr t"
  obtains shared reference is_const n where "named_cpp_type result source pos shared reference is_const n = Inr t"
  using assms
  by (auto simp: nominal_cpp_type_def Let_def split: sum.splits projection_error.splits projection_reason.splits)

lemma nominal_cpp_type_wf:
  "nominal_cpp_type spelling canonical result source reg namespace pos = Inr t \<Longrightarrow>
     wf_type t \<and> is_named (st_kind t)"
  by (elim nominal_cpp_type_Inr) (rule named_cpp_type_wf)

lemma canonical_step:
  "canonical_cpp_type spelling result source registry namespace pos =
     (case map_of cpp_types (normalized_cpp_type spelling) of
        Some t \<Rightarrow> if is_void t \<and> \<not> result then Inl (ProjectionAt source VoidNotResult) else Inr t
      | None \<Rightarrow>
          (case registry of
             None \<Rightarrow> Inl (ProjectionAt source (UnsupportedType spelling))
           | Some reg \<Rightarrow>
               (case template_inner (normalized_cpp_type spelling) ''std::vector'' of
                  Some inner \<Rightarrow>
                    ebind (canonical_cpp_type inner False source registry namespace PosContained) (\<lambda>e.
                      ewrap (ProjectionModel \<circ> TypeFault) (array_of e))
                | None \<Rightarrow>
                    (case template_inner (normalized_cpp_type spelling) ''std::optional'' of
                       Some inner \<Rightarrow>
                         ebind (canonical_cpp_type inner False source registry namespace PosContained) (\<lambda>e.
                           ewrap (ProjectionModel \<circ> TypeFault) (nullable_of e))
                     | None \<Rightarrow> nominal_cpp_type spelling (normalized_cpp_type spelling) result source reg namespace pos))))"
  by (subst canonical_cpp_type.simps) (rule refl | simp only: Let_def)+

lemma canonical_cpp_type_cases [consumes 1, case_names table vector optional nominal]:
  assumes "canonical_cpp_type spelling result source registry namespace pos = Inr t"
  obtains "map_of cpp_types (normalized_cpp_type spelling) = Some t" "is_void t \<Longrightarrow> result"
  | reg inner e where "map_of cpp_types (normalized_cpp_type spelling) = None" "registry = Some reg"
      "template_inner (normalized_cpp_type spelling) ''std::vector'' = Some inner"
      "canonical_cpp_type inner False source registry namespace PosContained = Inr e" "array_of e = Inr t"
  | reg inner e where "map_of cpp_types (normalized_cpp_type spelling) = None" "registry = Some reg"
      "template_inner (normalized_cpp_type spelling) ''std::vector'' = None"
      "template_inner (normalized_cpp_type spelling) ''std::optional'' = Some inner"
      "canonical_cpp_type inner False source registry namespace PosContained = Inr e" "nullable_of e = Inr t"
  | reg where "map_of cpp_types (normalized_cpp_type spelling) = None" "registry = Some reg"
      "template_inner (normalized_cpp_type spelling) ''std::vector'' = None"
      "template_inner (normalized_cpp_type spelling) ''std::optional'' = None"
      "nominal_cpp_type spelling (normalized_cpp_type spelling) result source reg namespace pos = Inr t"
proof (cases "map_of cpp_types (normalized_cpp_type spelling)")
  case (Some x)
  from assms have "x = t \<and> \<not> (is_void t \<and> \<not> result)"
    unfolding canonical_step [of spelling] Some option.case by (simp split: if_splits)
  with Some that(1) show thesis by blast
next
  case none: None
  from assms obtain reg where reg: "registry = Some reg"
    unfolding canonical_step [of spelling] none option.case by (cases registry) simp_all
  show thesis
  proof (cases "template_inner (normalized_cpp_type spelling) ''std::vector''")
    case (Some inner)
    from assms have "\<exists>e. canonical_cpp_type inner False source (Some reg) namespace PosContained = Inr e \<and> array_of e = Inr t"
      unfolding canonical_step [of spelling] none Some option.case reg by simp
    then obtain e where
      "canonical_cpp_type inner False source registry namespace PosContained = Inr e" "array_of e = Inr t"
      using reg by blast
    with none reg Some that(2) show thesis by blast
  next
    case vec: None
    show thesis
    proof (cases "template_inner (normalized_cpp_type spelling) ''std::optional''")
      case (Some inner)
      from assms have "\<exists>e. canonical_cpp_type inner False source (Some reg) namespace PosContained = Inr e \<and> nullable_of e = Inr t"
        unfolding canonical_step [of spelling] none vec Some option.case reg by simp
      then obtain e where
        "canonical_cpp_type inner False source registry namespace PosContained = Inr e" "nullable_of e = Inr t"
        using reg by blast
      with none reg vec Some that(3) show thesis by blast
    next
      case None
      from assms have "nominal_cpp_type spelling (normalized_cpp_type spelling) result source reg namespace pos = Inr t"
        unfolding canonical_step [of spelling] none vec None option.case reg .
      with none reg vec None that(4) show thesis by blast
    qed
  qed
qed

lemma canonical_cpp_type_wf:
  "canonical_cpp_type spelling result source registry namespace pos = Inr t \<Longrightarrow>
     wf_type t \<and> (is_void t \<longrightarrow> result)"
proof (induction spelling result source registry namespace pos arbitrary: t rule: canonical_cpp_type.induct)
  case (1 spelling result source registry namespace pos)
  from "1.prems" show ?case
  proof (cases rule: canonical_cpp_type_cases)
    case table
    then show ?thesis using table_types by blast
  next
    case (vector reg inner e)
    have "wf_type e" using "1.IH"(2) [OF refl refl refl vector(1,2,3,4)] by simp
    with vector wrapper_wf show ?thesis by blast
  next
    case (optional reg inner e)
    have "wf_type e" using "1.IH"(1) [OF refl refl refl optional(1,2,3,4,5)] by simp
    with optional wrapper_wf show ?thesis by blast
  next
    case (nominal reg)
    then show ?thesis using nominal_cpp_type_wf [OF nominal(5)] by (auto simp: is_named_def is_void_def)
  qed
qed

section \<open>Valid sources\<close>

text \<open>Provenance records exist only checked.\<close>

definition function_located :: "cpp_function_source \<Rightarrow> bool" where
  "function_located s \<longleftrightarrow> valid_source (cfs_provenance s)"

definition class_located :: "cpp_class_source \<Rightarrow> bool" where
  "class_located s \<longleftrightarrow> valid_source (cls_provenance s) \<and>
     list_all (valid_source \<circ> ccs_provenance) (cls_constructors s) \<and>
     list_all (valid_source \<circ> cms_provenance) (cls_methods s) \<and>
     list_all (valid_source \<circ> cds_provenance) (cls_fields s)"

definition enum_located :: "cpp_enum_source \<Rightarrow> bool" where
  "enum_located s \<longleftrightarrow> valid_source (ces_provenance s)"

definition sources_located ::
    "cpp_function_source list \<Rightarrow> cpp_class_source list \<Rightarrow> cpp_enum_source list \<Rightarrow> bool" where
  "sources_located fs cs es \<longleftrightarrow> list_all function_located fs \<and> list_all class_located cs \<and> list_all enum_located es"

lemma project_parameter_Inr:
  "project_parameter source registry namespace p = Inr x \<longleftrightarrow>
     (\<exists>t. canonical_cpp_type (cps_type p) False source registry namespace PosParameter = Inr t \<and>
        x = \<lparr>p_name = cps_name p, p_type = t\<rparr> \<and> check_parameter x = Inr ())"
  by (auto simp: project_parameter_def mk_parameter_def Let_def)

lemma project_parameter_valid:
  "project_parameter source registry namespace p = Inr x \<Longrightarrow> valid_parameter x"
  using canonical_cpp_type_wf by (fastforce simp: project_parameter_Inr valid_parameter_def)

lemma project_parameters_valid:
  "emap (project_parameter source registry namespace) ps = Inr xs \<Longrightarrow> list_all valid_parameter xs"
  using project_parameter_valid emap_Inr_set by (fastforce simp: list_all_iff)

lemma project_callable_valid:
  assumes "project_callable source registry namespace k n i ps r oi on sc = Inr b" "valid_source source"
  shows "valid_binding b"
proof -
  from assms(1) obtain qs t where "emap (project_parameter source registry namespace) ps = Inr qs"
    "canonical_cpp_type r True source registry namespace PosResult = Inr t"
    "mk_binding (declaration_binding_id source) k n (capabilities_for_role (intent_role i))
       (intent_execution i) qs t source oi on sc = Inr b"
    by (auto simp: project_callable_def)
  with assms(2) show ?thesis
    using mk_binding_valid project_parameters_valid canonical_cpp_type_wf by (metis role_capabilities_valid)
qed

lemma project_cpp_function_valid:
  assumes "project_cpp_function registry s = Inr (Some b)" "function_located s" shows "valid_binding b"
  using assms project_callable_valid
  by (auto simp: project_cpp_function_def function_located_def Let_def split: if_splits)

lemma project_functions_valid:
  assumes "project_functions registry fs = Inr bs" "list_all function_located fs"
  shows "list_all valid_binding bs"
proof -
  from assms(1) obtain os where os: "emap (project_cpp_function registry) fs = Inr os" "bs = List.map_filter id os"
    by (auto simp: project_functions_def)
  have "list_all (\<lambda>x. \<forall>b. x = Some b \<longrightarrow> valid_binding b) os"
    using assms(2) project_cpp_function_valid by (intro emap_list_all [OF os(1)]) (auto simp: list_all_iff)
  with os(2) show ?thesis by (auto simp: list_all_iff map_filter_def)
qed

lemma projected_methods_valid:
  assumes "emap (project_method s i k registry) (generated_methods s) = Inr ms" "class_located s"
  shows "list_all valid_binding ms"
proof (rule emap_list_all [OF assms(1)])
  fix m b
  assume "m \<in> set (generated_methods s)" "project_method s i k registry m = Inr b"
  with assms(2) show "valid_binding b"
    using project_callable_valid
    by (auto simp: project_method_def class_located_def generated_methods_def Let_def list_all_iff)
qed

lemma projected_field_valid:
  assumes "projected_field s i registry f = Inr x" "valid_source (cds_provenance f)" shows "valid_field x"
proof -
  from assms(1) obtain t where
    "canonical_cpp_type (cds_type f) False (cds_provenance f) registry (cls_namespace s) PosField = Inr t"
    "mk_field (i @ '':field:'' @ cds_name f) i (cds_name f) t (cds_provenance f) (cds_mutable f)
       (capabilities_for_role RoleExported) ScInstance True = Inr x"
    by (auto simp: projected_field_def Let_def)
  then show ?thesis
    using assms(2) canonical_cpp_type_wf role_capabilities_valid [of RoleExported]
    by (auto simp: mk_field_def valid_field_def Let_def)
qed

lemma projected_fields_valid:
  assumes "emap (projected_field s i registry) (cls_fields s) = Inr xs" "class_located s"
  shows "list_all valid_field xs"
  using assms(2) projected_field_valid
  by (intro emap_list_all [OF assms(1)]) (auto simp: list_all_iff class_located_def)

lemma constructor_parameters_valid:
  "constructor_parameters registry namespace c = Inr (Some ps) \<Longrightarrow> list_all valid_parameter ps"
  using project_parameters_valid by (auto simp: constructor_parameters_def split: sum.splits if_splits)

lemma selected_object_constructor_valid:
  assumes "selected_object_constructor registry s = Inr (Some k)" "class_located s"
  shows "valid_constructor k"
proof (cases "filter constructor_selected (cls_constructors s)")
  case (Cons c cs)
  with assms have "cs = []" by (cases cs) (simp_all add: selected_object_constructor_def)
  with Cons assms(1) obtain ps where "constructor_parameters registry (cls_namespace s) c = Inr (Some ps)"
    "mk_constructor (ccs_provenance c) ps = Inr k"
    by (auto simp: selected_object_constructor_def split: option.splits)
  moreover have "c \<in> set (cls_constructors s)" using filter_eq_ConsD [OF Cons] by auto
  ultimately show ?thesis
    using assms(2) mk_constructor_valid constructor_parameters_valid
    by (auto simp: class_located_def list_all_iff)
qed (use assms in \<open>simp add: selected_object_constructor_def\<close>)

section \<open>Declarations\<close>

lemma project_cpp_object_Inr:
  assumes "project_cpp_object registry feature_id s = Inr d"
  obtains type_id ms fs k where
    "emap (project_method s type_id CkJsObject registry) (generated_methods s) = Inr ms"
    "emap (projected_field s type_id registry) (cls_fields s) = Inr fs"
    "selected_object_constructor registry s = Inr k"
    "check_projection \<lparr>pr_backend = BfCpp, pr_source = cls_provenance s\<rparr> = Inr ()"
    "d = ObjectDecl \<lparr>o_feature = feature_id, o_type_id = type_id, o_name = cls_name s,
       o_projection = \<lparr>pr_backend = BfCpp, pr_source = cls_provenance s\<rparr>, o_constructor = k,
       o_methods = ms, o_fields = fs\<rparr>"
    "mk_object \<lparr>o_feature = feature_id, o_type_id = type_id, o_name = cls_name s,
       o_projection = \<lparr>pr_backend = BfCpp, pr_source = cls_provenance s\<rparr>, o_constructor = k,
       o_methods = ms, o_fields = fs\<rparr> = Inr d"
  using assms that by (auto simp: project_cpp_object_def mk_projection_def Let_def mk_object_def)

lemma project_cpp_value_Inr:
  assumes "project_cpp_value registry feature_id s = Inr d"
  obtains type_id fs where
    "emap (projected_field s type_id registry) (cls_fields s) = Inr fs"
    "check_projection \<lparr>pr_backend = BfCpp, pr_source = cls_provenance s\<rparr> = Inr ()"
    "d = ValueDecl \<lparr>v_feature = feature_id, v_type_id = type_id, v_name = cls_name s, v_fields = fs,
       v_projections = [\<lparr>pr_backend = BfCpp, pr_source = cls_provenance s\<rparr>]\<rparr>"
    "mk_value \<lparr>v_feature = feature_id, v_type_id = type_id, v_name = cls_name s, v_fields = fs,
       v_projections = [\<lparr>pr_backend = BfCpp, pr_source = cls_provenance s\<rparr>]\<rparr> = Inr d"
  using assms that by (auto simp: project_cpp_value_def mk_projection_def Let_def mk_value_def)

lemma project_cpp_enum_Inr:
  assumes "project_cpp_enum feature_id s = Inr d"
  obtains type_id where
    "check_projection \<lparr>pr_backend = BfCpp, pr_source = ces_provenance s\<rparr> = Inr ()"
    "d = EnumDecl \<lparr>e_feature = feature_id, e_type_id = type_id, e_name = ces_name s,
       e_constants = ces_constants s, e_projections = [\<lparr>pr_backend = BfCpp, pr_source = ces_provenance s\<rparr>]\<rparr>"
    "mk_enum \<lparr>e_feature = feature_id, e_type_id = type_id, e_name = ces_name s,
       e_constants = ces_constants s, e_projections = [\<lparr>pr_backend = BfCpp, pr_source = ces_provenance s\<rparr>]\<rparr>
       = Inr d"
  using assms that by (auto simp: project_cpp_enum_def mk_projection_def Let_def mk_enum_def)

lemma project_cpp_object_valid:
  assumes "project_cpp_object registry feature_id s = Inr d" "class_located s"
  shows "declared_by BfCpp (cls_provenance s) d"
  using assms(1)
proof (cases rule: project_cpp_object_Inr)
  case (1 type_id ms fs k)
  have "case k of None \<Rightarrow> True | Some x \<Rightarrow> valid_constructor x"
    using 1(3) selected_object_constructor_valid assms(2) by (cases k) auto
  with 1 assms(2) projected_methods_valid [OF 1(1)] projected_fields_valid [OF 1(2)] show ?thesis
    by (auto simp: declared_by_def mk_object_def valid_projection_def class_located_def)
qed

lemma project_cpp_value_valid:
  assumes "project_cpp_value registry feature_id s = Inr d" "class_located s"
  shows "declared_by BfCpp (cls_provenance s) d"
  using assms(1)
proof (cases rule: project_cpp_value_Inr)
  case (1 type_id fs)
  with assms(2) projected_fields_valid [OF 1(1)] show ?thesis
    by (auto simp: declared_by_def mk_value_def valid_projection_def class_located_def)
qed

lemma project_cpp_enum_valid:
  assumes "project_cpp_enum feature_id s = Inr d" "enum_located s"
  shows "declared_by BfCpp (ces_provenance s) d"
  using assms(1)
proof (cases rule: project_cpp_enum_Inr)
  case (1 type_id)
  with assms(2) show ?thesis
    by (auto simp: declared_by_def mk_enum_def valid_projection_def enum_located_def)
qed

section \<open>Classes\<close>

lemma eligible_constructors_valid:
  "eligible_constructors registry namespace cs = Inr es \<Longrightarrow> (c, ps) \<in> set es \<Longrightarrow>
     c \<in> set cs \<and> list_all valid_parameter ps"
proof (induction cs arbitrary: es)
  case (Cons x xs)
  then show ?case using constructor_parameters_valid by (auto split: if_splits)
qed simp

lemma select_js_constructor_valid:
  assumes "select_js_constructor registry s = Inr (c, ps)"
  shows "c \<in> set (cls_constructors s) \<and> list_all valid_parameter ps"
proof -
  from assms obtain es where es: "eligible_constructors registry (cls_namespace s) (cls_constructors s) = Inr es"
    by (auto simp: select_js_constructor_def)
  let ?sel = "filter (\<lambda>(c, _). constructor_selected c) es"
  have "(c, ps) = hd ?sel \<and> ?sel \<noteq> [] \<or> (c, ps) = hd es \<and> es \<noteq> []"
    using assms es by (auto simp: select_js_constructor_def Let_def split: if_splits)
  then have "(c, ps) \<in> set es"
    by (metis filter_is_subset hd_in_set in_mono)
  with eligible_constructors_valid [OF es] show ?thesis by blast
qed

lemma select_service_constructor_valid:
  "select_service_constructor s = Inr c \<Longrightarrow> c \<in> set (cls_constructors s)"
  by (cases "zero_argument_constructors s")
    (auto simp: select_service_constructor_def zero_argument_constructors_def Let_def dest: filter_eq_ConsD
      split: if_splits)

lemma project_cpp_class_valid:
  assumes "project_cpp_class s = Inr (Some c)" "class_located s" shows "valid_class c"
proof -
  let ?role = "intent_role (cls_intent s)"
  let ?kind = "if ?role = RoleExported then CkJsObject else CkInternalService"
  from assms(1) obtain kc ps ms k where k:
    "(if ?kind = CkJsObject then select_js_constructor None s
      else ebind (select_service_constructor s) (\<lambda>c. Inr (c, []))) = Inr (kc, ps)"
    "emap (project_method s (semantic_class_id s) ?kind None) (generated_methods s) = Inr ms"
    "mk_constructor (ccs_provenance kc) ps = Inr k"
    "mk_class (semantic_class_id s) ?kind (cls_name s) (capabilities_for_role ?role) (cls_provenance s) k ms = Inr c"
    unfolding project_cpp_class_def Let_def by (force split: if_splits)
  have "kc \<in> set (cls_constructors s) \<and> list_all valid_parameter ps"
    using k(1) select_js_constructor_valid select_service_constructor_valid by (auto split: if_splits)
  then have "valid_constructor k"
    using mk_constructor_valid [OF k(3)] assms(2) by (auto simp: class_located_def list_all_iff)
  with k(4) projected_methods_valid [OF k(2) assms(2)] assms(2) show ?thesis
    by (auto simp: mk_class_def valid_class_def class_located_def Let_def)
qed

section \<open>The API\<close>

definition class_intent_built :: "cpp_class_source \<Rightarrow> bool" where
  "class_intent_built s \<longleftrightarrow> built_class_intent (cls_intent s)"

lemma built_class_role: "class_intent_built s \<Longrightarrow> intent_role (cls_intent s) = RoleOrdinary"
  using built_intent_role by (simp add: class_intent_built_def)

definition implementation_owner :: "cpp_class_source \<Rightarrow> bool" where
  "implementation_owner s \<longleftrightarrow> \<not> declares_object (cls_intent s) \<and> \<not> declares_value (cls_intent s) \<and>
     generated_methods s \<noteq> []"

definition declares_type :: "cpp_class_source \<Rightarrow> bool" where
  "declares_type s \<longleftrightarrow> declares_object (cls_intent s) \<or> declares_value (cls_intent s)"

lemma project_class_source_Inr:
  assumes "project_class_source registry feature_id s = Inr (bs, ls, ds)"
  obtains (object) d where "declares_object (cls_intent s)" "project_cpp_object registry feature_id s = Inr d"
      "bs = []" "ls = []" "ds = [d]"
  | (val) d where "\<not> declares_object (cls_intent s)" "declares_value (cls_intent s)"
      "project_cpp_value registry feature_id s = Inr d" "bs = []" "ls = []" "ds = [d]"
  | (owner) "implementation_owner s" "implementation_bindings registry s = Inr bs" "ls = []" "ds = []"
  | (legacy) c where "\<not> declares_type s" "generated_methods s = []" "project_cpp_class s = Inr c" "bs = []"
      "ls = (case c of None \<Rightarrow> [] | Some x \<Rightarrow> [x])" "ds = []"
  using assms
  by (auto simp: project_class_source_def implementation_owner_def declares_type_def split: if_splits)

lemma implementation_bindings_Inr:
  assumes "implementation_bindings registry s = Inr bs"
  shows "emap (project_implementation_method s registry) (generated_methods s) = Inr bs"
  using assms by (simp add: implementation_bindings_def Let_def)

lemma project_class_source_valid:
  assumes "project_class_source registry feature_id s = Inr (bs, ls, ds)" "class_located s"
  shows "list_all valid_binding bs \<and> list_all valid_class ls \<and> list_all (declared_by BfCpp (cls_provenance s)) ds"
  using assms(1)
proof (cases rule: project_class_source_Inr)
  case (object d)
  then show ?thesis using project_cpp_object_valid assms(2) by simp
next
  case (val d)
  then show ?thesis using project_cpp_value_valid assms(2) by simp
next
  case owner
  have "list_all valid_binding bs"
  proof (rule emap_list_all [OF implementation_bindings_Inr [OF owner(2)]])
    fix m b
    assume "m \<in> set (generated_methods s)" "project_implementation_method s registry m = Inr b"
    with assms(2) show "valid_binding b"
      using project_callable_valid
      by (auto simp: project_implementation_method_def class_located_def generated_methods_def list_all_iff)
  qed
  with owner show ?thesis by simp
next
  case (legacy c)
  then show ?thesis using project_cpp_class_valid assms(2) by (cases c) auto
qed

lemma project_cpp_api_Inr:
  assumes "project_cpp_api fs cs es feature_id = Inr api"
  obtains reg bs parts ds where
    "build_registry feature_id cs es = Inr reg" "project_functions (Some reg) fs = Inr bs"
    "emap (project_class_source (Some reg) feature_id) cs = Inr parts"
    "emap (project_cpp_enum feature_id) es = Inr ds"
    "check_api api = Inr ()"
    "a_functions api = bs @ concat (map fst parts)" "a_classes api = concat (map (fst \<circ> snd) parts)"
    "a_declarations api = concat (map (snd \<circ> snd) parts) @ ds"
  using assms that by (auto simp: project_cpp_api_def mk_api_def Let_def)

lemma projected_api_valid:
  assumes "project_cpp_api fs cs es feature_id = Inr api" and "sources_located fs cs es"
  shows "valid_api api \<and> list_all (\<lambda>d. map pr_backend (decl_projections d) = [BfCpp]) (a_declarations api)"
  using assms(1)
proof (cases rule: project_cpp_api_Inr)
  case (1 reg bs parts ds)
  from assms(2) have located: "list_all function_located fs" "list_all class_located cs" "list_all enum_located es"
    by (simp_all add: sources_located_def)
  let ?ok = "\<lambda>d. valid_declaration d \<and> map pr_backend (decl_projections d) = [BfCpp]"
  have "list_all (\<lambda>(bs, ls, ds). list_all valid_binding bs \<and> list_all valid_class ls \<and> list_all ?ok ds) parts"
    using located(2) project_class_source_valid declared_by_valid
    by (intro emap_list_all [OF 1(3)]) (fastforce simp: list_all_iff)
  moreover have "list_all ?ok ds"
    using located(3) project_cpp_enum_valid declared_by_valid
    by (intro emap_list_all [OF 1(4)]) (fastforce simp: list_all_iff)
  ultimately show ?thesis
    using 1 project_functions_valid [OF 1(2) located(1)]
    by (fastforce simp: valid_api_def list_all_iff)
qed

interpretation cpp: frontend "\<lambda>(fs, cs, es). project_cpp_api fs cs es" "\<lambda>(fs, cs, es). sources_located fs cs es" BfCpp
  by unfold_locales (use projected_api_valid in \<open>auto simp: list_all_iff split: prod.splits\<close>)

section \<open>The API mirrors its sources\<close>

definition marked_functions :: "cpp_function_source list \<Rightarrow> cpp_function_source list" where
  "marked_functions fs = filter (\<lambda>s. intent_role (cfs_intent s) \<noteq> RoleOrdinary) fs"

lemma project_callable_Inr:
  assumes "project_callable source registry namespace k n i ps r oi on sc = Inr b"
  obtains qs t where
    "emap (project_parameter source registry namespace) ps = Inr qs"
    "canonical_cpp_type r True source registry namespace PosResult = Inr t"
    "b = infer_scope \<lparr>b_id = declaration_binding_id source, b_kind = k, b_name = n,
      b_capabilities = capabilities_for_role (intent_role i), b_execution = intent_execution i,
      b_parameters = qs, b_result = t, b_source = source, b_owner_id = oi, b_owner_name = on, b_scope = sc\<rparr>"
  using assms that by (auto simp: project_callable_def mk_binding_def Let_def)

lemma project_callable_source:
  "project_callable source registry namespace k n i ps r oi on sc = Inr b \<Longrightarrow> b_source b = source"
  by (elim project_callable_Inr) simp

lemma project_cpp_function_Inr:
  assumes "project_cpp_function registry s = Inr x"
  obtains "intent_role (cfs_intent s) = RoleOrdinary" "x = None"
  | b where "intent_role (cfs_intent s) \<noteq> RoleOrdinary" "x = Some b" "sp_language (cfs_provenance s) = ''cpp''"
      "project_callable (cfs_provenance s) registry (cfs_namespace s) BkFunction (cfs_name s) (cfs_intent s)
         (cfs_parameters s) (cfs_return s) None None None = Inr b"
  using assms that by (auto simp: project_cpp_function_def Let_def split: if_splits)

lemma project_functions_list:
  assumes "project_functions registry fs = Inr bs"
  shows "list_all2 (\<lambda>s b. sp_language (cfs_provenance s) = ''cpp'' \<and>
      project_callable (cfs_provenance s) registry (cfs_namespace s) BkFunction (cfs_name s) (cfs_intent s)
        (cfs_parameters s) (cfs_return s) None None None = Inr b) (marked_functions fs) bs"
proof -
  from assms obtain os where os: "emap (project_cpp_function registry) fs = Inr os" "bs = List.map_filter id os"
    by (auto simp: project_functions_def)
  from os(1) show ?thesis
    unfolding os(2)
  proof (induction fs arbitrary: os)
    case (Cons s fs)
    then obtain x xs where x: "project_cpp_function registry s = Inr x" "os = x # xs"
      "emap (project_cpp_function registry) fs = Inr xs" by auto
    note ih = Cons.IH [OF x(3)]
    from x(1) show ?case
      by (cases rule: project_cpp_function_Inr) (use ih x(2) in \<open>simp_all add: marked_functions_def\<close>)
  qed (simp add: marked_functions_def)
qed

lemma implementation_bindings_list:
  assumes "implementation_bindings registry s = Inr bs"
  shows "list_all2 (\<lambda>m b. project_implementation_method s registry m = Inr b) (generated_methods s) bs"
  using implementation_bindings_Inr [OF assms] by (simp add: emap_Inr_iff)

text \<open>Where the bindings and the declarations of an API come from, in order.\<close>

definition binding_sources ::
    "cpp_function_source list \<Rightarrow> cpp_class_source list \<Rightarrow> source_provenance list" where
  "binding_sources fs cs =
     map cfs_provenance (marked_functions fs) @
     concat (map (\<lambda>s. map cms_provenance (generated_methods s)) (filter implementation_owner cs))"

definition declaration_sources ::
    "cpp_class_source list \<Rightarrow> cpp_enum_source list \<Rightarrow> source_provenance list" where
  "declaration_sources cs es = map cls_provenance (filter declares_type cs) @ map ces_provenance es"

definition part_mirrors ::
    "cpp_class_source \<Rightarrow> semantic_binding list \<times> semantic_class list \<times> semantic_declaration list \<Rightarrow> bool" where
  "part_mirrors s part \<longleftrightarrow>
     map b_source (fst part) = (if implementation_owner s then map cms_provenance (generated_methods s) else []) \<and>
     fst (snd part) = [] \<and>
     map (pr_source \<circ> hd \<circ> decl_projections) (snd (snd part)) = (if declares_type s then [cls_provenance s] else [])"

lemma project_class_source_mirrors:
  assumes "project_class_source registry feature_id s = Inr part" "class_intent_built s"
  shows "part_mirrors s part"
proof -
  obtain bs ls ds where p: "part = (bs, ls, ds)" by (cases part)
  from assms(1) [unfolded p] show ?thesis
  proof (cases rule: project_class_source_Inr)
    case (object d)
    then show ?thesis
      by (auto simp: p part_mirrors_def implementation_owner_def declares_type_def elim!: project_cpp_object_Inr)
  next
    case (val d)
    then show ?thesis
      by (auto simp: p part_mirrors_def implementation_owner_def declares_type_def elim!: project_cpp_value_Inr)
  next
    case owner
    have "map b_source bs = map cms_provenance (generated_methods s)"
      using implementation_bindings_list [OF owner(2)]
      by (rule list_all2_sources) (simp add: project_implementation_method_def project_callable_source)
    with owner show ?thesis by (simp add: p part_mirrors_def implementation_owner_def declares_type_def)
  next
    case (legacy c)
    moreover have "project_cpp_class s = Inr None"
      using built_class_role [OF assms(2)] by (simp add: project_cpp_class_def Let_def)
    ultimately show ?thesis by (simp add: p part_mirrors_def implementation_owner_def declares_type_def)
  qed
qed

lemma parts_mirror:
  "list_all2 part_mirrors cs parts \<Longrightarrow>
     map b_source (concat (map fst parts)) =
       concat (map (\<lambda>s. map cms_provenance (generated_methods s)) (filter implementation_owner cs)) \<and>
     concat (map (fst \<circ> snd) parts) = [] \<and>
     map (pr_source \<circ> hd \<circ> decl_projections) (concat (map (snd \<circ> snd) parts)) =
       map cls_provenance (filter declares_type cs)"
  by (induction rule: list_all2_induct) (auto simp: part_mirrors_def)

lemma projected_sources:
  assumes "project_cpp_api fs cs es feature_id = Inr api" and "list_all class_intent_built cs"
  shows "a_classes api = [] \<and> map b_source (a_functions api) = binding_sources fs cs \<and>
     map (pr_source \<circ> hd \<circ> decl_projections) (a_declarations api) = declaration_sources cs es"
  using assms(1)
proof (cases rule: project_cpp_api_Inr)
  case (1 reg bs parts ds)
  have "list_all2 part_mirrors cs parts"
    by (rule list.rel_mono_strong [OF 1(3) [unfolded emap_Inr_iff]])
      (use assms(2) project_class_source_mirrors in \<open>simp add: list_all_iff\<close>)
  note parts = parts_mirror [OF this]
  have "map b_source bs = map cfs_provenance (marked_functions fs)"
    using project_functions_list [OF 1(2)] by (rule list_all2_sources) (auto dest: project_callable_source)
  moreover have "map (pr_source \<circ> hd \<circ> decl_projections) ds = map ces_provenance es"
    using 1(4) unfolding emap_Inr_iff by (rule list_all2_sources) (auto elim!: project_cpp_enum_Inr)
  ultimately show ?thesis
    using parts 1(6-8) by (simp add: binding_sources_def declaration_sources_def)
qed

text \<open>
  C7. Whatever the C++ projection returns is a valid API: every type, parameter, field, binding and
  declaration in it passes its own checks.  It mirrors the sources: its functions come, in order, from
  the marked functions and from the generated methods of unmarked classes, its declarations from the
  classes that declare a type and from the enums, each with the C++ projection and no other, and it has
  no class of the older form.
\<close>

theorem projected_api_is_valid:
  assumes "project_cpp_api fs cs es feature_id = Inr api"
    and "sources_located fs cs es" and "list_all class_intent_built cs"
  shows "valid_api api \<and> a_classes api = [] \<and>
     map b_source (a_functions api) = binding_sources fs cs \<and>
     map (pr_source \<circ> hd \<circ> decl_projections) (a_declarations api) = declaration_sources cs es \<and>
     list_all (\<lambda>d. map pr_backend (decl_projections d) = [BfCpp]) (a_declarations api)"
  using projected_api_valid [OF assms(1,2)] projected_sources [OF assms(1,3)] by simp

section \<open>A sample\<close>

definition sample_at :: "string \<Rightarrow> int \<Rightarrow> source_provenance" where
  "sample_at i line = \<lparr>sp_declaration = i, sp_language = ''cpp'', sp_path = ''p.cpp'', sp_line = line, sp_column = 1\<rparr>"

definition marked :: "declaration_target \<Rightarrow> supernote_marker list \<Rightarrow> source_intent" where
  "marked target ms = \<lparr>si_target = target, si_occurrences = map (\<lambda>m. \<lparr>mo_marker = m, mo_line = 1, mo_column = 1\<rparr>) ms\<rparr>"

definition sample_function :: cpp_function_source where
  "sample_function = \<lparr>cfs_provenance = sample_at ''d1'' 3, cfs_name = ''f'', cfs_return = ''std::vector< P >'',
     cfs_parameters = [\<lparr>cps_type = ''const S &'', cps_name = ''s''\<rparr>], cfs_intent = marked TgFunction [MExport],
     cfs_noexcept = False, cfs_offset = 0, cfs_namespace = [''n'']\<rparr>"

definition sample_object_class :: cpp_class_source where
  "sample_object_class = \<lparr>cls_provenance = sample_at ''d2'' 5, cls_name = ''S'', cls_include = ''p.hpp'',
     cls_intent = marked TgClass [MObject],
     cls_constructors = [\<lparr>ccs_provenance = sample_at ''d3'' 6, ccs_parameters = [], ccs_access = ''public'',
        ccs_intent = marked TgConstructor [MConstructor], ccs_deleted = False, ccs_explicit = False,
        ccs_noexcept = False, ccs_implicit = False\<rparr>],
     cls_methods = [\<lparr>cms_provenance = sample_at ''d4'' 7, cms_name = ''run'', cms_return = ''void'',
        cms_parameters = [\<lparr>cps_type = ''std::optional<P>'', cps_name = ''p''\<rparr>],
        cms_intent = marked TgMethod [MExport, MAsync], cms_access = ''public'', cms_const = False,
        cms_noexcept = False, cms_static = False\<rparr>],
     cls_kind = ''class'', cls_fields = [], cls_namespace = [''n'']\<rparr>"

definition sample_value_class :: cpp_class_source where
  "sample_value_class = \<lparr>cls_provenance = sample_at ''d5'' 9, cls_name = ''P'', cls_include = ''p.hpp'',
     cls_intent = marked TgClass [MValue], cls_constructors = [], cls_methods = [], cls_kind = ''struct'',
     cls_fields = [\<lparr>cds_provenance = sample_at ''d6'' 10, cds_name = ''x'', cds_type = ''int32_t'',
        cds_intent = marked TgField [MExport], cds_access = ''public'', cds_mutable = True, cds_static = False\<rparr>],
     cls_namespace = [''n'']\<rparr>"

definition sample_projected :: "projection_error + semantic_api" where
  "sample_projected = project_cpp_api [sample_function] [sample_object_class, sample_value_class] [] ''f''"

lemma sample_projected_ok: "case sample_projected of Inl _ \<Rightarrow> False | Inr api \<Rightarrow>
    length (a_functions api) = 1 \<and> length (a_declarations api) = 2"
  by code_simp

lemma sample_sources:
  "sources_located [sample_function] [sample_object_class, sample_value_class] []"
  "list_all class_intent_built [sample_object_class, sample_value_class]"
  by code_simp+

theorem projected_api_is_valid_witness:
  "\<exists>api. sample_projected = Inr api \<and> valid_api api \<and> a_classes api = [] \<and>
     map b_source (a_functions api) = [sample_at ''d1'' 3] \<and>
     map (pr_source \<circ> hd \<circ> decl_projections) (a_declarations api) = [sample_at ''d2'' 5, sample_at ''d5'' 9]"
proof -
  obtain api where api: "sample_projected = Inr api" using sample_projected_ok by (auto split: sum.splits)
  have "binding_sources [sample_function] [sample_object_class, sample_value_class] = [sample_at ''d1'' 3]"
    "declaration_sources [sample_object_class, sample_value_class] [] = [sample_at ''d2'' 5, sample_at ''d5'' 9]"
    by code_simp+
  with api projected_api_is_valid [OF api [unfolded sample_projected_def] sample_sources] show ?thesis by metis
qed

end
