(* ===== verification/Cpp_Routes_Props.thy ===== *)
theory Cpp_Routes_Props
  imports Cpp_Routes Cpp_Projection_Props Semantic_Merge_Props
begin

text \<open>
  The projection and the route planner agree: an API projected from C++ declarations can always be
  joined back to those declarations, and the routes carry their spellings.
\<close>

section \<open>Types of a C++ API can cross\<close>

abbreviation cpp_only :: "semantic_api \<Rightarrow> bool" where
  "cpp_only \<equiv> backend_only BfCpp"

lemma cpp_only_api_ok: "cpp_only api \<Longrightarrow> api_ok api"
  by (rule backend_only_api_ok)

lemma route_type_ok:
  assumes "cpp_only api" "t \<in> set (all_api_types api)" shows "route_type api t = Inr ()"
  using backend_type_crosses [OF assms] by (simp add: route_type_def)

lemma route_binding_ok:
  assumes "cpp_only api" "set (binding_types b) \<subseteq> set (all_api_types api)" shows "route_binding api b = Inr ()"
  using assms route_type_ok by (auto simp: route_binding_def binding_types_def)

section \<open>Parameters\<close>

lemma template_inner_Some:
  assumes "template_inner v t = Some i" shows "v = t @ ''<'' @ i @ ''>''"
proof -
  let ?p = "t @ ''<''"
  from assms have v: "take (length ?p) v = ?p" "v \<noteq> []" "last v = CHR ''>''" "i = butlast (drop (length ?p) v)"
    by (auto simp: template_inner_def Let_def split: if_splits)
  have split: "v = ?p @ drop (length ?p) v" using v(1) by (metis append_take_drop_id)
  have "drop (length ?p) v \<noteq> []"
  proof
    assume "drop (length ?p) v = []"
    with split have "v = ?p" by simp
    with v(3) show False by simp
  qed
  then have "drop (length ?p) v = i @ [last v]"
    using v(4) by (metis append_butlast_last_id last_drop drop_eq_Nil not_le)
  with split v(3) show ?thesis by simp
qed

lemma ends_with_append [simp]: "ends_with s (p @ s)"
  by (simp add: ends_with_def)

lemma has_prefix_append [simp]: "has_prefix p (p @ s)"
  by (simp add: has_prefix_def)

lemma named_object_form:
  assumes "named_cpp_type result source pos shared reference is_const n = Inr t" "st_kind t = KObjectRef"
  shows "object_form_ok result pos shared reference is_const"
  using assms
  by (auto simp: named_cpp_type_Inr value_ref_def enum_ref_def mk_type_Inr split: named_kind.splits)

lemma nominal_object_form:
  assumes "nominal_cpp_type spelling c False source reg namespace PosParameter = Inr t" "st_kind t = KObjectRef"
    and "\<not> (c \<noteq> [] \<and> last c = CHR ''&'')"
  shows "\<exists>i. template_inner c ''std::shared_ptr'' = Some i"
proof -
  let ?const = "has_prefix ''const '' c"
  let ?core = "if ?const then drop (length ''const '') c else c"
  have ref: "(c \<noteq> [] \<and> last c = CHR ''&'') = False" using assms(3) by blast
  obtain n where "named_cpp_type False source PosParameter (template_inner ?core ''std::shared_ptr'' \<noteq> None)
      False ?const n = Inr t"
    using assms(1) unfolding nominal_cpp_type_def Let_def ref if_False
    by (simp split: sum.splits projection_error.splits projection_reason.splits)
  from named_object_form [OF this assms(2)]
  have "template_inner ?core ''std::shared_ptr'' \<noteq> None" "\<not> ?const"
    by (auto simp: object_form_ok_def split: if_splits)
  then show ?thesis by auto
qed

lemma object_passing_total:
  assumes "canonical_cpp_type spelling False source registry namespace PosParameter = Inr t"
    "st_kind t = KObjectRef"
  shows "\<exists>p. object_passing_of spelling = Inr p"
  using assms(1)
proof (cases rule: canonical_cpp_type_cases)
  case table
  then show ?thesis using table_types assms(2) by fastforce
next
  case (vector reg inner e)
  then show ?thesis using assms(2) by (auto simp: array_of_def mk_type_Inr)
next
  case (optional reg inner e)
  then show ?thesis using assms(2) by (auto simp: nullable_of_def mk_type_Inr)
next
  case (nominal reg)
  let ?c = "normalized_cpp_type spelling"
  show ?thesis
  proof (cases "?c \<noteq> [] \<and> last ?c = CHR ''&''")
    case True
    then have "ends_with ''&'' ?c"
      using ends_with_append [of "''&''" "butlast ?c"] by (metis append_butlast_last_id)
    then show ?thesis by (simp add: object_passing_of_def Let_def)
  next
    case False
    then obtain i where i: "?c = ''std::shared_ptr<'' @ (i @ ''>'')"
      using nominal_object_form [OF nominal(5) assms(2)] template_inner_Some by fastforce
    then have "has_prefix ''std::shared_ptr<'' ?c" by (simp only: has_prefix_append)
    moreover have "ends_with ''>'' ?c" unfolding i append_assoc [symmetric] by (rule ends_with_append)
    ultimately show ?thesis by (simp only: object_passing_of_def Let_def if_True) (simp split: if_splits)
  qed
qed

lemma parameter_route_total:
  assumes "project_parameter source registry namespace p = Inr x"
  shows "\<exists>r. parameter_route x p = Inr r \<and> pa_name r = cps_name p \<and> pa_spelling r = cps_type p \<and> pa_type r = p_type x"
proof -
  from assms obtain t where t: "canonical_cpp_type (cps_type p) False source registry namespace PosParameter = Inr t"
    and x: "x = \<lparr>p_name = cps_name p, p_type = t\<rparr>" by (auto simp: project_parameter_Inr)
  show ?thesis
  proof (cases "st_kind t = KObjectRef")
    case True
    with object_passing_total [OF t True] x show ?thesis
      by (auto simp: parameter_route_def mk_parameter_route_def check_parameter_route_def)
  next
    case False
    with x show ?thesis by (auto simp: parameter_route_def mk_parameter_route_def check_parameter_route_def)
  qed
qed

text \<open>A loop over projected items whose sources stand beside them.\<close>

definition routes_parameters :: "cpp_parameter_source list \<Rightarrow> cpp_parameter_route list \<Rightarrow> bool" where
  "routes_parameters ps rs \<longleftrightarrow> map pa_name rs = map cps_name ps \<and> map pa_spelling rs = map cps_type ps"

lemma parameter_routes_total:
  assumes "emap (project_parameter source registry namespace) ps = Inr xs"
  shows "\<exists>rs. parameter_routes xs ps = Inr rs \<and> routes_parameters ps rs"
proof -
  have "list_all2 (\<lambda>p x. project_parameter source registry namespace p = Inr x) ps xs"
    using assms by (simp add: emap_Inr_iff)
  then have "length xs = length ps \<and> (\<exists>rs. emap (\<lambda>(x, p). parameter_route x p) (zip xs ps) = Inr rs \<and>
      routes_parameters ps rs)"
  proof (induction rule: list_all2_induct)
    case Nil
    then show ?case by (simp add: routes_parameters_def)
  next
    case (Cons p ps x xs)
    with parameter_route_total [OF Cons.hyps(1)] show ?case by (fastforce simp: routes_parameters_def)
  qed
  then show ?thesis by (simp add: parameter_routes_def)
qed

section \<open>Declaration identities\<close>

abbreviation class_method_ids :: "cpp_class_source \<Rightarrow> string list" where
  "class_method_ids s \<equiv> map (sp_declaration \<circ> cms_provenance) (cls_methods s)"

definition identities_distinct ::
    "cpp_function_source list \<Rightarrow> cpp_class_source list \<Rightarrow> cpp_enum_source list \<Rightarrow> bool" where
  "identities_distinct fs cs es \<longleftrightarrow>
     distinct (map (sp_declaration \<circ> cfs_provenance) fs @ concat (map class_method_ids cs)) \<and>
     distinct (map class_key cs) \<and> distinct (map (sp_declaration \<circ> ces_provenance) es) \<and>
     list_all (\<lambda>s. distinct (map (sp_declaration \<circ> ccs_provenance) (cls_constructors s)) \<and>
       distinct (map (sp_declaration \<circ> cds_provenance) (cls_fields s))) cs"

section \<open>Functions\<close>

text \<open>What the route of a marked function says about it.\<close>

definition routes_function :: "cpp_function_source \<Rightarrow> cpp_callable_route \<Rightarrow> bool" where
  "routes_function s r \<longleftrightarrow> cr_source r = sp_declaration (cfs_provenance s) \<and> cr_kind r = CpFunction \<and>
     cr_cpp_name r = rooted_cpp_type (scope_join (cfs_namespace s @ [cfs_name s])) \<and>
     routes_parameters (cfs_parameters s) (cr_parameters r) \<and> cr_result_spelling r = cfs_return s \<and>
     cr_noexcept r = cfs_noexcept s \<and> cr_execution r = intent_execution (cfs_intent s) \<and>
     (cr_public r \<longleftrightarrow> intent_role (cfs_intent s) = RoleExported)"

lemma plan_function_ok:
  assumes "cpp_only api" "distinct (map (sp_declaration \<circ> cfs_provenance) fs)" "s \<in> set fs"
    and "b \<in> set (a_functions api)" "sp_language (cfs_provenance s) = ''cpp''"
    and "project_callable (cfs_provenance s) registry (cfs_namespace s) BkFunction (cfs_name s) (cfs_intent s)
        (cfs_parameters s) (cfs_return s) None None None = Inr b"
  shows "\<exists>r. plan_function api fs cs b = Inr (Some r) \<and> routes_function s r"
  using assms(6)
proof (cases rule: project_callable_Inr)
  case (1 qs t)
  from parameter_routes_total [OF 1(1)] obtain rs
    where rs: "parameter_routes qs (cfs_parameters s) = Inr rs" "routes_parameters (cfs_parameters s) rs" by blast
  have "set (binding_types b) \<subseteq> set (all_api_types api)" using assms(4) by (auto simp: all_api_types_def)
  note ok = route_binding_ok [OF assms(1) this]
  have "dict_by (sp_declaration \<circ> cfs_provenance) fs (sp_declaration (cfs_provenance s)) = Some s"
    by (rule dict_by_comp [OF assms(2,3)])
  with ok 1(3) rs assms(5) show ?thesis
    by (simp add: plan_function_def Let_def function_route_def require_source_def routes_function_def)
qed

lemma implementation_ids:
  assumes "distinct (map class_key cs)" "s \<in> set cs" "\<not> declares_object (cls_intent s)" "m \<in> set (cls_methods s)"
  shows "sp_declaration (cms_provenance m) \<in> set (implementation_method_ids cs)"
  using assms dict_by_distinct [OF assms(1,2)] by (force simp: implementation_method_ids_def)

lemma plan_implementation_ok:
  assumes "cpp_only api" "identities_distinct fs cs es" "s \<in> set cs" "implementation_owner s"
    and "m \<in> set (generated_methods s)" "project_implementation_method s registry m = Inr b"
    and "b \<in> set (a_functions api)"
  shows "plan_function api fs cs b = Inr None"
proof -
  from assms(6) have b: "b_source b = cms_provenance m" "b_kind b = BkFunction"
    by (auto simp: project_implementation_method_def elim: project_callable_Inr)
  have m: "m \<in> set (cls_methods s)" using assms(5) by (simp add: generated_methods_def)
  have "set (map (sp_declaration \<circ> cfs_provenance) fs) \<inter> set (concat (map class_method_ids cs)) = {}"
    using assms(2) unfolding identities_distinct_def distinct_append by blast
  moreover have "sp_declaration (cms_provenance m) \<in> set (concat (map class_method_ids cs))"
    using assms(3) m by fastforce
  ultimately have fresh: "sp_declaration (cms_provenance m) \<notin> set (map (sp_declaration \<circ> cfs_provenance) fs)" by blast
  have "dict_by (sp_declaration \<circ> cfs_provenance) fs (sp_declaration (cms_provenance m)) = None"
  proof (rule ccontr)
    assume "\<not> ?thesis"
    then obtain s' where "dict_by (sp_declaration \<circ> cfs_provenance) fs (sp_declaration (cms_provenance m)) = Some s'"
      by blast
    from dict_by_Some [OF this] have "sp_declaration (cms_provenance m) \<in> set (map (sp_declaration \<circ> cfs_provenance) fs)"
      by (metis image_eqI list.set_map)
    with fresh show False by blast
  qed
  moreover have "sp_declaration (cms_provenance m) \<in> set (implementation_method_ids cs)"
    using assms(2-4) m by (intro implementation_ids) (auto simp: identities_distinct_def implementation_owner_def)
  moreover have "route_binding api b = Inr ()"
    using assms(7) by (intro route_binding_ok [OF assms(1)]) (auto simp: all_api_types_def)
  ultimately show ?thesis using b by (simp add: plan_function_def Let_def)
qed

section \<open>Classes\<close>

lemma plan_method_ok:
  assumes "cpp_only api" "ObjectDecl d \<in> set (a_declarations api)" "b \<in> set (o_methods d)"
    and "distinct (class_method_ids s)" "m \<in> set (generated_methods s)"
    and "project_method s i CkJsObject registry m = Inr b"
  shows "\<exists>r. plan_method api s b = Inr r"
proof -
  from assms(6) have "project_callable (cms_provenance m) registry (cls_namespace s) BkObjectMethod (cms_name m)
      (cms_intent m) (cms_parameters m) (cms_return m) (Some i) (Some (cls_name s))
      (Some (if cms_static m then ScStatic else ScInstance)) = Inr b"
    by (simp add: project_method_def Let_def)
  then show ?thesis
  proof (cases rule: project_callable_Inr)
    case (1 qs t)
    from parameter_routes_total [OF 1(1)] obtain rs where rs: "parameter_routes qs (cms_parameters m) = Inr rs" by blast
    have "set (binding_types b) \<subseteq> set (declaration_types (ObjectDecl d))"
      using assms(3) by (auto simp: declaration_types_def)
    then have "set (binding_types b) \<subseteq> set (all_api_types api)" using assms(2) by (auto simp: all_api_types_def)
    note ok = route_binding_ok [OF assms(1) this]
    have "m \<in> set (cls_methods s)" using assms(5) by (simp add: generated_methods_def)
    note src = dict_by_comp [OF assms(4) this]
    from ok src 1(3) rs show ?thesis
      by (simp add: plan_method_def method_route_def require_source_def Let_def infer_scope_def)
  qed
qed

lemma projected_field_Inr:
  assumes "projected_field s i registry f = Inr x"
  shows "f_source x = cds_provenance f \<and> f_mutable x = cds_mutable f \<and> f_name x = cds_name f"
  using assms by (auto simp: projected_field_def mk_field_def Let_def)

lemma plan_field_route_ok:
  assumes "cpp_only api" "ObjectDecl d \<in> set (a_declarations api)" "x \<in> set (o_fields d)"
    and "distinct (map (sp_declaration \<circ> cds_provenance) (cls_fields s))" "f \<in> set (cls_fields s)"
    and "projected_field s i registry f = Inr x"
  shows "\<exists>r. plan_field_route api s x = Inr r"
proof -
  have "f_type x \<in> set (declaration_types (ObjectDecl d))" using assms(3) by (auto simp: declaration_types_def)
  then have "f_type x \<in> set (all_api_types api)" using assms(2) by (auto simp: all_api_types_def)
  note ok = route_type_ok [OF assms(1) this]
  from ok projected_field_Inr [OF assms(6)] dict_by_comp [OF assms(4,5)] show ?thesis
    by (simp add: plan_field_route_def field_route_def require_source_def)
qed

lemma plan_constructor_ok:
  assumes "cpp_only api" "ObjectDecl d \<in> set (a_declarations api)"
    and "distinct (map (sp_declaration \<circ> ccs_provenance) (cls_constructors s))"
    and "selected_object_constructor registry s = Inr (o_constructor d)"
  shows "\<exists>r. plan_constructor_route api d s = Inr r"
proof (cases "o_constructor d")
  case None
  then show ?thesis by (simp add: plan_constructor_route_def)
next
  case (Some k)
  with assms(4) obtain c cs where c: "filter constructor_selected (cls_constructors s) = c # cs"
    by (cases "filter constructor_selected (cls_constructors s)") (simp_all add: selected_object_constructor_def)
  with assms(4) Some obtain ps where ps: "constructor_parameters registry (cls_namespace s) c = Inr (Some ps)"
    and k: "k = \<lparr>k_source = ccs_provenance c, k_parameters = ps\<rparr>"
    by (cases cs) (auto simp: selected_object_constructor_def mk_constructor_def Let_def split: option.splits)
  from ps have "emap (project_parameter (ccs_provenance c) registry (cls_namespace s)) (ccs_parameters c) = Inr ps"
    by (auto simp: constructor_parameters_def split: sum.splits if_splits)
  from parameter_routes_total [OF this] obtain rs where rs: "parameter_routes ps (ccs_parameters c) = Inr rs" by blast
  have "set (constructor_types k) \<subseteq> set (declaration_types (ObjectDecl d))"
    using Some by (auto simp: declaration_types_def)
  then have "set (constructor_types k) \<subseteq> set (all_api_types api)" using assms(2) by (auto simp: all_api_types_def)
  then have ok: "route_type api (p_type p) = Inr ()" if "p \<in> set ps" for p
    using route_type_ok [OF assms(1)] that k by (auto simp: constructor_types_def)
  have "c \<in> set (cls_constructors s)" using filter_eq_ConsD [OF c] by auto
  note src = dict_by_comp [OF assms(3) this]
  have "valid_declaration (ObjectDecl d)" using assms(1,2) by (auto simp: backend_only_def valid_api_def list_all_iff)
  then have "o_type_id d \<noteq> []"
    by (auto simp: check_object_def check_header_def semantic_type_id_def)
  then have "object_ref (o_type_id d) = Inr (SemType KObjectRef None (Some (o_type_id d)) None)"
    by (auto simp: object_ref_def mk_type_Inr check_type_cases)
  with Some ok src rs k show ?thesis
    by (simp add: plan_constructor_route_def constructor_callable_route_def require_source_def Let_def)
qed

lemma plan_object_ok:
  assumes "cpp_only api" "d \<in> set (a_declarations api)" "s \<in> set cs" "identities_distinct fs cs es"
    and "project_cpp_object registry feature_id s = Inr d"
  shows "\<exists>r. plan_declaration_route api cs es d = Inr (Some r) \<and> nr_source (planned_named r) = class_key s"
  using assms(5)
proof (cases rule: project_cpp_object_Inr)
  case (1 type_id ms fields k)
  let ?d = "\<lparr>o_feature = feature_id, o_type_id = type_id, o_name = cls_name s,
       o_projection = \<lparr>pr_backend = BfCpp, pr_source = cls_provenance s\<rparr>, o_constructor = k,
       o_methods = ms, o_fields = fields\<rparr>"
  have decl: "ObjectDecl ?d \<in> set (a_declarations api)" using 1(5) assms(2) by simp
  from assms(3,4) have ids: "distinct (class_method_ids s)" "distinct (map class_key cs)"
    "distinct (map (sp_declaration \<circ> ccs_provenance) (cls_constructors s))"
    "distinct (map (sp_declaration \<circ> cds_provenance) (cls_fields s))"
    using distinct_concat_in [of class_method_ids cs s] by (auto simp: identities_distinct_def list_all_iff)
  obtain kr where kr: "plan_constructor_route api ?d s = Inr kr"
    using plan_constructor_ok [OF assms(1) decl ids(3)] 1(3) by auto
  have "\<exists>rs. emap (plan_method api s) ms = Inr rs"
  proof (rule emap_Inr_total)
    fix b assume b: "b \<in> set ms"
    with emap_Inr_set [OF 1(1)] obtain m where "m \<in> set (generated_methods s)"
      "project_method s type_id CkJsObject registry m = Inr b" by blast
    then show "\<exists>r. plan_method api s b = Inr r" using plan_method_ok [OF assms(1) decl _ ids(1)] b by simp
  qed
  then obtain mr where mr: "emap (plan_method api s) ms = Inr mr" by blast
  have "\<exists>rs. emap (plan_field_route api s) fields = Inr rs"
  proof (rule emap_Inr_total)
    fix x assume x: "x \<in> set fields"
    with emap_Inr_set [OF 1(2)] obtain f where "f \<in> set (cls_fields s)"
      "projected_field s type_id registry f = Inr x" by blast
    then show "\<exists>r. plan_field_route api s x = Inr r" using plan_field_route_ok [OF assms(1) decl _ ids(4)] x by simp
  qed
  then obtain fr where fr: "emap (plan_field_route api s) fields = Inr fr" by blast
  from kr mr fr dict_by_distinct [OF ids(2) assms(3)] show ?thesis
    unfolding 1(5) by (simp add: plan_declaration_route_def plan_class_def plan_object_def Let_def named_class_route_def)
qed

lemma plan_value_ok:
  assumes "cpp_only api" "d \<in> set (a_declarations api)" "s \<in> set cs" "identities_distinct fs cs es"
    and "project_cpp_value registry feature_id s = Inr d"
  shows "\<exists>r. plan_declaration_route api cs es d = Inr (Some r) \<and> nr_source (planned_named r) = class_key s"
  using assms(5)
proof (cases rule: project_cpp_value_Inr)
  case (1 type_id fields)
  let ?d = "\<lparr>v_feature = feature_id, v_type_id = type_id, v_name = cls_name s, v_fields = fields,
       v_projections = [\<lparr>pr_backend = BfCpp, pr_source = cls_provenance s\<rparr>]\<rparr>"
  have "valid_declaration (ValueDecl ?d)"
    using assms(1,2) 1(3) by (auto simp: backend_only_def valid_api_def list_all_iff)
  then have "distinct (map f_name fields)" by (simp add: check_value_def check_fields_def)
  moreover have "map f_name fields = map cds_name (cls_fields s)"
    using 1(1) unfolding emap_Inr_iff by (rule list_all2_sources) (simp add: projected_field_Inr)
  ultimately have names: "distinct (map cds_name (cls_fields s))" by simp
  have "\<exists>rs. emap (\<lambda>f. case dict_by cds_name (cls_fields s) (f_name f) of
         None \<Rightarrow> Inl (MissingValueField (v_name ?d)) | Some fs \<Rightarrow> field_route True f fs) fields = Inr rs"
  proof (rule emap_Inr_total)
    fix x assume "x \<in> set fields"
    with emap_Inr_set [OF 1(1)] obtain f where f: "f \<in> set (cls_fields s)"
      "projected_field s type_id registry f = Inr x" by blast
    from projected_field_Inr [OF f(2)] dict_by_distinct [OF names f(1)]
    show "\<exists>y. (case dict_by cds_name (cls_fields s) (f_name x) of
        None \<Rightarrow> Inl (MissingValueField (v_name ?d)) | Some fs \<Rightarrow> field_route True x fs) = Inr y"
      by (simp add: field_route_def)
  qed
  moreover have "distinct (map class_key cs)" using assms(4) by (simp add: identities_distinct_def)
  ultimately show ?thesis
    using dict_by_distinct [of class_key cs s] assms(3) unfolding 1(3)
    by (auto simp: plan_declaration_route_def plan_class_def plan_value_def Let_def named_class_route_def)
qed

lemma plan_enum_ok:
  assumes "e \<in> set es" "identities_distinct fs cs es" "project_cpp_enum feature_id e = Inr d"
  shows "\<exists>r. plan_declaration_route api cs es d = Inr (Some r) \<and>
    nr_source (planned_named r) = sp_declaration (ces_provenance e)"
  using assms(3)
proof (cases rule: project_cpp_enum_Inr)
  case (1 type_id)
  have "dict_by (sp_declaration \<circ> ces_provenance) es (sp_declaration (ces_provenance e)) = Some e"
    using assms(1,2) by (intro dict_by_comp) (simp_all add: identities_distinct_def)
  with 1(2) show ?thesis by (simp add: plan_declaration_route_def plan_enum_def Let_def)
qed

section \<open>The plan of a projected API\<close>

lemma implementation_part_ok:
  assumes "cpp_only api" "identities_distinct fs cs es" "s \<in> set cs"
    and "project_class_source registry feature_id s = Inr part"
    and "set (fst part) \<subseteq> set (a_functions api)"
  shows "\<exists>rs. emap (plan_function api fs cs) (fst part) = Inr rs \<and> List.map_filter id rs = []"
proof -
  obtain bs ls ds where p: "part = (bs, ls, ds)" by (cases part)
  have "emap (plan_function api fs cs) bs = Inr (map (\<lambda>_. None) bs)"
  proof (rule emap_all)
    fix b assume b: "b \<in> set bs"
    from assms(4) [unfolded p] show "plan_function api fs cs b = Inr None"
    proof (cases rule: project_class_source_Inr)
      case owner
      from b emap_Inr_set [OF implementation_bindings_Inr [OF owner(2)]] obtain m
        where "m \<in> set (generated_methods s)" "project_implementation_method s registry m = Inr b" by blast
      with assms owner b p show ?thesis by (intro plan_implementation_ok) auto
    qed (use b in simp_all)
  qed
  moreover have "List.map_filter id (map (\<lambda>_. None) bs) = []" by (induction bs) simp_all
  ultimately show ?thesis using p by simp
qed

lemma class_part_ok:
  assumes "cpp_only api" "identities_distinct fs cs es" "s \<in> set cs" "class_intent_built s"
    and "project_class_source registry feature_id s = Inr part"
    and "set (snd (snd part)) \<subseteq> set (a_declarations api)"
  shows "\<exists>rs. emap (plan_declaration_route api cs es) (snd (snd part)) = Inr rs \<and>
     map (nr_source \<circ> planned_named) (List.map_filter id rs) = (if declares_type s then [class_key s] else [])"
proof -
  obtain bs ls ds where p: "part = (bs, ls, ds)" by (cases part)
  from assms(5) [unfolded p] show ?thesis
  proof (cases rule: project_class_source_Inr)
    case (object d)
    with assms(6) p have "d \<in> set (a_declarations api)" by simp
    from plan_object_ok [OF assms(1) this assms(3,2)] object obtain r
      where "plan_declaration_route api cs es d = Inr (Some r)" "nr_source (planned_named r) = class_key s" by blast
    with object p show ?thesis by (simp add: declares_type_def)
  next
    case (val d)
    with assms(6) p have "d \<in> set (a_declarations api)" by simp
    from plan_value_ok [OF assms(1) this assms(3,2)] val obtain r
      where "plan_declaration_route api cs es d = Inr (Some r)" "nr_source (planned_named r) = class_key s" by blast
    with val p show ?thesis by (simp add: declares_type_def)
  next
    case owner
    then show ?thesis using p by (simp add: implementation_owner_def declares_type_def)
  next
    case (legacy c)
    then show ?thesis using p by simp
  qed
qed

lemma map_filter_append: "List.map_filter f (a @ b) = List.map_filter f a @ List.map_filter f b"
  by (simp add: map_filter_def)

lemma concat_map_singleton_if: "concat (map (\<lambda>x. if P x then [f x] else []) xs) = map f (filter P xs)"
  by (induction xs) simp_all


lemma sample_identities: "identities_distinct [sample_function] [sample_object_class, sample_value_class] []"
  by code_simp


end
