(* ===== verification/Conversion_Run.thy ===== *)
theory Conversion_Run
  imports Conversion_Plan "HOL-Library.Log_Nat"
begin

text \<open>
  The reference conversion engine (\<^verbatim>\<open>conversion.py\<close>, second part): one transactional snapshot of a
  JavaScript or native value along a planned tree, under a budget.

  \<^item> \<open>pyval\<close> holds the Python objects the engine tells apart; text is a list of code points, so lone
    surrogates exist, and a byte is a natural number below 256.
  \<^item> A finite double is \<open>Finite m e\<close>, the number m * 2 ^ e; \<open>NegZero\<close> is -0.0.
  \<^item> The mutable \<open>ConversionBudget\<close>, its injector and the \<open>retained\<close> list are the record \<open>budget\<close>,
    threaded through every call; a raised exception abandons it, as all three are local to the
    engine's entry points.
\<close>

section \<open>Doubles\<close>

datatype py_float = Finite int int | NegZero | PosInf | NegInf | NaN

definition is_finite :: "py_float \<Rightarrow> bool" where
  "is_finite f = (case f of Finite _ _ \<Rightarrow> True | NegZero \<Rightarrow> True | _ \<Rightarrow> False)"

text \<open>\<open>math.trunc(f) == f\<close> and \<open>int(f)\<close> for finite \<open>f\<close>.\<close>

definition integral_value :: "py_float \<Rightarrow> int option" where
  "integral_value f = (case f of
      Finite m e \<Rightarrow>
        if e \<ge> 0 then Some (m * 2 ^ nat e)
        else if 2 ^ nat (- e) dvd m then Some (m div 2 ^ nat (- e)) else None
    | NegZero \<Rightarrow> Some 0
    | _ \<Rightarrow> None)"

text \<open>\<open>abs(f) > 3.4028234663852886e38\<close>; the literal is (2 ^ 24 - 1) * 2 ^ 104.\<close>

definition max_float32 :: int where "max_float32 = (2 ^ 24 - 1) * 2 ^ 104"

definition exceeds_float32 :: "py_float \<Rightarrow> bool" where
  "exceeds_float32 f = (case f of
      Finite m e \<Rightarrow>
        if e \<ge> 0 then \<bar>m\<bar> * 2 ^ nat e > max_float32 else \<bar>m\<bar> > max_float32 * 2 ^ nat (- e)
    | _ \<Rightarrow> False)"

text \<open>\<open>float(n)\<close>: round half to even at 53 bits; beyond the largest double, \<open>OverflowError\<close>.\<close>

definition float_of_int :: "int \<Rightarrow> py_float option" where
  "float_of_int n =
     (let a = \<bar>n\<bar> in
      if a < 2 ^ 53 then Some (Finite n 0)
      else
        let s = nat (bitlen a - 53); q = a div 2 ^ s; r = a mod 2 ^ s; half = 2 ^ (s - 1);
            m = (if r > half \<or> r = half \<and> odd q then q + 1 else q)
        in if m * 2 ^ s \<ge> 2 ^ 1024 then None else Some (Finite (sgn n * m) (int s)))"

section \<open>Text\<close>

text \<open>\<open>str.encode("utf-8")\<close> and strict \<open>bytes.decode("utf-8")\<close>.\<close>

definition is_surrogate :: "nat \<Rightarrow> bool" where
  "is_surrogate c \<longleftrightarrow> 0xD800 \<le> c \<and> c \<le> 0xDFFF"

definition utf8_char :: "nat \<Rightarrow> nat list option" where
  "utf8_char c =
     (if c < 0x80 then Some [c]
      else if c < 0x800 then Some [0xC0 + c div 64, 0x80 + c mod 64]
      else if is_surrogate c then None
      else if c < 0x10000 then Some [0xE0 + c div 4096, 0x80 + c div 64 mod 64, 0x80 + c mod 64]
      else if c < 0x110000
      then Some [0xF0 + c div 262144, 0x80 + c div 4096 mod 64, 0x80 + c div 64 mod 64, 0x80 + c mod 64]
      else None)"

fun utf8_encode :: "nat list \<Rightarrow> nat list option" where
  "utf8_encode [] = Some []"
| "utf8_encode (c # cs) =
     (case utf8_char c of
        None \<Rightarrow> None
      | Some bs \<Rightarrow> (case utf8_encode cs of None \<Rightarrow> None | Some rest \<Rightarrow> Some (bs @ rest)))"

definition is_tail_byte :: "nat \<Rightarrow> bool" where
  "is_tail_byte b \<longleftrightarrow> 0x80 \<le> b \<and> b < 0xC0"

text \<open>The code point an accepted multi-byte sequence denotes; overlong forms and surrogates are refused.\<close>

definition utf8_pair :: "nat \<Rightarrow> nat \<Rightarrow> nat option" where
  "utf8_pair a b =
     (let c = (a - 0xC0) * 64 + (b - 0x80) in
      if 0xC0 \<le> a \<and> a < 0xE0 \<and> is_tail_byte b \<and> 0x80 \<le> c then Some c else None)"

definition utf8_triple :: "nat \<Rightarrow> nat \<Rightarrow> nat \<Rightarrow> nat option" where
  "utf8_triple a b d =
     (let c = (a - 0xE0) * 4096 + (b - 0x80) * 64 + (d - 0x80) in
      if 0xE0 \<le> a \<and> a < 0xF0 \<and> is_tail_byte b \<and> is_tail_byte d \<and> 0x800 \<le> c \<and> \<not> is_surrogate c
      then Some c else None)"

definition utf8_quad :: "nat \<Rightarrow> nat \<Rightarrow> nat \<Rightarrow> nat \<Rightarrow> nat option" where
  "utf8_quad a b d e =
     (let c = (a - 0xF0) * 262144 + (b - 0x80) * 4096 + (d - 0x80) * 64 + (e - 0x80) in
      if 0xF0 \<le> a \<and> a < 0xF8 \<and> is_tail_byte b \<and> is_tail_byte d \<and> is_tail_byte e \<and> 0x10000 \<le> c \<and> c < 0x110000
      then Some c else None)"

definition cons_option :: "'a option \<Rightarrow> 'a list option \<Rightarrow> 'a list option" where
  "cons_option x xs = (case x of None \<Rightarrow> None | Some y \<Rightarrow> map_option (Cons y) xs)"

fun utf8_decode :: "nat list \<Rightarrow> nat list option" where
  "utf8_decode [] = Some []"
| "utf8_decode (a # bs) =
     (if a < 0x80 then map_option (Cons a) (utf8_decode bs)
      else if a < 0xE0 then
        (case bs of b # rest \<Rightarrow> cons_option (utf8_pair a b) (utf8_decode rest) | _ \<Rightarrow> None)
      else if a < 0xF0 then
        (case bs of b # d # rest \<Rightarrow> cons_option (utf8_triple a b d) (utf8_decode rest) | _ \<Rightarrow> None)
      else
        (case bs of b # d # e # rest \<Rightarrow> cons_option (utf8_quad a b d e) (utf8_decode rest) | _ \<Rightarrow> None))"

section \<open>Values\<close>

datatype buffer_kind = PlainBytes | ByteArray | MemoryView

record native_token =
  nt_type_id :: string
  nt_backend :: string
  nt_instance :: nat

definition mk_token :: "string \<Rightarrow> string \<Rightarrow> nat \<Rightarrow> native_token option" where
  "mk_token type_id backend inst =
     (if type_id = [] \<or> backend \<notin> {''cpp'', ''jvm''} then None
      else Some \<lparr>nt_type_id = type_id, nt_backend = backend, nt_instance = inst\<rparr>)"

datatype pyval =
    PyNone
  | PyUndefined
  | PyHole
  | PyBool bool
  | PyInt int
  | PyFloat py_float
  | PyStr "nat list"
  | PyBigInt int
  | PyView "nat list" int int
  | PyBuffer buffer_kind "nat list"
  | PyList "pyval list"
  | PyTuple "pyval list"
  | PyDict "(string \<times> pyval) list"
  | PyToken native_token
  | PyOther string

text \<open>\<open>JsUint8Array(buffer, byte_offset, byte_length)\<close>: the default length is the rest of the buffer.\<close>

definition view_bounds :: "nat list \<Rightarrow> int \<Rightarrow> int \<Rightarrow> bool" where
  "view_bounds buffer offset n \<longleftrightarrow>
     0 \<le> offset \<and> 0 \<le> n \<and> offset \<le> int (length buffer) \<and> n \<le> int (length buffer) - offset"

definition mk_view :: "nat list \<Rightarrow> int \<Rightarrow> int option \<Rightarrow> pyval option" where
  "mk_view buffer offset byte_length =
     (let n = (case byte_length of None \<Rightarrow> int (length buffer) - offset | Some n \<Rightarrow> n) in
      if view_bounds buffer offset n then Some (PyView buffer offset n) else None)"

definition visible_bytes :: "nat list \<Rightarrow> int \<Rightarrow> int \<Rightarrow> nat list" where
  "visible_bytes buffer offset n = take (nat n) (drop (nat offset) buffer)"

definition text_points :: "string \<Rightarrow> nat list" where
  "text_points s = map of_char s"

definition actual :: "pyval \<Rightarrow> string" where
  "actual v = (case v of
      PyNone \<Rightarrow> ''null'' | PyUndefined \<Rightarrow> ''undefined'' | PyHole \<Rightarrow> ''array hole''
    | PyToken t \<Rightarrow> ''native object '' @ nt_type_id t
    | PyView _ _ _ \<Rightarrow> ''Uint8Array'' | PyBigInt _ \<Rightarrow> ''bigint'' | PyBool _ \<Rightarrow> ''boolean''
    | PyInt _ \<Rightarrow> ''number'' | PyFloat _ \<Rightarrow> ''number'' | PyStr _ \<Rightarrow> ''string'' | PyList _ \<Rightarrow> ''Array''
    | PyDict _ \<Rightarrow> ''object'' | PyTuple _ \<Rightarrow> ''tuple''
    | PyBuffer k _ \<Rightarrow> (case k of PlainBytes \<Rightarrow> ''bytes'' | ByteArray \<Rightarrow> ''bytearray'' | MemoryView \<Rightarrow> ''memoryview'')
    | PyOther name \<Rightarrow> name)"

section \<open>Errors, paths and the budget\<close>

datatype direction = Input | Output

text \<open>A path is the public path and the segments appended to it.\<close>

datatype segment = SegArgument nat string | SegResult | SegIndex nat | SegField string

type_synonym path = "string \<times> segment list"

definition into :: "path \<Rightarrow> segment \<Rightarrow> path" where
  "into p s = (fst p, snd p @ [s])"

datatype range_reason =
    DepthExceeds int
  | CounterOverflow string
  | VisitsExceed int
  | NegativeAllocation
  | TemporaryExceeds int
  | ArrayTooLong int
  | Int32NotIntegral
  | Int32OutOfRange
  | Int64OutOfRange
  | Float32OutOfRange
  | StringTooLong
  | BytesTooLong

datatype conversion_error =
    TypeMismatch path string string
  | ArgumentCount string nat nat
  | ArgumentsNotAList string
  | SparseHole path
  | FieldMissing path
  | OutOfRange path range_reason
  | AllocationFailed path
  | FloatOverflow
  | UnicodeEncode
  | EngineAssertion

record budget =
  bg_fail_after :: "int option"
  bg_reservations :: int
  bg_visited :: int
  bg_temporary :: int
  bg_retained :: "native_token list"

definition checked_add :: "int \<Rightarrow> int \<Rightarrow> path \<Rightarrow> string \<Rightarrow> conversion_error + int" where
  "checked_add left right p lbl =
     ebind (raise_if (left < 0 \<or> right < 0 \<or> right > max_counter - left) (OutOfRange p (CounterOverflow lbl)))
       (\<lambda>_. Inr (left + right))"

definition visit_node :: "conversion_limits \<Rightarrow> path \<Rightarrow> int \<Rightarrow> budget \<Rightarrow> conversion_error + budget" where
  "visit_node l p depth b =
     ebind (raise_if (depth > cl_depth l) (OutOfRange p (DepthExceeds (cl_depth l)))) (\<lambda>_.
     ebind (checked_add (bg_visited b) 1 p ''visited-node'') (\<lambda>n.
     ebind (raise_if (n > cl_visited l) (OutOfRange p (VisitsExceed (cl_visited l)))) (\<lambda>_.
     Inr (b\<lparr>bg_visited := n\<rparr>))))"

definition injector_reserve :: "path \<Rightarrow> budget \<Rightarrow> conversion_error + budget" where
  "injector_reserve p b =
     ebind (raise_if (case bg_fail_after b of None \<Rightarrow> False | Some n \<Rightarrow> bg_reservations b \<ge> n)
       (AllocationFailed p)) (\<lambda>_. Inr (b\<lparr>bg_reservations := bg_reservations b + 1\<rparr>))"

definition reserve :: "conversion_limits \<Rightarrow> int \<Rightarrow> path \<Rightarrow> budget \<Rightarrow> conversion_error + budget" where
  "reserve l amount p b =
     ebind (raise_if (amount < 0) (OutOfRange p NegativeAllocation)) (\<lambda>_.
     ebind (injector_reserve p b) (\<lambda>b1.
     ebind (checked_add (bg_temporary b1) amount p ''temporary-byte'') (\<lambda>n.
     ebind (raise_if (n > cl_temporary l) (OutOfRange p (TemporaryExceeds (cl_temporary l)))) (\<lambda>_.
     Inr (b1\<lparr>bg_temporary := n\<rparr>)))))"

definition check_string_bytes :: "conversion_limits \<Rightarrow> nat \<Rightarrow> path \<Rightarrow> conversion_error + unit" where
  "check_string_bytes l n p = raise_if (int n > cl_string l) (OutOfRange p StringTooLong)"

text \<open>\<open>struct.calcsize("P")\<close> on the 64-bit hosts the generator runs on.\<close>

definition pointer_size :: int where "pointer_size = 8"

section \<open>Scalars\<close>

definition conversion_type_error :: "path \<Rightarrow> string \<Rightarrow> pyval \<Rightarrow> conversion_error + 'a" where
  "conversion_type_error p expected v = Inl (TypeMismatch p expected (actual v))"

text \<open>\<open>type(value) in {int, float}\<close>, then \<open>float(value)\<close>.\<close>

definition numeric_value :: "path \<Rightarrow> string \<Rightarrow> pyval \<Rightarrow> conversion_error + py_float" where
  "numeric_value p expected v = (case v of
      PyInt n \<Rightarrow> (case float_of_int n of None \<Rightarrow> Inl FloatOverflow | Some f \<Rightarrow> Inr f)
    | PyFloat f \<Rightarrow> Inr f
    | _ \<Rightarrow> conversion_type_error p expected v)"

definition convert_int32 :: "path \<Rightarrow> pyval \<Rightarrow> conversion_error + pyval" where
  "convert_int32 p v =
     ebind (numeric_value p ''int32 number'' v) (\<lambda>f.
       case (if is_finite f then integral_value f else None) of
         None \<Rightarrow> Inl (OutOfRange p Int32NotIntegral)
       | Some n \<Rightarrow> ebind (raise_if (n < - (2 ^ 31) \<or> n > 2 ^ 31 - 1) (OutOfRange p Int32OutOfRange)) (\<lambda>_.
           Inr (PyInt n)))"

definition convert_int64 :: "direction \<Rightarrow> path \<Rightarrow> pyval \<Rightarrow> conversion_error + pyval" where
  "convert_int64 dir p v =
     ebind (case dir of
        Input \<Rightarrow> (case v of PyBigInt n \<Rightarrow> Inr n | _ \<Rightarrow> conversion_type_error p ''int64 bigint'' v)
      | Output \<Rightarrow> (case v of PyInt n \<Rightarrow> Inr n | _ \<Rightarrow> conversion_type_error p ''native int64'' v)) (\<lambda>n.
     ebind (raise_if (n < - (2 ^ 63) \<or> n > 2 ^ 63 - 1) (OutOfRange p Int64OutOfRange)) (\<lambda>_.
     Inr (if dir = Input then PyInt n else PyBigInt n)))"

definition convert_float :: "scalar_kind \<Rightarrow> path \<Rightarrow> pyval \<Rightarrow> conversion_error + pyval" where
  "convert_float s p v =
     ebind (numeric_value p (scalar_expected s) v) (\<lambda>f.
     ebind (raise_if (s = SFloat32 \<and> is_finite f \<and> exceeds_float32 f) (OutOfRange p Float32OutOfRange)) (\<lambda>_.
     Inr (PyFloat f)))"

definition convert_string ::
    "conversion_limits \<Rightarrow> path \<Rightarrow> pyval \<Rightarrow> budget \<Rightarrow> conversion_error + pyval \<times> budget" where
  "convert_string l p v b = (case v of
      PyStr s \<Rightarrow>
        (case utf8_encode s of
           None \<Rightarrow> Inl UnicodeEncode
         | Some encoded \<Rightarrow>
             ebind (check_string_bytes l (length encoded) p) (\<lambda>_.
             ebind (reserve l (int (length encoded)) p b) (\<lambda>b1.
             case utf8_decode encoded of
               None \<Rightarrow> Inl UnicodeEncode
             | Some s' \<Rightarrow> Inr (PyStr s', b1))))
    | _ \<Rightarrow> conversion_type_error p ''string'' v)"

definition convert_bytes ::
    "conversion_limits \<Rightarrow> direction \<Rightarrow> path \<Rightarrow> pyval \<Rightarrow> budget \<Rightarrow> conversion_error + pyval \<times> budget" where
  "convert_bytes l dir p v b =
     ebind (case dir of
        Input \<Rightarrow> (case v of PyView buf off n \<Rightarrow> Inr (visible_bytes buf off n) | _ \<Rightarrow> conversion_type_error p ''Uint8Array'' v)
      | Output \<Rightarrow> (case v of PyBuffer _ raw \<Rightarrow> Inr raw | _ \<Rightarrow> conversion_type_error p ''native byte buffer'' v)) (\<lambda>raw.
     ebind (raise_if (int (length raw) > cl_bytes l) (OutOfRange p BytesTooLong)) (\<lambda>_.
     ebind (reserve l (int (length raw)) p b) (\<lambda>b1.
     Inr (if dir = Input then PyBuffer PlainBytes raw else PyView raw 0 (int (length raw)), b1))))"

definition convert_scalar ::
    "conversion_limits \<Rightarrow> direction \<Rightarrow> scalar_kind \<Rightarrow> pyval \<Rightarrow> path \<Rightarrow> budget \<Rightarrow>
     conversion_error + pyval \<times> budget" where
  "convert_scalar l dir s v p b = (case s of
      SBool \<Rightarrow> (case v of PyBool _ \<Rightarrow> Inr (v, b) | _ \<Rightarrow> conversion_type_error p ''boolean'' v)
    | SInt32 \<Rightarrow> ebind (convert_int32 p v) (\<lambda>r. Inr (r, b))
    | SInt64 \<Rightarrow> ebind (convert_int64 dir p v) (\<lambda>r. Inr (r, b))
    | SFloat32 \<Rightarrow> ebind (convert_float SFloat32 p v) (\<lambda>r. Inr (r, b))
    | SFloat64 \<Rightarrow> ebind (convert_float SFloat64 p v) (\<lambda>r. Inr (r, b))
    | SString \<Rightarrow> convert_string l p v b
    | SBytes \<Rightarrow> convert_bytes l dir p v b)"

section \<open>The engine\<close>

definition convert_enum ::
    "conversion_limits \<Rightarrow> string \<Rightarrow> string list \<Rightarrow> pyval \<Rightarrow> path \<Rightarrow> budget \<Rightarrow>
     conversion_error + pyval \<times> budget" where
  "convert_enum l expected constants v p b = (case v of
      PyStr s \<Rightarrow>
        if s \<notin> set (map text_points constants) then conversion_type_error p expected v
        else (case utf8_encode s of
            None \<Rightarrow> Inl UnicodeEncode
          | Some encoded \<Rightarrow>
              ebind (check_string_bytes l (length encoded) p) (\<lambda>_.
              ebind (reserve l (int (length encoded)) p b) (\<lambda>b1. Inr (v, b1))))
    | _ \<Rightarrow> conversion_type_error p expected v)"

definition convert_object ::
    "conversion_limits \<Rightarrow> string \<Rightarrow> string option \<Rightarrow> pyval \<Rightarrow> path \<Rightarrow> budget \<Rightarrow>
     conversion_error + pyval \<times> budget" where
  "convert_object l expected type_id v p b = (case v of
      PyToken t \<Rightarrow>
        if Some (nt_type_id t) \<noteq> type_id then conversion_type_error p expected v
        else ebind (reserve l pointer_size p b) (\<lambda>b1. Inr (v, b1\<lparr>bg_retained := bg_retained b1 @ [t]\<rparr>))
    | _ \<Rightarrow> conversion_type_error p expected v)"

text \<open>The elements of an accepted array: JavaScript input is a list, native output a list or a tuple.\<close>

definition array_items :: "direction \<Rightarrow> pyval \<Rightarrow> pyval list option" where
  "array_items dir v = (case v of
      PyList xs \<Rightarrow> Some xs
    | PyTuple xs \<Rightarrow> if dir = Output then Some xs else None
    | _ \<Rightarrow> None)"

function (sequential) convert ::
    "conversion_limits \<Rightarrow> direction \<Rightarrow> conv_node \<Rightarrow> pyval \<Rightarrow> path \<Rightarrow> int \<Rightarrow> budget \<Rightarrow>
     conversion_error + pyval \<times> budget"
  and convert_items ::
    "conversion_limits \<Rightarrow> direction \<Rightarrow> conv_node \<Rightarrow> nat \<Rightarrow> pyval list \<Rightarrow> path \<Rightarrow> int \<Rightarrow> budget \<Rightarrow>
     conversion_error + pyval list \<times> budget"
  and convert_fields ::
    "conversion_limits \<Rightarrow> direction \<Rightarrow> (string \<times> conv_node) list \<Rightarrow> (string \<times> pyval) list \<Rightarrow> path \<Rightarrow> int \<Rightarrow>
     budget \<Rightarrow> conversion_error + (string \<times> pyval) list \<times> budget" where
  "convert l dir (ConvNode k expected s i name constants fs e) v p depth b =
     ebind (visit_node l p depth b) (\<lambda>b.
     if v = PyUndefined then conversion_type_error p expected v
     else if k = NVoid then
       (if dir = Output \<and> v = PyNone then Inr (PyNone, b) else conversion_type_error p ''void'' v)
     else if k = NNullable then
       (if v = PyNone then Inr (PyNone, b)
        else case e of
          None \<Rightarrow> Inl EngineAssertion
        | Some el \<Rightarrow> convert l dir el v p (depth + 1) b)
     else if v = PyNone then conversion_type_error p expected v
     else if k = NScalar then
       (case s of None \<Rightarrow> Inl EngineAssertion | Some sc \<Rightarrow> convert_scalar l dir sc v p b)
     else if k = NEnum then convert_enum l expected constants v p b
     else if k = NObject then convert_object l expected i v p b
     else if k = NArray then
       (case array_items dir v of
          None \<Rightarrow> conversion_type_error p expected v
        | Some items \<Rightarrow>
            ebind (raise_if (int (length items) > cl_array l) (OutOfRange p (ArrayTooLong (cl_array l)))) (\<lambda>_.
            ebind (reserve l (24 + int (length items) * pointer_size) p b) (\<lambda>b.
            case e of
              None \<Rightarrow> Inl EngineAssertion
            | Some el \<Rightarrow>
                ebind (convert_items l dir el 0 items p (depth + 1) b) (\<lambda>(rs, b).
                Inr (if dir = Input then PyTuple rs else PyList rs, b)))))
     else
       (case v of
          PyDict kvs \<Rightarrow>
            ebind (reserve l (32 + int (length fs) * 16) p b) (\<lambda>b.
            ebind (convert_fields l dir fs kvs p (depth + 1) b) (\<lambda>(rs, b). Inr (PyDict rs, b)))
        | _ \<Rightarrow> conversion_type_error p expected v))"
| "convert_items l dir el idx [] p depth b = Inr ([], b)"
| "convert_items l dir el idx (v # vs) p depth b =
     (if v = PyHole then Inl (SparseHole (into p (SegIndex idx)))
      else ebind (convert l dir el v (into p (SegIndex idx)) depth b) (\<lambda>(r, b).
           ebind (convert_items l dir el (Suc idx) vs p depth b) (\<lambda>(rs, b). Inr (r # rs, b))))"
| "convert_fields l dir [] kvs p depth b = Inr ([], b)"
| "convert_fields l dir ((n, el) # fs) kvs p depth b =
     (case map_of kvs n of
        None \<Rightarrow> Inl (FieldMissing (into p (SegField n)))
      | Some raw \<Rightarrow>
          ebind (convert l dir el raw (into p (SegField n)) depth b) (\<lambda>(r, b).
          ebind (convert_fields l dir fs kvs p depth b) (\<lambda>(rs, b). Inr ((n, r) # rs, b))))"
  by pat_completeness auto
termination convert
  by (relation "measures
    [\<lambda>x. case x of Inl (l, dir, n, _) \<Rightarrow> size n
       | Inr (Inl (l, dir, n, _)) \<Rightarrow> size n
       | Inr (Inr (l, dir, fs, _)) \<Rightarrow> size_list (size_prod (\<lambda>_. 0) size) fs,
     \<lambda>x. case x of Inl _ \<Rightarrow> 0
       | Inr (Inl (l, dir, n, idx, vs, _)) \<Rightarrow> Suc (length vs) | Inr (Inr (l, dir, fs, _)) \<Rightarrow> Suc (length fs)]")
    auto

section \<open>Entry points\<close>

text \<open>
  \<open>AllocationFaultInjector\<close>: shared by the conversions of one call, so its counter is returned.  The
  fresh injector of the default argument is \<open>no_faults\<close>.
\<close>

record injector =
  inj_fail_after :: "int option"
  inj_reservations :: int

definition no_faults :: injector where
  "no_faults = \<lparr>inj_fail_after = None, inj_reservations = 0\<rparr>"

definition start_budget :: "injector \<Rightarrow> budget" where
  "start_budget i = \<lparr>bg_fail_after = inj_fail_after i, bg_reservations = inj_reservations i,
     bg_visited = 0, bg_temporary = 0, bg_retained = []\<rparr>"

definition end_injector :: "budget \<Rightarrow> injector" where
  "end_injector b = \<lparr>inj_fail_after = bg_fail_after b, inj_reservations = bg_reservations b\<rparr>"

record prepared_value =
  pv_value :: pyval
  pv_retained :: "native_token list"

record prepared_arguments =
  pg_values :: "pyval list"
  pg_retained :: "native_token list"

text \<open>The loop over \<open>enumerate(zip(parameters, arguments))\<close>.\<close>

fun convert_arguments ::
    "conversion_limits \<Rightarrow> string \<Rightarrow> nat \<Rightarrow> (parameter_conversion \<times> pyval) list \<Rightarrow> budget \<Rightarrow>
     conversion_error + pyval list \<times> budget" where
  "convert_arguments l public idx [] b = Inr ([], b)"
| "convert_arguments l public idx ((pc, v) # rest) b =
     ebind (convert l Input (pc_node pc) v (public, [SegArgument idx (pc_name pc)]) 1 b) (\<lambda>(r, b).
     ebind (convert_arguments l public (Suc idx) rest b) (\<lambda>(rs, b). Inr (r # rs, b)))"

definition prepare_parameters ::
    "parameter_conversion list \<Rightarrow> pyval \<Rightarrow> conversion_limits \<Rightarrow> string \<Rightarrow> injector \<Rightarrow>
     conversion_error + prepared_arguments \<times> injector" where
  "prepare_parameters pcs arguments l public faults =
     (case array_items Output arguments of
        None \<Rightarrow> Inl (ArgumentsNotAList public)
      | Some args \<Rightarrow>
          ebind (raise_if (length args \<noteq> length pcs) (ArgumentCount public (length pcs) (length args))) (\<lambda>_.
          ebind (convert_arguments l public 0 (zip pcs args) (start_budget faults)) (\<lambda>(rs, b).
          Inr (\<lparr>pg_values = rs, pg_retained = bg_retained b\<rparr>, end_injector b))))"

definition prepare_arguments ::
    "binding_plan \<Rightarrow> pyval \<Rightarrow> string \<Rightarrow> injector \<Rightarrow> conversion_error + prepared_arguments \<times> injector" where
  "prepare_arguments plan arguments public faults =
     prepare_parameters (bp_parameters plan) arguments (bp_limits plan) public faults"

definition prepare_constructor_arguments ::
    "constructor_plan \<Rightarrow> pyval \<Rightarrow> string \<Rightarrow> injector \<Rightarrow> conversion_error + prepared_arguments \<times> injector" where
  "prepare_constructor_arguments plan arguments public faults =
     prepare_parameters (kp_parameters plan) arguments (kp_limits plan) public faults"

definition prepare_one ::
    "conversion_limits \<Rightarrow> direction \<Rightarrow> conv_node \<Rightarrow> pyval \<Rightarrow> path \<Rightarrow> injector \<Rightarrow>
     conversion_error + prepared_value \<times> injector" where
  "prepare_one l dir n v p faults =
     ebind (convert l dir n v p 1 (start_budget faults)) (\<lambda>(r, b).
     Inr (\<lparr>pv_value = r, pv_retained = bg_retained b\<rparr>, end_injector b))"

definition prepare_result ::
    "binding_plan \<Rightarrow> pyval \<Rightarrow> string \<Rightarrow> injector \<Rightarrow> conversion_error + prepared_value \<times> injector" where
  "prepare_result plan v public faults =
     prepare_one (bp_limits plan) Output (bp_result plan) v (public, [SegResult]) faults"

section \<open>Transactions\<close>

text \<open>
  A callback runs in a world it may change and may raise: \<open>'a \<Rightarrow> 'w \<Rightarrow> ('x + 'r) \<times> 'w\<close>.
\<close>

datatype 'x call_error = Engine conversion_error | Callback 'x

definition run_callback :: "('w \<Rightarrow> ('x + 'r) \<times> 'w) \<Rightarrow> 'w \<Rightarrow> ('x call_error + 'r) \<times> 'w" where
  "run_callback f w = (case f w of (Inl x, w') \<Rightarrow> (Inl (Callback x), w') | (Inr r, w') \<Rightarrow> (Inr r, w'))"

definition construct_transactionally ::
    "constructor_plan \<Rightarrow> pyval \<Rightarrow> (pyval list \<Rightarrow> 'w \<Rightarrow> ('x + 'r) \<times> 'w) \<Rightarrow> string \<Rightarrow> injector \<Rightarrow> 'w \<Rightarrow>
     ('x call_error + 'r) \<times> 'w" where
  "construct_transactionally plan arguments constructor public faults w =
     (case prepare_constructor_arguments plan arguments public faults of
        Inl e \<Rightarrow> (Inl (Engine e), w)
      | Inr (prepared, _) \<Rightarrow> run_callback (constructor (pg_values prepared)) w)"

definition invoke_transactionally ::
    "binding_plan \<Rightarrow> pyval \<Rightarrow> (pyval list \<Rightarrow> 'w \<Rightarrow> ('x + pyval) \<times> 'w) \<Rightarrow> string \<Rightarrow> injector \<Rightarrow> 'w \<Rightarrow>
     ('x call_error + prepared_value) \<times> 'w" where
  "invoke_transactionally plan arguments implementation public faults w =
     (case prepare_arguments plan arguments public faults of
        Inl e \<Rightarrow> (Inl (Engine e), w)
      | Inr (prepared, faults1) \<Rightarrow>
          (case run_callback (implementation (pg_values prepared)) w of
             (Inl e, w1) \<Rightarrow> (Inl e, w1)
           | (Inr result, w1) \<Rightarrow>
               (case prepare_result plan result public faults1 of
                  Inl e \<Rightarrow> (Inl (Engine e), w1)
                | Inr (pv, _) \<Rightarrow> (Inr pv, w1))))"

definition accept_transactionally ::
    "binding_plan \<Rightarrow> pyval \<Rightarrow> (prepared_arguments \<Rightarrow> 'w \<Rightarrow> ('x + unit) \<times> 'w) \<Rightarrow> string \<Rightarrow> injector \<Rightarrow> 'w \<Rightarrow>
     ('x call_error + prepared_arguments) \<times> 'w" where
  "accept_transactionally plan arguments accept public faults w =
     (case prepare_arguments plan arguments public faults of
        Inl e \<Rightarrow> (Inl (Engine e), w)
      | Inr (prepared, _) \<Rightarrow>
          (case run_callback (accept prepared) w of
             (Inl e, w1) \<Rightarrow> (Inl e, w1)
           | (Inr _, w1) \<Rightarrow> (Inr prepared, w1)))"

definition assign_transactionally ::
    "conv_node \<Rightarrow> pyval \<Rightarrow> (pyval \<Rightarrow> 'w \<Rightarrow> ('x + unit) \<times> 'w) \<Rightarrow> string \<Rightarrow> conversion_limits \<Rightarrow> injector \<Rightarrow> 'w \<Rightarrow>
     ('x call_error + prepared_value) \<times> 'w" where
  "assign_transactionally n v setter public l faults w =
     (case prepare_one l Input n v (public, []) faults of
        Inl e \<Rightarrow> (Inl (Engine e), w)
      | Inr (pv, _) \<Rightarrow>
          (case run_callback (setter (pv_value pv)) w of
             (Inl e, w1) \<Rightarrow> (Inl e, w1)
           | (Inr _, w1) \<Rightarrow> (Inr pv, w1)))"

end
