(* ===== verification/Conversion_Run_Props.thy ===== *)
theory Conversion_Run_Props
  imports Conversion_Run
begin

text \<open>
  What a conversion guarantees: the budget bounds what it builds, the result has the shape of the
  planned tree, exactly the objects in it are retained, an error is explained by a part of the value, and what
  went in as input comes out as the same JavaScript value.
\<close>

section \<open>UTF-8\<close>

lemma utf8_digits:
  fixes c :: nat
  shows "c div 64 * 64 + c mod 64 = c" "c div 4096 * 4096 + c div 64 mod 64 * 64 + c mod 64 = c"
    "c div 262144 * 262144 + c div 4096 mod 64 * 4096 + c div 64 mod 64 * 64 + c mod 64 = c"
proof -
  show "c div 64 * 64 + c mod 64 = c" by simp
  have step: "x = x div 64 * 64 + x mod 64" for x :: nat by simp
  have d: "c div 4096 = c div 64 div 64" "c div 262144 = c div 64 div 64 div 64"
    by (simp_all add: div_mult2_eq [symmetric])
  show "c div 4096 * 4096 + c div 64 mod 64 * 64 + c mod 64 = c"
    unfolding d using step [of c] step [of "c div 64"] by linarith
  show "c div 262144 * 262144 + c div 4096 mod 64 * 4096 + c div 64 mod 64 * 64 + c mod 64 = c"
    unfolding d using step [of c] step [of "c div 64"] step [of "c div 64 div 64"] by linarith
qed

lemma utf8_char_decode:
  assumes "utf8_char c = Some bs"
  shows "utf8_decode (bs @ rest) = map_option (Cons c) (utf8_decode rest)"
proof -
  have tail: "is_tail_byte (0x80 + x mod 64)" "0x80 + x mod 64 - 0x80 = x mod 64" for x
    by (auto simp: is_tail_byte_def)
  consider (one) "c < 0x80" "bs = [c]"
    | (two) "0x80 \<le> c" "c < 0x800" "bs = [0xC0 + c div 64, 0x80 + c mod 64]"
    | (three) "0x800 \<le> c" "c < 0x10000" "\<not> is_surrogate c"
        "bs = [0xE0 + c div 4096, 0x80 + c div 64 mod 64, 0x80 + c mod 64]"
    | (four) "0x10000 \<le> c" "c < 0x110000"
        "bs = [0xF0 + c div 262144, 0x80 + c div 4096 mod 64, 0x80 + c div 64 mod 64, 0x80 + c mod 64]"
    using assms by (auto simp: utf8_char_def split: if_splits)
  then show ?thesis
  proof cases
    case two
    then have "c div 64 < 32" by (simp add: div_less_iff_less_mult)
    with two have "utf8_pair (0xC0 + c div 64) (0x80 + c mod 64) = Some c"
      using tail [of c] utf8_digits(1) [of c] by (simp add: utf8_pair_def Let_def)
    with two \<open>c div 64 < 32\<close> show ?thesis by (simp add: cons_option_def)
  next
    case three
    then have "c div 4096 < 16" by (simp add: div_less_iff_less_mult)
    with three have "utf8_triple (0xE0 + c div 4096) (0x80 + c div 64 mod 64) (0x80 + c mod 64) = Some c"
      using tail [of c] tail [of "c div 64"] utf8_digits(2) [of c] by (simp add: utf8_triple_def Let_def)
    with three \<open>c div 4096 < 16\<close> show ?thesis by (simp add: cons_option_def)
  next
    case four
    then have "c div 262144 < 8" by (simp add: div_less_iff_less_mult)
    with four have "utf8_quad (0xF0 + c div 262144) (0x80 + c div 4096 mod 64) (0x80 + c div 64 mod 64)
        (0x80 + c mod 64) = Some c"
      using tail [of c] tail [of "c div 64"] tail [of "c div 4096"] utf8_digits(3) [of c]
      by (simp add: utf8_quad_def Let_def)
    with four \<open>c div 262144 < 8\<close> show ?thesis by (simp add: cons_option_def)
  qed simp
qed

lemma utf8_decode_encode [simp]: "utf8_encode s = Some bs \<Longrightarrow> utf8_decode bs = Some s"
proof (induction s arbitrary: bs)
  case (Cons c s)
  then obtain xs ys where "utf8_char c = Some xs" "utf8_encode s = Some ys" "bs = xs @ ys"
    by (auto split: option.splits)
  with Cons.IH [of ys] show ?case by (simp add: utf8_char_decode)
qed simp

section \<open>The budget\<close>

lemma checked_add_Inr [simp]:
  "checked_add a b p lbl = Inr n \<longleftrightarrow> 0 \<le> a \<and> 0 \<le> b \<and> a + b \<le> max_counter \<and> n = a + b"
  by (auto simp: checked_add_def)

lemma visit_node_Inr:
  "visit_node l p d b = Inr b' \<longleftrightarrow> d \<le> cl_depth l \<and> 0 \<le> bg_visited b \<and> bg_visited b + 1 \<le> max_counter \<and>
     bg_visited b + 1 \<le> cl_visited l \<and> b' = b\<lparr>bg_visited := bg_visited b + 1\<rparr>"
  by (auto simp: visit_node_def)

definition may_reserve :: "budget \<Rightarrow> bool" where
  "may_reserve b \<longleftrightarrow> (case bg_fail_after b of None \<Rightarrow> True | Some n \<Rightarrow> bg_reservations b < n)"

lemma reserve_Inr:
  "reserve l n p b = Inr b' \<longleftrightarrow> 0 \<le> n \<and> may_reserve b \<and> 0 \<le> bg_temporary b \<and>
     bg_temporary b + n \<le> max_counter \<and> bg_temporary b + n \<le> cl_temporary l \<and>
     b' = b\<lparr>bg_reservations := bg_reservations b + 1, bg_temporary := bg_temporary b + n\<rparr>"
  by (auto simp: reserve_def injector_reserve_def may_reserve_def split: option.splits)

text \<open>What a converted value holds.\<close>

fun value_nodes :: "pyval \<Rightarrow> int" where
  "value_nodes (PyList xs) = 1 + (\<Sum>x\<leftarrow>xs. value_nodes x)"
| "value_nodes (PyTuple xs) = 1 + (\<Sum>x\<leftarrow>xs. value_nodes x)"
| "value_nodes (PyDict kvs) = 1 + (\<Sum>kv\<leftarrow>kvs. value_nodes (snd kv))"
| "value_nodes _ = 1"

fun value_height :: "pyval \<Rightarrow> int" where
  "value_height (PyList xs) = 1 + foldr (\<lambda>x. max (value_height x)) xs 0"
| "value_height (PyTuple xs) = 1 + foldr (\<lambda>x. max (value_height x)) xs 0"
| "value_height (PyDict kvs) = 1 + foldr (\<lambda>kv. max (value_height (snd kv))) kvs 0"
| "value_height _ = 1"

text \<open>The bytes the engine counts for a value: text and buffers, containers and object handles.\<close>

fun value_bytes :: "pyval \<Rightarrow> int" where
  "value_bytes (PyList xs) = 24 + 8 * int (length xs) + (\<Sum>x\<leftarrow>xs. value_bytes x)"
| "value_bytes (PyTuple xs) = 24 + 8 * int (length xs) + (\<Sum>x\<leftarrow>xs. value_bytes x)"
| "value_bytes (PyDict kvs) = 32 + 16 * int (length kvs) + (\<Sum>kv\<leftarrow>kvs. value_bytes (snd kv))"
| "value_bytes (PyStr s) = (case utf8_encode s of None \<Rightarrow> 0 | Some bs \<Rightarrow> int (length bs))"
| "value_bytes (PyBuffer _ raw) = int (length raw)"
| "value_bytes (PyView _ _ n) = n"
| "value_bytes (PyToken _) = pointer_size"
| "value_bytes _ = 0"

fun value_tokens :: "pyval \<Rightarrow> native_token list" where
  "value_tokens (PyList xs) = concat (map value_tokens xs)"
| "value_tokens (PyTuple xs) = concat (map value_tokens xs)"
| "value_tokens (PyDict kvs) = concat (map (\<lambda>kv. value_tokens (snd kv)) kvs)"
| "value_tokens (PyToken t) = [t]"
| "value_tokens _ = []"

text \<open>Between two budgets, a conversion at depth \<open>d\<close> built the values \<open>rs\<close>.\<close>

definition accounts :: "conversion_limits \<Rightarrow> int \<Rightarrow> budget \<Rightarrow> budget \<Rightarrow> pyval list \<Rightarrow> bool" where
  "accounts l d b b' rs \<longleftrightarrow> bg_fail_after b' = bg_fail_after b \<and>
     bg_visited b + (\<Sum>r\<leftarrow>rs. value_nodes r) \<le> bg_visited b' \<and>
     bg_temporary b' = bg_temporary b + (\<Sum>r\<leftarrow>rs. value_bytes r) \<and>
     bg_retained b' = bg_retained b @ concat (map value_tokens rs) \<and>
     (\<forall>r \<in> set rs. d + value_height r \<le> cl_depth l + 1) \<and>
     (bg_visited b \<le> cl_visited l \<longrightarrow> bg_visited b' \<le> cl_visited l) \<and>
     (bg_temporary b \<le> cl_temporary l \<longrightarrow> bg_temporary b' \<le> cl_temporary l)"

lemma convert_scalar_leaf:
  assumes "convert_scalar l dir s v p b = Inr (r, b')"
  shows "value_nodes r = 1 \<and> value_height r = 1 \<and> value_tokens r = [] \<and>
     (b' = b \<and> value_bytes r = 0 \<or> reserve l (value_bytes r) p b = Inr b')"
  using assms
  by (cases s)
    (auto simp: convert_scalar_def convert_int32_def convert_int64_def convert_float_def convert_string_def
      convert_bytes_def conversion_type_error_def split: pyval.splits option.splits direction.splits if_splits)

section \<open>The branches of a successful conversion\<close>

lemma convert_cases [consumes 1, case_names void null inner scalar enum object array dict]:
  assumes "convert l dir (ConvNode k x s i nm cs fs e) v p d b = Inr (r, b')"
  obtains
    b1 where "visit_node l p d b = Inr b1" "k = NVoid" "dir = Output" "v = PyNone" "r = PyNone" "b' = b1"
  | b1 where "visit_node l p d b = Inr b1" "k = NNullable" "v = PyNone" "r = PyNone" "b' = b1"
  | b1 el where "visit_node l p d b = Inr b1" "k = NNullable" "v \<noteq> PyNone" "v \<noteq> PyUndefined" "e = Some el"
      "convert l dir el v p (d + 1) b1 = Inr (r, b')"
  | b1 sc where "visit_node l p d b = Inr b1" "k = NScalar" "v \<noteq> PyNone" "v \<noteq> PyUndefined" "s = Some sc"
      "convert_scalar l dir sc v p b1 = Inr (r, b')"
  | b1 where "visit_node l p d b = Inr b1" "k = NEnum" "v \<noteq> PyNone" "v \<noteq> PyUndefined"
      "convert_enum l x cs v p b1 = Inr (r, b')"
  | b1 where "visit_node l p d b = Inr b1" "k = NObject" "v \<noteq> PyNone" "v \<noteq> PyUndefined"
      "convert_object l x i v p b1 = Inr (r, b')"
  | b1 b2 items el rs where "visit_node l p d b = Inr b1" "k = NArray" "v \<noteq> PyNone" "v \<noteq> PyUndefined"
      "array_items dir v = Some items" "int (length items) \<le> cl_array l"
      "reserve l (24 + int (length items) * pointer_size) p b1 = Inr b2" "e = Some el"
      "convert_items l dir el 0 items p (d + 1) b2 = Inr (rs, b')"
      "r = (if dir = Input then PyTuple rs else PyList rs)"
  | b1 b2 kvs rs where "visit_node l p d b = Inr b1" "k = NValue" "v = PyDict kvs"
      "reserve l (32 + int (length fs) * 16) p b1 = Inr b2"
      "convert_fields l dir fs kvs p (d + 1) b2 = Inr (rs, b')" "r = PyDict rs"
proof -
  from assms obtain b1 where "visit_node l p d b = Inr b1" by auto
  with assms that show thesis
    by (cases k) (auto simp: conversion_type_error_def split: if_splits option.splits pyval.splits)
qed

lemma convert_items_Cons:
  "convert_items l dir el idx (v # vs) p d b = Inr (rs, b') \<longleftrightarrow>
     (\<exists>r b1 rest. v \<noteq> PyHole \<and> convert l dir el v (into p (SegIndex idx)) d b = Inr (r, b1) \<and>
        convert_items l dir el (Suc idx) vs p d b1 = Inr (rest, b') \<and> rs = r # rest)"
  by auto

lemma convert_fields_Cons:
  "convert_fields l dir ((n, el) # fs) kvs p d b = Inr (rs, b') \<longleftrightarrow>
     (\<exists>raw r b1 rest. map_of kvs n = Some raw \<and> convert l dir el raw (into p (SegField n)) d b = Inr (r, b1) \<and>
        convert_fields l dir fs kvs p d b1 = Inr (rest, b') \<and> rs = (n, r) # rest)"
  by (auto split: option.splits)

lemma convert_items_length: "convert_items l dir n idx vs p d b = Inr (rs, b') \<Longrightarrow> length rs = length vs"
  by (induction vs arbitrary: idx b rs) (auto split: if_splits)

lemma convert_fields_names: "convert_fields l dir fs kvs p d b = Inr (rs, b') \<Longrightarrow> map fst rs = map fst fs"
  by (induction fs arbitrary: b rs) (auto split: option.splits)

section \<open>Accounting\<close>

lemma accounts_Nil [simp]: "accounts l d b b []" by (simp add: accounts_def)

lemma accounts_Cons: "accounts l d b b1 [r] \<Longrightarrow> accounts l d b1 b2 rs \<Longrightarrow> accounts l d b b2 (r # rs)"
  by (auto simp: accounts_def)

lemma height_list:
  fixes f :: "'a \<Rightarrow> int"
  assumes "d \<le> c" "\<And>x. x \<in> set xs \<Longrightarrow> d + 1 + f x \<le> c + 1"
  shows "d + foldr (\<lambda>x. max (f x)) xs 0 \<le> c"
  using assms by (induction xs) (auto simp: max_def)

lemma accounts_leaf:
  assumes "visit_node l p d b = Inr b1" "value_nodes r = 1" "value_height r = 1"
    "b' = b1 \<and> value_bytes r = 0 \<and> value_tokens r = [] \<or>
     (\<exists>b2. reserve l (value_bytes r) p b1 = Inr b2 \<and> b' = b2\<lparr>bg_retained := bg_retained b2 @ value_tokens r\<rparr>)"
  shows "accounts l d b b' [r]"
  using assms by (auto simp: accounts_def visit_node_Inr reserve_Inr)

lemma accounts_container:
  assumes "visit_node l p d b = Inr b1" "reserve l n p b1 = Inr b2" "accounts l (d + 1) b2 b' rs"
    "value_nodes r = 1 + (\<Sum>x\<leftarrow>rs. value_nodes x)" "value_bytes r = n + (\<Sum>x\<leftarrow>rs. value_bytes x)"
    "value_tokens r = concat (map value_tokens rs)" "value_height r = 1 + foldr (\<lambda>x. max (value_height x)) rs 0"
  shows "accounts l d b b' [r]"
proof -
  have "d \<le> cl_depth l" using assms(1) by (simp add: visit_node_Inr)
  with height_list [of d "cl_depth l" rs value_height] assms(3)
  have "d + foldr (\<lambda>x. max (value_height x)) rs 0 \<le> cl_depth l" by (auto simp: accounts_def)
  with assms show ?thesis by (auto simp: accounts_def visit_node_Inr reserve_Inr)
qed

lemma convert_enum_Inr:
  "convert_enum l x cs v p b = Inr (r, b') \<longleftrightarrow>
     (\<exists>s bs. v = PyStr s \<and> r = v \<and> s \<in> set (map text_points cs) \<and> utf8_encode s = Some bs \<and>
        int (length bs) \<le> cl_string l \<and> reserve l (int (length bs)) p b = Inr b')"
  by (cases v) (auto simp: convert_enum_def conversion_type_error_def check_string_bytes_def split: option.splits)

lemma convert_object_Inr:
  "convert_object l x i v p b = Inr (r, b') \<longleftrightarrow>
     (\<exists>t b1. v = PyToken t \<and> r = v \<and> i = Some (nt_type_id t) \<and> reserve l pointer_size p b = Inr b1 \<and>
        b' = b1\<lparr>bg_retained := bg_retained b1 @ [t]\<rparr>)"
  by (cases v) (auto simp: convert_object_def conversion_type_error_def)

lemma convert_accounts:
  "convert l dir n v p d b = Inr (r, b') \<Longrightarrow> accounts l d b b' [r]"
  "convert_items l dir n idx vs p d b = Inr (rs, b') \<Longrightarrow> accounts l d b b' rs"
  "convert_fields l dir fs kvs p d b = Inr (fr, b') \<Longrightarrow> accounts l d b b' (map snd fr)"
proof (induction l dir n v p d b and l dir n idx vs p d b and l dir fs kvs p d b
    arbitrary: r b' and rs b' and fr b' rule: convert_convert_items_convert_fields.induct)
  case (1 l dir k x s i nm cs fs e v p d b)
  from "1.prems" show ?case
  proof (cases rule: convert_cases)
    case (inner b1 el)
    then have "accounts l (d + 1) b1 b' [r]" using "1.IH"(1) by simp
    with inner(1) show ?thesis by (auto simp: accounts_def visit_node_Inr)
  next
    case (scalar b1 sc)
    with convert_scalar_leaf [OF scalar(6)] show ?thesis
      by (intro accounts_leaf [OF scalar(1)]) auto
  next
    case (array b1 b2 items el rs)
    then have "accounts l (d + 1) b2 b' rs" using "1.IH"(2) by simp
    then show ?thesis
      using array(10) convert_items_length [OF array(9)]
      by (intro accounts_container [OF array(1,7)]) (auto simp: pointer_size_def)
  next
    case (dict b1 b2 kvs rs)
    then have "accounts l (d + 1) b2 b' (map snd rs)" using "1.IH"(3) by simp
    moreover have "length rs = length fs"
      using convert_fields_names [OF dict(5)] by (metis length_map)
    ultimately show ?thesis
      using dict(6) by (intro accounts_container [OF dict(1,4)]) (auto simp: comp_def foldr_map)
  qed (auto intro!: accounts_leaf simp: convert_enum_Inr convert_object_Inr)
next
  case (3 l dir el idx v vs p d b)
  from "3.prems" obtain r b1 rest where c: "v \<noteq> PyHole" "convert l dir el v (into p (SegIndex idx)) d b = Inr (r, b1)"
    "convert_items l dir el (Suc idx) vs p d b1 = Inr (rest, b')" "rs = r # rest"
    unfolding convert_items_Cons by blast
  with "3.IH"(1) [OF c(1,2)] "3.IH"(2) [OF c(1,2) refl c(3)] show ?case by (simp add: accounts_Cons)
next
  case (5 l dir n el fs kvs p d b)
  from "5.prems" obtain raw r b1 rest where c: "map_of kvs n = Some raw"
    "convert l dir el raw (into p (SegField n)) d b = Inr (r, b1)"
    "convert_fields l dir fs kvs p d b1 = Inr (rest, b')" "fr = (n, r) # rest"
    unfolding convert_fields_Cons by blast
  with "5.IH"(1) [OF c(1,2)] "5.IH"(2) [OF c(1,2) refl c(3)] show ?case by (simp add: accounts_Cons)
qed simp_all

section \<open>The shape of a result\<close>

definition scalar_ok :: "direction \<Rightarrow> scalar_kind \<Rightarrow> pyval \<Rightarrow> bool" where
  "scalar_ok dir s r = (case s of
      SBool \<Rightarrow> (\<exists>x. r = PyBool x)
    | SInt32 \<Rightarrow> (\<exists>n. r = PyInt n \<and> - (2 ^ 31) \<le> n \<and> n < 2 ^ 31)
    | SInt64 \<Rightarrow> (\<exists>n. r = (if dir = Input then PyInt n else PyBigInt n) \<and> - (2 ^ 63) \<le> n \<and> n < 2 ^ 63)
    | SFloat32 \<Rightarrow> (\<exists>f. r = PyFloat f \<and> \<not> (is_finite f \<and> exceeds_float32 f))
    | SFloat64 \<Rightarrow> (\<exists>f. r = PyFloat f)
    | SString \<Rightarrow> (\<exists>t. r = PyStr t \<and> utf8_encode t \<noteq> None)
    | SBytes \<Rightarrow> (\<exists>raw. r = (if dir = Input then PyBuffer PlainBytes raw else PyView raw 0 (int (length raw)))))"

text \<open>Values of a node: native after \<open>Input\<close>, JavaScript after \<open>Output\<close>.\<close>

fun value_ok :: "direction \<Rightarrow> conv_node \<Rightarrow> pyval \<Rightarrow> bool" where
  "value_ok dir (ConvNode k x s i nm cs fs e) r \<longleftrightarrow> (case k of
      NVoid \<Rightarrow> dir = Output \<and> r = PyNone
    | NNullable \<Rightarrow> r = PyNone \<or> (case e of None \<Rightarrow> False | Some el \<Rightarrow> value_ok dir el r)
    | NScalar \<Rightarrow> (case s of None \<Rightarrow> False | Some sc \<Rightarrow> scalar_ok dir sc r)
    | NEnum \<Rightarrow> r \<in> PyStr ` text_points ` set cs
    | NObject \<Rightarrow> (\<exists>t. r = PyToken t \<and> i = Some (nt_type_id t))
    | NArray \<Rightarrow> (case e of None \<Rightarrow> False
        | Some el \<Rightarrow> \<exists>rs. r = (if dir = Input then PyTuple rs else PyList rs) \<and> (\<forall>y \<in> set rs. value_ok dir el y))
    | NValue \<Rightarrow> (\<exists>kvs. r = PyDict kvs \<and>
        list_all2 (\<lambda>nf kv. fst kv = fst nf \<and> value_ok dir (snd nf) (snd kv)) fs kvs))"

lemma convert_scalar_ok: "convert_scalar l dir s v p b = Inr (r, b') \<Longrightarrow> scalar_ok dir s r"
  by (cases s)
    (auto simp: convert_scalar_def convert_int32_def convert_int64_def convert_float_def convert_string_def
      convert_bytes_def conversion_type_error_def scalar_ok_def
      split: pyval.splits option.splits direction.splits if_splits)

lemma convert_value_ok:
  "convert l dir n v p d b = Inr (r, b') \<Longrightarrow> value_ok dir n r"
  "convert_items l dir n idx vs p d b = Inr (rs, b') \<Longrightarrow> \<forall>r \<in> set rs. value_ok dir n r"
  "convert_fields l dir fs kvs p d b = Inr (fr, b') \<Longrightarrow>
     list_all2 (\<lambda>nf kv. fst kv = fst nf \<and> value_ok dir (snd nf) (snd kv)) fs fr"
proof (induction l dir n v p d b and l dir n idx vs p d b and l dir fs kvs p d b
    arbitrary: r b' and rs b' and fr b' rule: convert_convert_items_convert_fields.induct)
  case (1 l dir k x s i nm cs fs e v p d b)
  from "1.prems" show ?case
  proof (cases rule: convert_cases)
    case (inner b1 el)
    then have "value_ok dir el r" using "1.IH"(1) by simp
    with inner show ?thesis by simp
  next
    case (scalar b1 sc)
    with convert_scalar_ok [OF scalar(6)] show ?thesis by simp
  next
    case (array b1 b2 items el rs)
    then have "\<forall>r \<in> set rs. value_ok dir el r" using "1.IH"(2) by simp
    with array show ?thesis by auto
  next
    case (dict b1 b2 kvs rs)
    then have "list_all2 (\<lambda>nf kv. fst kv = fst nf \<and> value_ok dir (snd nf) (snd kv)) fs rs"
      using "1.IH"(3) by simp
    with dict show ?thesis by auto
  qed (auto simp: convert_enum_Inr convert_object_Inr)
next
  case (3 l dir el idx v vs p d b)
  from "3.prems" obtain r b1 rest where c: "v \<noteq> PyHole" "convert l dir el v (into p (SegIndex idx)) d b = Inr (r, b1)"
    "convert_items l dir el (Suc idx) vs p d b1 = Inr (rest, b')" "rs = r # rest"
    unfolding convert_items_Cons by blast
  with "3.IH"(1) [OF c(1,2)] "3.IH"(2) [OF c(1,2) refl c(3)] show ?case by simp
next
  case (5 l dir n el fs kvs p d b)
  from "5.prems" obtain raw r b1 rest where c: "map_of kvs n = Some raw"
    "convert l dir el raw (into p (SegField n)) d b = Inr (r, b1)"
    "convert_fields l dir fs kvs p d b1 = Inr (rest, b')" "fr = (n, r) # rest"
    unfolding convert_fields_Cons by blast
  with "5.IH"(1) [OF c(1,2)] "5.IH"(2) [OF c(1,2) refl c(3)] show ?case by simp
qed simp_all

lemma scalar_ok_plain: "scalar_ok dir s r \<Longrightarrow> r \<noteq> PyNone \<and> r \<noteq> PyUndefined \<and> r \<noteq> PyHole"
  by (cases s; cases dir) (auto simp: scalar_ok_def)

lemma value_ok_plain: "value_ok dir n r \<Longrightarrow> r \<noteq> PyUndefined \<and> r \<noteq> PyHole"
proof (induction dir n r rule: value_ok.induct)
  case (1 dir k x s i nm cs fs e r)
  then show ?case
    by (cases k) (auto dest: scalar_ok_plain split: option.splits if_splits)
qed

text \<open>Null is converted to null, and to nothing else.\<close>

lemma convert_none:
  "convert l dir n v p d b = Inr (r, b') \<Longrightarrow> r = PyNone \<longleftrightarrow> v = PyNone"
proof (induction n arbitrary: d b)
  case (ConvNode k x s i nm cs fs e)
  from ConvNode.prems show ?case
  proof (cases rule: convert_cases)
    case (inner b1 el)
    with ConvNode.IH(2) [of el] show ?thesis by simp
  next
    case (scalar b1 sc)
    with scalar_ok_plain [OF convert_scalar_ok [OF scalar(6)]] show ?thesis by simp
  qed (auto simp: convert_enum_Inr convert_object_Inr)
qed

section \<open>Input, then output\<close>

lemma float_of_small: "- (2 ^ 31) \<le> n \<Longrightarrow> n < 2 ^ 31 \<Longrightarrow> float_of_int n = Some (Finite n 0)"
  by (simp add: float_of_int_def abs_if)

lemma scalar_back:
  assumes "convert_scalar l Input s v p b = Inr (r, b')"
  shows "\<exists>w. convert_scalar l Output s r p b = Inr (w, b') \<and> convert_scalar l Input s w p b = Inr (r, b')"
proof (cases s)
  case SInt32
  with assms obtain n where "r = PyInt n" "- (2 ^ 31) \<le> n" "n < 2 ^ 31" "b' = b"
    using convert_scalar_ok [OF assms] by (auto simp: scalar_ok_def convert_scalar_def)
  with SInt32 float_of_small show ?thesis
    by (auto simp: convert_scalar_def convert_int32_def numeric_value_def integral_value_def is_finite_def)
next
  case SBytes
  with assms obtain raw where "r = PyBuffer PlainBytes raw" "int (length raw) \<le> cl_bytes l"
    "reserve l (int (length raw)) p b = Inr b'"
    by (auto simp: convert_scalar_def convert_bytes_def conversion_type_error_def split: pyval.splits)
  with SBytes show ?thesis by (auto simp: convert_scalar_def convert_bytes_def visible_bytes_def)
next
  case SString
  with assms have "r = v"
    by (auto simp: convert_scalar_def convert_string_def conversion_type_error_def split: pyval.splits option.splits)
  with assms SString show ?thesis by (intro exI [of _ r]) (simp add: convert_scalar_def)
qed (use assms in \<open>auto simp: convert_scalar_def convert_int64_def convert_float_def convert_string_def
      numeric_value_def conversion_type_error_def split: pyval.splits option.splits\<close>)

lemma convert_back:
  "convert l dir n v p d b = Inr (r, b') \<Longrightarrow> dir = Input \<Longrightarrow> node_ok n \<Longrightarrow>
     \<exists>w. convert l Output n r p d b = Inr (w, b') \<and> convert l Input n w p d b = Inr (r, b')"
  "convert_items l dir n idx vs p d b = Inr (rs, b') \<Longrightarrow> dir = Input \<Longrightarrow> node_ok n \<Longrightarrow>
     \<exists>ws. convert_items l Output n idx rs p d b = Inr (ws, b') \<and> convert_items l Input n idx ws p d b = Inr (rs, b')"
  "convert_fields l dir fs kvs p d b = Inr (fr, b') \<Longrightarrow> dir = Input \<Longrightarrow> distinct (map fst fs) \<Longrightarrow>
     \<forall>nf \<in> set fs. node_ok (snd nf) \<Longrightarrow> \<forall>(m, r) \<in> set fr. map_of krs m = Some r \<Longrightarrow>
     \<exists>fw. convert_fields l Output fs krs p d b = Inr (fw, b') \<and>
       (\<forall>kws. (\<forall>(m, w) \<in> set fw. map_of kws m = Some w) \<longrightarrow> convert_fields l Input fs kws p d b = Inr (fr, b'))"
proof (induction l dir n v p d b and l dir n idx vs p d b and l dir fs kvs p d b
    arbitrary: r b' and rs b' and fr b' krs rule: convert_convert_items_convert_fields.induct)
  case (1 l dir k x s i nm cs fs e v p d b)
  from "1.prems"(1) show ?case
  proof (cases rule: convert_cases)
    case (void b1)
    with "1.prems"(2) show ?thesis by simp
  next
    case (null b1)
    then show ?thesis by simp
  next
    case (inner b1 el)
    with "1.prems" have "\<exists>w. convert l Output el r p (d + 1) b1 = Inr (w, b') \<and> convert l Input el w p (d + 1) b1 = Inr (r, b')"
      using "1.IH"(1) by simp
    then obtain w where w: "convert l Output el r p (d + 1) b1 = Inr (w, b')" "convert l Input el w p (d + 1) b1 = Inr (r, b')"
      by blast
    moreover have "r \<noteq> PyNone" "w \<noteq> PyNone" using convert_none [OF inner(6)] convert_none [OF w(1)] inner(3) by auto
    moreover have "r \<noteq> PyUndefined" "w \<noteq> PyUndefined"
      using convert_value_ok(1) [OF inner(6)] convert_value_ok(1) [OF w(1)] value_ok_plain by blast+
    ultimately show ?thesis using inner(1,2,5) by auto
  next
    case (scalar b1 sc)
    with "1.prems"(2) obtain w where w: "convert_scalar l Output sc r p b1 = Inr (w, b')"
      "convert_scalar l Input sc w p b1 = Inr (r, b')" using scalar_back by blast
    moreover have "r \<noteq> PyNone \<and> r \<noteq> PyUndefined" "w \<noteq> PyNone \<and> w \<noteq> PyUndefined"
      using convert_scalar_ok [OF scalar(6)] convert_scalar_ok [OF w(1)] scalar_ok_plain by blast+
    ultimately show ?thesis using scalar(1,2,5) by auto
  next
    case (enum b1)
    then have "r = v" by (auto simp: convert_enum_Inr)
    with enum show ?thesis by auto
  next
    case (object b1)
    then have "r = v" by (auto simp: convert_object_Inr)
    with object show ?thesis by auto
  next
    case (array b1 b2 items el rs)
    with "1.prems" have "\<exists>ws. convert_items l Output el 0 rs p (d + 1) b2 = Inr (ws, b') \<and>
        convert_items l Input el 0 ws p (d + 1) b2 = Inr (rs, b')"
      using "1.IH"(2) by simp
    then obtain ws where ws: "convert_items l Output el 0 rs p (d + 1) b2 = Inr (ws, b')"
      "convert_items l Input el 0 ws p (d + 1) b2 = Inr (rs, b')" by blast
    moreover have "length rs = length items" "length ws = length rs"
      using convert_items_length [OF array(9)] convert_items_length [OF ws(1)] by simp_all
    ultimately show ?thesis using array "1.prems"(2) by (auto simp: array_items_def)
  next
    case (dict b1 b2 kvs rs)
    have names: "map fst rs = map fst fs" using convert_fields_names [OF dict(5)] .
    have ok: "distinct (map fst fs)" "\<forall>nf \<in> set fs. node_ok (snd nf)" using "1.prems"(3) by auto
    then have "distinct (map fst rs)" using names by simp
    then have "\<forall>(m, r) \<in> set rs. map_of rs m = Some r" by auto
    with dict ok "1.prems"(2) obtain fw where fw: "convert_fields l Output fs rs p (d + 1) b2 = Inr (fw, b')"
      "\<forall>kws. (\<forall>(m, w) \<in> set fw. map_of kws m = Some w) \<longrightarrow> convert_fields l Input fs kws p (d + 1) b2 = Inr (rs, b')"
      using "1.IH"(3) [where krs = rs] by (auto; metis)
    have "distinct (map fst fw)" using convert_fields_names [OF fw(1)] ok by simp
    then have "\<forall>(m, w) \<in> set fw. map_of fw m = Some w" by auto
    with fw(2) have "convert_fields l Input fs fw p (d + 1) b2 = Inr (rs, b')" by blast
    with fw(1) dict show ?thesis by auto
  qed
next
  case (3 l dir el idx v vs p d b)
  from "3.prems"(1) obtain r b1 rest where c: "v \<noteq> PyHole" "convert l dir el v (into p (SegIndex idx)) d b = Inr (r, b1)"
    "convert_items l dir el (Suc idx) vs p d b1 = Inr (rest, b')" "rs = r # rest"
    unfolding convert_items_Cons by blast
  from "3.IH"(1) [OF c(1,2) "3.prems"(2,3)] obtain w where
    w: "convert l Output el r (into p (SegIndex idx)) d b = Inr (w, b1)"
      "convert l Input el w (into p (SegIndex idx)) d b = Inr (r, b1)" by blast
  moreover from "3.IH"(2) [OF c(1,2) refl c(3) "3.prems"(2,3)] obtain ws where
    "convert_items l Output el (Suc idx) rest p d b1 = Inr (ws, b')"
    "convert_items l Input el (Suc idx) ws p d b1 = Inr (rest, b')" by blast
  moreover have "r \<noteq> PyHole" "w \<noteq> PyHole"
    using convert_value_ok(1) [OF c(2)] convert_value_ok(1) [OF w(1)] value_ok_plain by blast+
  ultimately show ?case using c(4) by (intro exI [of _ "w # ws"]) simp
next
  case (5 l dir n el fs kvs p d b)
  from "5.prems"(1) obtain raw r b1 rest where c: "map_of kvs n = Some raw"
    "convert l dir el raw (into p (SegField n)) d b = Inr (r, b1)"
    "convert_fields l dir fs kvs p d b1 = Inr (rest, b')" "fr = (n, r) # rest"
    unfolding convert_fields_Cons by blast
  have ok: "node_ok el" "distinct (map fst fs)" "\<forall>nf \<in> set fs. node_ok (snd nf)"
    "map_of krs n = Some r" "\<forall>(m, r) \<in> set rest. map_of krs m = Some r"
    using "5.prems"(3,4,5) c(4) by auto
  from "5.IH"(1) [OF c(1,2) "5.prems"(2) ok(1)] obtain w where
    w: "convert l Output el r (into p (SegField n)) d b = Inr (w, b1)"
      "convert l Input el w (into p (SegField n)) d b = Inr (r, b1)" by blast
  from "5.IH"(2) [OF c(1,2) refl c(3) "5.prems"(2) ok(2,3,5)] obtain fw where
    fw: "convert_fields l Output fs krs p d b1 = Inr (fw, b')"
      "\<forall>kws. (\<forall>(m, w) \<in> set fw. map_of kws m = Some w) \<longrightarrow> convert_fields l Input fs kws p d b1 = Inr (rest, b')"
    by blast
  show ?case
  proof (intro exI [of _ "(n, w) # fw"] conjI allI impI)
    show "convert_fields l Output ((n, el) # fs) krs p d b = Inr ((n, w) # fw, b')"
      using ok(4) w(1) fw(1) by simp
    fix kws assume "\<forall>(m, w) \<in> set ((n, w) # fw). map_of kws m = Some w"
    then have "map_of kws n = Some w" "\<forall>(m, w) \<in> set fw. map_of kws m = Some w" by auto
    with w(2) fw(2) c(4) show "convert_fields l Input ((n, el) # fs) kws p d b = Inr (fr, b')" by simp
  qed
qed simp_all

section \<open>Errors\<close>

text \<open>The part of a Python value a list of path segments leads to.\<close>

fun part_at :: "pyval \<Rightarrow> segment list \<Rightarrow> pyval option" where
  "part_at v [] = Some v"
| "part_at v (SegIndex k # ss) =
     (case v of
        PyList xs \<Rightarrow> if k < length xs then part_at (xs ! k) ss else None
      | PyTuple xs \<Rightarrow> if k < length xs then part_at (xs ! k) ss else None
      | _ \<Rightarrow> None)"
| "part_at v (SegField n # ss) =
     (case v of
        PyDict kvs \<Rightarrow> (case map_of kvs n of None \<Rightarrow> None | Some u \<Rightarrow> part_at u ss)
      | _ \<Rightarrow> None)"
| "part_at v (s # ss) = None"

lemma part_at_append: "part_at v (ss @ ts) = (case part_at v ss of None \<Rightarrow> None | Some u \<Rightarrow> part_at u ts)"
  by (induction v ss rule: part_at.induct) (auto split: pyval.splits option.splits)

definition below :: "path \<Rightarrow> segment list \<Rightarrow> path" where
  "below p ss = (fst p, snd p @ ss)"

text \<open>
  What an error raised for the value \<open>v\<close> at the path \<open>p\<close> says is so: its path leads to a part of \<open>v\<close>, of
  the actual type it reports, to a hole, or to a field the object there does not have; and the two
  exceptions without a path are due to a part of \<open>v\<close>, text that has no encoding or an integer that is
  no double.  The other constructors are not errors of a conversion.
\<close>

fun error_explained :: "bool \<Rightarrow> path \<Rightarrow> pyval \<Rightarrow> conversion_error \<Rightarrow> bool" where
  "error_explained faulty p v (TypeMismatch q _ a) \<longleftrightarrow>
     (\<exists>ss u. q = below p ss \<and> part_at v ss = Some u \<and> a = actual u)"
| "error_explained faulty p v (SparseHole q) \<longleftrightarrow> (\<exists>ss. q = below p ss \<and> part_at v ss = Some PyHole)"
| "error_explained faulty p v (FieldMissing q) \<longleftrightarrow>
     (\<exists>ss n kvs. q = below p (ss @ [SegField n]) \<and> part_at v ss = Some (PyDict kvs) \<and> map_of kvs n = None)"
| "error_explained faulty p v (OutOfRange q _) \<longleftrightarrow> (\<exists>ss u. q = below p ss \<and> part_at v ss = Some u)"
| "error_explained faulty p v (AllocationFailed q) \<longleftrightarrow>
     faulty \<and> (\<exists>ss u. q = below p ss \<and> part_at v ss = Some u)"
| "error_explained faulty p v FloatOverflow \<longleftrightarrow>
     (\<exists>ss n. part_at v ss = Some (PyInt n) \<and> float_of_int n = None)"
| "error_explained faulty p v UnicodeEncode \<longleftrightarrow>
     (\<exists>ss text. part_at v ss = Some (PyStr text) \<and> utf8_encode text = None)"
| "error_explained faulty p v (ArgumentCount _ _ _) \<longleftrightarrow> False"
| "error_explained faulty p v (ArgumentsNotAList _) \<longleftrightarrow> False"
| "error_explained faulty p v EngineAssertion \<longleftrightarrow> False"

definition error_ok :: "path \<Rightarrow> pyval \<Rightarrow> budget \<Rightarrow> conversion_error \<Rightarrow> bool" where
  "error_ok p v b e \<longleftrightarrow> error_explained (bg_fail_after b \<noteq> None) p v e"

lemma below_nil: "p = below p []" by (simp add: below_def)

lemma error_here:
  "error_ok p v b (TypeMismatch p x (actual v))" "error_ok p v b (OutOfRange p y)"
  "bg_fail_after b \<noteq> None \<Longrightarrow> error_ok p v b (AllocationFailed p)"
  "v = PyInt n \<Longrightarrow> float_of_int n = None \<Longrightarrow> error_ok p v b FloatOverflow"
  "v = PyStr text \<Longrightarrow> utf8_encode text = None \<Longrightarrow> error_ok p v b UnicodeEncode"
  unfolding error_ok_def error_explained.simps using below_nil part_at.simps(1) by blast+

lemma error_ok_into:
  assumes "error_ok (into p s) u b e" "part_at v [s] = Some u" shows "error_ok p v b e"
proof -
  have path: "below (into p s) ss = below p (s # ss)" for ss by (simp add: below_def into_def)
  have part: "part_at v (s # ss) = part_at u ss" for ss
    using part_at_append [of v "[s]" ss] assms(2) by simp
  show ?thesis
    using assms(1) unfolding error_ok_def
    by (cases e) (auto simp: path part simp flip: append_Cons, (metis part)+)
qed

lemma visit_node_Inl: "visit_node l p d b = Inl e \<Longrightarrow> error_ok p v b e"
  by (auto simp: visit_node_def checked_add_def ebind_Inl error_here)

lemma reserve_Inl: "reserve l n p b = Inl e \<Longrightarrow> error_ok p v b e"
  by (auto simp: reserve_def injector_reserve_def checked_add_def ebind_Inl error_here split: option.splits)

lemma conversion_type_error_Inl [simp]: "conversion_type_error p x v = Inl e \<longleftrightarrow> e = TypeMismatch p x (actual v)"
  "conversion_type_error p x v \<noteq> Inr r"
  by (auto simp: conversion_type_error_def)

lemma numeric_value_Inl: "numeric_value p x v = Inl e \<Longrightarrow> error_ok p v b e"
  by (auto simp: numeric_value_def error_here split: pyval.splits option.splits)

lemma convert_scalar_Inl: "convert_scalar l dir s v p b = Inl e \<Longrightarrow> error_ok p v b e"
  by (cases s)
    (auto simp: convert_scalar_def convert_int32_def convert_int64_def convert_float_def convert_string_def
      convert_bytes_def check_string_bytes_def ebind_Inl error_here
      dest: numeric_value_Inl reserve_Inl
      split: pyval.splits option.splits direction.splits if_splits)

lemma fail_after_kept:
  "visit_node l p d b = Inr b' \<Longrightarrow> bg_fail_after b' = bg_fail_after b"
  "reserve l n p b = Inr b' \<Longrightarrow> bg_fail_after b' = bg_fail_after b"
  by (auto simp: visit_node_Inr reserve_Inr)

lemma error_ok_kept: "error_ok p v b1 e \<Longrightarrow> bg_fail_after b1 = bg_fail_after b \<Longrightarrow> error_ok p v b e"
  by (simp add: error_ok_def)

lemma check_node_parts:
  assumes "node_ok (ConvNode k x s i nm cs fs e)"
  shows "k = NScalar \<Longrightarrow> s \<noteq> None" "k \<in> {NArray, NNullable} \<Longrightarrow> e \<noteq> None"
  using assms by (auto simp: check_node_def Let_def)

lemma convert_errors [consumes 2, case_names direct inner array dict]:
  assumes "convert l dir (ConvNode k x s i nm cs fs e) v p d b = Inl err" "node_ok (ConvNode k x s i nm cs fs e)"
  obtains
    "error_ok p v b err"
  | b1 el where "visit_node l p d b = Inr b1" "k = NNullable" "v \<noteq> PyNone" "v \<noteq> PyUndefined" "e = Some el"
      "convert l dir el v p (d + 1) b1 = Inl err"
  | b1 b2 items el where "visit_node l p d b = Inr b1" "k = NArray" "v \<noteq> PyNone" "v \<noteq> PyUndefined"
      "array_items dir v = Some items" "int (length items) \<le> cl_array l"
      "reserve l (24 + int (length items) * pointer_size) p b1 = Inr b2" "e = Some el"
      "convert_items l dir el 0 items p (d + 1) b2 = Inl err"
  | b1 b2 kvs where "visit_node l p d b = Inr b1" "k = NValue" "v = PyDict kvs"
      "reserve l (32 + int (length fs) * 16) p b1 = Inr b2" "convert_fields l dir fs kvs p (d + 1) b2 = Inl err"
proof (cases "visit_node l p d b")
  case (Inl e')
  with assms(1) visit_node_Inl [OF Inl] that(1) show thesis by simp
next
  case (Inr b1)
  have mism: "error_ok p v b (TypeMismatch p y (actual v))" for y by (rule error_here)
  have range: "error_ok p v b (OutOfRange p y)" for y by (rule error_here)
  have kept: "error_ok p v b1 err \<Longrightarrow> error_ok p v b err"
    using fail_after_kept(1) [OF Inr] error_ok_kept by blast
  note parts = check_node_parts [OF assms(2)]
  show thesis
  proof (cases "v = PyUndefined \<or> v = PyNone")
    case True
    with assms(1) Inr parts mism that(1) show thesis
      by (cases k) (auto simp: convert_scalar_def split: if_splits)
  next
    case False
    show thesis
    proof (cases k)
      case NVoid
      with assms(1) Inr False mism that(1) show thesis by simp
    next
      case NScalar
      with assms(1) Inr False parts obtain sc where "convert_scalar l dir sc v p b1 = Inl err" by auto
      from that(1) [OF kept [OF convert_scalar_Inl [OF this]]] show thesis .
    next
      case NEnum
      with assms(1) Inr False have "convert_enum l x cs v p b1 = Inl err" by simp
      then have "error_ok p v b1 err"
        by (auto simp: convert_enum_def check_string_bytes_def ebind_Inl error_here dest: reserve_Inl
            split: pyval.splits option.splits if_splits)
      from that(1) [OF kept [OF this]] show thesis .
    next
      case NObject
      with assms(1) Inr False have "convert_object l x i v p b1 = Inl err" by simp
      then have "error_ok p v b1 err"
        by (auto simp: convert_object_def ebind_Inl error_here dest: reserve_Inl split: pyval.splits if_splits)
      from that(1) [OF kept [OF this]] show thesis .
    next
      case NNullable
      with assms(1) Inr False parts that(2) show thesis by auto
    next
      case NArray
      with assms(1) Inr False parts that(3) mism range kept [OF reserve_Inl] that(1) show thesis
        by (auto simp: ebind_Inl split: option.splits)
    next
      case NValue
      with assms(1) Inr False that(4) mism kept [OF reserve_Inl] that(1) show thesis
        by (auto simp: ebind_Inl split: pyval.splits)
    qed
  qed
qed



lemma array_part: "array_items dir v = Some items \<Longrightarrow> k < length items \<Longrightarrow> part_at v [SegIndex k] = Some (items ! k)"
  by (auto simp: array_items_def split: pyval.splits if_splits)

lemma convert_error_ok:
  "convert l dir n v p d b = Inl e \<Longrightarrow> node_ok n \<Longrightarrow> error_ok p v b e"
  "convert_items l dir n idx vs p d b = Inl e \<Longrightarrow> node_ok n \<Longrightarrow>
     (\<And>k. k < length vs \<Longrightarrow> part_at whole [SegIndex (idx + k)] = Some (vs ! k)) \<Longrightarrow> error_ok p whole b e"
  "convert_fields l dir fs kvs p d b = Inl e \<Longrightarrow> \<forall>nf \<in> set fs. node_ok (snd nf) \<Longrightarrow> error_ok p (PyDict kvs) b e"
proof (induction l dir n v p d b and l dir n idx vs p d b and l dir fs kvs p d b
    arbitrary: and whole rule: convert_convert_items_convert_fields.induct)
  case (1 l dir k x s i nm cs fs el v p d b)
  from "1.prems" show ?case
  proof (cases rule: convert_errors)
    case (inner b1 el)
    then have "error_ok p v b1 e" using "1.IH"(1) "1.prems"(2) by simp
    then show ?thesis using fail_after_kept(1) [OF inner(1)] by (rule error_ok_kept)
  next
    case (array b1 b2 items el)
    then have "error_ok p v b2 e" using "1.IH"(2) [where whole = v] "1.prems"(2) array_part [OF array(5)] by simp
    then show ?thesis using fail_after_kept(1) [OF array(1)] fail_after_kept(2) [OF array(7)]
      by (simp add: error_ok_kept [of p v b2])
  next
    case (dict b1 b2 kvs)
    then have "error_ok p v b2 e" using "1.IH"(3) "1.prems"(2) by simp
    then show ?thesis using fail_after_kept(1) [OF dict(1)] fail_after_kept(2) [OF dict(4)]
      by (simp add: error_ok_kept [of p v b2])
  qed
next
  case (3 l dir el idx v vs p d b)
  have v: "part_at whole [SegIndex idx] = Some v" using "3.prems"(3) [of 0] by simp
  consider "v = PyHole" "e = SparseHole (into p (SegIndex idx))"
    | "v \<noteq> PyHole" "convert l dir el v (into p (SegIndex idx)) d b = Inl e"
    | r b1 where "v \<noteq> PyHole" "convert l dir el v (into p (SegIndex idx)) d b = Inr (r, b1)"
        "convert_items l dir el (Suc idx) vs p d b1 = Inl e"
    using "3.prems"(1) by (auto simp: ebind_Inl split: if_splits)
  then show ?case
  proof cases
    case 1
    moreover have "into p (SegIndex idx) = below p [SegIndex idx]" by (simp add: into_def below_def)
    ultimately have "e = SparseHole (below p [SegIndex idx])" "part_at whole [SegIndex idx] = Some PyHole" using v by simp_all
    then show ?thesis by (auto simp: error_ok_def)
  next
    case 2
    then show ?thesis using "3.IH"(1) "3.prems"(2) error_ok_into [OF _ v] by blast
  next
    case 3
    have "part_at whole [SegIndex (Suc idx + k)] = Some (vs ! k)" if "k < length vs" for k
      using "3.prems"(3) [of "Suc k"] that by simp
    then have "error_ok p whole b1 e" using "3.IH"(2) [OF 3(1,2) refl 3(3)] "3.prems"(2) by blast
    moreover have "bg_fail_after b1 = bg_fail_after b"
      using convert_accounts(1) [OF 3(2)] by (simp add: accounts_def)
    ultimately show ?thesis by (rule error_ok_kept)
  qed
next
  case (5 l dir n el fs kvs p d b)
  consider "map_of kvs n = None" "e = FieldMissing (into p (SegField n))"
    | raw where "map_of kvs n = Some raw" "convert l dir el raw (into p (SegField n)) d b = Inl e"
    | raw r b1 where "map_of kvs n = Some raw" "convert l dir el raw (into p (SegField n)) d b = Inr (r, b1)"
        "convert_fields l dir fs kvs p d b1 = Inl e"
    using "5.prems"(1) by (auto simp: ebind_Inl split: option.splits)
  then show ?case
  proof cases
    case 1
    moreover have "into p (SegField n) = below p ([] @ [SegField n])" by (simp add: into_def below_def)
    ultimately have "e = FieldMissing (below p ([] @ [SegField n]))" "part_at (PyDict kvs) [] = Some (PyDict kvs)"
      "map_of kvs n = None" by simp_all
    then show ?thesis unfolding error_ok_def by (simp only: error_explained.simps) blast
  next
    case (2 raw)
    then have "part_at (PyDict kvs) [SegField n] = Some raw" by simp
    from error_ok_into [OF _ this] show ?thesis using "5.IH"(1) [OF 2(1,2)] "5.prems"(2) by simp
  next
    case 3
    then have "error_ok p (PyDict kvs) b1 e" using "5.IH"(2) [OF 3(1,2) refl 3(3)] "5.prems"(2) by simp
    moreover have "bg_fail_after b1 = bg_fail_after b"
      using convert_accounts(1) [OF 3(2)] by (simp add: accounts_def)
    ultimately show ?thesis by (rule error_ok_kept)
  qed
qed simp_all

section \<open>Calls\<close>

lemma convert_arguments_spec:
  "convert_arguments l public idx pvs b = Inr (rs, b') \<Longrightarrow>
     accounts l 1 b b' rs \<and> list_all2 (\<lambda>pc r. value_ok Input (pc_node pc) r) (map fst pvs) rs"
proof (induction l public idx pvs b arbitrary: rs rule: convert_arguments.induct)
  case (2 l public idx pc v rest b)
  from "2.prems" obtain r b1 rs1 where c:
    "convert l Input (pc_node pc) v (public, [SegArgument idx (pc_name pc)]) 1 b = Inr (r, b1)"
    "convert_arguments l public (Suc idx) rest b1 = Inr (rs1, b')" "rs = r # rs1" by auto
  with "2.IH" [OF c(1) refl c(2)] show ?case
    using accounts_Cons [OF convert_accounts(1) [OF c(1)]] convert_value_ok(1) [OF c(1)] by simp
qed simp

lemma prepare_parameters_spec:
  assumes "prepare_parameters pcs arguments l public faults = Inr (pg, faults')"
  shows "list_all2 (\<lambda>pc r. value_ok Input (pc_node pc) r) pcs (pg_values pg)"
    "\<exists>b'. accounts l 1 (start_budget faults) b' (pg_values pg) \<and> pg_retained pg = bg_retained b'"
proof -
  from assms obtain args rs b' where c: "length args = length pcs"
    "convert_arguments l public 0 (zip pcs args) (start_budget faults) = Inr (rs, b')"
    "pg = \<lparr>pg_values = rs, pg_retained = bg_retained b'\<rparr>"
    by (auto simp: prepare_parameters_def split: option.splits)
  from convert_arguments_spec [OF c(2)] c(1,3)
  show "list_all2 (\<lambda>pc r. value_ok Input (pc_node pc) r) pcs (pg_values pg)"
    "\<exists>b'. accounts l 1 (start_budget faults) b' (pg_values pg) \<and> pg_retained pg = bg_retained b'"
    by auto
qed

text \<open>
  C17. The conversion limits bound a prepared call: over all its arguments, the native values hold at
  most \<open>max_visited_nodes\<close> nodes and \<open>max_temporary_bytes\<close> bytes and are nested at most \<open>max_depth\<close>
  deep; and the retained objects are exactly the objects in the values, in order.
\<close>

theorem conversion_is_bounded:
  assumes "check_limits l = Inr ()" and "prepare_parameters pcs arguments l public faults = Inr (pg, faults')"
  shows "(\<Sum>r\<leftarrow>pg_values pg. value_nodes r) \<le> cl_visited l \<and> (\<Sum>r\<leftarrow>pg_values pg. value_bytes r) \<le> cl_temporary l \<and>
     list_all (\<lambda>r. value_height r \<le> cl_depth l) (pg_values pg) \<and>
     pg_retained pg = concat (map value_tokens (pg_values pg))"
proof -
  from prepare_parameters_spec(2) [OF assms(2)] obtain b' where
    acc: "accounts l 1 (start_budget faults) b' (pg_values pg)" "pg_retained pg = bg_retained b'" by blast
  have "0 \<le> cl_visited l" "0 \<le> cl_temporary l"
    using assms(1) by (simp_all add: check_limits_def limit_entries_def)
  with acc show ?thesis by (auto simp: accounts_def start_budget_def list_all_iff)
qed

text \<open>
  C18. A returned call was typed on both sides: the implementation was called once, on native values of
  the planned parameter trees, in the world the call started in, and what is handed to JavaScript is a
  value of the planned result tree.
\<close>

theorem invocation_is_typed:
  assumes "invoke_transactionally plan arguments implementation public faults w = (Inr pv, w')"
  shows "\<exists>rs result. list_all2 (\<lambda>pc r. value_ok Input (pc_node pc) r) (bp_parameters plan) rs \<and>
     implementation rs w = (Inr result, w') \<and> value_ok Output (bp_result plan) (pv_value pv)"
proof -
  from assms obtain pg faults1 result faults2 where c:
    "prepare_arguments plan arguments public faults = Inr (pg, faults1)"
    "implementation (pg_values pg) w = (Inr result, w')"
    "prepare_result plan result public faults1 = Inr (pv, faults2)"
    by (auto simp: invoke_transactionally_def run_callback_def split: sum.splits prod.splits)
  have "list_all2 (\<lambda>pc r. value_ok Input (pc_node pc) r) (bp_parameters plan) (pg_values pg)"
    using prepare_parameters_spec(1) c(1) by (auto simp: prepare_arguments_def)
  moreover from c(3) have "value_ok Output (bp_result plan) (pv_value pv)"
    by (auto simp: prepare_result_def prepare_one_def dest: convert_value_ok(1))
  ultimately show ?thesis using c(2) by blast
qed

text \<open>
  C16. Nothing is lost on the way in: the native value of an accepted JavaScript value converts back to
  a JavaScript value, under the same budget, and that one is accepted again as the same native value
  with the same retained objects.
\<close>

theorem input_output_roundtrip:
  assumes "node_ok n" and "prepare_one l Input n v p faults = Inr (pv, faults')"
  shows "\<exists>js. prepare_one l Output n (pv_value pv) p faults = Inr (js, faults') \<and>
     prepare_one l Input n (pv_value js) p faults = Inr (pv, faults')"
proof -
  from assms(2) obtain b' where c: "convert l Input n v p 1 (start_budget faults) = Inr (pv_value pv, b')"
    "pv_retained pv = bg_retained b'" "faults' = end_injector b'"
    by (auto simp: prepare_one_def)
  from convert_back(1) [OF c(1) refl assms(1)] obtain w where
    "convert l Output n (pv_value pv) p 1 (start_budget faults) = Inr (w, b')"
    "convert l Input n w p 1 (start_budget faults) = Inr (pv_value pv, b')" by blast
  with c(2,3) show ?thesis by (simp add: prepare_one_def)
qed


section \<open>Samples\<close>

definition point_node :: conv_node where
  "point_node = named_node NValue ''Point'' ''f:type:Point'' []
     [(''x'', scalar_node ''int32 number'' SInt32),
      (''tags'', wrapper_node NArray ''dense Array<string>'' (scalar_node ''string'' SString)),
      (''owner'', wrapper_node NNullable ''Owner or null'' (named_node NObject ''Owner'' ''f:type:Owner'' [] []))]"

definition point_value :: pyval where
  "point_value = PyDict
     [(''tags'', PyList [PyStr [0x41, 0xE9, 0x1F600]]), (''x'', PyFloat (Finite 3 1)),
      (''owner'', PyToken \<lparr>nt_type_id = ''f:type:Owner'', nt_backend = ''cpp'', nt_instance = 1\<rparr>)]"

definition point_native :: pyval where
  "point_native = PyDict
     [(''x'', PyInt 6), (''tags'', PyTuple [PyStr [0x41, 0xE9, 0x1F600]]),
      (''owner'', PyToken \<lparr>nt_type_id = ''f:type:Owner'', nt_backend = ''cpp'', nt_instance = 1\<rparr>)]"

text \<open>Unfolding the engine on a concrete value; \<open>code_simp\<close> would count code points in unary.\<close>

lemmas engine_run = prepare_one_def prepare_parameters_def scalar_node_def wrapper_node_def named_node_def
  default_limits_def no_faults_def start_budget_def end_injector_def visit_node_def reserve_def
  injector_reserve_def checked_add_def max_counter_value convert_scalar_def convert_string_def
  convert_int32_def numeric_value_def integral_value_def is_finite_def float_of_int_def
  convert_enum_def convert_object_def check_string_bytes_def utf8_char_def is_surrogate_def
  utf8_pair_def utf8_triple_def utf8_quad_def is_tail_byte_def cons_option_def Let_def
  array_items_def pointer_size_def conversion_type_error_def actual_def into_def

definition point_plan :: binding_plan where
  "point_plan = \<lparr>bp_binding = ''f:move'',
     bp_parameters = [\<lparr>pc_name = ''p'', pc_type = SemType KValueRef None (Some ''f:type:Point'') None, pc_node = point_node\<rparr>],
     bp_result_type = t_scalar SBool, bp_result = scalar_node ''boolean'' SBool, bp_limits = default_limits\<rparr>"

theorem conversion_is_bounded_witness:
  "(\<Sum>r\<leftarrow>[point_native]. value_nodes r) \<le> cl_visited default_limits \<and>
   (\<Sum>r\<leftarrow>[point_native]. value_bytes r) \<le> cl_temporary default_limits"
proof -
  have l: "check_limits default_limits = Inr ()" by code_simp
  have "prepare_parameters (bp_parameters point_plan) (PyList [point_value]) default_limits ''move'' no_faults =
     Inr (\<lparr>pg_values = [point_native],
       pg_retained = [\<lparr>nt_type_id = ''f:type:Owner'', nt_backend = ''cpp'', nt_instance = 1\<rparr>]\<rparr>,
       \<lparr>inj_fail_after = None, inj_reservations = 4\<rparr>)"
    by (simp add: engine_run point_plan_def point_node_def point_value_def point_native_def)
  from conversion_is_bounded [OF l this] show ?thesis by simp
qed

theorem invocation_is_typed_witness:
  "\<exists>rs result. list_all2 (\<lambda>pc r. value_ok Input (pc_node pc) r) (bp_parameters point_plan) rs \<and>
     (\<lambda>args (n::nat). (Inr (PyBool (length args = 1)) :: unit + pyval, Suc n)) rs 0 = (Inr result, 1) \<and>
     value_ok Output (bp_result point_plan) (PyBool True)"
proof -
  have "invoke_transactionally point_plan (PyList [point_value])
      (\<lambda>args (n::nat). (Inr (PyBool (length args = 1)) :: unit + pyval, Suc n)) ''move'' no_faults 0 =
     (Inr \<lparr>pv_value = PyBool True, pv_retained = []\<rparr>, 1)"
    by (simp add: engine_run point_plan_def point_node_def point_value_def invoke_transactionally_def
        run_callback_def prepare_arguments_def prepare_result_def)
  from invocation_is_typed [OF this] show ?thesis by simp
qed

lemma point_prepared:
  "prepare_one default_limits Input point_node point_value (''p'', []) no_faults =
     Inr (\<lparr>pv_value = point_native,
       pv_retained = [\<lparr>nt_type_id = ''f:type:Owner'', nt_backend = ''cpp'', nt_instance = 1\<rparr>]\<rparr>,
       \<lparr>inj_fail_after = None, inj_reservations = 4\<rparr>)"
  by (simp add: engine_run point_node_def point_value_def point_native_def)

lemma point_node_ok: "node_ok point_node" by code_simp

theorem input_output_roundtrip_witness:
  "\<exists>js. prepare_one default_limits Output point_node point_native (''p'', []) no_faults =
     Inr (js, \<lparr>inj_fail_after = None, inj_reservations = 4\<rparr>)"
  using input_output_roundtrip [OF point_node_ok point_prepared] by auto


text \<open>The two exceptions that are not the engine's own and carry no path do occur.\<close>

lemma lone_surrogate_is_not_a_conversion_error:
  "prepare_one default_limits Input (scalar_node ''string'' SString) (PyStr [0xD800]) p no_faults = Inl UnicodeEncode"
  by (simp add: engine_run)

lemma float_of_huge: "2 ^ 1024 \<le> n \<Longrightarrow> float_of_int n = None"
proof -
  assume n: "2 ^ 1024 \<le> n"
  define s where "s = nat (bitlen n - 53)"
  define q where "q = n div 2 ^ s"
  have pos: "0 < n" using n by (rule less_le_trans [rotated]) simp
  have low: "2 ^ 1024 \<le> q * 2 ^ s"
  proof (cases "s \<le> 1024")
    case True
    then have "(2::int) ^ 1024 = 2 ^ (1024 - s) * 2 ^ s" by (simp flip: power_add)
    then have "2 ^ (1024 - s) \<le> q"
      unfolding q_def using n by (metis zdiv_mono1 nonzero_mult_div_cancel_right power_not_zero zero_less_numeral zero_less_power zero_neq_numeral)
    then have "2 ^ (1024 - s) * 2 ^ s \<le> q * 2 ^ s" by (rule mult_right_mono) simp
    then show ?thesis unfolding \<open>2 ^ 1024 = 2 ^ (1024 - s) * 2 ^ s\<close> .
  next
    case False
    have "s \<le> nat (bitlen n - 1)" by (simp add: s_def)
    then have "(2::int) ^ s \<le> 2 ^ nat (bitlen n - 1)" by (rule power_increasing) simp
    also have "\<dots> \<le> n" using bitlen_bounds [OF pos] by simp
    finally have "1 \<le> q" unfolding q_def by (simp add: div_int_pos_iff pos_imp_zdiv_pos_iff int_one_le_iff_zero_less)
    then have "1 * 2 ^ s \<le> q * 2 ^ s" by (rule mult_right_mono) simp
    moreover have "(2::int) ^ 1024 \<le> 2 ^ s" using False by (intro power_increasing) auto
    ultimately show ?thesis by (simp only: mult_1 order_trans)
  qed
  have "q * 2 ^ s \<le> (q + 1) * 2 ^ s" by (intro mult_right_mono) auto
  with low have high: "2 ^ 1024 \<le> (q + 1) * 2 ^ s" by (rule order_trans)
  have "2 ^ 1024 \<le> (if c then q + 1 else q) * 2 ^ s" for c
  proof (cases c)
    case True
    with high show ?thesis by (simp only: if_True)
  next
    case False
    with low show ?thesis by (simp only: if_False)
  qed
  moreover have "\<bar>n\<bar> = n" "\<not> n < 2 ^ 53" using n pos by (auto intro: order_trans [of _ "2 ^ 1024"])
  ultimately show ?thesis
    unfolding float_of_int_def Let_def s_def q_def by (simp only: if_True if_False)
qed

lemma huge_integer_is_not_a_range_error:
  "prepare_one default_limits Output (scalar_node ''int32 number'' SInt32) (PyInt (2 ^ 1024)) p no_faults =
     Inl FloatOverflow"
proof -
  have "float_of_int (2 ^ 1024) = None" by (rule float_of_huge) (rule order_refl)
  then have "numeric_value p x (PyInt (2 ^ 1024)) = Inl FloatOverflow" for x
    by (simp only: numeric_value_def pyval.case option.case)
  then show ?thesis
    by (simp add: prepare_one_def scalar_node_def default_limits_def no_faults_def start_budget_def visit_node_def
        checked_add_def max_counter_value convert_scalar_def convert_int32_def del: power_numeral)
qed

end
