(* ===== verification/Windows_Authority.thy ===== *)
theory Windows_Authority
  imports Model_Prelude "HOL-Library.AList"
begin

text \<open>
  Ownership of retained Windows handles and descriptors (\<^verbatim>\<open>windows_authority.py\<close>), and the native
  close behind it (\<open>_windows_attempt_close_raw_handle\<close> of \<^verbatim>\<open>filesystem.py\<close>).  A
  \<open>GenerationAuthority\<close> is compared by object identity: it has the number under which it was created.
  The dictionaries keyed by fresh \<open>object()\<close> tokens are association lists in insertion order, keyed by
  the number of the token.  The raw closer is a function of the registry and of the outside world: it
  may re-enter the registry, and the code re-reads the live generation after each call.
  Exceptions that can strike between two statements are an argument of \<open>claim\<close>.
\<close>

section \<open>State\<close>

datatype generation = Generation (gen_id: nat) (gen_ancestors: "(int \<times> generation) list")

type_synonym raw_reference = "int \<times> generation"

datatype close_state = CsClosed | CsRetryable | CsAmbiguous

record 'e close_outcome =
  co_state :: close_state
  co_error :: "'e option"

datatype authority = AuthHandles | AuthDescriptors

record generation_transition =
  gt_authority :: authority
  gt_value :: int
  gt_current :: generation
  gt_obsolete :: "generation list"
  gt_superseded :: "raw_reference list"

record registry =
  wa_handles :: "int \<Rightarrow> generation option"
  wa_descriptors :: "int \<Rightarrow> generation option"
  wa_retired :: "(nat \<times> raw_reference list) list"
  wa_ambiguous_retired :: "(nat \<times> raw_reference list) list"
  wa_ambiguous :: "int \<Rightarrow> generation list"
  wa_pending :: "(nat \<times> generation_transition) list"
  wa_next_generation :: nat
  wa_next_token :: nat

type_synonym ('e, 'w) raw_closer = "int \<Rightarrow> registry \<times> 'w \<Rightarrow> 'e close_outcome \<times> registry \<times> 'w"

type_synonym ('e, 'w) descriptor_closer = "int \<Rightarrow> registry \<times> 'w \<Rightarrow> ('e option) \<times> registry \<times> 'w"

datatype 'e authority_error = AmbiguousClose | CloseUndiagnosed | RaisedError 'e

definition empty_registry :: registry where
  "empty_registry = \<lparr>wa_handles = (\<lambda>_. None), wa_descriptors = (\<lambda>_. None), wa_retired = [],
     wa_ambiguous_retired = [], wa_ambiguous = (\<lambda>_. []), wa_pending = [], wa_next_generation = 0,
     wa_next_token = 0\<rparr>"

text \<open>\<open>left is right\<close>, and equality of references.\<close>

definition same_generation :: "generation \<Rightarrow> generation \<Rightarrow> bool" where
  "same_generation a b \<longleftrightarrow> gen_id a = gen_id b"

definition same_reference :: "raw_reference \<Rightarrow> raw_reference \<Rightarrow> bool" where
  "same_reference a b \<longleftrightarrow> fst a = fst b \<and> same_generation (snd a) (snd b)"

definition ancestor_numbers :: "generation \<Rightarrow> int list" where
  "ancestor_numbers g = map fst (gen_ancestors g)"

definition holds_generation :: "generation option \<Rightarrow> generation \<Rightarrow> bool" where
  "holds_generation live g \<longleftrightarrow> (case live of None \<Rightarrow> False | Some l \<Rightarrow> same_generation l g)"

definition new_generation :: "raw_reference list \<Rightarrow> registry \<Rightarrow> generation \<times> registry" where
  "new_generation ancestors r =
     (Generation (wa_next_generation r) ancestors, r\<lparr>wa_next_generation := Suc (wa_next_generation r)\<rparr>)"

definition new_token :: "registry \<Rightarrow> nat \<times> registry" where
  "new_token r = (wa_next_token r, r\<lparr>wa_next_token := Suc (wa_next_token r)\<rparr>)"

fun authority_of :: "authority \<Rightarrow> registry \<Rightarrow> int \<Rightarrow> generation option" where
  "authority_of AuthHandles r = wa_handles r"
| "authority_of AuthDescriptors r = wa_descriptors r"

fun set_authority :: "authority \<Rightarrow> int \<Rightarrow> generation option \<Rightarrow> registry \<Rightarrow> registry" where
  "set_authority AuthHandles n g r = r\<lparr>wa_handles := (wa_handles r)(n := g)\<rparr>"
| "set_authority AuthDescriptors n g r = r\<lparr>wa_descriptors := (wa_descriptors r)(n := g)\<rparr>"

section \<open>Reading and ensuring\<close>

fun capture_raw_generations :: "int list \<Rightarrow> registry \<Rightarrow> raw_reference list \<times> registry" where
  "capture_raw_generations [] r = ([], r)"
| "capture_raw_generations (h # hs) r =
     (let (g, r) = (case wa_handles r h of Some g \<Rightarrow> (g, r) | None \<Rightarrow> new_generation [] r);
          (refs, r) = capture_raw_generations hs r
      in ((h, g) # refs, r))"

definition handle_generation :: "registry \<Rightarrow> int \<Rightarrow> generation option" where
  "handle_generation r h = wa_handles r h"

definition descriptor_generation :: "registry \<Rightarrow> int \<Rightarrow> generation option" where
  "descriptor_generation r d = wa_descriptors r d"

definition ensure_authority :: "authority \<Rightarrow> int \<Rightarrow> generation \<Rightarrow> registry \<Rightarrow> registry" where
  "ensure_authority a n g r = (if authority_of a r n = None then set_authority a n (Some g) r else r)"

definition ensure_handle :: "int \<Rightarrow> generation \<Rightarrow> registry \<Rightarrow> registry" where
  "ensure_handle = ensure_authority AuthHandles"

definition ensure_descriptor :: "int \<Rightarrow> generation \<Rightarrow> registry \<Rightarrow> registry" where
  "ensure_descriptor = ensure_authority AuthDescriptors"

definition release_handle_if :: "int \<Rightarrow> generation option \<Rightarrow> registry \<Rightarrow> registry" where
  "release_handle_if h g r =
     (case g of
        None \<Rightarrow> r
      | Some x \<Rightarrow> if holds_generation (wa_handles r h) x then set_authority AuthHandles h None r else r)"

definition generation_is_ambiguous :: "registry \<Rightarrow> int \<Rightarrow> generation \<Rightarrow> bool" where
  "generation_is_ambiguous r h g = list_ex (\<lambda>x. same_generation x g) (wa_ambiguous r h)"

definition record_ambiguous :: "int \<Rightarrow> generation \<Rightarrow> registry \<Rightarrow> registry" where
  "record_ambiguous h g r =
     (if generation_is_ambiguous r h g then r
      else r\<lparr>wa_ambiguous := (wa_ambiguous r)(h := wa_ambiguous r h @ [g])\<rparr>)"

definition ambiguous_retired_generation :: "registry \<Rightarrow> int \<Rightarrow> generation option" where
  "ambiguous_retired_generation r h =
     map_option snd (find (\<lambda>x. fst x = h) (concat (map snd (wa_ambiguous_retired r))))"

definition pending_generation :: "authority \<Rightarrow> int \<Rightarrow> registry \<Rightarrow> generation option" where
  "pending_generation a n r =
     map_option gt_current (find (\<lambda>t. gt_authority t = a \<and> gt_value t = n) (rev (map snd (wa_pending r))))"

definition current_generation :: "authority \<Rightarrow> int \<Rightarrow> registry \<Rightarrow> generation \<times> registry" where
  "current_generation a n r =
     (case pending_generation a n r of
        Some g \<Rightarrow> (g, if holds_generation (authority_of a r n) g then r else set_authority a n (Some g) r)
      | None \<Rightarrow>
          (case (case authority_of a r n of
                   Some g \<Rightarrow> Some g
                 | None \<Rightarrow> if a = AuthHandles then ambiguous_retired_generation r n else None) of
             Some g \<Rightarrow> (g, r)
           | None \<Rightarrow> let (g, r) = new_generation [] r in (g, set_authority a n (Some g) r)))"

section \<open>Retired references\<close>

definition publish_retired ::
    "nat \<Rightarrow> raw_reference list \<Rightarrow> raw_reference list \<Rightarrow> registry \<Rightarrow> registry" where
  "publish_retired token remaining ambiguous r =
     r\<lparr>wa_retired := (if remaining \<noteq> [] then AList.update token remaining (wa_retired r)
                      else AList.delete token (wa_retired r)),
       wa_ambiguous_retired := (if ambiguous \<noteq> [] then AList.update token ambiguous (wa_ambiguous_retired r)
                                else AList.delete token (wa_ambiguous_retired r))\<rparr>"

text \<open>\<open>remaining.remove(reference)\<close>.\<close>

fun remove_reference :: "raw_reference \<Rightarrow> raw_reference list \<Rightarrow> raw_reference list" where
  "remove_reference x [] = []"
| "remove_reference x (y # ys) = (if same_reference x y then ys else y # remove_reference x ys)"

definition mark_retired_ambiguous ::
    "raw_reference \<Rightarrow> raw_reference list \<Rightarrow> registry \<Rightarrow> raw_reference list \<times> registry" where
  "mark_retired_ambiguous x ambiguous r = (ambiguous @ [x], record_ambiguous (fst x) (snd x) r)"

definition apply_retired_outcome ::
    "raw_reference \<Rightarrow> close_state \<Rightarrow> generation option \<Rightarrow> raw_reference list \<Rightarrow> raw_reference list \<Rightarrow>
     registry \<Rightarrow> raw_reference list \<times> raw_reference list \<times> registry" where
  "apply_retired_outcome x state live remaining ambiguous r =
     (case state of
        CsClosed \<Rightarrow> (remove_reference x remaining, ambiguous,
          if holds_generation live (snd x) then set_authority AuthHandles (fst x) None r else r)
      | CsAmbiguous \<Rightarrow> (remove_reference x remaining, mark_retired_ambiguous x ambiguous r)
      | CsRetryable \<Rightarrow> (remaining, ambiguous, r))"

text \<open>A registered generation other than the expected one.\<close>

definition reused :: "generation option \<Rightarrow> generation \<Rightarrow> bool" where
  "reused live g \<longleftrightarrow> live \<noteq> None \<and> \<not> holds_generation live g"

definition close_retired_reference ::
    "('e, 'w) raw_closer \<Rightarrow> nat \<Rightarrow> raw_reference \<Rightarrow> raw_reference list \<Rightarrow> raw_reference list \<Rightarrow>
     registry \<times> 'w \<Rightarrow> 'e option \<times> raw_reference list \<times> raw_reference list \<times> registry \<times> 'w" where
  "close_retired_reference closer token x remaining ambiguous sys =
     (let (r, w) = sys; (h, expected) = x in
      if reused (wa_handles r h) expected then
        let remaining = remove_reference x remaining in
        (None, remaining, ambiguous, publish_retired token remaining ambiguous r, w)
      else if generation_is_ambiguous r h expected then
        let remaining = remove_reference x remaining; (ambiguous, r) = mark_retired_ambiguous x ambiguous r in
        (None, remaining, ambiguous, publish_retired token remaining ambiguous r, w)
      else
        let (out, r, w) = closer h (r, w);
            live = wa_handles r h;
            (remaining, ambiguous, r) =
              (if reused live expected then
                 (remove_reference x remaining,
                  if co_state out = CsAmbiguous then mark_retired_ambiguous x ambiguous r else (ambiguous, r))
               else apply_retired_outcome x (co_state out) live remaining ambiguous r)
        in (co_error out, remaining, ambiguous, publish_retired token remaining ambiguous r, w))"

fun first_error :: "'e option \<Rightarrow> 'e option \<Rightarrow> 'e option" where
  "first_error (Some e) _ = Some e"
| "first_error None e = e"

fun close_references ::
    "('e, 'w) raw_closer \<Rightarrow> nat \<Rightarrow> raw_reference list \<Rightarrow> raw_reference list \<Rightarrow> raw_reference list \<Rightarrow>
     'e option \<Rightarrow> registry \<times> 'w \<Rightarrow> 'e option \<times> registry \<times> 'w" where
  "close_references closer token [] remaining ambiguous err sys = (err, sys)"
| "close_references closer token (x # xs) remaining ambiguous err sys =
     (let (e, remaining, ambiguous, sys) = close_retired_reference closer token x remaining ambiguous sys
      in close_references closer token xs remaining ambiguous (first_error err e) sys)"

definition lookup_references :: "nat \<Rightarrow> (nat \<times> raw_reference list) list \<Rightarrow> raw_reference list" where
  "lookup_references token entries = (case map_of entries token of Some xs \<Rightarrow> xs | None \<Rightarrow> [])"

definition close_retired ::
    "('e, 'w) raw_closer \<Rightarrow> nat \<Rightarrow> registry \<times> 'w \<Rightarrow> 'e option \<times> registry \<times> 'w" where
  "close_retired closer token sys =
     (let (r, w) = sys; ancestors = lookup_references token (wa_retired r) in
      if ancestors = [] then (None, r\<lparr>wa_retired := AList.delete token (wa_retired r)\<rparr>, w)
      else close_references closer token (rev ancestors) ancestors
             (lookup_references token (wa_ambiguous_retired r)) None (r, w))"

definition retire_current ::
    "('e, 'w) raw_closer \<Rightarrow> authority \<Rightarrow> int \<Rightarrow> generation option \<Rightarrow> registry \<times> 'w \<Rightarrow> 'e option \<times> registry \<times> 'w" where
  "retire_current closer a n g sys =
     (case g of
        None \<Rightarrow> (None, sys)
      | Some x \<Rightarrow>
          let (r, w) = sys; (token, r) = new_token r;
              r = r\<lparr>wa_retired := AList.update token (gen_ancestors x) (wa_retired r)\<rparr>;
              r = (if holds_generation (authority_of a r n) x then set_authority a n None r else r)
          in close_retired closer token (r, w))"

section \<open>Closing\<close>

definition close_raw ::
    "('e, 'w) raw_closer \<Rightarrow> int \<Rightarrow> registry \<times> 'w \<Rightarrow> 'e authority_error option \<times> registry \<times> 'w" where
  "close_raw closer h sys =
     (let (r, w) = sys; (registered, r) = current_generation AuthHandles h r in
      if generation_is_ambiguous r h registered then (Some AmbiguousClose, r, w)
      else
        let (out, r, w) = closer h (r, w);
            note_ambiguous = (\<lambda>r. if co_state out = CsAmbiguous then record_ambiguous h registered r else r)
        in if \<not> holds_generation (wa_handles r h) registered
           then (map_option RaisedError (co_error out), note_ambiguous r, w)
           else if co_state out \<noteq> CsClosed
           then (Some (case co_error out of Some e \<Rightarrow> RaisedError e | None \<Rightarrow> CloseUndiagnosed), note_ambiguous r, w)
           else
             let (e, sys) = retire_current closer AuthHandles h (Some registered) (r, w)
             in (map_option RaisedError (first_error e (co_error out)), sys))"

text \<open>\<open>closer(descriptor)\<close> returns normally (\<open>None\<close>) or raises.\<close>

definition close_descriptor ::
    "('e, 'w) raw_closer \<Rightarrow> ('e, 'w) descriptor_closer \<Rightarrow> int \<Rightarrow> registry \<times> 'w \<Rightarrow> 'e option \<times> registry \<times> 'w" where
  "close_descriptor closer dcloser d sys =
     (let (r, w) = sys; (registered, r) = current_generation AuthDescriptors d r;
          (raised, r, w) = dcloser d (r, w)
      in case raised of
           Some e \<Rightarrow> (Some e, r, w)
         | None \<Rightarrow> retire_current closer AuthDescriptors d (Some registered) (r, w))"

section \<open>Transitions\<close>

definition superseded_references :: "int \<Rightarrow> generation \<Rightarrow> registry \<Rightarrow> raw_reference list" where
  "superseded_references h current r =
     filter (\<lambda>x. fst x = h \<and> \<not> same_generation (snd x) current) (concat (map snd (wa_retired r)))"

fun unique_from :: "generation list \<Rightarrow> generation list \<Rightarrow> generation list" where
  "unique_from unique [] = unique"
| "unique_from unique (g # gs) =
     (if list_ex (\<lambda>x. same_generation x g) unique then unique_from unique gs else unique_from (unique @ [g]) gs)"

definition unique_generations :: "generation list \<Rightarrow> generation list" where
  "unique_generations gs = unique_from [] gs"

fun retain_new :: "raw_reference list \<Rightarrow> raw_reference list \<Rightarrow> raw_reference list \<Rightarrow> raw_reference list" where
  "retain_new recorded retained [] = retained"
| "retain_new recorded retained (x # xs) =
     (if list_ex (same_reference x) recorded \<or> list_ex (same_reference x) retained
      then retain_new recorded retained xs else retain_new recorded (retained @ [x]) xs)"

definition transition_retired_references ::
    "generation_transition \<Rightarrow> nat \<Rightarrow> registry \<Rightarrow> raw_reference list" where
  "transition_retired_references t token r =
     retain_new (concat (map snd (filter (\<lambda>(owner, _). owner \<noteq> token) (wa_retired r)))) []
       (concat (map gen_ancestors (gt_obsolete t)))"

definition remove_superseded :: "raw_reference list \<Rightarrow> registry \<Rightarrow> registry" where
  "remove_superseded superseded r =
     r\<lparr>wa_retired := filter (\<lambda>(_, xs). xs \<noteq> [])
        (map (\<lambda>(token, xs). (token, filter (\<lambda>x. \<not> list_ex (same_reference x) superseded) xs)) (wa_retired r))\<rparr>"

definition retain_obsolete :: "generation_transition \<Rightarrow> nat \<Rightarrow> registry \<Rightarrow> registry" where
  "retain_obsolete t token r =
     (let retained = transition_retired_references t token r;
          r = (if retained \<noteq> [] then r\<lparr>wa_retired := AList.update token retained (wa_retired r)\<rparr> else r)
      in remove_superseded (gt_superseded t) r)"

definition complete_transition :: "nat \<Rightarrow> registry \<Rightarrow> registry" where
  "complete_transition token r =
     (case map_of (wa_pending r) token of
        None \<Rightarrow> r
      | Some t \<Rightarrow> let r = retain_obsolete t token r in r\<lparr>wa_pending := AList.delete token (wa_pending r)\<rparr>)"

definition reconcile_pending :: "registry \<Rightarrow> registry" where
  "reconcile_pending r = fold complete_transition (map fst (wa_pending r)) r"

fun reconcile_tokens ::
    "('e, 'w) raw_closer \<Rightarrow> nat list \<Rightarrow> 'e option \<Rightarrow> registry \<times> 'w \<Rightarrow> 'e option \<times> registry \<times> 'w" where
  "reconcile_tokens closer [] err sys = (err, sys)"
| "reconcile_tokens closer (t # ts) err sys =
     (let (e, sys) = close_retired closer t sys in reconcile_tokens closer ts (first_error err e) sys)"

definition reconcile :: "('e, 'w) raw_closer \<Rightarrow> registry \<times> 'w \<Rightarrow> 'e option \<times> registry \<times> 'w" where
  "reconcile closer sys =
     (let (r, w) = sys; r = reconcile_pending r
      in reconcile_tokens closer (map fst (wa_retired r)) None (r, w))"

section \<open>Claiming\<close>

text \<open>Where an asynchronous exception may strike a claim.\<close>

datatype claim_interrupt =
    BeforeGeneration
  | BeforeStale
  | BeforeSuperseded
  | BeforeTransition
  | BeforePublish
  | DuringPublish
  | BeforeCompletion

definition claim_transition ::
    "authority \<Rightarrow> int \<Rightarrow> generation \<Rightarrow> generation option \<Rightarrow> raw_reference list \<Rightarrow> generation_transition" where
  "claim_transition a n current stale superseded =
     \<lparr>gt_authority = a, gt_value = n, gt_current = current,
      gt_obsolete = unique_generations ((case stale of None \<Rightarrow> [] | Some g \<Rightarrow> [g]) @ map snd superseded),
      gt_superseded = superseded\<rparr>"

definition superseded_for :: "authority \<Rightarrow> int \<Rightarrow> generation \<Rightarrow> registry \<Rightarrow> raw_reference list" where
  "superseded_for a n current r = (if a = AuthHandles then superseded_references n current r else [])"

definition retain_failed_registration ::
    "authority \<Rightarrow> int \<Rightarrow> generation \<Rightarrow> generation option \<Rightarrow> raw_reference list \<Rightarrow> registry \<Rightarrow> registry" where
  "retain_failed_registration a n current stale discovered r =
     (let superseded = (if discovered = [] then superseded_for a n current r else discovered);
          (token, r) = new_token r;
          r = retain_obsolete (claim_transition a n current stale superseded) token r
      in set_authority a n (Some current) r)"

definition publish_claim :: "authority \<Rightarrow> int \<Rightarrow> generation \<Rightarrow> registry \<Rightarrow> registry" where
  "publish_claim a n current r =
     (if holds_generation (authority_of a r n) current then r else set_authority a n (Some current) r)"

text \<open>\<open>_register\<close>: a claim returns the new generation, or raises \<open>None\<close> for an interrupt and the
  error of \<open>reconcile\<close> otherwise.\<close>

definition register ::
    "('e, 'w) raw_closer \<Rightarrow> claim_interrupt option \<Rightarrow> authority \<Rightarrow> int \<Rightarrow> generation \<Rightarrow> generation option \<Rightarrow>
     registry \<times> 'w \<Rightarrow> ('e option + generation) \<times> registry \<times> 'w" where
  "register closer interrupt a n current stale sys =
     (let (r, w) = sys; superseded = superseded_for a n current r in
      if interrupt = Some BeforeSuperseded then
        (Inl None, retain_failed_registration a n current stale [] r, w)
      else if interrupt = Some BeforeTransition then
        (Inl None, retain_failed_registration a n current stale superseded r, w)
      else
        let (token, r) = new_token r;
            r = r\<lparr>wa_pending := AList.update token (claim_transition a n current stale superseded) (wa_pending r)\<rparr>
        in if interrupt = Some BeforePublish then (Inl None, r, w)
        else if interrupt = Some DuringPublish then (Inl None, publish_claim a n current r, w)
        else
          let r = set_authority a n (Some current) r in
          if interrupt = Some BeforeCompletion then (Inl None, publish_claim a n current r, w)
          else case reconcile closer (complete_transition token r, w) of
              (None, sys) \<Rightarrow> (Inr current, sys)
            | (Some e, r, w) \<Rightarrow> (Inl (Some e), publish_claim a n current r, w))"

definition claim ::
    "('e, 'w) raw_closer \<Rightarrow> claim_interrupt option \<Rightarrow> authority \<Rightarrow> int \<Rightarrow> raw_reference list \<Rightarrow>
     registry \<times> 'w \<Rightarrow> ('e option + generation) \<times> registry \<times> 'w" where
  "claim closer interrupt a n ancestors sys =
     (let (r, w) = sys; (current, r) = new_generation ancestors r;
          stale = (if interrupt \<in> {Some BeforeGeneration, Some BeforeStale} then None else authority_of a r n);
          (res, r, w) =
            (if interrupt \<in> {Some BeforeGeneration, Some BeforeStale} then (Inl None, r, w)
             else register closer interrupt a n current stale (r, w))
      in case res of
           Inr g \<Rightarrow> (Inr g, r, w)
         | Inl e \<Rightarrow>
             let live = authority_of a r n in
             (Inl e,
              if holds_generation live current then r
              else retain_failed_registration a n current (case stale of Some g \<Rightarrow> Some g | None \<Rightarrow> live) [] r,
              w))"

definition claim_handle ::
    "('e, 'w) raw_closer \<Rightarrow> claim_interrupt option \<Rightarrow> int \<Rightarrow> raw_reference list \<Rightarrow> registry \<times> 'w \<Rightarrow>
     ('e option + generation) \<times> registry \<times> 'w" where
  "claim_handle closer interrupt = claim closer interrupt AuthHandles"

definition claim_descriptor ::
    "('e, 'w) raw_closer \<Rightarrow> claim_interrupt option \<Rightarrow> int \<Rightarrow> raw_reference list \<Rightarrow> registry \<times> 'w \<Rightarrow>
     ('e option + generation) \<times> registry \<times> 'w" where
  "claim_descriptor closer interrupt = claim closer interrupt AuthDescriptors"

section \<open>The native close\<close>

text \<open>
  The parts of the Windows API a close uses: whether the host is Windows, loading \<open>CloseHandle\<close> (may
  raise), the call (raises, or returns its result), and reading the last error (raises, or gives the
  error with its \<open>winerror\<close>).
\<close>

record ('e, 'w) native_api =
  nt_host :: bool
  nt_load :: "'w \<Rightarrow> 'e option \<times> 'w"
  nt_close :: "int \<Rightarrow> 'w \<Rightarrow> ('e + bool) \<times> 'w"
  nt_last_error :: "'w \<Rightarrow> ('e + 'e \<times> int option) \<times> 'w"

definition outcome_of :: "close_state \<Rightarrow> 'e option \<Rightarrow> 'e close_outcome" where
  "outcome_of state err = \<lparr>co_state = state, co_error = err\<rparr>"

definition attempt_close_raw_handle :: "('e, 'w) native_api \<Rightarrow> int \<Rightarrow> 'w \<Rightarrow> 'e close_outcome \<times> 'w" where
  "attempt_close_raw_handle nt h w =
     (if \<not> nt_host nt then (outcome_of CsClosed None, w)
      else case nt_load nt w of
        (Some e, w) \<Rightarrow> (outcome_of CsRetryable (Some e), w)
      | (None, w) \<Rightarrow>
          (case nt_close nt h w of
             (Inl e, w) \<Rightarrow> (outcome_of CsAmbiguous (Some e), w)
           | (Inr True, w) \<Rightarrow> (outcome_of CsClosed None, w)
           | (Inr False, w) \<Rightarrow>
               (case nt_last_error nt w of
                  (Inl e, w) \<Rightarrow> (outcome_of CsRetryable (Some e), w)
                | (Inr (e, code), w) \<Rightarrow>
                    if code = Some 6 then (outcome_of CsClosed None, w)
                    else (outcome_of CsRetryable (Some e), w))))"

text \<open>The closer the module installs.\<close>

definition native_closer :: "('e, 'w) native_api \<Rightarrow> ('e, 'w) raw_closer" where
  "native_closer nt h sys =
     (let (r, w) = sys; (out, w) = attempt_close_raw_handle nt h w in (out, r, w))"

definition windows_close_raw_handle ::
    "('e, 'w) native_api \<Rightarrow> int \<Rightarrow> registry \<times> 'w \<Rightarrow> 'e authority_error option \<times> registry \<times> 'w" where
  "windows_close_raw_handle nt = close_raw (native_closer nt)"

fun close_handles_from ::
    "('e, 'w) native_api \<Rightarrow> int list \<Rightarrow> 'e authority_error option \<Rightarrow> registry \<times> 'w \<Rightarrow>
     'e authority_error option \<times> registry \<times> 'w" where
  "close_handles_from nt [] err sys = (err, sys)"
| "close_handles_from nt (h # hs) err sys =
     (let (e, sys) = windows_close_raw_handle nt h sys in close_handles_from nt hs (first_error err e) sys)"

definition windows_close_handles ::
    "('e, 'w) native_api \<Rightarrow> int list \<Rightarrow> registry \<times> 'w \<Rightarrow> 'e authority_error option \<times> registry \<times> 'w" where
  "windows_close_handles nt handles sys = close_handles_from nt (rev handles) None sys"

end
