(* ===== verification/Windows_Authority_Props.thy ===== *)
theory Windows_Authority_Props
  imports Windows_Authority "HOL-Library.Multiset"
begin

text \<open>
  What the registry guarantees: a retired number is closed only while it can still be the retired
  generation's, and at most once per pass; a pass with a working closer leaves nothing retired; an
  interrupted claim forgets no obligation; and the registry stays consistent under any sequence of its
  operations.
\<close>

section \<open>Which numbers are closed\<close>

text \<open>A closer that also writes down what it was asked to close and what the registry then held.\<close>

type_synonym 'w journal = "'w \<times> (int \<times> generation option \<times> generation list) list"

definition journaled :: "('e, 'w) raw_closer \<Rightarrow> ('e, 'w journal) raw_closer" where
  "journaled c h sys =
     (let (r, w, l) = sys; (out, r', w') = c h (r, w) in
      (out, r', w', l @ [(h, wa_handles r h, wa_ambiguous r h)]))"

text \<open>What a call for the reference \<open>x\<close> may look like.\<close>

definition guarded_call :: "raw_reference \<Rightarrow> int \<times> generation option \<times> generation list \<Rightarrow> bool" where
  "guarded_call x call \<longleftrightarrow> fst call = fst x \<and> \<not> reused (fst (snd call)) (snd x) \<and>
     \<not> list_ex (\<lambda>g. same_generation g (snd x)) (snd (snd call))"

text \<open>The calls of a loop over references: some of them, in order, each with a guarded call.\<close>

inductive guarded_calls :: "raw_reference list \<Rightarrow> (int \<times> generation option \<times> generation list) list \<Rightarrow> bool" where
  calls_none: "guarded_calls [] []"
| calls_skip: "guarded_calls xs cs \<Longrightarrow> guarded_calls (x # xs) cs"
| calls_close: "guarded_call x c \<Longrightarrow> guarded_calls xs cs \<Longrightarrow> guarded_calls (x # xs) (c # cs)"

inductive_cases guarded_calls_nilE [elim!]: "guarded_calls [] cs"
inductive_cases guarded_calls_consE: "guarded_calls (x # xs) cs"

lemma guarded_calls_length: "guarded_calls xs cs \<Longrightarrow> length cs \<le> length xs"
  by (induction rule: guarded_calls.induct) auto

lemma close_retired_reference_journal:
  assumes "close_retired_reference (journaled c) token x remaining ambiguous (r, w, l) =
      (e, remaining', ambiguous', r', w', l')"
  shows "\<exists>cs. l' = l @ cs \<and> (cs = [] \<or> (\<exists>call. cs = [call] \<and> guarded_call x call))"
proof (cases "reused (wa_handles r (fst x)) (snd x) \<or> generation_is_ambiguous r (fst x) (snd x)")
  case True
  with assms show ?thesis
    by (auto simp: close_retired_reference_def Let_def mark_retired_ambiguous_def split: prod.splits if_splits)
next
  case False
  then have "guarded_call x (fst x, wa_handles r (fst x), wa_ambiguous r (fst x))"
    by (simp add: guarded_call_def generation_is_ambiguous_def)
  moreover from False assms have "l' = l @ [(fst x, wa_handles r (fst x), wa_ambiguous r (fst x))]"
    by (auto simp: close_retired_reference_def journaled_def Let_def split: prod.splits if_splits)
  ultimately show ?thesis by blast
qed

lemma close_references_journal:
  assumes "close_references (journaled c) token xs remaining ambiguous err (r, w, l) = (e, r', w', l')"
  shows "\<exists>cs. l' = l @ cs \<and> guarded_calls xs cs"
  using assms
proof (induction xs arbitrary: remaining ambiguous err r w l)
  case Nil
  then show ?case using calls_none by auto
next
  case (Cons x xs)
  obtain e1 re1 am1 r1 w1 l1 where one:
    "close_retired_reference (journaled c) token x remaining ambiguous (r, w, l) = (e1, re1, am1, r1, w1, l1)"
    by (metis prod_cases6)
  with Cons.prems have rest:
    "close_references (journaled c) token xs re1 am1 (first_error err e1) (r1, w1, l1) = (e, r', w', l')"
    by simp
  from Cons.IH [OF rest] obtain cs where cs: "l' = l1 @ cs" "guarded_calls xs cs" by blast
  from close_retired_reference_journal [OF one] cs show ?case
    using calls_skip [OF cs(2), of x] calls_close [OF _ cs(2), of x] by auto
qed

lemma close_retired_journal:
  assumes "close_retired (journaled c) token (r, w, l) = (e, r', w', l')"
  shows "\<exists>cs. l' = l @ cs \<and> guarded_calls (rev (lookup_references token (wa_retired r))) cs"
proof (cases "lookup_references token (wa_retired r)")
  case Nil
  with assms show ?thesis using calls_none by (auto simp: close_retired_def Let_def)
next
  case (Cons x xs)
  with assms show ?thesis
    by (intro close_references_journal) (simp add: close_retired_def Let_def)
qed

text \<open>
  C23. A retired number is closed only while it can still belong to the retired generation.  Whatever
  the closer does, even re-enter the registry, a pass over a retired entry asks it to close the entry's
  references in reverse order, each at most once, and each only when the number is unregistered or
  still registered to that generation and the generation's close was never ambiguous.
\<close>

theorem retired_closes_are_guarded:
  assumes "close_retired (journaled c) token (r, w, l) = (e, r', w', l')"
  shows "\<exists>cs. l' = l @ cs \<and> guarded_calls (rev (lookup_references token (wa_retired r))) cs \<and>
     length cs \<le> length (lookup_references token (wa_retired r))"
  using close_retired_journal [OF assms] guarded_calls_length by fastforce

section \<open>Closers\<close>

text \<open>The interface of a closer that leaves the registry alone, and of one that always succeeds.\<close>

locale keeping_closer =
  fixes closer :: "('e, 'w) raw_closer"
  assumes keeps_registry: "fst (snd (closer h (r, w))) = r"
begin

lemma closer_keeps: "closer h (r, w) = (out, r', w') \<Longrightarrow> r' = r"
  using keeps_registry [of h r w] by simp

end

locale working_closer = keeping_closer +
  assumes works: "fst (closer h (r, w)) = outcome_of CsClosed None"

interpretation native: keeping_closer "native_closer nt" for nt
  by unfold_locales (simp add: native_closer_def split: prod.splits)

text \<open>Off Windows there is nothing to close.\<close>

interpretation offline: working_closer "native_closer (nt\<lparr>nt_host := False\<rparr>)" for nt
  by unfold_locales (simp add: native_closer_def attempt_close_raw_handle_def)

definition reference_key :: "raw_reference \<Rightarrow> int \<times> nat" where
  "reference_key x = (fst x, gen_id (snd x))"

lemma same_reference_key: "same_reference x y \<longleftrightarrow> reference_key x = reference_key y"
  by (auto simp: same_reference_def reference_key_def same_generation_def)

lemma remove_reference_keys:
  "map reference_key (remove_reference x ys) = remove1 (reference_key x) (map reference_key ys)"
  by (induction ys) (auto simp: same_reference_key)

lemma publish_retired_fields [simp]:
  "wa_pending (publish_retired t re am r) = wa_pending r" "wa_handles (publish_retired t re am r) = wa_handles r"
  "AList.delete t (wa_retired (publish_retired t re am r)) = AList.delete t (wa_retired r)"
  by (simp_all add: publish_retired_def AList.delete_update_same AList.delete_idem)

lemma record_ambiguous_fields [simp]:
  "wa_retired (record_ambiguous h g r) = wa_retired r" "wa_pending (record_ambiguous h g r) = wa_pending r"
  "wa_handles (record_ambiguous h g r) = wa_handles r"
  by (simp_all add: record_ambiguous_def)

context working_closer begin

text \<open>A reference is settled by one visit.\<close>

lemma reference_settled:
  assumes "close_retired_reference closer token x remaining ambiguous (r, w) = (e, remaining', ambiguous', r', w')"
  shows "e = None \<and> remaining' = remove_reference x remaining \<and> wa_pending r' = wa_pending r \<and>
     AList.delete token (wa_retired r') = AList.delete token (wa_retired r) \<and>
     (remaining' = [] \<longrightarrow> wa_retired r' = AList.delete token (wa_retired r))"
proof -
  have out: "fst (closer (fst x) (r, w)) = \<lparr>co_state = CsClosed, co_error = None\<rparr>"
    using works [of "fst x" r w] by (simp add: outcome_of_def)
  obtain w1 where c: "closer (fst x) (r, w) = (\<lparr>co_state = CsClosed, co_error = None\<rparr>, r, w1)"
    using out closer_keeps by (metis prod.collapse)
  have ret: "wa_retired (publish_retired token [] am rx) = AList.delete token (wa_retired rx)" for am rx
    by (simp add: publish_retired_def)
  show ?thesis
    using assms c
    by (auto simp: close_retired_reference_def Let_def mark_retired_ambiguous_def apply_retired_outcome_def ret
        split: prod.splits if_splits)
qed

lemma references_settled:
  assumes "close_references closer token xs remaining ambiguous err (r, w) = (e, r', w')"
    and "mset (map reference_key remaining) = mset (map reference_key xs)" and "xs \<noteq> []"
  shows "e = err \<and> wa_pending r' = wa_pending r \<and> wa_retired r' = AList.delete token (wa_retired r)"
  using assms
proof (induction xs arbitrary: remaining ambiguous err r w)
  case (Cons x xs)
  obtain e1 re1 am1 r1 w1 where one:
    "close_retired_reference closer token x remaining ambiguous (r, w) = (e1, re1, am1, r1, w1)"
    by (metis prod_cases5)
  note settled = reference_settled [OF one]
  have rest: "close_references closer token xs re1 am1 (first_error err e1) (r1, w1) = (e, r', w')"
    using Cons.prems(1) one by simp
  have keys: "mset (map reference_key re1) = mset (map reference_key xs)"
    using settled Cons.prems(2) by (simp add: remove_reference_keys)
  have err: "first_error err e1 = err" using settled by (cases err) simp_all
  show ?case
  proof (cases "xs = []")
    case True
    with keys have "re1 = []" by simp
    with True rest settled err show ?thesis by auto
  next
    case False
    from Cons.IH [OF rest keys False] settled err show ?thesis by simp
  qed
qed simp

lemma retired_settled:
  assumes "close_retired closer token (r, w) = (e, r', w')"
  shows "e = None \<and> wa_pending r' = wa_pending r \<and> wa_retired r' = AList.delete token (wa_retired r)"
proof (cases "lookup_references token (wa_retired r)")
  case Nil
  with assms show ?thesis by (auto simp: close_retired_def Let_def)
next
  case (Cons x xs)
  let ?xs = "lookup_references token (wa_retired r)"
  from Cons assms have "close_references closer token (rev ?xs) ?xs
      (lookup_references token (wa_ambiguous_retired r)) None (r, w) = (e, r', w')"
    by (simp add: close_retired_def Let_def)
  then show ?thesis by (rule references_settled) (simp_all add: Cons)
qed

lemma tokens_settled:
  assumes "reconcile_tokens closer ts err (r, w) = (e, r', w')"
  shows "e = err \<and> wa_pending r' = wa_pending r \<and> wa_retired r' = fold AList.delete ts (wa_retired r)"
  using assms
proof (induction ts arbitrary: err r w)
  case (Cons t ts)
  obtain e1 r1 w1 where one: "close_retired closer t (r, w) = (e1, r1, w1)" by (metis prod_cases3)
  note settled = retired_settled [OF one]
  have err: "first_error err e1 = err" using settled by (cases err) simp_all
  with Cons.prems one have "reconcile_tokens closer ts err (r1, w1) = (e, r', w')" by simp
  from Cons.IH [OF this] settled show ?case by simp
qed simp

end

lemma fold_delete_keys: "fst ` set (fold AList.delete ts al) = fst ` set al - set ts"
  by (induction ts arbitrary: al) (auto simp: AList.delete_eq image_iff)

lemma fold_delete_all: "fold AList.delete (map fst al) al = []"
proof -
  have "fst ` set (fold AList.delete (map fst al) al) = {}" unfolding fold_delete_keys by simp
  then show ?thesis by simp
qed

lemma retain_obsolete_pending [simp]: "wa_pending (retain_obsolete t token r) = wa_pending r"
  by (simp add: retain_obsolete_def remove_superseded_def Let_def)

lemma complete_transition_pending: "wa_pending (complete_transition token r) = AList.delete token (wa_pending r)"
proof (cases "map_of (wa_pending r) token")
  case None
  then have "token \<notin> fst ` set (wa_pending r)" by (simp add: map_of_eq_None_iff)
  with None show ?thesis by (simp add: complete_transition_def)
next
  case (Some t)
  then show ?thesis by (simp add: complete_transition_def Let_def)
qed

lemma reconcile_pending_drains: "wa_pending (reconcile_pending r) = []"
proof -
  have "wa_pending (fold complete_transition ts r) = fold AList.delete ts (wa_pending r)" for ts
    by (induction ts arbitrary: r) (simp_all add: complete_transition_pending)
  then show ?thesis by (simp add: reconcile_pending_def fold_delete_all)
qed

context working_closer begin

lemma reconcile_settles:
  assumes "reconcile closer (r, w) = (e, r', w')"
  shows "e = None \<and> wa_pending r' = [] \<and> wa_retired r' = []"
  using assms tokens_settled [of "map fst (wa_retired (reconcile_pending r))" None "reconcile_pending r" w e r' w']
  by (auto simp: reconcile_def Let_def reconcile_pending_drains fold_delete_all)

end


section \<open>Claims forget nothing\<close>

text \<open>The references the registry still owes a close: retired ones, and the ancestors of the
  generations a pending transition makes obsolete.\<close>

definition references_of :: "(nat \<times> raw_reference list) list \<Rightarrow> raw_reference list" where
  "references_of entries = concat (map snd entries)"

definition pending_references :: "(nat \<times> generation_transition) list \<Rightarrow> raw_reference list" where
  "pending_references pending = concat (map (\<lambda>(_, t). concat (map gen_ancestors (gt_obsolete t))) pending)"

definition owed :: "registry \<Rightarrow> (int \<times> nat) set" where
  "owed r = reference_key ` set (references_of (wa_retired r)) \<union>
     reference_key ` set (pending_references (wa_pending r))"

lemma retain_new_keys:
  "reference_key ` set (retain_new recorded retained xs) \<union> reference_key ` set recorded =
     reference_key ` set retained \<union> reference_key ` set recorded \<union> reference_key ` set xs"
  by (induction xs arbitrary: retained) (auto simp: same_reference_key list_ex_iff)

lemma update_references:
  "token \<notin> fst ` set entries \<Longrightarrow> set (references_of (AList.update token xs entries)) =
     set xs \<union> set (references_of entries)"
  by (induction entries) (auto simp: references_of_def)

text \<open>The consistency of the registry: tokens and generations are those handed out so far, no retired
  entry is empty.\<close>

fun known :: "nat \<Rightarrow> generation \<Rightarrow> bool" where
  "known n (Generation i xs) \<longleftrightarrow> i < n \<and> (\<forall>x \<in> set xs. known n (snd x))"

abbreviation known_references :: "nat \<Rightarrow> raw_reference list \<Rightarrow> bool" where
  "known_references n xs \<equiv> list_all (known n \<circ> snd) xs"

definition store_ok :: "nat \<Rightarrow> nat \<Rightarrow> (nat \<times> raw_reference list) list \<Rightarrow> bool" where
  "store_ok n t entries \<longleftrightarrow> distinct (map fst entries) \<and>
     list_all (\<lambda>(token, xs). token < t \<and> xs \<noteq> [] \<and> known_references n xs) entries"

definition authority_ok :: "nat \<Rightarrow> (int \<Rightarrow> generation option) \<Rightarrow> bool" where
  "authority_ok n m \<longleftrightarrow> (\<forall>h g. m h = Some g \<longrightarrow> known n g)"

definition transition_ok :: "nat \<Rightarrow> generation_transition \<Rightarrow> bool" where
  "transition_ok n t \<longleftrightarrow> known n (gt_current t) \<and> list_all (known n) (gt_obsolete t)"

definition registry_ok :: "registry \<Rightarrow> bool" where
  "registry_ok r \<longleftrightarrow>
     authority_ok (wa_next_generation r) (wa_handles r) \<and> authority_ok (wa_next_generation r) (wa_descriptors r) \<and>
     store_ok (wa_next_generation r) (wa_next_token r) (wa_retired r) \<and>
     store_ok (wa_next_generation r) (wa_next_token r) (wa_ambiguous_retired r) \<and>
     distinct (map fst (wa_pending r)) \<and>
     list_all (\<lambda>(token, t). token < wa_next_token r \<and> transition_ok (wa_next_generation r) t) (wa_pending r)"

lemma registry_okD:
  assumes "registry_ok r"
  shows "authority_of a r n = Some g \<Longrightarrow> known (wa_next_generation r) g"
    "store_ok (wa_next_generation r) (wa_next_token r) (wa_retired r)"
    "wa_next_token r \<notin> fst ` set (wa_retired r)" "wa_next_token r \<notin> fst ` set (wa_pending r)"
  using assms
  by (cases a; fastforce simp: registry_ok_def authority_ok_def store_ok_def list_all_iff)+

lemma known_id: "known n g \<Longrightarrow> gen_id g < n"
  by (cases g) simp

lemma unique_from_first: "x \<in> set unique \<Longrightarrow> x \<in> set (unique_from unique gs)"
  by (induction unique gs rule: unique_from.induct) auto

lemma unique_generations_head: "g \<in> set (unique_generations (g # gs))"
  using unique_from_first [of g "[g]"] by (simp add: unique_generations_def)

lemma retain_obsolete_keeps:
  assumes "token \<notin> fst ` set (wa_retired r)" "\<forall>x \<in> set (gt_superseded t). fst x = n"
    and "k \<in> reference_key ` set (references_of (wa_retired r)) \<or>
      (\<exists>g \<in> set (gt_obsolete t). k \<in> reference_key ` set (gen_ancestors g))"
    and "gt_superseded t = [] \<or> fst k \<noteq> n"
  shows "k \<in> reference_key ` set (references_of (wa_retired (retain_obsolete t token r)))"
proof -
  let ?kept = "transition_retired_references t token r"
  let ?r = "if ?kept \<noteq> [] then r\<lparr>wa_retired := AList.update token ?kept (wa_retired r)\<rparr> else r"
  have "filter (\<lambda>(owner, _). owner \<noteq> token) (wa_retired r) = wa_retired r"
    using assms(1) by (force simp: filter_id_conv)
  then have "reference_key ` set ?kept \<union> reference_key ` set (references_of (wa_retired r)) =
      reference_key ` set (references_of (wa_retired r)) \<union>
      reference_key ` set (concat (map gen_ancestors (gt_obsolete t)))"
    using retain_new_keys [of "references_of (wa_retired r)" "[]"]
    by (simp add: transition_retired_references_def references_of_def)
  moreover have "set (references_of (wa_retired ?r)) = set ?kept \<union> set (references_of (wa_retired r))"
    using update_references [OF assms(1)] by simp
  ultimately have "k \<in> reference_key ` set (references_of (wa_retired ?r))"
    using assms(3) by (auto simp: image_Un)
  then obtain x where x: "x \<in> set (references_of (wa_retired ?r))" "k = reference_key x" by blast
  then obtain e xs where e: "(e, xs) \<in> set (wa_retired ?r)" "x \<in> set xs" by (auto simp: references_of_def)
  have spared: "\<not> list_ex (same_reference x) (gt_superseded t)"
    using assms(2,4) x(2) by (auto simp: list_ex_iff same_reference_key reference_key_def)
  have "x \<in> set (filter (\<lambda>x. \<not> list_ex (same_reference x) (gt_superseded t)) xs)" using e(2) spared by simp
  moreover from this have "filter (\<lambda>x. \<not> list_ex (same_reference x) (gt_superseded t)) xs \<noteq> []" by fastforce
  moreover from this e(1) have "(e, filter (\<lambda>x. \<not> list_ex (same_reference x) (gt_superseded t)) xs) \<in>
      set (wa_retired (remove_superseded (gt_superseded t) ?r))"
    by (auto simp: remove_superseded_def image_iff intro!: bexI [of _ "(e, xs)"])
  ultimately have "x \<in> set (references_of (wa_retired (remove_superseded (gt_superseded t) ?r)))"
    unfolding references_of_def by (simp only: set_concat set_map) force
  with x(2) show ?thesis by (simp add: retain_obsolete_def Let_def)
qed

text \<open>What a claim may drop: references to the very handle number it takes over.\<close>

definition taken_over :: "authority \<Rightarrow> int \<Rightarrow> int \<times> nat \<Rightarrow> bool" where
  "taken_over a n k \<longleftrightarrow> a = AuthHandles \<and> fst k = n"

lemma superseded_for_numbers: "x \<in> set (superseded_for a n current r) \<Longrightarrow> a = AuthHandles \<and> fst x = n"
  by (auto simp: superseded_for_def superseded_references_def split: if_splits)

lemma authority_fields [simp]:
  "wa_retired (set_authority a n g r) = wa_retired r" "wa_pending (set_authority a n g r) = wa_pending r"
  "authority_of a (set_authority a n g r) n = g" "wa_next_token (set_authority a n g r) = wa_next_token r"
  "wa_next_generation (set_authority a n g r) = wa_next_generation r"
  "wa_ambiguous (set_authority a n g r) = wa_ambiguous r"
  by (cases a; simp)+

lemma retain_failed_keeps:
  assumes "wa_next_token r \<notin> fst ` set (wa_retired r)"
    and "\<forall>x \<in> set discovered. a = AuthHandles \<and> fst x = n" and "\<not> taken_over a n k"
    and "k \<in> owed r \<or> (\<exists>g. stale = Some g \<and> k \<in> reference_key ` set (gen_ancestors g))"
  shows "k \<in> owed (retain_failed_registration a n current stale discovered r)"
proof -
  let ?sup = "if discovered = [] then superseded_for a n current r else discovered"
  let ?t = "claim_transition a n current stale ?sup"
  let ?r = "r\<lparr>wa_next_token := Suc (wa_next_token r)\<rparr>"
  have all: "a = AuthHandles \<and> fst x = n" if "x \<in> set ?sup" for x
    using that assms(2) superseded_for_numbers [of x a n current r] by (simp split: if_splits)
  then have sup: "\<forall>x \<in> set ?sup. fst x = n" by blast
  have none: "?sup = [] \<or> fst k \<noteq> n"
  proof (cases a)
    case AuthHandles
    with assms(3) show ?thesis by (simp add: taken_over_def)
  next
    case AuthDescriptors
    then have "x \<notin> set ?sup" for x using all [of x] by auto
    then have "?sup = []" by (metis list.set_intros(1) neq_Nil_conv)
    then show ?thesis by blast
  qed
  have result: "wa_retired (retain_failed_registration a n current stale discovered r) =
      wa_retired (retain_obsolete ?t (wa_next_token r) ?r)"
    "wa_pending (retain_failed_registration a n current stale discovered r) = wa_pending r"
    by (simp_all only: retain_failed_registration_def new_token_def Let_def prod.case authority_fields
        retain_obsolete_pending) simp
  consider "k \<in> reference_key ` set (references_of (wa_retired r))"
    | "k \<in> reference_key ` set (pending_references (wa_pending r))"
    | g where "stale = Some g" "k \<in> reference_key ` set (gen_ancestors g)"
    using assms(4) unfolding owed_def by blast
  then show ?thesis
  proof cases
    case 2
    then show ?thesis unfolding owed_def result by blast
  next
    case 1
    have "k \<in> reference_key ` set (references_of (wa_retired (retain_obsolete ?t (wa_next_token r) ?r)))"
      using assms(1) sup none 1 by (intro retain_obsolete_keeps) (auto simp: claim_transition_def)
    then show ?thesis unfolding owed_def result by blast
  next
    case (3 g)
    have "g \<in> set (gt_obsolete ?t)"
      using 3(1) unique_generations_head by (simp add: claim_transition_def)
    then have "k \<in> reference_key ` set (references_of (wa_retired (retain_obsolete ?t (wa_next_token r) ?r)))"
      using assms(1) sup none 3(2) by (intro retain_obsolete_keeps) (auto simp: claim_transition_def)
    then show ?thesis unfolding owed_def result by blast
  qed
qed

lemma owed_set_authority [simp]: "owed (set_authority a n g r) = owed r"
  by (simp add: owed_def)

lemma same_generation_refl [simp]: "holds_generation (Some g) g"
  by (simp add: holds_generation_def same_generation_def)

lemma retain_failed_authority:
  "authority_of a (retain_failed_registration a n current stale discovered r) n = Some current"
  by (cases a) (simp_all add: retain_failed_registration_def Let_def new_token_def)

text \<open>A generation published over the pending transition that replaces the stale one.\<close>

lemma update_fresh: "k \<notin> fst ` set al \<Longrightarrow> set (AList.update k v al) = insert (k, v) (set al)"
  by (induction al) auto

lemma pending_keeps:
  assumes "wa_next_token r \<notin> fst ` set (wa_pending r)"
    and "k \<in> owed r \<or> (\<exists>g. stale = Some g \<and> k \<in> reference_key ` set (gen_ancestors g))"
  shows "k \<in> owed (r\<lparr>wa_next_token := Suc (wa_next_token r),
     wa_pending := AList.update (wa_next_token r) (claim_transition a n current stale sp) (wa_pending r)\<rparr>)"
proof -
  have "g \<in> set (gt_obsolete (claim_transition a n current (Some g) sp))" for g
    using unique_generations_head by (simp add: claim_transition_def)
  then have "set (gen_ancestors g) \<subseteq> set (pending_references
      (AList.update (wa_next_token r) (claim_transition a n current (Some g) sp) (wa_pending r)))" for g
    by (auto simp: pending_references_def update_fresh [OF assms(1)])
  moreover have "set (pending_references (wa_pending r)) \<subseteq> set (pending_references
      (AList.update (wa_next_token r) (claim_transition a n current stale sp) (wa_pending r)))"
    by (auto simp: pending_references_def update_fresh [OF assms(1)])
  ultimately show ?thesis using assms(2) by (fastforce simp: owed_def)
qed

lemma publish_claim_owed [simp]: "owed (publish_claim a n current r) = owed r"
  by (simp add: publish_claim_def)

lemma publish_claim_authority: "holds_generation (authority_of a (publish_claim a n current r) n) current"
  by (simp add: publish_claim_def)

definition tokens_fresh :: "registry \<Rightarrow> bool" where
  "tokens_fresh r \<longleftrightarrow> (\<forall>t \<in> fst ` set (wa_retired r) \<union> fst ` set (wa_pending r). t < wa_next_token r)"

lemma registry_tokens_fresh: "registry_ok r \<Longrightarrow> tokens_fresh r"
  by (fastforce simp: registry_ok_def store_ok_def tokens_fresh_def list_all_iff)

lemma tokens_freshD:
  assumes "tokens_fresh r" "wa_next_token r \<le> t"
  shows "t \<notin> fst ` set (wa_retired r)" "t \<notin> fst ` set (wa_pending r)"
  using assms by (auto simp: tokens_fresh_def not_less [symmetric])

text \<open>An interrupted registration, by the place of the interrupt.\<close>

lemma register_interrupted:
  assumes "register closer (Some i) a n current stale (r, w) = (res, r', w')"
    and "i \<notin> {BeforeGeneration, BeforeStale}"
  shows "res = Inl None \<and> w' = w"
    "i = BeforeSuperseded \<Longrightarrow> r' = retain_failed_registration a n current stale [] r"
    "i = BeforeTransition \<Longrightarrow> r' = retain_failed_registration a n current stale (superseded_for a n current r) r"
    "i = BeforePublish \<Longrightarrow> r' = r\<lparr>wa_next_token := Suc (wa_next_token r),
       wa_pending := AList.update (wa_next_token r) (claim_transition a n current stale (superseded_for a n current r))
         (wa_pending r)\<rparr>"
    "i \<in> {DuringPublish, BeforeCompletion} \<Longrightarrow> holds_generation (authority_of a r' n) current \<and>
       owed r' = owed (r\<lparr>wa_next_token := Suc (wa_next_token r),
         wa_pending := AList.update (wa_next_token r) (claim_transition a n current stale (superseded_for a n current r))
           (wa_pending r)\<rparr>)"
  using assms publish_claim_authority
  by (cases i; auto simp: register_def Let_def new_token_def)+

lemma register_interrupted_keeps:
  assumes "register closer (Some i) a n current stale (r, w) = (res, r', w')"
    and "i \<notin> {BeforeGeneration, BeforeStale}" "tokens_fresh r" "\<not> taken_over a n k"
    and "k \<in> owed r \<or> (\<exists>g. stale = Some g \<and> k \<in> reference_key ` set (gen_ancestors g))"
  shows "k \<in> owed r'"
proof -
  note i = register_interrupted [OF assms(1,2)]
  note fresh = tokens_freshD [OF assms(3) order_refl]
  have numbers: "\<forall>x \<in> set (superseded_for a n current r). a = AuthHandles \<and> fst x = n"
    using superseded_for_numbers by blast
  show ?thesis
  proof (cases i)
    case BeforeSuperseded
    with i(2) retain_failed_keeps [OF fresh(1) _ assms(4,5), of "[]"] show ?thesis by simp
  next
    case BeforeTransition
    with i(3) retain_failed_keeps [OF fresh(1) numbers assms(4,5)] show ?thesis by simp
  next
    case BeforePublish
    with i(4) pending_keeps [OF fresh(2) assms(5)] show ?thesis by simp
  next
    case DuringPublish
    with i(5) pending_keeps [OF fresh(2) assms(5)] show ?thesis by simp
  next
    case BeforeCompletion
    with i(5) pending_keeps [OF fresh(2) assms(5)] show ?thesis by simp
  qed (use assms(2) in simp_all)
qed

lemma holds_known:
  assumes "registry_ok r" "authority_of a r n = x"
  shows "\<not> holds_generation x (Generation (wa_next_generation r) ancestors)"
  using assms registry_okD(1) [OF assms(1)] known_id
  by (cases x) (fastforce simp: holds_generation_def same_generation_def)+

lemma new_generation_fields [simp]:
  "new_generation anc r = (Generation (wa_next_generation r) anc, r\<lparr>wa_next_generation := Suc (wa_next_generation r)\<rparr>)"
  "authority_of a (r\<lparr>wa_next_generation := m\<rparr>) n = authority_of a r n"
  "owed (r\<lparr>wa_next_generation := m\<rparr>) = owed r" "tokens_fresh (r\<lparr>wa_next_generation := m\<rparr>) = tokens_fresh r"
  by (cases a; simp add: new_generation_def owed_def tokens_fresh_def)+

text \<open>The references a claim must not lose.\<close>

definition claim_obligations :: "authority \<Rightarrow> int \<Rightarrow> registry \<Rightarrow> (int \<times> nat) set" where
  "claim_obligations a n r =
     {k. \<not> taken_over a n k \<and> (k \<in> owed r \<or>
        (\<exists>g. authority_of a r n = Some g \<and> k \<in> reference_key ` set (gen_ancestors g)))}"

text \<open>
  C25. An interrupted claim forgets nothing.  Wherever an asynchronous exception strikes a claim, the
  number ends up owned by the new generation, no close has been attempted, and every reference that was
  owed a close, or that the replaced generation kept open, is still owed one, except references to the
  very handle number that has been taken over.
\<close>

theorem interrupted_claim_forgets_nothing:
  assumes "registry_ok r" and "claim closer (Some i) a n ancestors (r, w) = (res, r', w')"
  shows "res = Inl None \<and> w' = w \<and>
     holds_generation (authority_of a r' n) (Generation (wa_next_generation r) ancestors) \<and>
     claim_obligations a n r \<subseteq> owed r'"
proof -
  let ?g = "Generation (wa_next_generation r) ancestors"
  let ?r = "r\<lparr>wa_next_generation := Suc (wa_next_generation r)\<rparr>"
  let ?stale = "authority_of a r n"
  note live = holds_known [OF assms(1) refl, of a n ancestors]
  have fresh: "tokens_fresh ?r" using registry_tokens_fresh [OF assms(1)] by simp
  show ?thesis
  proof (cases "i \<in> {BeforeGeneration, BeforeStale}")
    case True
    with assms(2) live have r': "r' = retain_failed_registration a n ?g ?stale [] ?r" "w' = w" "res = Inl None"
      by (auto simp: claim_def Let_def split: option.splits)
    from retain_failed_keeps [OF tokens_freshD(1) [OF fresh order_refl], of "[]" a n _ ?stale ?g]
      retain_failed_authority r' show ?thesis
      by (auto simp: claim_obligations_def)
  next
    case False
    obtain res1 r1 w1 where reg: "register closer (Some i) a n ?g ?stale (?r, w) = (res1, r1, w1)"
      by (metis prod_cases3)
    note ri = register_interrupted [OF reg False]
    have kept: "claim_obligations a n r \<subseteq> owed r1"
      using register_interrupted_keeps [OF reg False fresh] by (auto simp: claim_obligations_def)
    show ?thesis
    proof (cases "i = BeforePublish")
      case True
      note r1 = ri(4) [OF True]
      have stale: "authority_of a r1 n = ?stale" unfolding r1 by (cases a) simp_all
      have "\<not> holds_generation (authority_of a r1 n) ?g" using live stale by simp
      with assms(2) reg ri(1) False have r': "r' = retain_failed_registration a n ?g ?stale [] r1" "w' = w" "res = Inl None"
        unfolding claim_def by (auto simp: Let_def stale split: option.splits)
      have unused: "wa_next_token r1 \<notin> fst ` set (wa_retired r1)"
        using tokens_freshD(1) [OF fresh, of "Suc (wa_next_token r)"] unfolding r1 by simp
      have "k \<in> owed (retain_failed_registration a n ?g ?stale [] r1)" if "\<not> taken_over a n k" "k \<in> owed r1" for k
        using retain_failed_keeps [OF unused, of "[]" a n k ?stale ?g] that by simp
      moreover have "\<not> taken_over a n k" if "k \<in> claim_obligations a n r" for k
        using that by (simp add: claim_obligations_def)
      ultimately have "claim_obligations a n r \<subseteq> owed r'" unfolding r'(1) using kept by blast
      with r' retain_failed_authority show ?thesis by simp
    next
      case nb: False
      have "holds_generation (authority_of a r1 n) ?g"
        using ri False nb by (cases i) (auto simp: retain_failed_authority)
      with assms(2) reg ri(1) False kept show ?thesis by (auto simp: claim_def Let_def)
    qed
  qed
qed

section \<open>The registry stays consistent\<close>

lemma known_mono: "known n g \<Longrightarrow> n \<le> m \<Longrightarrow> known m g"
  by (induction n g rule: known.induct) auto

lemma known_references_mono: "known_references n xs \<Longrightarrow> n \<le> m \<Longrightarrow> known_references m xs"
  using known_mono by (auto simp: list_all_iff)

lemma known_ancestors: "known n g \<Longrightarrow> known_references n (gen_ancestors g)"
  by (cases g) (auto simp: list_all_iff)

lemma store_ok_mono: "store_ok n t s \<Longrightarrow> n \<le> n' \<Longrightarrow> t \<le> t' \<Longrightarrow> store_ok n' t' s"
  using known_references_mono by (fastforce simp: store_ok_def list_all_iff)

lemma store_ok_update:
  assumes "store_ok n t s" "token < t" "xs \<noteq> []" "known_references n xs"
  shows "store_ok n t (AList.update token xs s)"
proof -
  have "(k, v) \<in> set s \<or> (k, v) = (token, xs)" if "(k, v) \<in> set (AList.update token xs s)" for k v
    using that by (induction s) (auto split: if_splits)
  with assms show ?thesis
    by (fastforce simp: store_ok_def list_all_iff intro: AList.distinct_update)
qed

lemma store_ok_delete: "store_ok n t s \<Longrightarrow> store_ok n t (AList.delete token s)"
  using AList.distinct_delete by (fastforce simp: store_ok_def list_all_iff AList.delete_eq)

lemma store_ok_lookup:
  assumes "store_ok n t s" shows "known_references n (lookup_references token s)"
    "lookup_references token s \<noteq> [] \<Longrightarrow> token < t"
  using assms
  by (fastforce simp: store_ok_def lookup_references_def list_all_iff split: option.splits dest: map_of_SomeD)+

text \<open>The part of \<open>registry_ok\<close> a pass over retired entries can change.\<close>

definition same_counters :: "registry \<Rightarrow> registry \<Rightarrow> bool" where
  "same_counters r r' \<longleftrightarrow> wa_next_generation r' = wa_next_generation r \<and> wa_next_token r' = wa_next_token r"

lemma publish_retired_ok:
  assumes "registry_ok r" "token < wa_next_token r" "known_references (wa_next_generation r) remaining"
    "known_references (wa_next_generation r) ambiguous"
  shows "registry_ok (publish_retired token remaining ambiguous r)"
  using assms store_ok_update store_ok_delete by (auto simp: registry_ok_def publish_retired_def)

lemma record_ambiguous_ok: "registry_ok r \<Longrightarrow> registry_ok (record_ambiguous h g r)"
  by (simp add: registry_ok_def record_ambiguous_def)

lemma set_authority_ok:
  assumes "registry_ok r" "\<And>x. g = Some x \<Longrightarrow> known (wa_next_generation r) x"
  shows "registry_ok (set_authority a n g r)"
  using assms by (cases a) (auto simp: registry_ok_def authority_ok_def)

lemma remove_reference_known: "known_references n xs \<Longrightarrow> known_references n (remove_reference x xs)"
  by (induction xs) (auto split: if_splits)

context keeping_closer begin

lemma reference_ok:
  assumes "close_retired_reference closer token x remaining ambiguous (r, w) = (e, remaining', ambiguous', r', w')"
    and "registry_ok r" "token < wa_next_token r" "known (wa_next_generation r) (snd x)"
    and "known_references (wa_next_generation r) remaining" "known_references (wa_next_generation r) ambiguous"
  shows "registry_ok r' \<and> same_counters r r' \<and> known_references (wa_next_generation r) remaining' \<and>
     known_references (wa_next_generation r) ambiguous'"
proof -
  obtain out w1 where c: "closer (fst x) (r, w) = (out, r, w1)"
    using closer_keeps by (metis prod_cases3)
  let ?rec = "record_ambiguous (fst x) (snd x) r" and ?del = "set_authority AuthHandles (fst x) None r"
  have ok: "registry_ok ?rec" "registry_ok ?del"
    using record_ambiguous_ok [OF assms(2)] set_authority_ok [OF assms(2), of None] by blast+
  have counters: "same_counters r r" "same_counters r ?rec" "same_counters r ?del"
    by (simp_all add: same_counters_def record_ambiguous_def)
  have known: "known_references (wa_next_generation r) (remove_reference x remaining)"
    "known_references (wa_next_generation r) (ambiguous @ [x])"
    using assms(4-6) remove_reference_known by auto
  have "\<exists>r2 \<in> {r, ?rec, ?del}. r' = publish_retired token remaining' ambiguous' r2 \<and>
      remaining' \<in> {remaining, remove_reference x remaining} \<and> ambiguous' \<in> {ambiguous, ambiguous @ [x]}"
    using assms(1) c
    by (auto simp: close_retired_reference_def Let_def mark_retired_ambiguous_def apply_retired_outcome_def
        split: prod.splits if_splits close_state.splits)
  then obtain r2 where r2: "r' = publish_retired token remaining' ambiguous' r2" "registry_ok r2" "same_counters r r2"
    and known': "known_references (wa_next_generation r) remaining'" "known_references (wa_next_generation r) ambiguous'"
    using ok counters known assms(2,5,6) by blast
  then show ?thesis
    using publish_retired_ok [OF r2(2), of token remaining' ambiguous'] assms(3)
    by (simp add: same_counters_def publish_retired_def)
qed

lemma references_ok:
  assumes "close_references closer token xs remaining ambiguous err (r, w) = (e, r', w')"
    and "registry_ok r" "token < wa_next_token r" "known_references (wa_next_generation r) xs"
    and "known_references (wa_next_generation r) remaining" "known_references (wa_next_generation r) ambiguous"
  shows "registry_ok r' \<and> same_counters r r'"
  using assms
proof (induction xs arbitrary: remaining ambiguous err r w)
  case (Cons x xs)
  obtain e1 re1 am1 r1 w1 where one:
    "close_retired_reference closer token x remaining ambiguous (r, w) = (e1, re1, am1, r1, w1)"
    by (metis prod_cases5)
  have ok: "registry_ok r1" "same_counters r r1" "known_references (wa_next_generation r) re1"
    "known_references (wa_next_generation r) am1"
    using reference_ok [OF one Cons.prems(2,3) _ Cons.prems(5,6)] Cons.prems(4) by simp_all
  have rest: "close_references closer token xs re1 am1 (first_error err e1) (r1, w1) = (e, r', w')"
    using Cons.prems(1) one by simp
  from Cons.IH [OF rest ok(1)] ok Cons.prems(3,4) show ?case by (simp add: same_counters_def comp_def)
qed (simp add: same_counters_def)

lemma retired_ok:
  assumes "close_retired closer token (r, w) = (e, r', w')" "registry_ok r"
  shows "registry_ok r' \<and> same_counters r r'"
proof (cases "lookup_references token (wa_retired r)")
  case Nil
  with assms store_ok_delete show ?thesis
    by (auto simp: close_retired_def Let_def registry_ok_def same_counters_def)
next
  case (Cons x xs)
  let ?xs = "lookup_references token (wa_retired r)"
  from Cons assms(1) have run: "close_references closer token (rev ?xs) ?xs
      (lookup_references token (wa_ambiguous_retired r)) None (r, w) = (e, r', w')"
    by (simp add: close_retired_def Let_def)
  have store: "store_ok (wa_next_generation r) (wa_next_token r) (wa_retired r)"
    "store_ok (wa_next_generation r) (wa_next_token r) (wa_ambiguous_retired r)"
    using assms(2) by (simp_all add: registry_ok_def)
  note xs = store_ok_lookup [OF store(1), of token] store_ok_lookup(1) [OF store(2), of token]
  show ?thesis
    using references_ok [OF run assms(2)] xs Cons by (simp add: list_all_iff)
qed

lemma tokens_ok:
  assumes "reconcile_tokens closer ts err (r, w) = (e, r', w')" "registry_ok r"
  shows "registry_ok r' \<and> same_counters r r'"
  using assms
proof (induction ts arbitrary: err r w)
  case (Cons t ts)
  obtain e1 r1 w1 where one: "close_retired closer t (r, w) = (e1, r1, w1)" by (metis prod_cases3)
  note ok = retired_ok [OF one Cons.prems(2)]
  with Cons.prems one have "reconcile_tokens closer ts (first_error err e1) (r1, w1) = (e, r', w')" by simp
  from Cons.IH [OF this] ok show ?case by (simp add: same_counters_def)
qed (simp add: same_counters_def)

end

lemma retain_new_known:
  "known_references n retained \<Longrightarrow> known_references n xs \<Longrightarrow> known_references n (retain_new recorded retained xs)"
  by (induction xs arbitrary: retained) auto

lemma remove_superseded_ok:
  assumes "store_ok n t (wa_retired r)" shows "store_ok n t (wa_retired (remove_superseded xs r))"
proof -
  let ?f = "\<lambda>(token, ys). (token, filter (\<lambda>x. \<not> list_ex (same_reference x) xs) ys)"
  let ?s = "filter (\<lambda>(_, ys). ys \<noteq> []) (map ?f (wa_retired r))"
  have keys: "map fst (map ?f (wa_retired r)) = map fst (wa_retired r)" by (simp add: comp_def case_prod_unfold)
  have "distinct (map fst (map ?f (wa_retired r)))" unfolding keys using assms by (simp add: store_ok_def)
  then have keep: "distinct (map fst ?s)" by (rule distinct_map_filter)
  have entry: "token < t \<and> ys \<noteq> [] \<and> known_references n ys" if mem: "(token, ys) \<in> set ?s" for token ys
  proof -
    from mem obtain zs where zs: "(token, zs) \<in> set (wa_retired r)"
      "ys = filter (\<lambda>x. \<not> list_ex (same_reference x) xs) zs" "ys \<noteq> []" by auto
    with assms have "token < t" "known_references n zs" by (auto simp: store_ok_def list_all_iff)
    with zs show ?thesis by (simp add: list_all_iff)
  qed
  have "list_all (\<lambda>(token, ys). token < t \<and> ys \<noteq> [] \<and> known_references n ys) ?s"
    unfolding list_all_iff
  proof (rule ballI, rule case_prodI2)
    fix z token ys assume "z \<in> set ?s" "z = (token, ys)"
    with entry show "token < t \<and> ys \<noteq> [] \<and> (\<forall>x\<in>set ys. (known n \<circ> snd) x)" unfolding list_all_iff by blast
  qed
  with keep show ?thesis unfolding store_ok_def remove_superseded_def by simp
qed

lemma retain_obsolete_ok:
  assumes "registry_ok r" "token < wa_next_token r" "list_all (known (wa_next_generation r)) (gt_obsolete t)"
  shows "registry_ok (retain_obsolete t token r) \<and> same_counters r (retain_obsolete t token r)"
proof -
  let ?kept = "transition_retired_references t token r"
  have "known_references (wa_next_generation r) (concat (map gen_ancestors (gt_obsolete t)))"
    using assms(3) known_ancestors by (fastforce simp: list_all_iff)
  then have kept: "known_references (wa_next_generation r) ?kept"
    by (simp add: transition_retired_references_def retain_new_known)
  let ?r = "if ?kept \<noteq> [] then r\<lparr>wa_retired := AList.update token ?kept (wa_retired r)\<rparr> else r"
  have "store_ok (wa_next_generation r) (wa_next_token r) (wa_retired ?r)"
    using store_ok_update [OF registry_okD(2) [OF assms(1)] assms(2) _ kept] registry_okD(2) [OF assms(1)] by simp
  with remove_superseded_ok have "store_ok (wa_next_generation r) (wa_next_token r)
      (wa_retired (remove_superseded (gt_superseded t) ?r))" by blast
  with assms(1) show ?thesis
    by (cases "?kept = []")
      (simp_all add: retain_obsolete_def Let_def registry_ok_def remove_superseded_def same_counters_def)
qed

lemma pending_ok:
  assumes "registry_ok r" "map_of (wa_pending r) token = Some t"
  shows "token < wa_next_token r" "transition_ok (wa_next_generation r) t"
  using assms map_of_SomeD by (fastforce simp: registry_ok_def list_all_iff)+

lemma complete_transition_ok:
  assumes "registry_ok r"
  shows "registry_ok (complete_transition token r) \<and> same_counters r (complete_transition token r)"
proof (cases "map_of (wa_pending r) token")
  case None
  with assms show ?thesis by (simp add: complete_transition_def same_counters_def)
next
  case (Some t)
  note t = pending_ok [OF assms Some]
  let ?r = "retain_obsolete t token r"
  have r: "registry_ok ?r \<and> same_counters r ?r"
    using retain_obsolete_ok [OF assms t(1)] t(2) by (simp add: transition_ok_def)
  then have "registry_ok (?r\<lparr>wa_pending := AList.delete token (wa_pending ?r)\<rparr>)"
    using AList.distinct_delete by (fastforce simp: registry_ok_def list_all_iff AList.delete_eq)
  with Some r show ?thesis by (simp add: complete_transition_def Let_def same_counters_def)
qed

lemma reconcile_pending_ok:
  assumes "registry_ok r"
  shows "registry_ok (reconcile_pending r) \<and> same_counters r (reconcile_pending r)"
proof -
  have "registry_ok (fold complete_transition ts r) \<and> same_counters r (fold complete_transition ts r)" for ts
    using assms
  proof (induction ts arbitrary: r)
    case (Cons t ts)
    with complete_transition_ok [OF Cons.prems] show ?case by (fastforce simp: same_counters_def)
  qed (simp add: same_counters_def)
  then show ?thesis by (simp add: reconcile_pending_def)
qed

lemma new_token_ok: "registry_ok r \<Longrightarrow> registry_ok (r\<lparr>wa_next_token := Suc (wa_next_token r)\<rparr>)"
  using store_ok_mono [of "wa_next_generation r" "wa_next_token r"]
  by (fastforce simp: registry_ok_def list_all_iff)

lemma new_generation_ok:
  assumes "registry_ok r" "known_references (wa_next_generation r) anc"
  shows "registry_ok (snd (new_generation anc r))" "known (Suc (wa_next_generation r)) (fst (new_generation anc r))"
proof -
  have up: "known (wa_next_generation r) g \<Longrightarrow> known (Suc (wa_next_generation r)) g" for g
    using known_mono by simp
  show "known (Suc (wa_next_generation r)) (fst (new_generation anc r))"
    using assms(2) up by (auto simp: list_all_iff)
  show "registry_ok (snd (new_generation anc r))"
    using assms(1) up store_ok_mono [of "wa_next_generation r" "wa_next_token r"]
    by (auto simp: registry_ok_def authority_ok_def transition_ok_def list_all_iff)
qed

context keeping_closer begin

lemma reconcile_ok:
  assumes "reconcile closer (r, w) = (e, r', w')" "registry_ok r"
  shows "registry_ok r' \<and> same_counters r r'"
proof -
  note p = reconcile_pending_ok [OF assms(2)]
  from assms(1) have "reconcile_tokens closer (map fst (wa_retired (reconcile_pending r))) None (reconcile_pending r, w)
      = (e, r', w')" by (simp add: reconcile_def Let_def)
  from tokens_ok [OF this] p show ?thesis by (simp add: same_counters_def)
qed

lemma retire_current_ok:
  assumes "retire_current closer a n (Some g) (r, w) = (e, r', w')" "registry_ok r" "known (wa_next_generation r) g"
  shows "registry_ok r' \<and> wa_next_generation r' = wa_next_generation r"
proof -
  let ?token = "wa_next_token r"
  let ?r0 = "r\<lparr>wa_next_token := Suc ?token\<rparr>"
  let ?r1 = "?r0\<lparr>wa_retired := AList.update ?token (gen_ancestors g) (wa_retired r)\<rparr>"
  let ?clear = "\<lambda>r. if holds_generation (authority_of a r n) g then set_authority a n None r else r"
  have run: "close_retired closer ?token (?clear ?r1, w) = (e, r', w')"
    using assms(1)
    by (cases "holds_generation (authority_of a ?r1 n) g") (simp_all add: retire_current_def new_token_def Let_def)
  note ok0 = new_token_ok [OF assms(2)]
  show ?thesis
  proof (cases "gen_ancestors g = []")
    case False
    have "registry_ok ?r1"
      using ok0 store_ok_update [of "wa_next_generation r" "Suc ?token" "wa_retired r" ?token "gen_ancestors g"]
        False known_ancestors [OF assms(3)] by (simp add: registry_ok_def)
    then have "registry_ok (?clear ?r1)" using set_authority_ok [of ?r1 None] by simp
    from retired_ok [OF run this] show ?thesis by (simp add: same_counters_def split: if_splits)
  next
    case True
    have "wa_retired (?clear ?r1) = AList.update ?token [] (wa_retired r)" using True by simp
    then have "lookup_references ?token (wa_retired (?clear ?r1)) = []"
      by (simp add: lookup_references_def AList.update_conv')
    with run have r': "r' = (?clear ?r1)\<lparr>wa_retired := AList.delete ?token (wa_retired (?clear ?r1))\<rparr>"
      by (simp add: close_retired_def Let_def)
    have "AList.delete ?token (wa_retired (?clear ?r1)) = wa_retired r"
      using True registry_okD(3) [OF assms(2)] by (simp add: AList.delete_update_same)
    with r' have "r' = ?clear ?r0" by (cases a) simp_all
    then show ?thesis using ok0 set_authority_ok [OF ok0, of None] by simp
  qed
qed

end

section \<open>Steps\<close>

definition keeps_descriptors :: "('e, 'w) descriptor_closer \<Rightarrow> bool" where
  "keeps_descriptors dcloser \<longleftrightarrow> (\<forall>d r w. fst (snd (dcloser d (r, w))) = r)"

text \<open>One operation of the registry, under a given raw closer; \<open>known\<close> references are those the
  registry itself handed out.\<close>

inductive registry_step :: "('e, 'w) raw_closer \<Rightarrow> registry \<times> 'w \<Rightarrow> registry \<times> 'w \<Rightarrow> bool" for closer where
  step_capture: "capture_raw_generations hs r = (refs, r') \<Longrightarrow> registry_step closer (r, w) (r', w)"
| step_claim: "known_references (wa_next_generation r) anc \<Longrightarrow> claim closer i a n anc (r, w) = (res, sys) \<Longrightarrow>
     registry_step closer (r, w) sys"
| step_ensure: "known (wa_next_generation r) g \<Longrightarrow> registry_step closer (r, w) (ensure_authority a n g r, w)"
| step_release: "registry_step closer (r, w) (release_handle_if h g r, w)"
| step_close: "close_raw closer h (r, w) = (e, sys) \<Longrightarrow> registry_step closer (r, w) sys"
| step_descriptor: "keeps_descriptors dcloser \<Longrightarrow> close_descriptor closer dcloser d (r, w) = (e, sys) \<Longrightarrow> registry_step closer (r, w) sys"
| step_reconcile: "reconcile closer (r, w) = (e, sys) \<Longrightarrow> registry_step closer (r, w) sys"

inductive_cases registry_stepE: "registry_step closer (r, w) sys"

lemma capture_ok:
  "capture_raw_generations hs r = (refs, r') \<Longrightarrow> registry_ok r \<Longrightarrow>
     registry_ok r' \<and> wa_next_generation r \<le> wa_next_generation r' \<and> wa_ambiguous r' = wa_ambiguous r"
proof (induction hs arbitrary: r refs)
  case (Cons h hs)
  show ?case
  proof (cases "wa_handles r h")
    case (Some g)
    with Cons show ?thesis by (auto simp: Let_def split: prod.splits)
  next
    case None
    with Cons.prems Cons.IH [of "snd (new_generation [] r)"] new_generation_ok(1) [OF Cons.prems(2), of "[]"]
    show ?thesis by (fastforce simp: Let_def split: prod.splits)
  qed
qed simp

lemma find_in: "find P xs = Some x \<Longrightarrow> x \<in> set xs \<and> P x"
  by (auto simp: find_Some_iff)

lemma current_generation_ok:
  assumes "current_generation a n r = (g, r')" "registry_ok r"
  shows "registry_ok r' \<and> known (wa_next_generation r') g \<and> wa_next_generation r \<le> wa_next_generation r' \<and>
     wa_ambiguous r' = wa_ambiguous r"
proof (cases "pending_generation a n r")
  case (Some p)
  then obtain t where "t \<in> set (map snd (wa_pending r))" "gt_current t = p"
    by (auto simp: pending_generation_def dest!: find_in)
  then have "known (wa_next_generation r) p" using assms(2) by (auto simp: registry_ok_def transition_ok_def list_all_iff)
  with Some assms set_authority_ok [OF assms(2), of "Some p"] show ?thesis
    by (auto simp: current_generation_def split: if_splits)
next
  case none: None
  let ?found = "case authority_of a r n of Some g \<Rightarrow> Some g
      | None \<Rightarrow> if a = AuthHandles then ambiguous_retired_generation r n else None"
  show ?thesis
  proof (cases ?found)
    case (Some x)
    have "known (wa_next_generation r) x"
    proof (cases "authority_of a r n")
      case None
      with Some have "ambiguous_retired_generation r n = Some x" by (simp split: if_splits)
      then obtain ref where "find (\<lambda>y. fst y = n) (concat (map snd (wa_ambiguous_retired r))) = Some ref" "snd ref = x"
        by (auto simp: ambiguous_retired_generation_def)
      then obtain e xs where "(e, xs) \<in> set (wa_ambiguous_retired r)" "ref \<in> set xs" "snd ref = x"
        by (auto dest!: find_in)
      then show ?thesis using assms(2) unfolding registry_ok_def store_ok_def list_all_iff by fastforce
    next
      case (Some y)
      with \<open>?found = Some x\<close> registry_okD(1) [OF assms(2)] show ?thesis by simp
    qed
    with none Some assms show ?thesis by (simp add: current_generation_def)
  next
    case None
    note new = new_generation_ok [OF assms(2), of "[]"]
    with none None assms(1) set_authority_ok [OF new(1), of "Some g" a n] show ?thesis
      by (auto simp: current_generation_def Let_def)
  qed
qed

lemma superseded_known: "registry_ok r \<Longrightarrow> known_references (wa_next_generation r) (superseded_for a n g r)"
  by (fastforce simp: superseded_for_def superseded_references_def registry_ok_def store_ok_def list_all_iff)

lemma unique_from_subset: "set (unique_from unique gs) \<subseteq> set unique \<union> set gs"
  by (induction unique gs rule: unique_from.induct) auto

lemma claim_transition_ok:
  assumes "known n current" "\<And>g. stale = Some g \<Longrightarrow> known n g" "known_references n sp"
  shows "transition_ok n (claim_transition a m current stale sp)"
proof -
  let ?gs = "(case stale of None \<Rightarrow> [] | Some g \<Rightarrow> [g]) @ map snd sp"
  have gs: "known n g" if "g \<in> set ?gs" for g
    using that assms(2,3) by (cases stale) (auto simp: list_all_iff)
  have "g \<in> set ?gs" if "g \<in> set (unique_from [] ?gs)" for g
    using subsetD [OF unique_from_subset that] by (simp only: list.set(1) Un_empty_left)
  with gs have "list_all (known n) (unique_generations ?gs)"
    unfolding unique_generations_def list_all_iff by blast
  with assms(1) show ?thesis by (simp add: transition_ok_def claim_transition_def)
qed

lemma retain_failed_ok:
  assumes "registry_ok r" "known (wa_next_generation r) current"
    "\<And>g. stale = Some g \<Longrightarrow> known (wa_next_generation r) g" "known_references (wa_next_generation r) discovered"
  shows "registry_ok (retain_failed_registration a n current stale discovered r) \<and>
     wa_next_generation (retain_failed_registration a n current stale discovered r) = wa_next_generation r"
proof -
  let ?sp = "if discovered = [] then superseded_for a n current r else discovered"
  let ?t = "claim_transition a n current stale ?sp" and ?r = "r\<lparr>wa_next_token := Suc (wa_next_token r)\<rparr>"
  have t: "transition_ok (wa_next_generation r) ?t"
    using assms superseded_known by (intro claim_transition_ok) auto
  note o = retain_obsolete_ok [OF new_token_ok [OF assms(1)], of "wa_next_token r" ?t]
  from o t have ok: "registry_ok (retain_obsolete ?t (wa_next_token r) ?r)"
    "wa_next_generation (retain_obsolete ?t (wa_next_token r) ?r) = wa_next_generation r"
    by (simp_all add: transition_ok_def same_counters_def)
  have "retain_failed_registration a n current stale discovered r =
      set_authority a n (Some current) (retain_obsolete ?t (wa_next_token r) ?r)"
    by (simp only: retain_failed_registration_def new_token_def Let_def prod.case)
  with set_authority_ok [OF ok(1), of "Some current"] assms(2) ok(2) show ?thesis by simp
qed

lemma pend_ok:
  assumes "registry_ok r" "transition_ok (wa_next_generation r) t"
  shows "registry_ok (r\<lparr>wa_next_token := Suc (wa_next_token r),
     wa_pending := AList.update (wa_next_token r) t (wa_pending r)\<rparr>)"
proof -
  have "set (AList.update (wa_next_token r) t (wa_pending r)) = insert (wa_next_token r, t) (set (wa_pending r))"
    by (rule update_fresh [OF registry_okD(4) [OF assms(1)]])
  with new_token_ok [OF assms(1)] assms(2) show ?thesis
    by (simp add: registry_ok_def AList.distinct_update list_all_iff)
qed

lemma publish_claim_ok:
  "registry_ok r \<Longrightarrow> known (wa_next_generation r) current \<Longrightarrow>
     registry_ok (publish_claim a n current r) \<and> wa_next_generation (publish_claim a n current r) = wa_next_generation r"
  using set_authority_ok [of r "Some current"] by (simp add: publish_claim_def)

context keeping_closer begin

lemma register_ok:
  assumes "register closer i a n current stale (r, w) = (res, r', w')" "registry_ok r"
    and "known (wa_next_generation r) current" "\<And>g. stale = Some g \<Longrightarrow> known (wa_next_generation r) g"
  shows "registry_ok r' \<and> wa_next_generation r' = wa_next_generation r"
proof -
  let ?sp = "superseded_for a n current r" and ?t = "claim_transition a n current stale (superseded_for a n current r)"
  let ?p = "r\<lparr>wa_next_token := Suc (wa_next_token r), wa_pending := AList.update (wa_next_token r) ?t (wa_pending r)\<rparr>"
  have t: "transition_ok (wa_next_generation r) ?t"
    using assms(3,4) superseded_known [OF assms(2)] by (intro claim_transition_ok) auto
  note p = pend_ok [OF assms(2) t]
  let ?q = "set_authority a n (Some current) ?p"
  have q: "registry_ok ?q" using set_authority_ok [OF p, of "Some current"] assms(3) by simp
  note c = complete_transition_ok [OF q, of "wa_next_token r"]
  show ?thesis
  proof (cases "i \<in> {Some BeforeSuperseded, Some BeforeTransition, Some BeforePublish, Some DuringPublish, Some BeforeCompletion}")
    case True
    with assms(1) retain_failed_ok [OF assms(2-4), where discovered = "[]"]
      retain_failed_ok [OF assms(2-4) superseded_known [OF assms(2)]] p q publish_claim_ok [OF p, of current] publish_claim_ok [OF q, of current] assms(3)
    show ?thesis by (auto simp: register_def Let_def new_token_def)
  next
    case False
    obtain e r2 w2 where rec: "reconcile closer (complete_transition (wa_next_token r) ?q, w) = (e, r2, w2)"
      by (metis prod_cases3)
    have r2: "registry_ok r2 \<and> wa_next_generation r2 = wa_next_generation r"
      using reconcile_ok [OF rec] c by (simp add: same_counters_def)
    with False assms(1) rec publish_claim_ok [of r2 current] assms(3) show ?thesis
      by (cases e) (auto simp: register_def Let_def new_token_def)
  qed
qed

end

context keeping_closer begin

lemma claim_ok:
  assumes "claim closer i a n anc (r, w) = (res, r', w')" "registry_ok r" "known_references (wa_next_generation r) anc"
  shows "registry_ok r'"
proof -
  let ?g = "Generation (wa_next_generation r) anc" and ?r = "snd (new_generation anc r)"
  let ?stale = "if i \<in> {Some BeforeGeneration, Some BeforeStale} then None else authority_of a ?r n"
  note ok = new_generation_ok [OF assms(2,3)]
  have known: "known (wa_next_generation ?r) ?g" using ok(2) by simp
  have stale: "known (wa_next_generation ?r) g" if "?stale = Some g" for g
    using that registry_okD(1) [OF ok(1), of a n g] by (simp split: if_splits)
  obtain res1 r1 w1 where reg: "(if i \<in> {Some BeforeGeneration, Some BeforeStale} then (Inl None, ?r, w)
      else register closer i a n ?g ?stale (?r, w)) = (res1, r1, w1)" by (metis prod_cases3)
  have r1: "registry_ok r1 \<and> wa_next_generation r1 = wa_next_generation ?r"
    using reg ok(1) register_ok [of i a n ?g ?stale ?r w res1 r1 w1] known stale by (auto split: if_splits)
  let ?live = "authority_of a r1 n"
  let ?old = "case ?stale of Some g \<Rightarrow> Some g | None \<Rightarrow> ?live"
  have old: "known (wa_next_generation r1) g" if "?old = Some g" for g
    using that stale registry_okD(1) [of r1 a n g] r1 by (auto split: option.splits if_splits)
  have "registry_ok (retain_failed_registration a n ?g ?old [] r1)"
    using retain_failed_ok [of r1 ?g ?old "[]" a n] r1 known old by simp
  moreover have "r' \<in> {r1, retain_failed_registration a n ?g ?old [] r1}"
    using assms(1) reg by (auto simp: claim_def Let_def split: sum.splits if_splits)
  ultimately show ?thesis using r1 by blast
qed

lemma close_raw_ok:
  assumes "close_raw closer h (r, w) = (e, r', w')" "registry_ok r"
  shows "registry_ok r'"
proof -
  obtain g r1 where g: "current_generation AuthHandles h r = (g, r1)" by (metis surj_pair)
  note ok = current_generation_ok [OF g assms(2)]
  obtain out w1 where c: "closer h (r1, w) = (out, r1, w1)" using closer_keeps by (metis prod_cases3)
  obtain e2 r2 w2 where ret: "retire_current closer AuthHandles h (Some g) (r1, w1) = (e2, r2, w2)"
    by (metis prod_cases3)
  have "registry_ok r2" using retire_current_ok [OF ret] ok by blast
  moreover have "registry_ok (record_ambiguous h g r1)" using ok record_ambiguous_ok by blast
  moreover have "r' \<in> {r1, record_ambiguous h g r1, r2}"
    using assms(1) g c ret by (auto simp: close_raw_def Let_def split: if_splits)
  ultimately show ?thesis using ok by blast
qed

lemma close_descriptor_ok:
  assumes "close_descriptor closer dcloser d (r, w) = (e, r', w')" "registry_ok r" "keeps_descriptors dcloser"
  shows "registry_ok r'"
proof -
  obtain g r1 where g: "current_generation AuthDescriptors d r = (g, r1)" by (metis surj_pair)
  note ok = current_generation_ok [OF g assms(2)]
  obtain raised w1 where c: "dcloser d (r1, w) = (raised, r1, w1)"
    using assms(3) by (metis keeps_descriptors_def prod.collapse)
  obtain e2 r2 w2 where ret: "retire_current closer AuthDescriptors d (Some g) (r1, w1) = (e2, r2, w2)"
    by (metis prod_cases3)
  have "registry_ok r2" using retire_current_ok [OF ret] ok by blast
  moreover have "r' \<in> {r1, r2}"
    using assms(1) g c ret by (auto simp: close_descriptor_def Let_def split: option.splits)
  ultimately show ?thesis using ok by blast
qed

lemma step_keeps:
  assumes "registry_step closer (r, w) (r', w')" "registry_ok r"
  shows "registry_ok r'"
  using assms(1)
proof (rule registry_stepE)
  fix a n g assume "known (wa_next_generation r) g" "(r', w') = (ensure_authority a n g r, w)"
  with assms(2) set_authority_ok [OF assms(2), of "Some g" a n] show "registry_ok r'"
    by (simp add: ensure_authority_def split: if_splits)
next
  fix h g assume "(r', w') = (release_handle_if h g r, w)"
  with assms(2) set_authority_ok [OF assms(2), of None AuthHandles h] show "registry_ok r'"
    unfolding release_handle_if_def by (auto split: option.splits if_splits simp del: set_authority.simps)
next
  fix hs refs r2 assume "(r', w') = (r2, w)" "capture_raw_generations hs r = (refs, r2)"
  with capture_ok [of hs r refs r'] assms(2) show "registry_ok r'" by simp
next
  fix i a n anc and res :: "'e option + generation"
  assume "known_references (wa_next_generation r) anc" "claim closer i a n anc (r, w) = (res, r', w')"
  then show "registry_ok r'" using claim_ok assms(2) by blast
next
  fix h and e :: "'e authority_error option" assume "close_raw closer h (r, w) = (e, r', w')"
  then show "registry_ok r'" using close_raw_ok assms(2) by blast
next
  fix dcloser :: "('e, 'w) descriptor_closer" and d e
  assume "keeps_descriptors dcloser" "close_descriptor closer dcloser d (r, w) = (e, r', w')"
  then show "registry_ok r'" using close_descriptor_ok assms(2) by blast
next
  fix e :: "'e option" assume "reconcile closer (r, w) = (e, r', w')"
  then show "registry_ok r'" using reconcile_ok assms(2) by blast
qed

end

lemma empty_registry_ok: "registry_ok empty_registry"
  by (simp add: registry_ok_def empty_registry_def authority_ok_def store_ok_def)

lemma native_runs_ok: "(registry_step (native_closer nt))\<^sup>*\<^sup>* sys sys' \<Longrightarrow> registry_ok (fst sys) \<Longrightarrow> registry_ok (fst sys')"
proof (induction rule: rtranclp_induct)
  case (step s t)
  then show ?case using native.step_keeps [of nt "fst s" "snd s" "fst t" "snd t"] by simp
qed simp


section \<open>A sample\<close>

text \<open>A host whose \<open>CloseHandle\<close> always succeeds and notes the handle; a registry that owns handle 3
  over handle 7, and still owes the close of handle 7 from a generation already gone.\<close>

definition sample_api :: "(string, int list) native_api" where
  "sample_api = \<lparr>nt_host = True, nt_load = (\<lambda>w. (None, w)), nt_close = (\<lambda>h w. (Inr True, w @ [h])),
     nt_last_error = (\<lambda>w. (Inr (''none'', None), w))\<rparr>"

definition sample_registry :: registry where
  "sample_registry = empty_registry\<lparr>
     wa_handles := [3 \<mapsto> Generation 1 [(7, Generation 0 [])], 7 \<mapsto> Generation 0 []],
     wa_retired := [(0, [(7, Generation 0 [])])], wa_next_generation := 2, wa_next_token := 1\<rparr>"

lemma sample_registry_ok: "registry_ok sample_registry"
  by (auto simp: registry_ok_def sample_registry_def empty_registry_def authority_ok_def store_ok_def split: if_splits)

lemma sample_api_works: "fst (attempt_close_raw_handle sample_api h w) = outcome_of CsClosed None"
  by (simp add: attempt_close_raw_handle_def sample_api_def)

theorem retired_closes_are_guarded_witness:
  "\<exists>cs. snd (snd (snd (close_retired (journaled (native_closer sample_api)) 0 (sample_registry, [], [])))) = cs \<and>
     guarded_calls [(7, Generation 0 [])] cs \<and> map fst cs = [7]"
proof -
  obtain e r' w' l' where run: "close_retired (journaled (native_closer sample_api)) 0 (sample_registry, [], []) =
      (e, r', w', l')" by (metis prod_cases4)
  have refs: "lookup_references 0 (wa_retired sample_registry) = [(7, Generation 0 [])]"
    by (simp add: lookup_references_def sample_registry_def)
  have "map fst (snd (snd (snd (close_retired (journaled (native_closer sample_api)) 0 (sample_registry, [], []))))) = [7]"
    by code_simp
  with retired_closes_are_guarded [OF run] run refs show ?thesis by auto
qed


theorem interrupted_claim_forgets_nothing_witness:
  "(7, 0) \<in> owed (fst (snd (claim (native_closer sample_api) (Some BeforePublish) AuthHandles 3 [] (sample_registry, []))))"
proof -
  obtain res r' w' where run:
    "claim (native_closer sample_api) (Some BeforePublish) AuthHandles 3 [] (sample_registry, []) = (res, r', w')"
    by (metis prod_cases3)
  have "(7, 0) \<in> claim_obligations AuthHandles 3 sample_registry"
    by (simp add: claim_obligations_def taken_over_def sample_registry_def reference_key_def)
  with interrupted_claim_forgets_nothing [OF sample_registry_ok run] run show ?thesis by auto
qed


end
