(* ===== verification/Digests.thy ===== *)
theory Digests
  imports Model_Prelude "HOL-Library.Word"
begin

text \<open>
  The two standard-library functions behind the identities and hashes of the generator:
  \<open>str.encode("utf-8")\<close> on text of code points below U+0100, and \<open>hashlib.sha256(...).hexdigest()\<close>
  (FIPS 180-4, on 32-bit words).
\<close>

unbundle bit_operations_syntax

section \<open>UTF-8\<close>

definition utf8_of_char :: "char \<Rightarrow> nat list" where
  "utf8_of_char c =
     (let n = code_point c in if n < 128 then [n] else [0xC0 + n div 64, 0x80 + n mod 64])"

definition utf8_of :: "string \<Rightarrow> nat list" where
  "utf8_of s = concat (map utf8_of_char s)"

text \<open>The length of an encoding tells how many characters are outside ASCII.\<close>

lemma utf8_of_ascii: "list_all (\<lambda>c. code_point c < 128) s \<Longrightarrow> utf8_of s = map code_point s"
  by (induction s) (simp_all add: utf8_of_def utf8_of_char_def)

section \<open>SHA-256\<close>

text \<open>
  The constants are the first 32 fractional bits of the cube roots of the first 64 primes and of the
  square roots of the first 8.  \<open>int_root\<close> finds the root bit by bit.
\<close>

definition small_primes :: "nat list" where
  "small_primes = filter (\<lambda>n. list_all (\<lambda>k. n mod k \<noteq> 0) [2..<n]) [2..<312]"

fun int_root :: "nat \<Rightarrow> nat \<Rightarrow> nat \<Rightarrow> nat \<Rightarrow> nat" where
  "int_root d n 0 acc = (if (acc + 1) ^ d \<le> n then acc + 1 else acc)"
| "int_root d n (Suc k) acc =
     int_root d n k (if (acc + 2 ^ Suc k) ^ d \<le> n then acc + 2 ^ Suc k else acc)"

definition root_fraction :: "nat \<Rightarrow> nat \<Rightarrow> 32 word" where
  "root_fraction d p = of_nat (int_root d (p * 2 ^ (32 * d)) 40 0)"

definition sha_rounds :: "32 word list" where
  "sha_rounds = map (root_fraction 3) small_primes"

definition sha_start :: "32 word list" where
  "sha_start = map (root_fraction 2) [2, 3, 5, 7, 11, 13, 17, 19]"

text \<open>The message, a one bit, zeros, and its length in bits as eight bytes: whole blocks of 64.\<close>

definition big_endian :: "nat \<Rightarrow> nat \<Rightarrow> nat list" where
  "big_endian k n = map (\<lambda>i. n div 256 ^ i mod 256) (rev [0..<k])"

definition sha_padded :: "nat list \<Rightarrow> nat list" where
  "sha_padded bs = bs @ [128] @ replicate ((119 - length bs mod 64) mod 64) 0 @ big_endian 8 (8 * length bs)"

fun sha_words :: "nat list \<Rightarrow> 32 word list" where
  "sha_words (a # b # c # d # bs) = of_nat (((a * 256 + b) * 256 + c) * 256 + d) # sha_words bs"
| "sha_words _ = []"

definition sha_mix :: "nat \<Rightarrow> nat \<Rightarrow> nat \<Rightarrow> 32 word \<Rightarrow> 32 word" where
  "sha_mix i j k w = word_rotr i w XOR word_rotr j w XOR drop_bit k w"

definition sha_turn :: "nat \<Rightarrow> nat \<Rightarrow> nat \<Rightarrow> 32 word \<Rightarrow> 32 word" where
  "sha_turn i j k w = word_rotr i w XOR word_rotr j w XOR word_rotr k w"

text \<open>The 48 further words of the message schedule.\<close>

fun sha_schedule :: "nat \<Rightarrow> 32 word list \<Rightarrow> 32 word list" where
  "sha_schedule 0 ws = ws"
| "sha_schedule (Suc n) ws =
     (let t = length ws;
          w = sha_mix 17 19 10 (ws ! (t - 2)) + ws ! (t - 7) + sha_mix 7 18 3 (ws ! (t - 15)) + ws ! (t - 16)
      in sha_schedule n (ws @ [w]))"

fun sha_round :: "32 word list \<Rightarrow> 32 word \<times> 32 word \<Rightarrow> 32 word list" where
  "sha_round [a, b, c, d, e, f, g, h] (k, w) =
     (let t1 = h + sha_turn 6 11 25 e + ((e AND f) XOR (NOT e AND g)) + k + w;
          t2 = sha_turn 2 13 22 a + ((a AND b) XOR (a AND c) XOR (b AND c))
      in [t1 + t2, a, b, c, d + t1, e, f, g])"
| "sha_round state _ = state"

definition sha_block :: "32 word list \<Rightarrow> 32 word list \<Rightarrow> 32 word list" where
  "sha_block state ws =
     map2 (+) state (foldl sha_round state (zip sha_rounds (sha_schedule 48 ws)))"

function sha_blocks :: "32 word list \<Rightarrow> 32 word list \<Rightarrow> 32 word list" where
  "sha_blocks state ws =
     (if length ws < 16 then state else sha_blocks (sha_block state (take 16 ws)) (drop 16 ws))"
  by pat_completeness auto
termination by (relation "measure (\<lambda>(_, ws). length ws)") auto

declare sha_blocks.simps [simp del]

definition hex_digit :: "nat \<Rightarrow> char" where
  "hex_digit n = (''0123456789abcdef'') ! n"

definition word_hex :: "32 word \<Rightarrow> string" where
  "word_hex w = map (\<lambda>i. hex_digit (unat w div 16 ^ i mod 16)) (rev [0..<8])"

definition sha256_hex :: "nat list \<Rightarrow> string" where
  "sha256_hex bs = concat (map word_hex (sha_blocks sha_start (sha_words (sha_padded bs))))"

section \<open>Shape of a digest\<close>

text \<open>\<open>int_root\<close> computes the integer root as long as the answer has no more than \<open>k + 1\<close> bits.\<close>

lemma int_root_spec:
  assumes "0 < d" "acc ^ d \<le> n" "n < (acc + 2 ^ Suc k) ^ d"
  shows "int_root d n k acc ^ d \<le> n \<and> n < (int_root d n k acc + 1) ^ d"
  using assms
proof (induction d n k acc rule: int_root.induct)
  case (1 d n acc)
  then show ?case by (auto simp: numeral_2_eq_2)
next
  case (2 d n k acc)
  show ?case
  proof (cases "(acc + 2 ^ Suc k) ^ d \<le> n")
    case True
    with 2(4) have "n < (acc + 2 ^ Suc k + 2 ^ Suc k) ^ d" by (simp add: add.assoc mult_2)
    with 2(1) [OF 2(2)] True show ?thesis by simp
  next
    case False
    with 2(1) [OF 2(2)] 2(3) show ?thesis by simp
  qed
qed

text \<open>Padding fills whole blocks, and a digest is 64 hexadecimal digits, whatever was hashed.\<close>

lemma padding_fills:
  assumes "(r :: nat) < 64" shows "(r + 9 + (119 - r) mod 64) mod 64 = 0"
proof (cases "r \<le> 55")
  case True
  then have "119 - r = (55 - r) + 64" by linarith
  then have "(119 - r) mod 64 = (55 - r) mod 64" by (simp only: mod_add_self2)
  also have "\<dots> = 55 - r" using True by simp
  finally have "r + 9 + (119 - r) mod 64 = 64" using True by linarith
  then show ?thesis by (simp only: mod_self)
next
  case False
  with assms have "r + 9 + (119 - r) mod 64 = 128" by simp
  then show ?thesis by simp
qed

lemma sha_padded_blocks: "length (sha_padded bs) mod 64 = 0"
proof -
  define r where "r = length bs mod 64"
  have "length (sha_padded bs) = 64 * (length bs div 64) + (r + 9 + (119 - r) mod 64)"
    by (simp add: sha_padded_def big_endian_def r_def)
  moreover have "(r + 9 + (119 - r) mod 64) mod 64 = 0" by (rule padding_fills) (simp add: r_def)
  ultimately show ?thesis by (simp only: mod_mult_self4)
qed

lemma sha_round_length: "length s = 8 \<Longrightarrow> length (sha_round s kw) = 8"
  by (induction s kw rule: sha_round.induct) (simp_all add: Let_def)

lemma sha_block_length: "length s = 8 \<Longrightarrow> length (sha_block s ws) = 8"
proof -
  assume s: "length s = 8"
  have "length (foldl sha_round s kws) = 8" for kws
    using s by (induction kws arbitrary: s) (simp_all add: sha_round_length)
  with s show ?thesis by (simp add: sha_block_def)
qed

lemma sha_blocks_length: "length s = 8 \<Longrightarrow> length (sha_blocks s ws) = 8"
proof (induction s ws rule: sha_blocks.induct)
  case (1 s ws)
  then show ?case by (subst sha_blocks.simps) (simp add: sha_block_length)
qed

lemma hex_digit_hex: "n < 16 \<Longrightarrow> hex_digit n \<in> set ''0123456789abcdef''"
  unfolding hex_digit_def by (rule nth_mem) simp

lemma word_hex_shape: "length (word_hex w) = 8" "set (word_hex w) \<subseteq> set ''0123456789abcdef''"
  unfolding word_hex_def by (auto intro!: hex_digit_hex simp del: set_simps)

lemma sha256_shape: "length (sha256_hex bs) = 64" "set (sha256_hex bs) \<subseteq> set ''0123456789abcdef''"
proof -
  have "length (sha_blocks sha_start ws) = 8" for ws
    by (rule sha_blocks_length) (simp add: sha_start_def)
  then show "length (sha256_hex bs) = 64"
    by (simp add: sha256_hex_def length_concat word_hex_shape comp_def sum_list_triv)
  show "set (sha256_hex bs) \<subseteq> set ''0123456789abcdef''"
    using word_hex_shape(2) by (force simp: sha256_hex_def simp del: set_simps)
qed

end
