(* ===== verification/Jvm_Manifest.thy ===== *)
theory Jvm_Manifest
  imports Source_Records Semantic_Manifest Digests
begin

text \<open>
  The manifest in which the KSP frontend reports the JVM declarations of a feature
  (\<^verbatim>\<open>jvm_manifest.py\<close>): the deterministic identities, the writers, the strict readers, and the
  checks of the manifest record.  The file is read and decoded by the caller of \<open>parse_jvm_manifest\<close>.
\<close>

section \<open>Identities\<close>

definition jvm_owner_identity :: "string \<Rightarrow> string" where
  "jvm_owner_identity owner_class = ''jvm:'' @ owner_class"

definition jvm_declaration_identity :: "string \<Rightarrow> string \<Rightarrow> string \<Rightarrow> string" where
  "jvm_declaration_identity owner_class name descriptor = ''jvm:'' @ owner_class @ ''#'' @ name @ descriptor"

definition jvm_adapter_identity :: "string \<Rightarrow> string" where
  "jvm_adapter_identity declaration_id =
     ''supernote.jvm.adapter.'' @ take 20 (sha256_hex (utf8_of declaration_id))"

definition jvm_field_identity :: "string \<Rightarrow> string \<Rightarrow> string" where
  "jvm_field_identity owner_class name = ''jvm:'' @ owner_class @ ''#field:'' @ name"

definition jvm_field_accessor_identity :: "string \<Rightarrow> string" where
  "jvm_field_accessor_identity declaration_id =
     ''supernote.jvm.field.'' @ take 20 (sha256_hex (utf8_of declaration_id))"

definition jvm_schema_version :: string where
  "jvm_schema_version = ''1.0''"

definition jvm_manifest_kind :: string where
  "jvm_manifest_kind = ''supernote_module_jvm_source_manifest''"

section \<open>Errors\<close>

text \<open>
  \<open>JmFault\<close> and \<open>JmInside\<close> are \<open>JvmManifestError\<close>, the second from a \<open>ValueError\<close> caught with its
  label.  The last three are the plain \<open>ValueError\<close>s of the records built outside a \<open>try\<close>.
\<close>

datatype jvm_manifest_reason =
    JmNotObject
  | JmFields
  | JmNotList
  | JmNotString
  | JmNotInteger
  | JmNotBool
  | JmEnumValue string
  | JmOwnerIdentity
  | JmOwnerLanguage
  | JmLanguage
  | JmOwnerClass
  | JmOwnerDeclaration
  | JmSourceIdentity
  | JmAdapterIdentity
  | JmSchema
  | JmKind
  | JmOtherFeature
  | JmFeatureId
  | JmFrontendVersion
  | JmDuplicateOwner
  | JmFieldIdentity
  | JmAccessorIdentity

datatype jvm_manifest_error =
    JmFault label jvm_manifest_reason
  | JmInside label jvm_manifest_error
  | JmProvenance semantic_error
  | JmMarker source_model_error
  | JmRecord source_record_error

section \<open>Writers\<close>

fun owner_form_name :: "jvm_owner_form \<Rightarrow> string" where
  "owner_form_name OfClass = ''class''"
| "owner_form_name OfKotlinObject = ''kotlin_object''"
| "owner_form_name OfKotlinTopLevel = ''kotlin_top_level''"
| "owner_form_name OfJavaStatic = ''java_static''"

definition occurrence_manifest :: "marker_occurrence \<Rightarrow> json" where
  "occurrence_manifest m = JObj
     [(''name'', JStr (marker_name (mo_marker m))), (''line'', JInt (mo_line m)), (''column'', JInt (mo_column m))]"

definition intent_manifest :: "source_intent \<Rightarrow> json" where
  "intent_manifest i = JArr (map occurrence_manifest (si_occurrences i))"

fun jvm_type_manifest :: "jvm_type \<Rightarrow> json" where
  "jvm_type_manifest (JvmType name nullable arguments) = JObj
     [(''jvm_type'', JStr name), (''nullable'', JBool nullable),
      (''arguments'', JArr (map jvm_type_manifest arguments))]"

definition jvm_parameter_manifest :: "jvm_parameter_source \<Rightarrow> json" where
  "jvm_parameter_manifest p = JObj
     [(''jvm_type'', JStr (jps_type p)), (''name'', JStr (jps_name p)), (''nullable'', JBool (jps_nullable p)),
      (''injected'', case jps_injected p of Some d \<Rightarrow> JStr (dependency_name d) | None \<Rightarrow> JNull),
      (''type_arguments'', JArr (map jvm_type_manifest (jps_arguments p)))]"

definition jvm_constructor_manifest :: "jvm_constructor_source \<Rightarrow> json" where
  "jvm_constructor_manifest c = JObj
     [(''source'', provenance_manifest (jcs_provenance c)), (''jvm_descriptor'', JStr (jcs_descriptor c)),
      (''parameters'', JArr (map jvm_parameter_manifest (jcs_parameters c))),
      (''visibility'', JStr (jcs_visibility c)), (''markers'', intent_manifest (jcs_intent c)),
      (''adapter_identity'', JStr (jcs_adapter c))]"

definition jvm_declaration_manifest :: "jvm_declaration_source \<Rightarrow> json" where
  "jvm_declaration_manifest d = JObj
     [(''source'', provenance_manifest (jds_provenance d)), (''owner_declaration_id'', JStr (jds_owner_id d)),
      (''owner_class'', JStr (jds_owner_class d)), (''jvm_name'', JStr (jds_name d)),
      (''jvm_descriptor'', JStr (jds_descriptor d)),
      (''parameters'', JArr (map jvm_parameter_manifest (jds_parameters d))),
      (''result_jvm_type'', JStr (jds_result d)), (''result_nullable'', JBool (jds_result_nullable d)),
      (''markers'', intent_manifest (jds_intent d)), (''visibility'', JStr (jds_visibility d)),
      (''adapter_identity'', JStr (jds_adapter d)), (''language'', JStr (language_name (jds_language d))),
      (''is_suspend'', JBool (jds_suspend d)), (''is_static'', JBool (jds_static d)),
      (''result_type_arguments'', JArr (map jvm_type_manifest (jds_result_arguments d)))]"

definition jvm_field_manifest :: "jvm_field_source \<Rightarrow> json" where
  "jvm_field_manifest f = JObj
     [(''source'', provenance_manifest (jfs_provenance f)), (''owner_declaration_id'', JStr (jfs_owner_id f)),
      (''name'', JStr (jfs_name f)), (''type'', jvm_type_manifest (jfs_type f)),
      (''markers'', intent_manifest (jfs_intent f)), (''visibility'', JStr (jfs_visibility f)),
      (''mutable'', JBool (jfs_mutable f)), (''is_static'', JBool (jfs_static f)),
      (''accessor_identity'', JStr (jfs_accessor f))]"

definition jvm_owner_manifest :: "jvm_owner_source \<Rightarrow> json" where
  "jvm_owner_manifest s = JObj
     [(''source'', provenance_manifest (jos_provenance s)), (''language'', JStr (language_name (jos_language s))),
      (''owner_class'', JStr (jos_owner_class s)), (''source_name'', JStr (jos_name s)),
      (''form'', JStr (owner_form_name (jos_form s))), (''visibility'', JStr (jos_visibility s)),
      (''markers'', intent_manifest (jos_intent s)),
      (''constructors'', JArr (map jvm_constructor_manifest
         (sort_key (sp_declaration \<circ> jcs_provenance) (jos_constructors s)))),
      (''declarations'', JArr (map jvm_declaration_manifest
         (sort_key (sp_declaration \<circ> jds_provenance) (jos_declarations s)))),
      (''fields'', JArr (map jvm_field_manifest (jos_fields s))),
      (''enum_constants'', JArr (map JStr (jos_constants s))), (''is_data'', JBool (jos_data s)),
      (''is_record'', JBool (jos_record s)), (''is_final'', JBool (jos_final s)),
      (''type_parameter_count'', JInt (jos_type_parameters s)),
      (''supertypes'', JArr (map JStr (jos_supertypes s)))]"

record jvm_source_manifest =
  jm_feature :: string
  jm_frontend :: string
  jm_owners :: "jvm_owner_source list"
  jm_schema :: string

definition jvm_manifest :: "jvm_source_manifest \<Rightarrow> json" where
  "jvm_manifest m = JObj
     [(''schema_version'', JStr (jm_schema m)), (''kind'', JStr jvm_manifest_kind),
      (''feature_id'', JStr (jm_feature m)), (''frontend_version'', JStr (jm_frontend m)),
      (''owners'', JArr (map jvm_owner_manifest (sort_key (sp_declaration \<circ> jos_provenance) (jm_owners m))))]"

section \<open>The manifest record\<close>

definition validate_identity ::
    "source_provenance \<Rightarrow> string \<Rightarrow> string \<Rightarrow> jvm_manifest_error + unit" where
  "validate_identity provenance adapter expected =
     ebind (raise_if (sp_declaration provenance \<noteq> expected) (JmFault [] JmSourceIdentity)) (\<lambda>_.
     raise_if (adapter \<noteq> jvm_adapter_identity expected) (JmFault [] JmAdapterIdentity))"

definition check_manifest_owner :: "jvm_owner_source \<Rightarrow> jvm_manifest_error + unit" where
  "check_manifest_owner s =
     ebind (raise_if (sp_declaration (jos_provenance s) \<noteq> jvm_owner_identity (jos_owner_class s))
       (JmFault [] JmOwnerIdentity)) (\<lambda>_.
     ebind (echeck (\<lambda>c. validate_identity (jcs_provenance c) (jcs_adapter c)
         (jvm_declaration_identity (jos_owner_class s) ''<init>'' (jcs_descriptor c))) (jos_constructors s)) (\<lambda>_.
     ebind (echeck (\<lambda>d. validate_identity (jds_provenance d) (jds_adapter d)
         (jvm_declaration_identity (jos_owner_class s) (jds_name d) (jds_descriptor d))) (jos_declarations s)) (\<lambda>_.
     echeck (\<lambda>f.
         let expected = jvm_field_identity (jos_owner_class s) (jfs_name f) in
         ebind (raise_if (sp_declaration (jfs_provenance f) \<noteq> expected) (JmFault [] JmFieldIdentity)) (\<lambda>_.
         raise_if (jfs_accessor f \<noteq> jvm_field_accessor_identity expected) (JmFault [] JmAccessorIdentity)))
       (jos_fields s))))"

definition feature_id_prefix :: string where
  "feature_id_prefix = ''supernote:feature:''"

definition check_jvm_manifest :: "jvm_source_manifest \<Rightarrow> jvm_manifest_error + unit" where
  "check_jvm_manifest m =
     ebind (raise_if (jm_schema m \<noteq> jvm_schema_version) (JmFault [] JmSchema)) (\<lambda>_.
     ebind (raise_if (take (length feature_id_prefix) (jm_feature m) \<noteq> feature_id_prefix)
       (JmFault [] JmFeatureId)) (\<lambda>_.
     ebind (raise_if (jm_frontend m = []) (JmFault [] JmFrontendVersion)) (\<lambda>_.
     ebind (raise_if (\<not> distinct (map (sp_declaration \<circ> jos_provenance) (jm_owners m)))
       (JmFault [] JmDuplicateOwner)) (\<lambda>_.
     echeck check_manifest_owner (jm_owners m)))))"

section \<open>Typed access\<close>

definition jm_object :: "json \<Rightarrow> label \<Rightarrow> jvm_manifest_error + (string \<times> json) list" where
  "jm_object raw lbl = (case raw of JObj kvs \<Rightarrow> Inr kvs | _ \<Rightarrow> Inl (JmFault lbl JmNotObject))"

definition jm_keys :: "(string \<times> json) list \<Rightarrow> string list \<Rightarrow> label \<Rightarrow> jvm_manifest_error + unit" where
  "jm_keys kvs expected lbl = raise_if (\<not> jkeys_are kvs expected) (JmFault lbl JmFields)"

definition jm_list :: "json \<Rightarrow> label \<Rightarrow> jvm_manifest_error + json list" where
  "jm_list raw lbl = (case raw of JArr xs \<Rightarrow> Inr xs | _ \<Rightarrow> Inl (JmFault lbl JmNotList))"

definition jm_string :: "json \<Rightarrow> label \<Rightarrow> jvm_manifest_error + string" where
  "jm_string raw lbl =
     (case raw of
        JStr s \<Rightarrow> if s = [] then Inl (JmFault lbl JmNotString) else Inr s
      | _ \<Rightarrow> Inl (JmFault lbl JmNotString))"

definition jm_integer :: "json \<Rightarrow> label \<Rightarrow> jvm_manifest_error + int" where
  "jm_integer raw lbl = (case raw of JInt i \<Rightarrow> Inr i | _ \<Rightarrow> Inl (JmFault lbl JmNotInteger))"

definition jm_bool :: "json \<Rightarrow> label \<Rightarrow> jvm_manifest_error + bool" where
  "jm_bool raw lbl = (case raw of JBool b \<Rightarrow> Inr b | _ \<Rightarrow> Inl (JmFault lbl JmNotBool))"

definition jm_enum :: "('a \<Rightarrow> string) \<Rightarrow> 'a list \<Rightarrow> json \<Rightarrow> label \<Rightarrow> jvm_manifest_error + 'a" where
  "jm_enum name members raw lbl =
     ebind (jm_string raw lbl) (\<lambda>s.
       case find (\<lambda>x. name x = s) members of
         Some x \<Rightarrow> Inr x
       | None \<Rightarrow> Inl (JmFault lbl (JmEnumValue s)))"

definition jm_items ::
    "(json \<Rightarrow> label \<Rightarrow> jvm_manifest_error + 'a) \<Rightarrow> json \<Rightarrow> label \<Rightarrow> jvm_manifest_error + 'a list" where
  "jm_items reader raw lbl =
     ebind (jm_list raw lbl) (\<lambda>xs. emap (\<lambda>(i, x). reader x (lbl @ [LIdx i])) (enumerated xs))"

abbreviation jm_at :: "(string \<times> json) list \<Rightarrow> label \<Rightarrow> string \<Rightarrow>
    (json \<Rightarrow> label \<Rightarrow> jvm_manifest_error + 'a) \<Rightarrow> jvm_manifest_error + 'a" where
  "jm_at v lbl key reader \<equiv> reader (jitem v key) (lbl @ [LKey key])"

section \<open>Readers\<close>

definition parse_provenance :: "json \<Rightarrow> label \<Rightarrow> jvm_manifest_error + source_provenance" where
  "parse_provenance raw lbl =
     ebind (jm_object raw lbl) (\<lambda>v.
     ebind (jm_keys v [''declaration_id'', ''language'', ''path'', ''line'', ''column''] lbl) (\<lambda>_.
     ewrap (JmInside lbl) (
       ebind (jm_at v lbl ''declaration_id'' jm_string) (\<lambda>d.
       ebind (jm_at v lbl ''language'' jm_string) (\<lambda>l.
       ebind (jm_at v lbl ''path'' jm_string) (\<lambda>p.
       ebind (jm_at v lbl ''line'' jm_integer) (\<lambda>n.
       ebind (jm_at v lbl ''column'' jm_integer) (\<lambda>c.
       ewrap JmProvenance (mk_provenance d l p n c)))))))))"

definition parse_occurrence :: "json \<Rightarrow> label \<Rightarrow> jvm_manifest_error + marker_occurrence" where
  "parse_occurrence raw lbl =
     ebind (jm_object raw lbl) (\<lambda>v.
     ebind (jm_keys v [''name'', ''line'', ''column''] lbl) (\<lambda>_.
     ebind (jm_at v lbl ''name'' (jm_enum marker_name all_markers)) (\<lambda>m.
     ebind (jm_at v lbl ''line'' jm_integer) (\<lambda>line.
     ebind (jm_at v lbl ''column'' jm_integer) (\<lambda>column.
     ewrap JmMarker (mk_occurrence m line column))))))"

definition parse_intent :: "declaration_target \<Rightarrow> json \<Rightarrow> label \<Rightarrow> jvm_manifest_error + source_intent" where
  "parse_intent target raw lbl =
     ebind (jm_items parse_occurrence raw lbl) (\<lambda>occurrences.
     ewrap (JmInside lbl \<circ> JmMarker) (mk_intent target occurrences))"

function parse_jvm_type :: "json \<Rightarrow> label \<Rightarrow> jvm_manifest_error + jvm_type" where
  "parse_jvm_type raw lbl =
     (case raw of
        JObj v \<Rightarrow>
          ebind (jm_keys v [''jvm_type'', ''nullable'', ''arguments''] lbl) (\<lambda>_.
          ebind (jm_at v lbl ''jvm_type'' jm_string) (\<lambda>name.
          ebind (jm_at v lbl ''nullable'' jm_bool) (\<lambda>nullable.
          case jitem v ''arguments'' of
            JArr xs \<Rightarrow>
              ebind (emap (\<lambda>(i, x). parse_jvm_type x (lbl @ [LKey ''arguments'', LIdx i])) (enumerated xs)) (\<lambda>arguments.
              ewrap JmRecord (mk_jvm_type name nullable arguments))
          | _ \<Rightarrow> Inl (JmFault (lbl @ [LKey ''arguments'']) JmNotList))))
      | _ \<Rightarrow> Inl (JmFault lbl JmNotObject))"
  by pat_completeness auto
termination
proof (relation "measure (\<lambda>(raw, lbl). size raw)", goal_cases)
  case 1
  then show ?case by simp
next
  case (2 raw lbl v a name nullable xs ix i x)
  then have "x \<in> set xs" by auto
  then have "size x < size (JArr xs)" by (simp add: size_list_estimation' less_Suc_eq_le)
  moreover have "size (JArr xs) < size (JObj v)" using jitem_size [of v "''arguments''"] 2 by simp
  ultimately show ?case using 2 by simp
qed

declare parse_jvm_type.simps [simp del]

definition all_dependencies :: "jvm_dependency list" where
  "all_dependencies = [DepContext, DepReactContext]"

definition parse_jvm_parameter :: "json \<Rightarrow> label \<Rightarrow> jvm_manifest_error + jvm_parameter_source" where
  "parse_jvm_parameter raw lbl =
     ebind (jm_object raw lbl) (\<lambda>v.
     ebind (jm_keys v [''jvm_type'', ''name'', ''nullable'', ''injected'', ''type_arguments''] lbl) (\<lambda>_.
     ebind (if jitem v ''injected'' = JNull then Inr None
            else ebind (jm_at v lbl ''injected'' (jm_enum dependency_name all_dependencies)) (\<lambda>d. Inr (Some d))) (\<lambda>injected.
     ebind (jm_at v lbl ''jvm_type'' jm_string) (\<lambda>t.
     ebind (jm_at v lbl ''name'' jm_string) (\<lambda>name.
     ebind (jm_at v lbl ''nullable'' jm_bool) (\<lambda>nullable.
     ebind (jm_at v lbl ''type_arguments'' (jm_items parse_jvm_type)) (\<lambda>arguments.
     Inr \<lparr>jps_type = t, jps_name = name, jps_nullable = nullable, jps_injected = injected,
          jps_arguments = arguments\<rparr>)))))))"

definition verify_declaration_identity ::
    "(string \<times> json) list \<Rightarrow> source_provenance \<Rightarrow> string \<Rightarrow> label \<Rightarrow> jvm_manifest_error + unit" where
  "verify_declaration_identity v provenance expected lbl =
     ebind (raise_if (sp_declaration provenance \<noteq> expected) (JmFault lbl JmSourceIdentity)) (\<lambda>_.
     ebind (jm_at v lbl ''adapter_identity'' jm_string) (\<lambda>adapter.
     raise_if (adapter \<noteq> jvm_adapter_identity expected) (JmFault lbl JmAdapterIdentity)))"

definition constructor_keys :: "string list" where
  "constructor_keys =
     [''source'', ''jvm_descriptor'', ''parameters'', ''visibility'', ''markers'', ''adapter_identity'']"

definition parse_jvm_constructor :: "string \<Rightarrow> json \<Rightarrow> label \<Rightarrow> jvm_manifest_error + jvm_constructor_source" where
  "parse_jvm_constructor owner_class raw lbl =
     ebind (jm_object raw lbl) (\<lambda>v.
     ebind (jm_keys v constructor_keys lbl) (\<lambda>_.
     ebind (jm_at v lbl ''jvm_descriptor'' jm_string) (\<lambda>descriptor.
     ebind (jm_at v lbl ''source'' parse_provenance) (\<lambda>provenance.
     ebind (verify_declaration_identity v provenance
       (jvm_declaration_identity owner_class ''<init>'' descriptor) lbl) (\<lambda>_.
     ebind (jm_at v lbl ''parameters'' (jm_items parse_jvm_parameter)) (\<lambda>ps.
     ebind (jm_at v lbl ''visibility'' jm_string) (\<lambda>visibility.
     ebind (jm_at v lbl ''markers'' (parse_intent TgConstructor)) (\<lambda>intent.
     ebind (jm_at v lbl ''adapter_identity'' jm_string) (\<lambda>adapter.
     let c = \<lparr>jcs_provenance = provenance, jcs_descriptor = descriptor, jcs_parameters = ps,
              jcs_visibility = visibility, jcs_intent = intent, jcs_adapter = adapter\<rparr>
     in ebind (ewrap JmRecord (check_jvm_constructor c)) (\<lambda>_. Inr c))))))))))"

definition all_languages :: "jvm_language list" where
  "all_languages = [Kotlin, Java]"

definition declaration_keys :: "string list" where
  "declaration_keys =
     [''source'', ''owner_declaration_id'', ''owner_class'', ''jvm_name'', ''jvm_descriptor'', ''parameters'',
      ''result_jvm_type'', ''result_nullable'', ''markers'', ''visibility'', ''adapter_identity'', ''language'',
      ''is_suspend'', ''is_static'', ''result_type_arguments'']"

definition parse_jvm_declaration ::
    "jvm_language \<Rightarrow> string \<Rightarrow> string \<Rightarrow> declaration_target \<Rightarrow> json \<Rightarrow> label \<Rightarrow>
     jvm_manifest_error + jvm_declaration_source" where
  "parse_jvm_declaration language owner_class owner_id target raw lbl =
     ebind (jm_object raw lbl) (\<lambda>v.
     ebind (jm_keys v declaration_keys lbl) (\<lambda>_.
     ebind (jm_at v lbl ''language'' (jm_enum language_name all_languages)) (\<lambda>manifest_language.
     ebind (raise_if (manifest_language \<noteq> language) (JmFault lbl JmLanguage)) (\<lambda>_.
     ebind (jm_at v lbl ''owner_class'' jm_string) (\<lambda>oc.
     ebind (raise_if (oc \<noteq> owner_class) (JmFault lbl JmOwnerClass)) (\<lambda>_.
     ebind (jm_at v lbl ''owner_declaration_id'' jm_string) (\<lambda>oi.
     ebind (raise_if (oi \<noteq> owner_id) (JmFault lbl JmOwnerDeclaration)) (\<lambda>_.
     ebind (jm_at v lbl ''jvm_name'' jm_string) (\<lambda>name.
     ebind (jm_at v lbl ''jvm_descriptor'' jm_string) (\<lambda>descriptor.
     ebind (jm_at v lbl ''source'' parse_provenance) (\<lambda>provenance.
     ebind (verify_declaration_identity v provenance
       (jvm_declaration_identity owner_class name descriptor) lbl) (\<lambda>_.
     ebind (jm_at v lbl ''parameters'' (jm_items parse_jvm_parameter)) (\<lambda>ps.
     ebind (jm_at v lbl ''result_jvm_type'' jm_string) (\<lambda>result.
     ebind (jm_at v lbl ''result_nullable'' jm_bool) (\<lambda>result_nullable.
     ebind (jm_at v lbl ''markers'' (parse_intent target)) (\<lambda>intent.
     ebind (jm_at v lbl ''visibility'' jm_string) (\<lambda>visibility.
     ebind (jm_at v lbl ''adapter_identity'' jm_string) (\<lambda>adapter.
     ebind (jm_at v lbl ''is_suspend'' jm_bool) (\<lambda>suspend.
     ebind (jm_at v lbl ''is_static'' jm_bool) (\<lambda>static.
     ebind (jm_at v lbl ''result_type_arguments'' (jm_items parse_jvm_type)) (\<lambda>arguments.
     let d = \<lparr>jds_provenance = provenance, jds_owner_id = owner_id, jds_owner_class = owner_class,
              jds_name = name, jds_descriptor = descriptor, jds_parameters = ps, jds_result = result,
              jds_result_nullable = result_nullable, jds_intent = intent, jds_visibility = visibility,
              jds_adapter = adapter, jds_language = language, jds_suspend = suspend, jds_static = static,
              jds_result_arguments = arguments\<rparr>
     in ebind (ewrap JmRecord (check_jvm_declaration d)) (\<lambda>_. Inr d))))))))))))))))))))))"

definition jvm_field_keys :: "string list" where
  "jvm_field_keys =
     [''source'', ''owner_declaration_id'', ''name'', ''type'', ''markers'', ''visibility'', ''mutable'',
      ''is_static'', ''accessor_identity'']"

definition parse_jvm_field :: "string \<Rightarrow> json \<Rightarrow> label \<Rightarrow> jvm_manifest_error + jvm_field_source" where
  "parse_jvm_field owner_id raw lbl =
     ebind (jm_object raw lbl) (\<lambda>v.
     ebind (jm_keys v jvm_field_keys lbl) (\<lambda>_.
     ebind (jm_at v lbl ''owner_declaration_id'' jm_string) (\<lambda>oi.
     ebind (raise_if (oi \<noteq> owner_id) (JmFault lbl JmOwnerDeclaration)) (\<lambda>_.
     ebind (jm_at v lbl ''source'' parse_provenance) (\<lambda>provenance.
     ebind (jm_at v lbl ''name'' jm_string) (\<lambda>name.
     ebind (jm_at v lbl ''type'' parse_jvm_type) (\<lambda>t.
     ebind (jm_at v lbl ''markers'' (parse_intent TgField)) (\<lambda>intent.
     ebind (jm_at v lbl ''visibility'' jm_string) (\<lambda>visibility.
     ebind (jm_at v lbl ''mutable'' jm_bool) (\<lambda>mutable.
     ebind (jm_at v lbl ''is_static'' jm_bool) (\<lambda>static.
     ebind (jm_at v lbl ''accessor_identity'' jm_string) (\<lambda>accessor.
     let f = \<lparr>jfs_provenance = provenance, jfs_owner_id = owner_id, jfs_name = name, jfs_type = t,
              jfs_intent = intent, jfs_visibility = visibility, jfs_mutable = mutable, jfs_static = static,
              jfs_accessor = accessor\<rparr>
     in ebind (ewrap JmRecord (check_jvm_field f)) (\<lambda>_. Inr f)))))))))))))"

definition all_forms :: "jvm_owner_form list" where
  "all_forms = [OfClass, OfKotlinObject, OfKotlinTopLevel, OfJavaStatic]"

definition owner_keys :: "string list" where
  "owner_keys =
     [''source'', ''language'', ''owner_class'', ''source_name'', ''form'', ''markers'', ''constructors'',
      ''declarations'', ''visibility'', ''fields'', ''enum_constants'', ''is_data'', ''is_record'', ''is_final'',
      ''type_parameter_count'', ''supertypes'']"

text \<open>The declarations of an owner without markers are functions, of a marked one methods.\<close>

definition owner_declaration_target :: "source_intent \<Rightarrow> declaration_target" where
  "owner_declaration_target i = (if intent_markers i = [] then TgFunction else TgMethod)"

definition parse_jvm_owner :: "json \<Rightarrow> label \<Rightarrow> jvm_manifest_error + jvm_owner_source" where
  "parse_jvm_owner raw lbl =
     ebind (jm_object raw lbl) (\<lambda>v.
     ebind (jm_keys v owner_keys lbl) (\<lambda>_.
     ebind (jm_at v lbl ''language'' (jm_enum language_name all_languages)) (\<lambda>language.
     ebind (jm_at v lbl ''owner_class'' jm_string) (\<lambda>owner_class.
     ebind (jm_at v lbl ''source'' parse_provenance) (\<lambda>provenance.
     ebind (raise_if (sp_declaration provenance \<noteq> jvm_owner_identity owner_class) (JmFault lbl JmOwnerIdentity)) (\<lambda>_.
     ebind (raise_if (sp_language provenance \<noteq> language_name language) (JmFault lbl JmOwnerLanguage)) (\<lambda>_.
     let owner_id = sp_declaration provenance in
     ebind (jm_at v lbl ''markers'' (parse_intent TgClass)) (\<lambda>intent.
     ebind (jm_at v lbl ''source_name'' jm_string) (\<lambda>name.
     ebind (jm_at v lbl ''form'' (jm_enum owner_form_name all_forms)) (\<lambda>form.
     ebind (jm_at v lbl ''constructors'' (jm_items (parse_jvm_constructor owner_class))) (\<lambda>constructors.
     ebind (jm_at v lbl ''declarations'' (jm_items (parse_jvm_declaration language owner_class owner_id
       (owner_declaration_target intent)))) (\<lambda>declarations.
     ebind (jm_at v lbl ''visibility'' jm_string) (\<lambda>visibility.
     ebind (jm_at v lbl ''fields'' (jm_items (parse_jvm_field owner_id))) (\<lambda>fs.
     ebind (jm_at v lbl ''enum_constants'' (jm_items jm_string)) (\<lambda>constants.
     ebind (jm_at v lbl ''is_data'' jm_bool) (\<lambda>is_data.
     ebind (jm_at v lbl ''is_record'' jm_bool) (\<lambda>is_record.
     ebind (jm_at v lbl ''is_final'' jm_bool) (\<lambda>is_final.
     ebind (jm_at v lbl ''type_parameter_count'' jm_integer) (\<lambda>type_parameters.
     ebind (jm_at v lbl ''supertypes'' (jm_items jm_string)) (\<lambda>supertypes.
     let s = \<lparr>jos_provenance = provenance, jos_language = language, jos_owner_class = owner_class,
              jos_name = name, jos_form = form, jos_intent = intent, jos_constructors = constructors,
              jos_declarations = declarations, jos_visibility = visibility, jos_fields = fs,
              jos_constants = constants, jos_data = is_data, jos_record = is_record, jos_final = is_final,
              jos_type_parameters = type_parameters, jos_supertypes = supertypes\<rparr>
     in ebind (ewrap JmRecord (check_jvm_owner s)) (\<lambda>_. Inr s)))))))))))))))))))))"

text \<open>\<open>read_jvm_manifest\<close> after the file is read: \<open>Some i\<close> demands the feature identity \<open>i\<close>.\<close>

definition parse_jvm_manifest :: "string option \<Rightarrow> json \<Rightarrow> jvm_manifest_error + jvm_source_manifest" where
  "parse_jvm_manifest expected raw =
     ebind (jm_object raw [LRoot ''manifest'']) (\<lambda>v.
     ebind (jm_keys v [''schema_version'', ''kind'', ''feature_id'', ''frontend_version'', ''owners'']
       [LRoot ''manifest'']) (\<lambda>_.
     ebind (raise_if (jitem v ''schema_version'' \<noteq> JStr jvm_schema_version) (JmFault [] JmSchema)) (\<lambda>_.
     ebind (jm_string (jitem v ''kind'') [LRoot ''kind'']) (\<lambda>kind.
     ebind (raise_if (kind \<noteq> jvm_manifest_kind) (JmFault [] JmKind)) (\<lambda>_.
     ebind (jm_string (jitem v ''feature_id'') [LRoot ''feature_id'']) (\<lambda>feature_id.
     ebind (raise_if (expected \<noteq> None \<and> expected \<noteq> Some feature_id) (JmFault [] JmOtherFeature)) (\<lambda>_.
     ebind (jm_list (jitem v ''owners'') [LRoot ''owners'']) (\<lambda>owners_raw.
     ebind (jm_string (jitem v ''frontend_version'') [LRoot ''frontend_version'']) (\<lambda>frontend_version.
     ebind (jm_items parse_jvm_owner (JArr owners_raw) [LRoot ''owners'']) (\<lambda>owners.
     let m = \<lparr>jm_feature = feature_id, jm_frontend = frontend_version, jm_owners = owners,
              jm_schema = jvm_schema_version\<rparr>
     in ebind (check_jvm_manifest m) (\<lambda>_. Inr m)))))))))))"

text \<open>The errors \<open>read_jvm_manifest\<close> turns into a \<open>JvmManifestError\<close> with the path of the file; the others
  leave it as they are.\<close>

fun is_manifest_error :: "jvm_manifest_error \<Rightarrow> bool" where
  "is_manifest_error (JmFault _ _) = True"
| "is_manifest_error (JmInside _ _) = True"
| "is_manifest_error _ = False"

end
