(* ===== verification/Naming.thy ===== *)
theory Naming
  imports Digests
begin

text \<open>
  The names a feature goes by (\<^verbatim>\<open>naming.py\<close>) and its validated identity
  (\<^verbatim>\<open>feature_identity.py\<close>).  Each regular expression is a predicate on the text; the code rejects
  text outside ASCII before it applies one.  The look at the directory a feature really has on disk is left
  out.
\<close>

section \<open>Splitting\<close>

text \<open>\<open>value.split(separator)\<close> for a single character.\<close>

fun py_split :: "char \<Rightarrow> string \<Rightarrow> string list" where
  "py_split x [] = [[]]"
| "py_split x (c # cs) =
     (if c = x then [] # py_split x cs
      else case py_split x cs of w # ws \<Rightarrow> (c # w) # ws | [] \<Rightarrow> [[c]])"

lemma py_split_nonempty [simp]: "py_split x s \<noteq> []"
  by (induction s) (auto split: list.splits)

text \<open>\<open>value.rsplit("/", 1)[-1]\<close>.\<close>

definition leaf_name :: "string \<Rightarrow> string" where
  "leaf_name s = last (py_split (CHR ''/'') s)"

definition drop_prefix :: "string \<Rightarrow> string \<Rightarrow> string" where
  "drop_prefix p s = (if take (length p) s = p then drop (length p) s else s)"

definition drop_suffix :: "string \<Rightarrow> string \<Rightarrow> string" where
  "drop_suffix p s = rev (drop_prefix (rev p) (rev s))"

definition str_join :: "string \<Rightarrow> string list \<Rightarrow> string" where
  "str_join sep ws = (case ws of [] \<Rightarrow> [] | w # rest \<Rightarrow> w @ concat (map (\<lambda>x. sep @ x) rest))"

section \<open>Patterns\<close>

datatype naming_reason =
    NameNotAscii
  | NameInvisible
  | NameTooLong
  | NameInvalid
  | ComponentTooLong
  | NameNotDerived
  | SeveralLines
  | IdentityMismatch
  | PathTooLong
  | AbsolutePathTooLong

text \<open>\<open>ValidationError\<close> with the thing it is about; \<open>IdentityMismatch\<close> is a \<open>ConfigurationError\<close>.\<close>

datatype named_thing =
    PackageName | JavascriptName | AndroidNamespace | PackageVersion | Description | FeatureIdentityOf

datatype naming_error = NamingError named_thing naming_reason

definition lower_or_digit :: "char \<Rightarrow> bool" where
  "lower_or_digit c \<longleftrightarrow> (let n = code_point c in (97 \<le> n \<and> n \<le> 122) \<or> (48 \<le> n \<and> n \<le> 57))"

definition npm_first :: "char \<Rightarrow> bool" where
  "npm_first c \<longleftrightarrow> lower_or_digit c \<or> c = CHR ''~''"

definition npm_rest :: "char \<Rightarrow> bool" where
  "npm_rest c \<longleftrightarrow> lower_or_digit c \<or> c \<in> set ''-_.~''"

definition npm_leaf :: "string \<Rightarrow> bool" where
  "npm_leaf s \<longleftrightarrow> s \<noteq> [] \<and> npm_first (hd s) \<and> list_all npm_rest (tl s)"

definition npm_scope :: "string \<Rightarrow> bool" where
  "npm_scope s \<longleftrightarrow> s \<noteq> [] \<and> (npm_first (hd s) \<or> hd s = CHR ''-'') \<and> list_all npm_rest (tl s)"

text \<open>\<open>NPM_NAME\<close>: an optional scope between \<open>@\<close> and the first slash, then the leaf.\<close>

definition npm_name :: "string \<Rightarrow> bool" where
  "npm_name s \<longleftrightarrow>
     (case s of
        [] \<Rightarrow> False
      | c # t \<Rightarrow>
          if c = CHR ''@'' then
            (case dropWhile (\<lambda>x. x \<noteq> CHR ''/'') t of
               [] \<Rightarrow> False
             | slash # leaf \<Rightarrow> npm_scope (takeWhile (\<lambda>x. x \<noteq> CHR ''/'') t) \<and> npm_leaf leaf)
          else npm_leaf s)"

definition js_module_name :: "string \<Rightarrow> bool" where
  "js_module_name s \<longleftrightarrow> s \<noteq> [] \<and> ascii_alpha (hd s) \<and> list_all ident_char (tl s)"

definition semver_number :: "string \<Rightarrow> bool" where
  "semver_number s \<longleftrightarrow> s \<noteq> [] \<and> list_all ascii_digit s \<and> (hd s = CHR ''0'' \<longrightarrow> tl s = [])"

definition semver_identifier :: "string \<Rightarrow> bool" where
  "semver_identifier s \<longleftrightarrow> s \<noteq> [] \<and> list_all (\<lambda>c. ascii_alpha c \<or> ascii_digit c \<or> c = CHR ''-'') s"

definition semver_identifiers :: "string \<Rightarrow> bool" where
  "semver_identifiers s \<longleftrightarrow> list_all semver_identifier (py_split (CHR ''.'') s)"

text \<open>The text up to the first \<open>x\<close>, and what follows it.\<close>

definition cut_at :: "char \<Rightarrow> string \<Rightarrow> string \<times> string option" where
  "cut_at x s =
     (takeWhile (\<lambda>c. c \<noteq> x) s, case dropWhile (\<lambda>c. c \<noteq> x) s of [] \<Rightarrow> None | _ # t \<Rightarrow> Some t)"

text \<open>\<open>SEMVER\<close>: neither the numbers nor the pre-release part contains a plus, and the numbers contain
  no dash, so the parts are cut at the first plus and the first dash.\<close>

definition semver :: "string \<Rightarrow> bool" where
  "semver s \<longleftrightarrow>
     (let (main, build) = cut_at (CHR ''+'') s; (core, pre) = cut_at (CHR ''-'') main in
      length (py_split (CHR ''.'') core) = 3 \<and> list_all semver_number (py_split (CHR ''.'') core) \<and>
      (case pre of None \<Rightarrow> True | Some p \<Rightarrow> semver_identifiers p) \<and>
      (case build of None \<Rightarrow> True | Some b \<Rightarrow> semver_identifiers b))"

section \<open>Reserved words\<close>

definition javascript_reserved :: "string list" where
  "javascript_reserved =
     [''await'', ''break'', ''case'', ''catch'', ''class'', ''const'', ''continue'', ''debugger'', ''default'',
      ''delete'', ''do'', ''else'', ''enum'', ''export'', ''extends'', ''false'', ''finally'', ''for'',
      ''function'', ''if'', ''implements'', ''import'', ''in'', ''instanceof'', ''interface'', ''let'', ''new'',
      ''null'', ''package'', ''private'', ''protected'', ''public'', ''return'', ''static'', ''super'',
      ''switch'', ''this'', ''throw'', ''true'', ''try'', ''typeof'', ''var'', ''void'', ''while'', ''with'',
      ''yield'']"

definition java_reserved :: "string list" where
  "java_reserved =
     [''_'', ''abstract'', ''assert'', ''boolean'', ''break'', ''byte'', ''case'', ''catch'', ''char'',
      ''class'', ''const'', ''continue'', ''default'', ''do'', ''double'', ''else'', ''enum'',
      ''exports'', ''extends'', ''false'', ''final'', ''finally'', ''float'', ''for'', ''goto'', ''if'',
      ''implements'', ''import'', ''instanceof'', ''int'', ''interface'', ''long'', ''module'',
      ''native'', ''new'', ''non-sealed'', ''null'', ''open'', ''opens'', ''package'', ''permits'',
      ''private'', ''protected'', ''provides'', ''public'', ''record'', ''requires'', ''return'',
      ''sealed'', ''short'', ''static'', ''strictfp'', ''super'', ''switch'', ''synchronized'', ''this'',
      ''throw'', ''throws'', ''to'', ''transient'', ''transitive'', ''true'', ''try'', ''uses'', ''var'',
      ''void'', ''volatile'', ''while'', ''with'', ''yield'']"

definition kotlin_reserved :: "string list" where
  "kotlin_reserved =
     [''_'', ''actual'', ''abstract'', ''annotation'', ''as'', ''break'', ''by'', ''catch'', ''class'',
      ''companion'', ''const'', ''constructor'', ''continue'', ''crossinline'', ''data'', ''delegate'',
      ''do'', ''dynamic'', ''else'', ''enum'', ''expect'', ''external'', ''false'', ''field'', ''file'',
      ''final'', ''finally'', ''for'', ''fun'', ''get'', ''if'', ''import'', ''in'', ''infix'', ''init'',
      ''inline'', ''inner'', ''interface'', ''internal'', ''is'', ''it'', ''lateinit'', ''noinline'',
      ''null'', ''object'', ''open'', ''operator'', ''out'', ''override'', ''package'', ''param'',
      ''private'', ''property'', ''protected'', ''public'', ''receiver'', ''reified'', ''return'',
      ''sealed'', ''set'', ''setparam'', ''super'', ''suspend'', ''tailrec'', ''this'', ''throw'',
      ''true'', ''try'', ''typealias'', ''typeof'', ''val'', ''var'', ''vararg'', ''when'', ''where'',
      ''while'']"

definition android_package_reserved :: "string list" where
  "android_package_reserved = java_reserved @ kotlin_reserved"

section \<open>Validation\<close>

definition reject_non_ascii :: "named_thing \<Rightarrow> string \<Rightarrow> naming_error + unit" where
  "reject_non_ascii what s = raise_if (\<not> list_all (\<lambda>c. code_point c < 128) s) (NamingError what NameNotAscii)"

text \<open>Below U+0100 the control characters are category Cc, only the soft hyphen is Cf, and no character
  has one of the bidirectional classes.\<close>

definition invisible :: "char \<Rightarrow> bool" where
  "invisible c \<longleftrightarrow> (let n = code_point c in n < 32 \<or> (127 \<le> n \<and> n < 160) \<or> n = 173)"

definition reject_invisible :: "named_thing \<Rightarrow> string \<Rightarrow> naming_error + unit" where
  "reject_invisible what s = raise_if (list_ex invisible s) (NamingError what NameInvisible)"

definition check_text :: "named_thing \<Rightarrow> string \<Rightarrow> naming_error + unit" where
  "check_text what s = ebind (reject_non_ascii what s) (\<lambda>_. reject_invisible what s)"

definition validate_package_name :: "string \<Rightarrow> naming_error + unit" where
  "validate_package_name s =
     ebind (check_text PackageName s) (\<lambda>_.
     ebind (raise_if (214 < length s) (NamingError PackageName NameTooLong)) (\<lambda>_.
     ebind (raise_if (\<not> npm_name s \<or> (s \<noteq> [] \<and> last s \<in> set ''./'') \<or>
         list_ex (\<lambda>p. p \<in> {''.'', ''..''}) (py_split (CHR ''/'') s)) (NamingError PackageName NameInvalid)) (\<lambda>_.
     echeck (\<lambda>p. raise_if (120 < length (drop_prefix ''@'' p)) (NamingError PackageName ComponentTooLong))
       (py_split (CHR ''/'') s))))"

definition validate_javascript_name :: "string \<Rightarrow> naming_error + unit" where
  "validate_javascript_name s =
     ebind (check_text JavascriptName s) (\<lambda>_.
     raise_if (\<not> js_module_name s \<or> s \<in> set javascript_reserved) (NamingError JavascriptName NameInvalid))"

definition validate_android_namespace :: "string \<Rightarrow> naming_error + unit" where
  "validate_android_namespace s =
     ebind (check_text AndroidNamespace s) (\<lambda>_.
     let parts = py_split (CHR ''.'') s in
     raise_if (length parts < 2 \<or> list_ex (\<lambda>p. \<not> is_identifier p \<or> p \<in> set android_package_reserved) parts)
       (NamingError AndroidNamespace NameInvalid))"

definition validate_package_version :: "string \<Rightarrow> naming_error + unit" where
  "validate_package_version s =
     ebind (check_text PackageVersion s) (\<lambda>_. raise_if (\<not> semver s) (NamingError PackageVersion NameInvalid))"

definition normalize_description :: "string \<Rightarrow> naming_error + string" where
  "normalize_description s =
     (let r = py_strip s in
      ebind (raise_if (list_ex (\<lambda>c. c = CHR 0x0A \<or> c = CHR 0x0D) r) (NamingError Description SeveralLines)) (\<lambda>_.
      ebind (reject_invisible Description r) (\<lambda>_. Inr r)))"

text \<open>\<open>validate_generated_paths\<close> of names that passed the checks above, for which \<open>Path\<close> has nothing to
  normalise; \<open>root\<close> is the text of the plugin's absolute directory, \<open>windows\<close> says \<open>os.name == "nt"\<close>.\<close>

definition generated_directory :: "string \<Rightarrow> string \<Rightarrow> string" where
  "generated_directory npm namespace =
     str_join ''/'' ([''local_modules'', npm, ''android'', ''src'', ''main'', ''java''] @ py_split (CHR ''.'') namespace)"

definition validate_generated_paths :: "bool \<Rightarrow> string \<Rightarrow> string \<Rightarrow> string \<Rightarrow> naming_error + unit" where
  "validate_generated_paths windows root npm namespace =
     ebind (raise_if (180 < length (''local_modules/'' @ npm)) (NamingError PackageName PathTooLong)) (\<lambda>_.
     ebind (raise_if (180 < length (generated_directory npm namespace)) (NamingError AndroidNamespace PathTooLong)) (\<lambda>_.
     raise_if (\<not> windows \<and> 240 < length (str_join ''/'' [drop_suffix ''/'' root, generated_directory npm namespace]))
       (NamingError AndroidNamespace AbsolutePathTooLong)))"

section \<open>Inference\<close>

definition is_separator :: "char \<Rightarrow> bool" where
  "is_separator c \<longleftrightarrow> c \<in> set ''-_.~''"

text \<open>\<open>[token for token in SEPARATORS.split(leaf) if token]\<close>: the longest runs of other characters.\<close>

fun name_tokens :: "string \<Rightarrow> string list" where
  "name_tokens [] = []"
| "name_tokens (c # cs) =
     (if is_separator c then name_tokens cs
      else case cs of
          d # ds \<Rightarrow> if is_separator d then [c] # name_tokens cs
                    else (case name_tokens cs of w # ws \<Rightarrow> (c # w) # ws | [] \<Rightarrow> [[c]])
        | [] \<Rightarrow> [[c]])"

definition source_tokens :: "string \<Rightarrow> string list" where
  "source_tokens s =
     name_tokens (drop_suffix ''-plugin'' (drop_prefix ''local-'' (drop_prefix ''react-native-'' (leaf_name s))))"

text \<open>\<open>str.upper\<close> and \<open>str.lower\<close> of a character.  The upper case of two characters below U+0100 is
  above it; they stay as they are, and the result is rejected either way.\<close>

definition py_upper :: "char \<Rightarrow> string" where
  "py_upper c =
     (let n = code_point c in
      if n = 223 then ''SS''
      else if (97 \<le> n \<and> n \<le> 122) \<or> (224 \<le> n \<and> n \<le> 254 \<and> n \<noteq> 247) then [char_of (n - 32)] else [c])"

definition py_lower :: "char \<Rightarrow> char" where
  "py_lower c =
     (let n = code_point c in
      if (65 \<le> n \<and> n \<le> 90) \<or> (192 \<le> n \<and> n \<le> 222 \<and> n \<noteq> 215) then char_of (n + 32) else c)"

definition capitalized :: "string \<Rightarrow> string" where
  "capitalized w = (case w of [] \<Rightarrow> [] | c # cs \<Rightarrow> py_upper c @ cs)"

definition infer_javascript_name :: "string \<Rightarrow> naming_error + string" where
  "infer_javascript_name s =
     (let v = concat (map capitalized (source_tokens s)) in
      ebind (raise_if (\<not> js_module_name v \<or> v \<in> set javascript_reserved) (NamingError JavascriptName NameNotDerived))
        (\<lambda>_. Inr v))"

definition infer_android_namespace :: "string \<Rightarrow> naming_error + string" where
  "infer_android_namespace s =
     (let v = ''com.example.'' @ map py_lower (str_join ''_'' (source_tokens s)) in
      case validate_android_namespace v of
        Inl _ \<Rightarrow> Inl (NamingError AndroidNamespace NameNotDerived)
      | Inr _ \<Rightarrow> Inr v)"

section \<open>Feature identity\<close>

record feature_identity =
  fi_npm :: string
  fi_namespace :: string
  fi_version :: string
  fi_feature :: string

definition canonical_feature_id :: "string \<Rightarrow> string" where
  "canonical_feature_id npm = ''supernote:feature:'' @ take 16 (sha256_hex (utf8_of npm))"

definition create_identity :: "string \<Rightarrow> string \<Rightarrow> string \<Rightarrow> string option \<Rightarrow> naming_error + feature_identity" where
  "create_identity npm namespace version feature_id =
     ebind (validate_package_name npm) (\<lambda>_.
     ebind (validate_android_namespace namespace) (\<lambda>_.
     ebind (validate_package_version version) (\<lambda>_.
     let expected = canonical_feature_id npm;
         actual = (case feature_id of None \<Rightarrow> expected | Some i \<Rightarrow> i) in
     ebind (raise_if (actual \<noteq> expected) (NamingError FeatureIdentityOf IdentityMismatch)) (\<lambda>_.
     Inr \<lparr>fi_npm = npm, fi_namespace = namespace, fi_version = version, fi_feature = actual\<rparr>))))"

text \<open>\<open>package_parts\<close>: scope and name, the scope with its \<open>@\<close>.\<close>

definition package_parts :: "feature_identity \<Rightarrow> string list" where
  "package_parts i =
     (case fi_npm i of
        c # _ \<Rightarrow>
          if c = CHR ''@'' then
            [takeWhile (\<lambda>x. x \<noteq> CHR ''/'') (fi_npm i), tl (dropWhile (\<lambda>x. x \<noteq> CHR ''/'') (fi_npm i))]
          else [fi_npm i]
      | [] \<Rightarrow> [fi_npm i])"

definition relative_root :: "feature_identity \<Rightarrow> string list" where
  "relative_root i = ''local_modules'' # package_parts i"

end
