(* ===== verification/Jvm_Routes.thy ===== *)
theory Jvm_Routes
  imports Jvm_Manifest Semantic_Merge Naming
begin

text \<open>
  Joining a semantic API to the JVM owners it came from (\<^verbatim>\<open>jvm_routes.py\<close>): the routes carry the owner
  classes, adapter identities and adapter descriptors that the API does not know.
\<close>

section \<open>Routes\<close>

datatype jvm_route_error =
    JrMissingProjection string
  | JrCallableSource
  | JrFieldNames
  | JrFieldSource
  | JrFieldMutability
  | JrAccessorIdentity
  | JrValueConstructor string
  | JrSemantics semantic_error
  | JrManyProjections string
  | JrMissingOwner string
  | JrMissingFunction string
  | JrEnumConstants string
  | JrMissingField string
  | JrMissingConstructor string
  | JrMissingMethod string
  | JrMethodScopes
  | JrTypeFault type_error
  | JrAssertion
  | JrKeyError string

record jvm_named_type_route =
  jnr_type_id :: string
  jnr_public :: string
  jnr_owner_class :: string
  jnr_language :: jvm_language
  jnr_kind :: type_kind
  jnr_source :: string

record jvm_callable_route =
  jcr_source :: string
  jcr_public :: string
  jcr_adapter :: string
  jcr_descriptor :: string
  jcr_parameters :: "sem_type list"
  jcr_result :: sem_type
  jcr_execution :: execution_mode
  jcr_owner :: "string option"
  jcr_static :: bool
  jcr_suspend :: bool
  jcr_javascript :: bool

record jvm_field_route =
  jfr_source :: string
  jfr_field_id :: string
  jfr_public :: string
  jfr_accessor :: string
  jfr_getter :: string
  jfr_setter :: "string option"
  jfr_type :: sem_type
  jfr_mutable :: bool

record jvm_object_route =
  jor_named :: jvm_named_type_route
  jor_constructor :: "jvm_callable_route option"
  jor_methods :: "jvm_callable_route list"
  jor_fields :: "jvm_field_route list"

record jvm_value_route =
  jvr_named :: jvm_named_type_route
  jvr_constructor :: jvm_callable_route
  jvr_constructor_fields :: "jvm_field_route list"
  jvr_fields :: "jvm_field_route list"

record jvm_enum_route =
  jer_named :: jvm_named_type_route
  jer_constants :: "string list"

record jvm_route_plan =
  jrp_functions :: "jvm_callable_route list"
  jrp_objects :: "jvm_object_route list"
  jrp_values :: "jvm_value_route list"
  jrp_enums :: "jvm_enum_route list"
  jrp_named_types :: "jvm_named_type_route list"

definition jvm_named_types_by_id :: "jvm_route_plan \<Rightarrow> string \<Rightarrow> jvm_named_type_route option" where
  "jvm_named_types_by_id plan = dict_by jnr_type_id (jrp_named_types plan)"

section \<open>Descriptors\<close>

fun boxed_descriptor :: "scalar_kind \<Rightarrow> string option" where
  "boxed_descriptor SBool = Some ''Ljava/lang/Boolean;''"
| "boxed_descriptor SInt32 = Some ''Ljava/lang/Integer;''"
| "boxed_descriptor SInt64 = Some ''Ljava/lang/Long;''"
| "boxed_descriptor SFloat32 = Some ''Ljava/lang/Float;''"
| "boxed_descriptor SFloat64 = Some ''Ljava/lang/Double;''"
| "boxed_descriptor _ = None"

fun scalar_descriptor :: "scalar_kind \<Rightarrow> string" where
  "scalar_descriptor SBool = ''Z''"
| "scalar_descriptor SInt32 = ''I''"
| "scalar_descriptor SInt64 = ''J''"
| "scalar_descriptor SFloat32 = ''F''"
| "scalar_descriptor SFloat64 = ''D''"
| "scalar_descriptor SString = ''[B''"
| "scalar_descriptor SBytes = ''[B''"

definition class_descriptor :: "string \<Rightarrow> string" where
  "class_descriptor name = ''L'' @ map (\<lambda>c. if c = CHR ''.'' then CHR ''/'' else c) name @ '';''"

type_synonym jvm_named = "string \<Rightarrow> jvm_named_type_route option"

fun adapter_descriptor :: "jvm_named \<Rightarrow> sem_type \<Rightarrow> jvm_route_error + string" where
  "adapter_descriptor named (SemType k s i e) =
     (if k = KVoid then Inr ''V''
      else if k = KNullable then
        (case e of
           None \<Rightarrow> Inl JrAssertion
         | Some c \<Rightarrow>
             (case (if st_kind c = KScalar then Option.bind (st_scalar c) boxed_descriptor else None) of
                Some d \<Rightarrow> Inr d
              | None \<Rightarrow> adapter_descriptor named c))
      else if k = KArray then Inr ''Ljava/util/List;''
      else if k = KScalar then (case s of None \<Rightarrow> Inl (JrKeyError []) | Some x \<Rightarrow> Inr (scalar_descriptor x))
      else case i of
        None \<Rightarrow> Inl JrAssertion
      | Some type_id \<Rightarrow>
          (case named type_id of
             None \<Rightarrow> Inl (JrMissingProjection type_id)
           | Some r \<Rightarrow> Inr (class_descriptor (jnr_owner_class r))))"

definition adapter_class :: "string \<Rightarrow> string" where
  "adapter_class identity = ''supernote.generated.adapters.Adapter_'' @ last (py_split (CHR ''.'') identity)"

section \<open>Callables and fields\<close>

text \<open>\<open>_callable\<close> takes a binding or a constructor, and a declaration or a constructor of an owner.\<close>

datatype jvm_semantic = OfBinding semantic_binding | OfConstructor semantic_constructor

datatype jvm_callable_source = OfDeclaration jvm_declaration_source | OfOwnerConstructor jvm_constructor_source

fun semantic_source_id :: "jvm_semantic \<Rightarrow> string" where
  "semantic_source_id (OfBinding b) = sp_declaration (b_source b)"
| "semantic_source_id (OfConstructor k) = sp_declaration (k_source k)"

fun semantic_parameter_types :: "jvm_semantic \<Rightarrow> sem_type list" where
  "semantic_parameter_types (OfBinding b) = map p_type (b_parameters b)"
| "semantic_parameter_types (OfConstructor k) = map p_type (k_parameters k)"

fun semantic_execution :: "jvm_semantic \<Rightarrow> execution_mode" where
  "semantic_execution (OfBinding b) = b_execution b"
| "semantic_execution (OfConstructor _) = ExecSync"

fun semantic_public :: "jvm_semantic \<Rightarrow> bool" where
  "semantic_public (OfBinding b) = bc_public (b_capabilities b)"
| "semantic_public (OfConstructor _) = True"

fun callable_source_id :: "jvm_callable_source \<Rightarrow> string" where
  "callable_source_id (OfDeclaration d) = sp_declaration (jds_provenance d)"
| "callable_source_id (OfOwnerConstructor c) = sp_declaration (jcs_provenance c)"

fun callable_adapter :: "jvm_callable_source \<Rightarrow> string" where
  "callable_adapter (OfDeclaration d) = jds_adapter d"
| "callable_adapter (OfOwnerConstructor c) = jcs_adapter c"

definition context_descriptor :: string where
  "context_descriptor = ''Lcom/facebook/react/bridge/ReactApplicationContext;''"

text \<open>The receiver of a method, or the context of a constructor.\<close>

fun receiver_descriptors :: "jvm_callable_source \<Rightarrow> bool \<Rightarrow> jvm_named_type_route \<Rightarrow> string list" where
  "receiver_descriptors (OfDeclaration _) static owner =
     (if static then [] else [class_descriptor (jnr_owner_class owner)])"
| "receiver_descriptors (OfOwnerConstructor _) static owner = [context_descriptor]"

definition jvm_callable ::
    "jvm_semantic \<Rightarrow> jvm_callable_source \<Rightarrow> jvm_named \<Rightarrow> jvm_named_type_route \<Rightarrow> string \<Rightarrow> sem_type \<Rightarrow> bool \<Rightarrow>
     bool \<Rightarrow> jvm_route_error + jvm_callable_route" where
  "jvm_callable semantic s named owner public_name result static suspend =
     ebind (raise_if (semantic_source_id semantic \<noteq> callable_source_id s) JrCallableSource) (\<lambda>_.
     ebind (emap (adapter_descriptor named) (semantic_parameter_types semantic)) (\<lambda>ds.
     ebind (if suspend then Inr ''Lkotlinx/coroutines/Job;'' else adapter_descriptor named result) (\<lambda>r.
     Inr \<lparr>jcr_source = callable_source_id s, jcr_public = public_name, jcr_adapter = callable_adapter s,
          jcr_descriptor = ''('' @ concat (receiver_descriptors s static owner @ ds @ (if suspend then [''J''] else [])) @ '')'' @ r,
          jcr_parameters = semantic_parameter_types semantic, jcr_result = result,
          jcr_execution = semantic_execution semantic, jcr_owner = Some (jnr_type_id owner), jcr_static = static,
          jcr_suspend = suspend, jcr_javascript = semantic_public semantic\<rparr>)))"

definition jvm_route_field ::
    "semantic_field \<Rightarrow> jvm_field_source \<Rightarrow> jvm_named_type_route \<Rightarrow> jvm_named \<Rightarrow> bool \<Rightarrow>
     jvm_route_error + jvm_field_route" where
  "jvm_route_field f s owner named copied =
     ebind (if copied then raise_if (f_name f \<noteq> jfs_name s) JrFieldNames
            else raise_if (sp_declaration (f_source f) \<noteq> sp_declaration (jfs_provenance s)) JrFieldSource) (\<lambda>_.
     ebind (raise_if (\<not> copied \<and> f_mutable f \<noteq> jfs_mutable s) JrFieldMutability) (\<lambda>_.
     ebind (raise_if (jfs_accessor s \<noteq> jvm_field_accessor_identity (sp_declaration (jfs_provenance s)))
       JrAccessorIdentity) (\<lambda>_.
     let receiver = class_descriptor (jnr_owner_class owner) in
     ebind (adapter_descriptor named (f_type f)) (\<lambda>d.
     Inr \<lparr>jfr_source = sp_declaration (jfs_provenance s), jfr_field_id = f_id f, jfr_public = f_name f,
          jfr_accessor = jfs_accessor s, jfr_getter = ''('' @ receiver @ '')'' @ d,
          jfr_setter = (if f_mutable f then Some (''('' @ receiver @ d @ '')V'') else None),
          jfr_type = f_type f, jfr_mutable = jfs_mutable s\<rparr>))))"

section \<open>Value constructors\<close>

definition visible_parameters :: "jvm_constructor_source \<Rightarrow> jvm_parameter_source list" where
  "visible_parameters c = filter (\<lambda>p. jps_injected p = None) (jcs_parameters c)"

definition value_constructor_fits :: "value_declaration \<Rightarrow> jvm_constructor_source \<Rightarrow> bool" where
  "value_constructor_fits d c \<longleftrightarrow>
     jcs_visibility c = ''public'' \<and>
     length (visible_parameters c) = length (remdups (map f_name (v_fields d))) \<and>
     set (map jps_name (visible_parameters c)) = set (map f_name (v_fields d))"

text \<open>Fields in the order of the constructor's parameters.\<close>

definition constructor_field_order ::
    "value_declaration \<Rightarrow> jvm_constructor_source \<Rightarrow> jvm_route_error + semantic_field list" where
  "constructor_field_order d c =
     emap (\<lambda>p. case dict_by f_name (v_fields d) (jps_name p) of
         None \<Rightarrow> Inl (JrKeyError (jps_name p)) | Some f \<Rightarrow> Inr f) (visible_parameters c)"

definition jvm_value_constructor ::
    "value_declaration \<Rightarrow> jvm_owner_source \<Rightarrow> jvm_named_type_route \<Rightarrow> jvm_named \<Rightarrow>
     jvm_route_error + jvm_callable_route \<times> string list" where
  "jvm_value_constructor d s owner named =
     (case filter (value_constructor_fits d) (jos_constructors s) of
        [c] \<Rightarrow>
          ebind (constructor_field_order d c) (\<lambda>fs.
          ebind (emap (adapter_descriptor named) (map f_type fs)) (\<lambda>ds.
          ebind (ewrap JrTypeFault (value_ref (v_type_id d))) (\<lambda>result.
          Inr (\<lparr>jcr_source = sp_declaration (jcs_provenance c), jcr_public = ''createValue'', jcr_adapter = jcs_adapter c,
                jcr_descriptor = ''('' @ context_descriptor @ concat ds @ '')'' @ class_descriptor (jnr_owner_class owner),
                jcr_parameters = map f_type fs, jcr_result = result, jcr_execution = ExecSync,
                jcr_owner = Some (jnr_type_id owner), jcr_static = True, jcr_suspend = False, jcr_javascript = True\<rparr>,
               map f_name fs))))
      | _ \<Rightarrow> Inl (JrValueConstructor (v_name d)))"

section \<open>The plan\<close>

definition jvm_route_type :: "semantic_api \<Rightarrow> sem_type \<Rightarrow> jvm_route_error + unit" where
  "jvm_route_type api t = ewrap JrSemantics (validate_semantic_route api t BfJvm BfJvm)"

definition jvm_route_binding :: "semantic_api \<Rightarrow> semantic_binding \<Rightarrow> jvm_route_error + unit" where
  "jvm_route_binding api b =
     ebind (echeck (jvm_route_type api \<circ> p_type) (b_parameters b)) (\<lambda>_. jvm_route_type api (b_result b))"

abbreviation owner_key :: "jvm_owner_source \<Rightarrow> string" where
  "owner_key s \<equiv> sp_declaration (jos_provenance s)"

fun reference_kind :: "declaration_kind \<Rightarrow> type_kind" where
  "reference_kind DkEnum = KEnumRef"
| "reference_kind DkValue = KValueRef"
| "reference_kind DkObject = KObjectRef"

definition named_jvm_route :: "semantic_declaration \<Rightarrow> jvm_owner_source \<Rightarrow> jvm_named_type_route" where
  "named_jvm_route d s =
     \<lparr>jnr_type_id = decl_type_id d, jnr_public = decl_name d, jnr_owner_class = jos_owner_class s,
      jnr_language = jos_language s, jnr_kind = reference_kind (decl_kind d), jnr_source = owner_key s\<rparr>"

text \<open>One round of the first loop: nothing for a declaration without a JVM projection.\<close>

definition join_declaration ::
    "jvm_owner_source list \<Rightarrow> semantic_declaration \<Rightarrow>
     jvm_route_error + (semantic_declaration \<times> jvm_owner_source) list" where
  "join_declaration owners d =
     (case filter (\<lambda>p. pr_backend p = BfJvm) (decl_projections d) of
        [] \<Rightarrow> Inr []
      | [p] \<Rightarrow>
          (case dict_by owner_key owners (sp_declaration (pr_source p)) of
             None \<Rightarrow> Inl (JrMissingOwner (sp_declaration (pr_source p)))
           | Some s \<Rightarrow> Inr [(d, s)])
      | _ \<Rightarrow> Inl (JrManyProjections (decl_name d)))"

definition owner_declarations :: "jvm_owner_source list \<Rightarrow> (jvm_owner_source \<times> jvm_declaration_source) list" where
  "owner_declarations owners = concat (map (\<lambda>s. map (Pair s) (jos_declarations s)) owners)"

definition implementation_owner_route :: "jvm_owner_source \<Rightarrow> jvm_named_type_route" where
  "implementation_owner_route s =
     \<lparr>jnr_type_id = ''jvm:implementation-owner:'' @ owner_key s, jnr_public = jos_name s,
      jnr_owner_class = jos_owner_class s, jnr_language = jos_language s, jnr_kind = KObjectRef,
      jnr_source = owner_key s\<rparr>"

definition plan_jvm_function ::
    "semantic_api \<Rightarrow> jvm_owner_source list \<Rightarrow> jvm_named \<Rightarrow> semantic_binding \<Rightarrow>
     jvm_route_error + jvm_callable_route list" where
  "plan_jvm_function api owners named b =
     (if sp_language (b_source b) \<notin> {''kotlin'', ''java''} then Inr []
      else
        ebind (jvm_route_binding api b) (\<lambda>_.
        if \<not> bc_public (b_capabilities b) then Inr []
        else
          case dict_by (\<lambda>(s, d). sp_declaration (jds_provenance d)) (owner_declarations owners) (sp_declaration (b_source b)) of
            None \<Rightarrow> Inl (JrMissingFunction (sp_declaration (b_source b)))
          | Some (owner, d) \<Rightarrow>
              if jos_form owner = OfClass \<and> \<not> jds_static d then Inr []
              else
                ebind (jvm_callable (OfBinding b) (OfDeclaration d) named (implementation_owner_route owner) (b_name b)
                  (b_result b) True (jds_suspend d)) (\<lambda>r. Inr [r])))"

definition plan_jvm_enum :: "enum_declaration \<Rightarrow> jvm_owner_source \<Rightarrow> jvm_route_error + jvm_enum_route" where
  "plan_jvm_enum d s =
     ebind (raise_if (e_constants d \<noteq> jos_constants s) (JrEnumConstants (e_name d))) (\<lambda>_.
     Inr \<lparr>jer_named = named_jvm_route (EnumDecl d) s, jer_constants = e_constants d\<rparr>)"

definition plan_jvm_fields ::
    "(jvm_field_source \<Rightarrow> string) \<Rightarrow> (semantic_field \<Rightarrow> string) \<Rightarrow> bool \<Rightarrow> jvm_named \<Rightarrow> jvm_named_type_route \<Rightarrow>
     jvm_owner_source \<Rightarrow> semantic_field list \<Rightarrow> jvm_route_error + jvm_field_route list" where
  "plan_jvm_fields source_key field_key copied named owner s =
     emap (\<lambda>f. case dict_by source_key (jos_fields s) (field_key f) of
         None \<Rightarrow> Inl (JrMissingField (sp_declaration (f_source f)))
       | Some x \<Rightarrow> jvm_route_field f x owner named copied)"

definition plan_jvm_value ::
    "jvm_named \<Rightarrow> value_declaration \<Rightarrow> jvm_owner_source \<Rightarrow> jvm_route_error + jvm_value_route" where
  "plan_jvm_value named d s =
     (let owner = named_jvm_route (ValueDecl d) s in
      ebind (plan_jvm_fields jfs_name f_name True named owner s (v_fields d)) (\<lambda>fs.
      ebind (jvm_value_constructor d s owner named) (\<lambda>(k, names).
      ebind (emap (\<lambda>n. case dict_by jfr_public fs n of None \<Rightarrow> Inl (JrKeyError n) | Some f \<Rightarrow> Inr f) names) (\<lambda>kfs.
      Inr \<lparr>jvr_named = owner, jvr_constructor = k, jvr_constructor_fields = kfs, jvr_fields = fs\<rparr>))))"

definition plan_jvm_constructor ::
    "semantic_api \<Rightarrow> jvm_named \<Rightarrow> object_declaration \<Rightarrow> jvm_owner_source \<Rightarrow>
     jvm_route_error + jvm_callable_route option" where
  "plan_jvm_constructor api named d s =
     (case o_constructor d of
        None \<Rightarrow> Inr None
      | Some k \<Rightarrow>
          ebind (echeck (jvm_route_type api \<circ> p_type) (k_parameters k)) (\<lambda>_.
          case dict_by (sp_declaration \<circ> jcs_provenance) (jos_constructors s) (sp_declaration (k_source k)) of
            None \<Rightarrow> Inl (JrMissingConstructor (o_name d))
          | Some c \<Rightarrow>
              ebind (ewrap JrTypeFault (object_ref (o_type_id d))) (\<lambda>result.
              ebind (jvm_callable (OfConstructor k) (OfOwnerConstructor c) named (named_jvm_route (ObjectDecl d) s)
                ''create'' result True False) (\<lambda>r. Inr (Some r)))))"

definition plan_jvm_method ::
    "semantic_api \<Rightarrow> jvm_named \<Rightarrow> jvm_named_type_route \<Rightarrow> jvm_owner_source \<Rightarrow> semantic_binding \<Rightarrow>
     jvm_route_error + jvm_callable_route" where
  "plan_jvm_method api named owner s b =
     ebind (jvm_route_binding api b) (\<lambda>_.
     case dict_by (sp_declaration \<circ> jds_provenance) (jos_declarations s) (sp_declaration (b_source b)) of
       None \<Rightarrow> Inl (JrMissingMethod (sp_declaration (b_source b)))
     | Some m \<Rightarrow>
         let static = (b_scope b = Some ScStatic) in
         ebind (raise_if (static \<noteq> jds_static m) JrMethodScopes) (\<lambda>_.
         jvm_callable (OfBinding b) (OfDeclaration m) named owner (b_name b) (b_result b) static (jds_suspend m)))"

definition plan_jvm_object ::
    "semantic_api \<Rightarrow> jvm_named \<Rightarrow> object_declaration \<Rightarrow> jvm_owner_source \<Rightarrow> jvm_route_error + jvm_object_route" where
  "plan_jvm_object api named d s =
     (let owner = named_jvm_route (ObjectDecl d) s in
      ebind (plan_jvm_fields (sp_declaration \<circ> jfs_provenance) (sp_declaration \<circ> f_source) False named owner s
        (o_fields d)) (\<lambda>fs.
      ebind (plan_jvm_constructor api named d s) (\<lambda>k.
      ebind (emap (plan_jvm_method api named owner s) (o_methods d)) (\<lambda>ms.
      Inr \<lparr>jor_named = owner, jor_constructor = k, jor_methods = ms, jor_fields = fs\<rparr>))))"

datatype planned_jvm =
    PlannedJvmObject jvm_object_route
  | PlannedJvmValue jvm_value_route
  | PlannedJvmEnum jvm_enum_route

fun plan_jvm_declaration ::
    "semantic_api \<Rightarrow> jvm_named \<Rightarrow> semantic_declaration \<times> jvm_owner_source \<Rightarrow> jvm_route_error + planned_jvm" where
  "plan_jvm_declaration api named (EnumDecl d, s) = ebind (plan_jvm_enum d s) (\<lambda>r. Inr (PlannedJvmEnum r))"
| "plan_jvm_declaration api named (ValueDecl d, s) = ebind (plan_jvm_value named d s) (\<lambda>r. Inr (PlannedJvmValue r))"
| "plan_jvm_declaration api named (ObjectDecl d, s) =
     ebind (plan_jvm_object api named d s) (\<lambda>r. Inr (PlannedJvmObject r))"

definition plan_jvm_routes :: "semantic_api \<Rightarrow> jvm_owner_source list \<Rightarrow> jvm_route_error + jvm_route_plan" where
  "plan_jvm_routes api owners =
     ebind (emap (join_declaration owners) (a_declarations api)) (\<lambda>joined.
     let joins = concat joined;
         routes = map (\<lambda>(d, s). named_jvm_route d s) joins;
         named = dict_by jnr_type_id routes in
     ebind (emap (plan_jvm_function api owners named) (a_functions api)) (\<lambda>fs.
     ebind (emap (plan_jvm_declaration api named) joins) (\<lambda>ds.
     Inr \<lparr>jrp_functions = concat fs,
          jrp_objects = List.map_filter (\<lambda>x. case x of PlannedJvmObject r \<Rightarrow> Some r | _ \<Rightarrow> None) ds,
          jrp_values = List.map_filter (\<lambda>x. case x of PlannedJvmValue r \<Rightarrow> Some r | _ \<Rightarrow> None) ds,
          jrp_enums = List.map_filter (\<lambda>x. case x of PlannedJvmEnum r \<Rightarrow> Some r | _ \<Rightarrow> None) ds,
          jrp_named_types = routes\<rparr>)))"

end
