(* ===== verification/Jvm_Projection.thy ===== *)
theory Jvm_Projection
  imports Source_Records Semantic_Api
begin

text \<open>
  From the JVM declarations the Kotlin and Java frontend reports to the semantic API
  (\<^verbatim>\<open>jvm_projection.py\<close>).  A spelling with its nullability and type arguments is a \<open>jvm_type\<close>; the
  recursion of \<open>canonical_jvm_type\<close> is structural on it.
\<close>

section \<open>Errors\<close>

datatype jvm_reason =
    NullableVoid
  | ListArguments
  | BoxedRequired string
  | PrimitiveRequired string
  | UnsupportedJvmType jvm_language string
  | JvmVoidNotResult
  | OwnerLanguageMismatch
  | MarkedClassVisibility
  | MarkedClassForm
  | NullableInjected
  | JvmSelectedTwice
  | JvmSelectedNotPublic
  | JvmFieldIdentity
  | JvmFieldVisibility
  | JvmStaticField
  | JvmFieldWithoutExport
  | MethodVisibility
  | TypeVisibility
  | GenericType
  | TypeSupertypes
  | JavaTypeNotFinal
  | ObjectNotClass
  | ValueNotData
  | ValueNotRecord
  | JvmSelectedOnValue
  | JvmValueMethods
  | JavaValueMutable
  | JavaValueConstructors
  | JavaValueParameters
  | OrdinaryDeclaration
  | DeclarationVisibility
  | OrdinaryMember
  | MemberVisibility
  | StaticMember
  | ServiceMemberRole
  | OwnerVisibility
  | OwnerDeclarationTarget
  | OwnerStaticFacts jvm_owner_form
  | OwnerConstruction
  | OwnerSelected
  | JvmSelectedOnService
  | JvmServiceConstruction
  | NoJvmConstructor
  | JvmConstructorSelection

datatype jvm_projection_error =
    JvmAt source_provenance jvm_reason
  | JvmModel semantic_error

section \<open>Types\<close>

definition kotlin_types :: "(string \<times> sem_type) list" where
  "kotlin_types =
     [(''kotlin.Unit'', t_void), (''kotlin.Boolean'', t_scalar SBool), (''kotlin.Int'', t_scalar SInt32),
      (''kotlin.Long'', t_scalar SInt64), (''kotlin.Float'', t_scalar SFloat32),
      (''kotlin.Double'', t_scalar SFloat64), (''kotlin.String'', t_scalar SString),
      (''kotlin.ByteArray'', t_scalar SBytes)]"

definition java_types :: "(string \<times> sem_type) list" where
  "java_types =
     [(''void'', t_void), (''boolean'', t_scalar SBool), (''int'', t_scalar SInt32), (''long'', t_scalar SInt64),
      (''float'', t_scalar SFloat32), (''double'', t_scalar SFloat64), (''java.lang.String'', t_scalar SString),
      (''byte[]'', t_scalar SBytes)]"

definition java_boxed_types :: "(string \<times> sem_type) list" where
  "java_boxed_types =
     [(''java.lang.Boolean'', t_scalar SBool), (''java.lang.Integer'', t_scalar SInt32),
      (''java.lang.Long'', t_scalar SInt64), (''java.lang.Float'', t_scalar SFloat32),
      (''java.lang.Double'', t_scalar SFloat64)]"

definition jvm_type_table :: "jvm_language \<Rightarrow> (string \<times> sem_type) list" where
  "jvm_type_table language = (case language of Kotlin \<Rightarrow> kotlin_types | Java \<Rightarrow> java_types)"

datatype jvm_named_kind = JkObject | JkValue | JkEnum

record jvm_named_type =
  jn_class :: string
  jn_kind :: jvm_named_kind
  jn_type_id :: string
  jn_public :: string

definition named_owner :: "string \<Rightarrow> jvm_owner_source \<Rightarrow> semantic_error + jvm_named_type list" where
  "named_owner feature_id s =
     (if \<not> declares_object (jos_intent s) \<and> \<not> declares_value (jos_intent s) then Inr []
      else
        ebind (semantic_type_id feature_id (jos_name s)) (\<lambda>type_id.
        Inr [\<lparr>jn_class = jos_owner_class s,
              jn_kind = (if jos_constants s \<noteq> [] then JkEnum
                         else if declares_object (jos_intent s) then JkObject else JkValue),
              jn_type_id = type_id, jn_public = jos_name s\<rparr>]))"

definition jvm_registry :: "string \<Rightarrow> jvm_owner_source list \<Rightarrow> semantic_error + jvm_named_type list" where
  "jvm_registry feature_id owners =
     ebind (emap (named_owner feature_id) owners) (\<lambda>rs. Inr (concat rs))"

definition resolve_jvm :: "jvm_named_type list \<Rightarrow> string \<Rightarrow> jvm_named_type option" where
  "resolve_jvm reg name = dict_by jn_class reg name"

text \<open>The Java scalar rules: primitives where the value is direct and not null, boxes elsewhere.\<close>

definition table_type ::
    "jvm_language \<Rightarrow> string \<Rightarrow> bool \<Rightarrow> bool \<Rightarrow> source_provenance \<Rightarrow> jvm_projection_error + sem_type option" where
  "table_type language spelling nullable generic source =
     (let semantic = map_of (jvm_type_table language) spelling; boxed = map_of java_boxed_types spelling in
      if language \<noteq> Java then Inr semantic
      else if generic \<or> nullable then
        (if boxed \<noteq> None then Inr boxed
         else if spelling \<in> {''boolean'', ''int'', ''long'', ''float'', ''double''}
         then Inl (JvmAt source (BoxedRequired spelling)) else Inr semantic)
      else if boxed \<noteq> None then Inl (JvmAt source (PrimitiveRequired spelling))
      else Inr semantic)"

definition named_type_ref :: "jvm_named_type \<Rightarrow> jvm_projection_error + sem_type" where
  "named_type_ref n =
     ewrap (JvmModel \<circ> TypeFault)
       (case jn_kind n of
          JkObject \<Rightarrow> object_ref (jn_type_id n)
        | JkValue \<Rightarrow> value_ref (jn_type_id n)
        | JkEnum \<Rightarrow> enum_ref (jn_type_id n))"

definition wrap_nullable :: "bool \<Rightarrow> sem_type \<Rightarrow> jvm_projection_error + sem_type" where
  "wrap_nullable nullable t =
     (if nullable then ewrap (JvmModel \<circ> TypeFault) (nullable_of t) else Inr t)"

definition direct_jvm_type ::
    "jvm_language \<Rightarrow> bool \<Rightarrow> bool \<Rightarrow> source_provenance \<Rightarrow> jvm_named_type list option \<Rightarrow> bool \<Rightarrow> string \<Rightarrow>
     jvm_projection_error + sem_type" where
  "direct_jvm_type language nullable result source registry generic spelling =
     ebind (table_type language spelling nullable generic source) (\<lambda>semantic.
     ebind (case semantic of
              Some t \<Rightarrow> Inr t
            | None \<Rightarrow>
                (case (case registry of None \<Rightarrow> None | Some reg \<Rightarrow> resolve_jvm reg spelling) of
                   Some n \<Rightarrow> named_type_ref n
                 | None \<Rightarrow> Inl (JvmAt source (UnsupportedJvmType language spelling)))) (\<lambda>t.
     ebind (raise_if (is_void t \<and> \<not> result) (JvmAt source JvmVoidNotResult)) (\<lambda>_.
     wrap_nullable nullable t)))"

fun canonical_jvm_type ::
    "jvm_language \<Rightarrow> bool \<Rightarrow> source_provenance \<Rightarrow> jvm_named_type list option \<Rightarrow> bool \<Rightarrow> jvm_type \<Rightarrow>
     jvm_projection_error + sem_type" where
  "canonical_jvm_type language result source registry generic (JvmType spelling nullable arguments) =
     (if nullable \<and> spelling \<in> {''kotlin.Unit'', ''void''} then Inl (JvmAt source NullableVoid)
      else if spelling \<in> {''kotlin.collections.List'', ''java.util.List''} then
        (case arguments of
           [a] \<Rightarrow>
             ebind (canonical_jvm_type language False source registry True a) (\<lambda>e.
             ebind (ewrap (JvmModel \<circ> TypeFault) (array_of e)) (wrap_nullable nullable))
         | _ \<Rightarrow> Inl (JvmAt source ListArguments))
      else direct_jvm_type language nullable result source registry generic spelling)"

section \<open>Members\<close>

fun jvm_parameters ::
    "source_provenance \<Rightarrow> jvm_language \<Rightarrow> jvm_named_type list option \<Rightarrow> jvm_parameter_source list \<Rightarrow>
     jvm_projection_error + semantic_parameter list" where
  "jvm_parameters source language registry [] = Inr []"
| "jvm_parameters source language registry (p # ps) =
     (if jps_injected p \<noteq> None then
        ebind (raise_if (jps_nullable p) (JvmAt source NullableInjected)) (\<lambda>_.
        jvm_parameters source language registry ps)
      else
        ebind (canonical_jvm_type language False source registry False
          (JvmType (jps_type p) (jps_nullable p) (jps_arguments p))) (\<lambda>t.
        ebind (ewrap JvmModel (mk_parameter (jps_name p) t)) (\<lambda>x.
        ebind (jvm_parameters source language registry ps) (\<lambda>xs. Inr (x # xs)))))"

definition jvm_result ::
    "jvm_language \<Rightarrow> jvm_named_type list option \<Rightarrow> jvm_declaration_source \<Rightarrow> jvm_projection_error + sem_type" where
  "jvm_result language registry s =
     canonical_jvm_type language True (jds_provenance s) registry False
       (JvmType (jds_result s) (jds_result_nullable s) (jds_result_arguments s))"

text \<open>The construction every binding goes through, with the projected result.\<close>

definition jvm_binding ::
    "jvm_language \<Rightarrow> jvm_named_type list option \<Rightarrow> binding_kind \<Rightarrow> jvm_declaration_source \<Rightarrow>
     jvm_projection_error + sem_type \<Rightarrow> string option \<Rightarrow> string option \<Rightarrow> member_scope option \<Rightarrow>
     jvm_projection_error + semantic_binding" where
  "jvm_binding language registry kind s result owner_id owner_name scope =
     ebind (jvm_parameters (jds_provenance s) language registry (jds_parameters s)) (\<lambda>ps.
     ebind result (\<lambda>r.
     ewrap JvmModel
       (mk_binding (''supernote:binding:'' @ sp_declaration (jds_provenance s)) kind (jds_name s)
          (capabilities_for_role (intent_role (jds_intent s))) (intent_execution (jds_intent s)) ps r
          (jds_provenance s) owner_id owner_name scope)))"

definition project_jvm_function ::
    "jvm_owner_source \<Rightarrow> jvm_named_type list option \<Rightarrow> jvm_declaration_source \<Rightarrow>
     jvm_projection_error + semantic_binding" where
  "project_jvm_function owner registry s =
     (let p = jds_provenance s in
      ebind (raise_if (intent_role (jds_intent s) = RoleOrdinary) (JvmAt p OrdinaryDeclaration)) (\<lambda>_.
      ebind (raise_if (jds_visibility s \<noteq> ''public'') (JvmAt p DeclarationVisibility)) (\<lambda>_.
      jvm_binding (jos_language owner) registry BkFunction s (jvm_result (jos_language owner) registry s)
        None None None)))"

definition jvm_object_method ::
    "jvm_owner_source \<Rightarrow> string \<Rightarrow> jvm_named_type list option \<Rightarrow> jvm_declaration_source \<Rightarrow>
     jvm_projection_error + semantic_binding" where
  "jvm_object_method owner owner_id registry s =
     ebind (raise_if (jds_visibility s \<noteq> ''public'') (JvmAt (jds_provenance s) MethodVisibility)) (\<lambda>_.
     jvm_binding (jos_language owner) registry BkObjectMethod s (jvm_result (jos_language owner) registry s)
       (Some owner_id) (Some (jos_name owner)) (Some (if jds_static s then ScStatic else ScInstance)))"

text \<open>\<open>_project_method\<close>, of the older class form: no registry, and the result without its type
  arguments.\<close>

definition jvm_class_method ::
    "jvm_owner_source \<Rightarrow> string \<Rightarrow> semantic_class_kind \<Rightarrow> jvm_declaration_source \<Rightarrow>
     jvm_projection_error + semantic_binding" where
  "jvm_class_method owner class_id kind s =
     (let p = jds_provenance s; role = intent_role (jds_intent s) in
      ebind (raise_if (role = RoleOrdinary) (JvmAt p OrdinaryMember)) (\<lambda>_.
      ebind (raise_if (jds_visibility s \<noteq> ''public'') (JvmAt p MemberVisibility)) (\<lambda>_.
      ebind (raise_if (jds_static s) (JvmAt p StaticMember)) (\<lambda>_.
      ebind (raise_if (kind = CkInternalService \<and> role \<noteq> RoleInternal) (JvmAt p ServiceMemberRole)) (\<lambda>_.
      jvm_binding (jos_language owner) None (if kind = CkJsObject then BkObjectMethod else BkServiceMethod) s
        (canonical_jvm_type (jos_language owner) True p None False
           (JvmType (jds_result s) (jds_result_nullable s) []))
        (Some class_id) (Some (jos_name owner)) None)))))"

definition jvm_field ::
    "jvm_owner_source \<Rightarrow> string \<Rightarrow> jvm_named_type list option \<Rightarrow> jvm_field_source \<Rightarrow>
     jvm_projection_error + semantic_field" where
  "jvm_field owner owner_id registry s =
     (let p = jfs_provenance s in
      ebind (raise_if (jfs_owner_id s \<noteq> sp_declaration (jos_provenance owner)) (JvmAt p JvmFieldIdentity)) (\<lambda>_.
      ebind (raise_if (jfs_visibility s \<noteq> ''public'') (JvmAt p JvmFieldVisibility)) (\<lambda>_.
      ebind (raise_if (jfs_static s) (JvmAt p JvmStaticField)) (\<lambda>_.
      ebind (raise_if (intent_role (jfs_intent s) \<noteq> RoleExported) (JvmAt p JvmFieldWithoutExport)) (\<lambda>_.
      ebind (canonical_jvm_type (jos_language owner) False p registry False (jfs_type s)) (\<lambda>t.
      ewrap JvmModel
        (mk_field (owner_id @ '':field:'' @ jfs_name s) owner_id (jfs_name s) t p (jfs_mutable s)
           (capabilities_for_role RoleExported) ScInstance True)))))))"

section \<open>Constructors\<close>

definition jvm_selected_constructor ::
    "jvm_owner_source \<Rightarrow> jvm_named_type list option \<Rightarrow> jvm_projection_error + semantic_constructor option" where
  "jvm_selected_constructor owner registry =
     (case filter jvm_constructor_selected (jos_constructors owner) of
        [] \<Rightarrow> Inr None
      | [c] \<Rightarrow>
          ebind (raise_if (jcs_visibility c \<noteq> ''public'') (JvmAt (jcs_provenance c) JvmSelectedNotPublic)) (\<lambda>_.
          ebind (jvm_parameters (jcs_provenance c) (jos_language owner) registry (jcs_parameters c)) (\<lambda>ps.
          ebind (ewrap JvmModel (mk_constructor (jcs_provenance c) ps)) (\<lambda>k. Inr (Some k))))
      | _ \<Rightarrow> Inl (JvmAt (jos_provenance owner) JvmSelectedTwice))"

definition owner_constructor :: "jvm_constructor_source \<Rightarrow> bool" where
  "owner_constructor c \<longleftrightarrow> jcs_visibility c = ''public'' \<and> length (jcs_parameters c) \<le> 1 \<and>
     list_all (\<lambda>p. jps_injected p \<noteq> None) (jcs_parameters c)"

text \<open>The loop of \<open>_select_class_constructor\<close>: only \<open>JvmProjectionError\<close> is caught.\<close>

fun jvm_eligible_constructors ::
    "jvm_language \<Rightarrow> jvm_constructor_source list \<Rightarrow>
     jvm_projection_error + (jvm_constructor_source \<times> semantic_parameter list) list" where
  "jvm_eligible_constructors language [] = Inr []"
| "jvm_eligible_constructors language (c # cs) =
     ebind (case jvm_parameters (jcs_provenance c) language None (jcs_parameters c) of
              Inl (JvmAt p r) \<Rightarrow> if jvm_constructor_selected c then Inl (JvmAt p r) else Inr []
            | Inl (JvmModel e) \<Rightarrow> Inl (JvmModel e)
            | Inr ps \<Rightarrow>
                if jcs_visibility c = ''public'' then Inr [(c, ps)]
                else if jvm_constructor_selected c then Inl (JvmAt (jcs_provenance c) JvmSelectedNotPublic)
                else Inr []) (\<lambda>here.
     ebind (jvm_eligible_constructors language cs) (\<lambda>rest. Inr (here @ rest)))"

definition select_class_constructor ::
    "jvm_owner_source \<Rightarrow> semantic_class_kind \<Rightarrow>
     jvm_projection_error + jvm_constructor_source \<times> semantic_parameter list" where
  "select_class_constructor owner kind =
     ebind (jvm_eligible_constructors (jos_language owner) (jos_constructors owner)) (\<lambda>eligible.
     let fail = (\<lambda>r. Inl (JvmAt (jos_provenance owner) r)) in
     if kind = CkInternalService then
       let eligible = filter (\<lambda>(c, _). owner_constructor c) eligible in
       if list_ex jvm_constructor_selected (jos_constructors owner) then fail JvmSelectedOnService
       else if length eligible \<noteq> 1 then fail JvmServiceConstruction
       else Inr (hd eligible)
     else
       let selected = filter (\<lambda>(c, _). jvm_constructor_selected c) eligible in
       if eligible = [] then fail NoJvmConstructor
       else if length eligible = 1 then Inr (if selected \<noteq> [] then hd selected else hd eligible)
       else if length selected \<noteq> 1 then fail JvmConstructorSelection
       else Inr (hd selected))"

section \<open>Declarations\<close>

definition validate_bridge_type :: "jvm_owner_source \<Rightarrow> jvm_projection_error + unit" where
  "validate_bridge_type owner =
     (let p = jos_provenance owner in
      ebind (raise_if (jos_visibility owner \<noteq> ''public'') (JvmAt p TypeVisibility)) (\<lambda>_.
      ebind (raise_if (jos_type_parameters owner \<noteq> 0) (JvmAt p GenericType)) (\<lambda>_.
      ebind (raise_if (jos_supertypes owner \<noteq> []) (JvmAt p TypeSupertypes)) (\<lambda>_.
      raise_if (jos_language owner = Java \<and> \<not> jos_final owner) (JvmAt p JavaTypeNotFinal)))))"

definition generated_declarations :: "jvm_owner_source \<Rightarrow> jvm_declaration_source list" where
  "generated_declarations owner = filter (\<lambda>d. intent_role (jds_intent d) \<noteq> RoleOrdinary) (jos_declarations owner)"

definition project_jvm_object ::
    "jvm_owner_source \<Rightarrow> jvm_named_type list option \<Rightarrow> string \<Rightarrow> jvm_projection_error + semantic_declaration" where
  "project_jvm_object owner registry feature_id =
     ebind (validate_bridge_type owner) (\<lambda>_.
     ebind (raise_if (jos_form owner \<noteq> OfClass) (JvmAt (jos_provenance owner) ObjectNotClass)) (\<lambda>_.
     ebind (ewrap JvmModel (semantic_type_id feature_id (jos_name owner))) (\<lambda>type_id.
     ebind (ewrap JvmModel (mk_projection BfJvm (jos_provenance owner))) (\<lambda>projection.
     ebind (jvm_selected_constructor owner registry) (\<lambda>k.
     ebind (emap (jvm_object_method owner type_id registry) (generated_declarations owner)) (\<lambda>ms.
     ebind (emap (jvm_field owner type_id registry) (jos_fields owner)) (\<lambda>fs.
     ewrap JvmModel (mk_object \<lparr>o_feature = feature_id, o_type_id = type_id, o_name = jos_name owner,
       o_projection = projection, o_constructor = k, o_methods = ms, o_fields = fs\<rparr>))))))))"

definition check_java_value ::
    "jvm_owner_source \<Rightarrow> jvm_named_type list option \<Rightarrow> semantic_field list \<Rightarrow> jvm_projection_error + unit" where
  "check_java_value owner registry fs =
     (let p = jos_provenance owner;
          eligible = filter (\<lambda>c. jcs_visibility c = ''public'') (jos_constructors owner) in
      ebind (raise_if (list_ex jfs_mutable (jos_fields owner)) (JvmAt p JavaValueMutable)) (\<lambda>_.
      ebind (raise_if (length eligible \<noteq> 1) (JvmAt p JavaValueConstructors)) (\<lambda>_.
      let c = hd eligible in
      ebind (jvm_parameters (jcs_provenance c) (jos_language owner) registry (jcs_parameters c)) (\<lambda>ps.
      raise_if (map (\<lambda>x. (p_name x, p_type x)) ps \<noteq> map (\<lambda>f. (f_name f, f_type f)) fs)
        (JvmAt (jcs_provenance c) JavaValueParameters)))))"

definition project_jvm_value ::
    "jvm_owner_source \<Rightarrow> jvm_named_type list option \<Rightarrow> string \<Rightarrow> jvm_projection_error + semantic_declaration" where
  "project_jvm_value owner registry feature_id =
     (let p = jos_provenance owner in
      ebind (validate_bridge_type owner) (\<lambda>_.
      ebind (raise_if (jos_language owner = Kotlin \<and> \<not> jos_data owner) (JvmAt p ValueNotData)) (\<lambda>_.
      ebind (raise_if (jos_language owner = Java \<and> \<not> (jos_record owner \<or> jos_final owner))
        (JvmAt p ValueNotRecord)) (\<lambda>_.
      ebind (raise_if (list_ex jvm_constructor_selected (jos_constructors owner)) (JvmAt p JvmSelectedOnValue)) (\<lambda>_.
      ebind (raise_if (generated_declarations owner \<noteq> []) (JvmAt p JvmValueMethods)) (\<lambda>_.
      ebind (ewrap JvmModel (semantic_type_id feature_id (jos_name owner))) (\<lambda>type_id.
      ebind (emap (jvm_field owner type_id registry) (jos_fields owner)) (\<lambda>fs.
      ebind (if jos_language owner = Java then check_java_value owner registry fs else Inr ()) (\<lambda>_.
      ebind (ewrap JvmModel (mk_projection BfJvm p)) (\<lambda>projection.
      ewrap JvmModel (mk_value \<lparr>v_feature = feature_id, v_type_id = type_id, v_name = jos_name owner,
        v_fields = fs, v_projections = [projection]\<rparr>)))))))))))"

definition project_jvm_enum ::
    "jvm_owner_source \<Rightarrow> string \<Rightarrow> jvm_projection_error + semantic_declaration" where
  "project_jvm_enum owner feature_id =
     ebind (validate_bridge_type owner) (\<lambda>_.
     ebind (ewrap JvmModel (semantic_type_id feature_id (jos_name owner))) (\<lambda>type_id.
     ebind (ewrap JvmModel (mk_projection BfJvm (jos_provenance owner))) (\<lambda>projection.
     ewrap JvmModel (mk_enum \<lparr>e_feature = feature_id, e_type_id = type_id, e_name = jos_name owner,
       e_constants = jos_constants owner, e_projections = [projection]\<rparr>))))"

section \<open>Owners\<close>

definition validate_owner_declaration ::
    "jvm_owner_source \<Rightarrow> jvm_declaration_source \<Rightarrow> jvm_projection_error + unit" where
  "validate_owner_declaration owner d =
     ebind (raise_if (si_target (jds_intent d) \<noteq> TgFunction) (JvmAt (jds_provenance d) OwnerDeclarationTarget)) (\<lambda>_.
     raise_if (jds_static d \<noteq> (jos_form owner \<in> {OfKotlinTopLevel, OfJavaStatic}))
       (JvmAt (jds_provenance d) (OwnerStaticFacts (jos_form owner))))"

definition validate_ordinary_owner_route :: "jvm_owner_source \<Rightarrow> jvm_projection_error + unit" where
  "validate_ordinary_owner_route owner =
     (let p = jos_provenance owner in
      ebind (raise_if (jos_visibility owner \<noteq> ''public'') (JvmAt p OwnerVisibility)) (\<lambda>_.
      ebind (echeck (validate_owner_declaration owner) (jos_declarations owner)) (\<lambda>_.
      if jos_form owner \<noteq> OfClass then Inr ()
      else
        ebind (raise_if (length (filter owner_constructor (jos_constructors owner)) \<noteq> 1)
          (JvmAt p OwnerConstruction)) (\<lambda>_.
        raise_if (list_ex jvm_constructor_selected (jos_constructors owner)) (JvmAt p OwnerSelected)))))"

definition project_jvm_class :: "jvm_owner_source \<Rightarrow> jvm_projection_error + semantic_class" where
  "project_jvm_class owner =
     (let p = jos_provenance owner; role = intent_role (jos_intent owner);
          kind = (if role = RoleExported then CkJsObject else CkInternalService);
          class_id = ''supernote:class:'' @ sp_declaration p in
      ebind (raise_if (jos_visibility owner \<noteq> ''public'') (JvmAt p MarkedClassVisibility)) (\<lambda>_.
      ebind (raise_if (jos_form owner \<noteq> OfClass) (JvmAt p MarkedClassForm)) (\<lambda>_.
      ebind (select_class_constructor owner kind) (\<lambda>(c, ps).
      ebind (emap (jvm_class_method owner class_id kind) (jos_declarations owner)) (\<lambda>ms.
      ebind (ewrap JvmModel (mk_constructor (jcs_provenance c) ps)) (\<lambda>k.
      ewrap JvmModel
        (mk_class class_id kind (jos_name owner) (capabilities_for_role role) p k ms)))))))"

definition project_jvm_owner ::
    "jvm_named_type list option \<Rightarrow> string \<Rightarrow> jvm_owner_source \<Rightarrow>
     jvm_projection_error + semantic_binding list \<times> semantic_class list \<times> semantic_declaration list" where
  "project_jvm_owner registry feature_id owner =
     ebind (raise_if (sp_language (jos_provenance owner) \<noteq> language_name (jos_language owner))
       (JvmAt (jos_provenance owner) OwnerLanguageMismatch)) (\<lambda>_.
     if declares_object (jos_intent owner) then
       ebind (project_jvm_object owner registry feature_id) (\<lambda>d. Inr ([], [], [d]))
     else if declares_value (jos_intent owner) then
       ebind (if jos_constants owner \<noteq> [] then project_jvm_enum owner feature_id
              else project_jvm_value owner registry feature_id) (\<lambda>d. Inr ([], [], [d]))
     else if intent_role (jos_intent owner) = RoleOrdinary then
       ebind (validate_ordinary_owner_route owner) (\<lambda>_.
       ebind (emap (project_jvm_function owner registry) (jos_declarations owner)) (\<lambda>bs. Inr (bs, [], [])))
     else ebind (project_jvm_class owner) (\<lambda>c. Inr ([], [c], [])))"

definition project_jvm_owners ::
    "jvm_owner_source list \<Rightarrow> string \<Rightarrow> jvm_projection_error + semantic_api" where
  "project_jvm_owners owners feature_id =
     ebind (ewrap JvmModel (jvm_registry feature_id owners)) (\<lambda>reg.
     ebind (emap (project_jvm_owner (Some reg) feature_id) owners) (\<lambda>parts.
     ewrap JvmModel
       (mk_api (concat (map fst parts)) (concat (map (fst \<circ> snd) parts)) (concat (map (snd \<circ> snd) parts)))))"

end
