(* ===== verification/Jvm_Projection_Props.thy ===== *)
theory Jvm_Projection_Props
  imports Jvm_Projection Frontend
begin

text \<open>
  What the projection of JVM owners guarantees: it interprets the frontend contract for the JVM backend,
  and the API mirrors the owners.
\<close>

section \<open>Types\<close>

lemma jvm_tables:
  "map_of (jvm_type_table language) s = Some t \<Longrightarrow> wf_type t"
  "map_of java_boxed_types s = Some t \<Longrightarrow> wf_type t"
  by (cases language;
      auto simp: jvm_type_table_def kotlin_types_def java_types_def java_boxed_types_def t_void_def t_scalar_def
        check_type_cases split: if_splits)+

lemma table_type_wf: "table_type language s nullable generic source = Inr (Some t) \<Longrightarrow> wf_type t"
  by (auto simp: table_type_def Let_def jvm_tables split: if_splits)

lemma named_type_ref_wf: "named_type_ref n = Inr t \<Longrightarrow> wf_type t \<and> is_named (st_kind t)"
  using reference_wf [of "jn_type_id n" t] by (cases "jn_kind n") (simp_all add: named_type_ref_def)

lemma wrap_nullable_wf:
  "wrap_nullable nullable e = Inr t \<Longrightarrow> wf_type e \<Longrightarrow> wf_type t \<and> (is_void t \<longrightarrow> t = e)"
  using wrapper_wf by (auto simp: wrap_nullable_def split: if_splits)

lemma direct_jvm_type_wf:
  assumes "direct_jvm_type language nullable result source registry generic s = Inr t"
  shows "wf_type t \<and> (is_void t \<longrightarrow> result)"
proof -
  from assms obtain e where e: "wrap_nullable nullable e = Inr t" "is_void e \<longrightarrow> result"
    and from_table: "table_type language s nullable generic source = Inr (Some e) \<or>
      (\<exists>n. named_type_ref n = Inr e)"
    by (auto simp: direct_jvm_type_def split: option.splits)
  have "wf_type e" using from_table table_type_wf named_type_ref_wf by blast
  with e wrap_nullable_wf show ?thesis by blast
qed

lemma canonical_jvm_type_wf:
  "canonical_jvm_type language result source registry generic ty = Inr t \<Longrightarrow>
     wf_type t \<and> (is_void t \<longrightarrow> result)"
proof (induction language result source registry generic ty arbitrary: t rule: canonical_jvm_type.induct)
  case (1 language result source registry generic spelling nullable arguments)
  show ?case
  proof (cases "spelling \<in> {''kotlin.collections.List'', ''java.util.List''}")
    case True
    with "1.prems" obtain a e f where a: "arguments = [a]"
      "canonical_jvm_type language False source registry True a = Inr e" "array_of e = Inr f"
      "wrap_nullable nullable f = Inr t"
      by (auto split: if_splits list.splits)
    from True "1.prems" have "\<not> (nullable \<and> spelling \<in> {''kotlin.Unit'', ''void''})" by auto
    from "1.IH" [OF this True a(1) refl a(2)] have "wf_type e" by simp
    then have "wf_type f \<and> \<not> is_void f" using wrapper_wf a(3) by blast
    with wrap_nullable_wf [OF a(4)] show ?thesis by blast
  next
    case False
    with "1.prems" have "direct_jvm_type language nullable result source registry generic spelling = Inr t"
      by (auto split: if_splits)
    then show ?thesis by (rule direct_jvm_type_wf)
  qed
qed

declare canonical_jvm_type.simps [simp del]

section \<open>Members\<close>

lemma jvm_parameters_valid:
  "jvm_parameters source language registry ps = Inr xs \<Longrightarrow> list_all valid_parameter xs"
proof (induction ps arbitrary: xs)
  case (Cons p ps)
  show ?case
  proof (cases "jps_injected p")
    case None
    with Cons.prems obtain t x ys where t: "canonical_jvm_type language False source registry False
        (JvmType (jps_type p) (jps_nullable p) (jps_arguments p)) = Inr t"
      "mk_parameter (jps_name p) t = Inr x" "jvm_parameters source language registry ps = Inr ys" "xs = x # ys"
      by auto
    then have "valid_parameter x"
      using canonical_jvm_type_wf [OF t(1)] by (auto simp: mk_parameter_def valid_parameter_def Let_def)
    with t Cons.IH show ?thesis by simp
  next
    case (Some d)
    with Cons show ?thesis by auto
  qed
qed simp

lemma jvm_result_wf: "jvm_result language registry s = Inr t \<Longrightarrow> wf_type t"
  unfolding jvm_result_def by (drule canonical_jvm_type_wf) blast

lemma jvm_binding_Inr:
  assumes "jvm_binding language registry k s result oi on sc = Inr b"
  obtains ps r where "jvm_parameters (jds_provenance s) language registry (jds_parameters s) = Inr ps"
    "result = Inr r"
    "mk_binding (''supernote:binding:'' @ sp_declaration (jds_provenance s)) k (jds_name s)
       (capabilities_for_role (intent_role (jds_intent s))) (intent_execution (jds_intent s)) ps r
       (jds_provenance s) oi on sc = Inr b"
  using assms that by (auto simp: jvm_binding_def)

lemma jvm_binding_valid:
  assumes "jvm_binding language registry k s result oi on sc = Inr b" "valid_source (jds_provenance s)"
    "\<And>t. result = Inr t \<Longrightarrow> wf_type t"
  shows "valid_binding b"
  using assms(1)
proof (cases rule: jvm_binding_Inr)
  case (1 ps r)
  show ?thesis
    by (rule mk_binding_valid [OF 1(3)]) (use jvm_parameters_valid [OF 1(1)] assms(2,3) 1(2) in simp_all)
qed

lemma mk_binding_source: "mk_binding i k n c e ps r p oi on sc = Inr b \<Longrightarrow> b_source b = p"
  by (auto simp: mk_binding_def Let_def)

lemma jvm_binding_source: "jvm_binding language registry k s result oi on sc = Inr b \<Longrightarrow> b_source b = jds_provenance s"
  by (elim jvm_binding_Inr) (rule mk_binding_source)

section \<open>Valid owners\<close>

text \<open>Provenance records exist only checked.\<close>

definition owner_located :: "jvm_owner_source \<Rightarrow> bool" where
  "owner_located s \<longleftrightarrow> valid_source (jos_provenance s) \<and>
     list_all (valid_source \<circ> jcs_provenance) (jos_constructors s) \<and>
     list_all (valid_source \<circ> jds_provenance) (jos_declarations s) \<and>
     list_all (valid_source \<circ> jfs_provenance) (jos_fields s)"

lemma project_jvm_function_valid:
  assumes "project_jvm_function owner registry s = Inr b" "valid_source (jds_provenance s)"
  shows "valid_binding b \<and> b_source b = jds_provenance s"
  using assms jvm_binding_valid jvm_binding_source jvm_result_wf
  by (auto simp: project_jvm_function_def Let_def)

lemma jvm_object_method_valid:
  assumes "jvm_object_method owner i registry s = Inr b" "valid_source (jds_provenance s)"
  shows "valid_binding b"
  using assms jvm_binding_valid jvm_result_wf by (auto simp: jvm_object_method_def)

lemma jvm_class_method_valid:
  assumes "jvm_class_method owner i kind s = Inr b" "valid_source (jds_provenance s)"
  shows "valid_binding b"
  using assms jvm_binding_valid canonical_jvm_type_wf by (auto simp: jvm_class_method_def Let_def)

lemma jvm_field_valid:
  assumes "jvm_field owner i registry s = Inr f" "valid_source (jfs_provenance s)" shows "valid_field f"
proof -
  from assms(1) obtain t where
    "canonical_jvm_type (jos_language owner) False (jfs_provenance s) registry False (jfs_type s) = Inr t"
    "mk_field (i @ '':field:'' @ jfs_name s) i (jfs_name s) t (jfs_provenance s) (jfs_mutable s)
       (capabilities_for_role RoleExported) ScInstance True = Inr f"
    by (auto simp: jvm_field_def Let_def)
  then show ?thesis
    using assms(2) canonical_jvm_type_wf role_capabilities_valid [of RoleExported]
    by (auto simp: mk_field_def valid_field_def Let_def)
qed

lemma jvm_selected_constructor_valid:
  assumes "jvm_selected_constructor owner registry = Inr (Some k)" "owner_located owner"
  shows "valid_constructor k"
proof (cases "filter jvm_constructor_selected (jos_constructors owner)")
  case (Cons c cs)
  with assms have "cs = []" by (cases cs) (simp_all add: jvm_selected_constructor_def)
  with Cons assms(1) obtain ps where
    "jvm_parameters (jcs_provenance c) (jos_language owner) registry (jcs_parameters c) = Inr ps"
    "mk_constructor (jcs_provenance c) ps = Inr k"
    by (auto simp: jvm_selected_constructor_def)
  moreover have "c \<in> set (jos_constructors owner)" using filter_eq_ConsD [OF Cons] by auto
  ultimately show ?thesis
    using assms(2) mk_constructor_valid jvm_parameters_valid by (auto simp: owner_located_def list_all_iff)
qed (use assms in \<open>simp add: jvm_selected_constructor_def\<close>)

section \<open>Declarations\<close>

lemma project_jvm_object_Inr:
  assumes "project_jvm_object owner registry feature_id = Inr d"
  obtains type_id ms fs k where
    "emap (jvm_object_method owner type_id registry) (generated_declarations owner) = Inr ms"
    "emap (jvm_field owner type_id registry) (jos_fields owner) = Inr fs"
    "jvm_selected_constructor owner registry = Inr k"
    "check_projection \<lparr>pr_backend = BfJvm, pr_source = jos_provenance owner\<rparr> = Inr ()"
    "d = ObjectDecl \<lparr>o_feature = feature_id, o_type_id = type_id, o_name = jos_name owner,
       o_projection = \<lparr>pr_backend = BfJvm, pr_source = jos_provenance owner\<rparr>, o_constructor = k,
       o_methods = ms, o_fields = fs\<rparr>"
    "mk_object \<lparr>o_feature = feature_id, o_type_id = type_id, o_name = jos_name owner,
       o_projection = \<lparr>pr_backend = BfJvm, pr_source = jos_provenance owner\<rparr>, o_constructor = k,
       o_methods = ms, o_fields = fs\<rparr> = Inr d"
  using assms that by (auto simp: project_jvm_object_def mk_projection_def Let_def mk_object_def)

lemma project_jvm_value_Inr:
  assumes "project_jvm_value owner registry feature_id = Inr d"
  obtains type_id fs where
    "emap (jvm_field owner type_id registry) (jos_fields owner) = Inr fs"
    "check_projection \<lparr>pr_backend = BfJvm, pr_source = jos_provenance owner\<rparr> = Inr ()"
    "d = ValueDecl \<lparr>v_feature = feature_id, v_type_id = type_id, v_name = jos_name owner, v_fields = fs,
       v_projections = [\<lparr>pr_backend = BfJvm, pr_source = jos_provenance owner\<rparr>]\<rparr>"
    "mk_value \<lparr>v_feature = feature_id, v_type_id = type_id, v_name = jos_name owner, v_fields = fs,
       v_projections = [\<lparr>pr_backend = BfJvm, pr_source = jos_provenance owner\<rparr>]\<rparr> = Inr d"
  using assms that by (auto simp: project_jvm_value_def mk_projection_def Let_def mk_value_def)

lemma project_jvm_enum_Inr:
  assumes "project_jvm_enum owner feature_id = Inr d"
  obtains type_id where
    "check_projection \<lparr>pr_backend = BfJvm, pr_source = jos_provenance owner\<rparr> = Inr ()"
    "d = EnumDecl \<lparr>e_feature = feature_id, e_type_id = type_id, e_name = jos_name owner,
       e_constants = jos_constants owner,
       e_projections = [\<lparr>pr_backend = BfJvm, pr_source = jos_provenance owner\<rparr>]\<rparr>"
    "mk_enum \<lparr>e_feature = feature_id, e_type_id = type_id, e_name = jos_name owner,
       e_constants = jos_constants owner,
       e_projections = [\<lparr>pr_backend = BfJvm, pr_source = jos_provenance owner\<rparr>]\<rparr> = Inr d"
  using assms that by (auto simp: project_jvm_enum_def mk_projection_def Let_def mk_enum_def)

lemma jvm_fields_valid:
  assumes "emap (jvm_field owner i registry) (jos_fields owner) = Inr fs" "owner_located owner"
  shows "list_all valid_field fs"
  using assms(2) jvm_field_valid by (intro emap_list_all [OF assms(1)]) (auto simp: list_all_iff owner_located_def)

lemma project_jvm_object_valid:
  assumes "project_jvm_object owner registry feature_id = Inr d" "owner_located owner"
  shows "declared_by BfJvm (jos_provenance owner) d"
  using assms(1)
proof (cases rule: project_jvm_object_Inr)
  case (1 type_id ms fs k)
  have "list_all valid_binding ms"
    using assms(2) jvm_object_method_valid
    by (intro emap_list_all [OF 1(1)]) (auto simp: list_all_iff owner_located_def generated_declarations_def)
  moreover have "case k of None \<Rightarrow> True | Some x \<Rightarrow> valid_constructor x"
    using 1(3) jvm_selected_constructor_valid assms(2) by (cases k) auto
  ultimately show ?thesis
    using 1 assms(2) jvm_fields_valid [OF 1(2)]
    by (auto simp: declared_by_def mk_object_def valid_projection_def owner_located_def)
qed

lemma project_jvm_value_valid:
  assumes "project_jvm_value owner registry feature_id = Inr d" "owner_located owner"
  shows "declared_by BfJvm (jos_provenance owner) d"
  using assms(1)
proof (cases rule: project_jvm_value_Inr)
  case (1 type_id fs)
  with assms(2) jvm_fields_valid [OF 1(1)] show ?thesis
    by (auto simp: declared_by_def mk_value_def valid_projection_def owner_located_def)
qed

lemma project_jvm_enum_valid:
  assumes "project_jvm_enum owner feature_id = Inr d" "owner_located owner"
  shows "declared_by BfJvm (jos_provenance owner) d"
  using assms(1)
proof (cases rule: project_jvm_enum_Inr)
  case (1 type_id)
  with assms(2) show ?thesis
    by (auto simp: declared_by_def mk_enum_def valid_projection_def owner_located_def)
qed

section \<open>The older class form\<close>

lemma jvm_eligible_valid:
  "jvm_eligible_constructors language cs = Inr es \<Longrightarrow> (c, ps) \<in> set es \<Longrightarrow>
     c \<in> set cs \<and> list_all valid_parameter ps"
proof (induction cs arbitrary: es)
  case (Cons x xs)
  then show ?case
    using jvm_parameters_valid [of "jcs_provenance x" language None "jcs_parameters x"]
    by (auto split: sum.splits if_splits jvm_projection_error.splits)
qed simp

lemma select_class_constructor_valid:
  assumes "select_class_constructor owner kind = Inr (c, ps)"
  shows "c \<in> set (jos_constructors owner) \<and> list_all valid_parameter ps"
proof -
  from assms obtain es where es: "jvm_eligible_constructors (jos_language owner) (jos_constructors owner) = Inr es"
    by (auto simp: select_class_constructor_def)
  let ?own = "filter (\<lambda>(c, _). owner_constructor c) es" and ?sel = "filter (\<lambda>(c, _). jvm_constructor_selected c) es"
  have "(c, ps) = hd ?own \<and> ?own \<noteq> [] \<or> (c, ps) = hd ?sel \<and> ?sel \<noteq> [] \<or> (c, ps) = hd es \<and> es \<noteq> []"
    using assms es by (auto simp: select_class_constructor_def Let_def split: if_splits)
  then have "(c, ps) \<in> set es" by (metis filter_is_subset hd_in_set in_mono)
  with jvm_eligible_valid [OF es] show ?thesis by blast
qed

lemma project_jvm_class_valid:
  assumes "project_jvm_class owner = Inr c" "owner_located owner" shows "valid_class c"
proof -
  let ?role = "intent_role (jos_intent owner)"
  let ?kind = "if ?role = RoleExported then CkJsObject else CkInternalService"
  let ?id = "''supernote:class:'' @ sp_declaration (jos_provenance owner)"
  from assms(1) obtain kc ps ms k where k: "select_class_constructor owner ?kind = Inr (kc, ps)"
    "emap (jvm_class_method owner ?id ?kind) (jos_declarations owner) = Inr ms"
    "mk_constructor (jcs_provenance kc) ps = Inr k"
    "mk_class ?id ?kind (jos_name owner) (capabilities_for_role ?role) (jos_provenance owner) k ms = Inr c"
    unfolding project_jvm_class_def Let_def by (force split: if_splits)
  have "list_all valid_binding ms"
    using assms(2) jvm_class_method_valid
    by (intro emap_list_all [OF k(2)]) (auto simp: list_all_iff owner_located_def)
  moreover have "valid_constructor k"
    using mk_constructor_valid [OF k(3)] select_class_constructor_valid [OF k(1)] assms(2)
    by (auto simp: owner_located_def list_all_iff)
  ultimately show ?thesis
    using k(4) assms(2) by (auto simp: mk_class_def valid_class_def owner_located_def Let_def)
qed

section \<open>The API\<close>

definition plain_owner :: "jvm_owner_source \<Rightarrow> bool" where
  "plain_owner s \<longleftrightarrow> \<not> declares_object (jos_intent s) \<and> \<not> declares_value (jos_intent s)"

definition owner_intent_built :: "jvm_owner_source \<Rightarrow> bool" where
  "owner_intent_built s \<longleftrightarrow> built_class_intent (jos_intent s)"

lemma project_jvm_owner_Inr:
  assumes "project_jvm_owner registry feature_id s = Inr (bs, ls, ds)"
  obtains (declares) d where "\<not> plain_owner s" "bs = []" "ls = []" "ds = [d]"
      "project_jvm_object s registry feature_id = Inr d \<or> project_jvm_enum s feature_id = Inr d \<or>
       project_jvm_value s registry feature_id = Inr d"
  | (plain) "plain_owner s" "emap (project_jvm_function s registry) (jos_declarations s) = Inr bs" "ls = []" "ds = []"
  | (legacy) c where "plain_owner s" "intent_role (jos_intent s) \<noteq> RoleOrdinary" "project_jvm_class s = Inr c"
      "bs = []" "ls = [c]" "ds = []"
  using assms by (auto simp: project_jvm_owner_def plain_owner_def split: if_splits)

lemma owner_functions:
  assumes "emap (project_jvm_function s registry) (jos_declarations s) = Inr bs" "owner_located s"
  shows "list_all valid_binding bs \<and> map b_source bs = map jds_provenance (jos_declarations s)"
proof
  show "list_all valid_binding bs"
    using assms(2) project_jvm_function_valid
    by (intro emap_list_all [OF assms(1)]) (auto simp: list_all_iff owner_located_def)
  show "map b_source bs = map jds_provenance (jos_declarations s)"
    using assms(1) unfolding emap_Inr_iff
    by (rule list_all2_sources)
      (use assms(2) project_jvm_function_valid in \<open>auto simp: list_all_iff owner_located_def\<close>)
qed

definition owner_mirrors ::
    "jvm_owner_source \<Rightarrow> semantic_binding list \<times> semantic_class list \<times> semantic_declaration list \<Rightarrow> bool" where
  "owner_mirrors s part \<longleftrightarrow>
     map b_source (fst part) = (if plain_owner s \<and> intent_role (jos_intent s) = RoleOrdinary
                                then map jds_provenance (jos_declarations s) else []) \<and>
     map c_source (fst (snd part)) = (if plain_owner s \<and> intent_role (jos_intent s) \<noteq> RoleOrdinary
                                      then [jos_provenance s] else []) \<and>
     map (pr_source \<circ> hd \<circ> decl_projections) (snd (snd part)) = (if plain_owner s then [] else [jos_provenance s])"

lemma project_jvm_class_source: "project_jvm_class s = Inr c \<Longrightarrow> c_source c = jos_provenance s"
  by (auto simp: project_jvm_class_def mk_class_def Let_def)

lemma project_jvm_owner_valid:
  assumes "project_jvm_owner registry feature_id s = Inr part" "owner_located s"
  shows "list_all valid_binding (fst part) \<and> list_all valid_class (fst (snd part)) \<and>
     list_all (declared_by BfJvm (jos_provenance s)) (snd (snd part))"
proof -
  obtain bs ls ds where p: "part = (bs, ls, ds)" by (cases part)
  from assms(1) [unfolded p] show ?thesis
  proof (cases rule: project_jvm_owner_Inr)
    case (declares d)
    then show ?thesis
      using project_jvm_object_valid project_jvm_value_valid project_jvm_enum_valid assms(2) p by auto
  next
    case plain
    then show ?thesis using owner_functions assms(2) p by simp
  next
    case (legacy c)
    then show ?thesis using project_jvm_class_valid assms(2) p by simp
  qed
qed

lemma project_jvm_owner_mirrors:
  assumes "project_jvm_owner registry feature_id s = Inr part" "owner_located s" "owner_intent_built s"
  shows "owner_mirrors s part"
proof -
  note ordinary = built_intent_role [OF assms(3) [unfolded owner_intent_built_def]]
  obtain bs ls ds where p: "part = (bs, ls, ds)" by (cases part)
  from assms(1) [unfolded p] show ?thesis
  proof (cases rule: project_jvm_owner_Inr)
    case (declares d)
    moreover have "declared_by BfJvm (jos_provenance s) d"
      using project_jvm_owner_valid [OF assms(1,2)] p declares by simp
    ultimately show ?thesis by (simp add: owner_mirrors_def p declared_by_def)
  next
    case plain
    then show ?thesis using owner_functions [OF plain(2) assms(2)] ordinary by (simp add: owner_mirrors_def p)
  qed (use ordinary in simp)
qed

lemma project_jvm_owners_Inr:
  assumes "project_jvm_owners owners feature_id = Inr api"
  obtains reg parts where
    "jvm_registry feature_id owners = Inr reg"
    "list_all2 (\<lambda>s part. project_jvm_owner (Some reg) feature_id s = Inr part) owners parts"
    "check_api api = Inr ()"
    "a_functions api = concat (map fst parts)" "a_classes api = concat (map (fst \<circ> snd) parts)"
    "a_declarations api = concat (map (snd \<circ> snd) parts)"
  using assms that by (auto simp: project_jvm_owners_def mk_api_def Let_def emap_Inr_iff)

lemma jvm_api_valid:
  assumes "project_jvm_owners owners feature_id = Inr api" "list_all owner_located owners"
  shows "valid_api api \<and> list_all (\<lambda>d. map pr_backend (decl_projections d) = [BfJvm]) (a_declarations api)"
  using assms(1)
proof (cases rule: project_jvm_owners_Inr)
  case (1 reg parts)
  let ?ok = "\<lambda>part. list_all valid_binding (fst part) \<and> list_all valid_class (fst (snd part)) \<and>
      list_all (\<lambda>d. valid_declaration d \<and> map pr_backend (decl_projections d) = [BfJvm]) (snd (snd part))"
  have "?ok part" if "part \<in> set parts" for part
  proof -
    from list_all2_right [OF 1(2) that] obtain s where s: "s \<in> set owners" "project_jvm_owner (Some reg) feature_id s = Inr part"
      by blast
    with assms(2) have "owner_located s" by (simp add: list_all_iff)
    from project_jvm_owner_valid [OF s(2) this] show ?thesis
      using declared_by_valid by (fastforce simp: list_all_iff)
  qed
  with 1 show ?thesis by (fastforce simp: valid_api_def list_all_iff)
qed

interpretation jvm: frontend project_jvm_owners "list_all owner_located" BfJvm
  by unfold_locales (use jvm_api_valid in \<open>auto simp: list_all_iff\<close>)

lemma owners_mirror:
  "list_all2 owner_mirrors owners parts \<Longrightarrow> list_all owner_intent_built owners \<Longrightarrow>
     map b_source (concat (map fst parts)) =
       concat (map (map jds_provenance \<circ> jos_declarations) (filter plain_owner owners)) \<and>
     concat (map (fst \<circ> snd) parts) = [] \<and>
     map (pr_source \<circ> hd \<circ> decl_projections) (concat (map (snd \<circ> snd) parts)) =
       map jos_provenance (filter (\<lambda>s. \<not> plain_owner s) owners)"
  by (induction rule: list_all2_induct)
    (auto simp: owner_mirrors_def owner_intent_built_def built_intent_role)

lemma jvm_api_mirrors:
  assumes "project_jvm_owners owners feature_id = Inr api"
    and "list_all owner_located owners" and "list_all owner_intent_built owners"
  shows "valid_api api \<and> a_classes api = [] \<and>
     map b_source (a_functions api) =
       concat (map (map jds_provenance \<circ> jos_declarations) (filter plain_owner owners)) \<and>
     map (pr_source \<circ> hd \<circ> decl_projections) (a_declarations api) =
       map jos_provenance (filter (\<lambda>s. \<not> plain_owner s) owners) \<and>
     list_all (\<lambda>d. map pr_backend (decl_projections d) = [BfJvm]) (a_declarations api)"
  using assms(1)
proof (cases rule: project_jvm_owners_Inr)
  case (1 reg parts)
  have "list_all2 owner_mirrors owners parts"
    by (rule list.rel_mono_strong [OF 1(2)])
      (use assms(2,3) project_jvm_owner_mirrors in \<open>simp add: list_all_iff\<close>)
  from owners_mirror [OF this assms(3)] jvm_api_valid [OF assms(1,2)] 1(4-6) show ?thesis by simp
qed

text \<open>
  C9. Whatever the JVM projection returns is a valid API, which mirrors the owners: its functions are,
  in order, the declarations of the owners that declare no type, its declarations the owners that do,
  each with the JVM projection and no other, and it has no class of the older form.
\<close>

theorem jvm_api_is_valid:
  assumes "project_jvm_owners owners feature_id = Inr api"
    and "list_all owner_located owners" and "list_all owner_intent_built owners"
  shows "valid_api api \<and> a_classes api = [] \<and>
     map b_source (a_functions api) =
       concat (map (map jds_provenance \<circ> jos_declarations) (filter plain_owner owners)) \<and>
     map (pr_source \<circ> hd \<circ> decl_projections) (a_declarations api) =
       map jos_provenance (filter (\<lambda>s. \<not> plain_owner s) owners) \<and>
     list_all (\<lambda>d. map pr_backend (decl_projections d) = [BfJvm]) (a_declarations api)"
  using assms by (rule jvm_api_mirrors)

section \<open>A sample\<close>

definition kotlin_at :: "string \<Rightarrow> int \<Rightarrow> source_provenance" where
  "kotlin_at i line = \<lparr>sp_declaration = i, sp_language = ''kotlin'', sp_path = ''P.kt'', sp_line = line, sp_column = 1\<rparr>"

definition intent_of :: "declaration_target \<Rightarrow> supernote_marker list \<Rightarrow> source_intent" where
  "intent_of target ms =
     \<lparr>si_target = target, si_occurrences = map (\<lambda>m. \<lparr>mo_marker = m, mo_line = 1, mo_column = 1\<rparr>) ms\<rparr>"

definition sample_value_owner :: jvm_owner_source where
  "sample_value_owner = \<lparr>jos_provenance = kotlin_at ''k1'' 2, jos_language = Kotlin, jos_owner_class = ''n.P'',
     jos_name = ''P'', jos_form = OfClass, jos_intent = intent_of TgClass [MValue], jos_constructors = [],
     jos_declarations = [], jos_visibility = ''public'',
     jos_fields = [\<lparr>jfs_provenance = kotlin_at ''k2'' 3, jfs_owner_id = ''k1'', jfs_name = ''x'',
        jfs_type = JvmType ''kotlin.Int'' False [], jfs_intent = intent_of TgField [MExport],
        jfs_visibility = ''public'', jfs_mutable = False, jfs_static = False, jfs_accessor = ''getX''\<rparr>],
     jos_constants = [], jos_data = True, jos_record = False, jos_final = True, jos_type_parameters = 0,
     jos_supertypes = []\<rparr>"

definition sample_function_owner :: jvm_owner_source where
  "sample_function_owner = \<lparr>jos_provenance = kotlin_at ''k3'' 5, jos_language = Kotlin, jos_owner_class = ''n.PKt'',
     jos_name = ''PKt'', jos_form = OfKotlinTopLevel, jos_intent = intent_of TgClass [], jos_constructors = [],
     jos_declarations = [\<lparr>jds_provenance = kotlin_at ''k4'' 6, jds_owner_id = ''k3'', jds_owner_class = ''n.PKt'',
        jds_name = ''g'', jds_descriptor = ''()Ln/P;'',
        jds_parameters = [\<lparr>jps_type = ''n.P'', jps_name = ''p'', jps_nullable = True, jps_injected = None,
           jps_arguments = []\<rparr>],
        jds_result = ''kotlin.collections.List'', jds_result_nullable = False,
        jds_intent = intent_of TgFunction [MExport], jds_visibility = ''public'', jds_adapter = ''a'',
        jds_language = Kotlin, jds_suspend = False, jds_static = True,
        jds_result_arguments = [JvmType ''n.P'' False []]\<rparr>],
     jos_visibility = ''public'', jos_fields = [], jos_constants = [], jos_data = False, jos_record = False,
     jos_final = True, jos_type_parameters = 0, jos_supertypes = []\<rparr>"

definition sample_jvm :: "jvm_projection_error + semantic_api" where
  "sample_jvm = project_jvm_owners [sample_value_owner, sample_function_owner] ''f''"

lemma sample_jvm_ok: "case sample_jvm of Inl _ \<Rightarrow> False | Inr api \<Rightarrow>
    map b_name (a_functions api) = [''g''] \<and> map decl_name (a_declarations api) = [''P'']"
  by code_simp

lemma sample_owners:
  "list_all owner_located [sample_value_owner, sample_function_owner]"
  "list_all owner_intent_built [sample_value_owner, sample_function_owner]"
  by code_simp+

theorem jvm_api_is_valid_witness:
  "\<exists>api. sample_jvm = Inr api \<and> valid_api api \<and> map b_source (a_functions api) = [kotlin_at ''k4'' 6] \<and>
     map (pr_source \<circ> hd \<circ> decl_projections) (a_declarations api) = [kotlin_at ''k1'' 2]"
proof -
  obtain api where api: "sample_jvm = Inr api" using sample_jvm_ok by (auto split: sum.splits)
  have "concat (map (map jds_provenance \<circ> jos_declarations)
      (filter plain_owner [sample_value_owner, sample_function_owner])) = [kotlin_at ''k4'' 6]"
    "map jos_provenance (filter (\<lambda>s. \<not> plain_owner s) [sample_value_owner, sample_function_owner]) =
      [kotlin_at ''k1'' 2]"
    by code_simp+
  with api jvm_api_is_valid [OF api [unfolded sample_jvm_def] sample_owners] show ?thesis by metis
qed

end
