(* ===== verification/Jvm_Manifest_Props.thy ===== *)
theory Jvm_Manifest_Props
  imports Jvm_Manifest Jvm_Projection_Props Manifest_Codec
begin

text \<open>
  The reader of the JVM source manifest accepts only checked sources, and reads back what the writer
  wrote, with owners, constructors and declarations in the order of their identities.  So what it reads
  satisfies the hypotheses of the JVM projection.
\<close>

section \<open>Scalars and lists\<close>

lemma jm_Inr:
  "jm_object raw lbl = Inr kvs \<longleftrightarrow> raw = JObj kvs"
  "jm_keys kvs ks lbl = Inr () \<longleftrightarrow> jkeys_are kvs ks"
  "jm_list raw lbl = Inr xs \<longleftrightarrow> raw = JArr xs"
  "jm_string raw lbl = Inr s \<longleftrightarrow> raw = JStr s \<and> s \<noteq> []"
  "jm_integer raw lbl = Inr i \<longleftrightarrow> raw = JInt i"
  "jm_bool raw lbl = Inr b \<longleftrightarrow> raw = JBool b"
  by (auto simp: jm_object_def jm_keys_def jm_list_def jm_string_def jm_integer_def jm_bool_def split: json.splits)

lemma jm_keys_self: "set ks = set (jkeys kvs) \<Longrightarrow> jm_keys kvs ks lbl = Inr ()"
  by (simp add: jm_keys_def jkeys_are_def)

lemma jm_written [simp]:
  "jm_object (JObj kvs) lbl = Inr kvs" "jm_list (JArr xs) lbl = Inr xs" "jm_integer (JInt i) lbl = Inr i"
  "jm_bool (JBool b) lbl = Inr b" "s \<noteq> [] \<Longrightarrow> jm_string (JStr s) lbl = Inr s"
  by (simp_all add: jm_Inr)

lemma jm_enums_written [simp]:
  "jm_enum marker_name all_markers (JStr (marker_name m)) lbl = Inr m"
  "jm_enum language_name all_languages (JStr (language_name l)) lbl = Inr l"
  "jm_enum dependency_name all_dependencies (JStr (dependency_name d)) lbl = Inr d"
  "jm_enum owner_form_name all_forms (JStr (owner_form_name f)) lbl = Inr f"
  by (cases m; simp add: jm_enum_def all_markers_def)
    (cases l; cases d; cases f; simp add: jm_enum_def all_languages_def all_dependencies_def all_forms_def)+

lemma jm_items_codec:
  "codec writer reader ok canon \<Longrightarrow> list_all ok xs \<Longrightarrow> jm_items reader (JArr (map writer xs)) lbl = Inr (map canon xs)"
  by (simp add: jm_items_def codec.items_read)

lemma jm_items_ok:
  assumes "exact_codec writer reader ok canon" "jm_items reader raw lbl = Inr ys" shows "list_all ok ys"
proof -
  from assms(2) obtain raws where "emap (\<lambda>(i, x). reader x (lbl @ [LIdx i])) (enumerated raws) = Inr ys"
    by (auto simp: jm_items_def)
  then show ?thesis by (rule exact_codec.items_ok [OF assms(1)])
qed

interpretation jm_text: exact_codec JStr jm_string "\<lambda>s. s \<noteq> []" "\<lambda>s. s"
  by unfold_locales (auto simp: jm_Inr)

section \<open>Provenance and intents\<close>

interpretation jm_provenance: exact_codec provenance_manifest parse_provenance valid_source "\<lambda>p. p"
proof unfold_locales
  fix p lbl
  assume "valid_source p"
  then show "parse_provenance (provenance_manifest p) lbl = Inr p"
    by (cases p) (auto simp: parse_provenance_def provenance_manifest_def jm_keys_self valid_source_def
        check_provenance_def mk_provenance_def)
next
  fix raw lbl p
  assume "parse_provenance raw lbl = Inr p"
  then show "valid_source p"
    by (auto simp: parse_provenance_def mk_provenance_def valid_source_def Let_def)
qed auto

definition occurrence_ok :: "marker_occurrence \<Rightarrow> bool" where
  "occurrence_ok m \<longleftrightarrow> 1 \<le> mo_line m \<and> 1 \<le> mo_column m"

interpretation jm_occurrence: exact_codec occurrence_manifest parse_occurrence occurrence_ok "\<lambda>m. m"
proof unfold_locales
  fix m lbl
  assume "occurrence_ok m"
  then show "parse_occurrence (occurrence_manifest m) lbl = Inr m"
    by (cases m) (auto simp: parse_occurrence_def occurrence_manifest_def jm_keys_self occurrence_ok_def
        mk_occurrence_def)
next
  fix raw lbl m
  assume "parse_occurrence raw lbl = Inr m"
  then show "occurrence_ok m"
    by (auto simp: parse_occurrence_def mk_occurrence_def occurrence_ok_def split: if_splits)
qed auto

definition intent_ok :: "declaration_target \<Rightarrow> source_intent \<Rightarrow> bool" where
  "intent_ok target i \<longleftrightarrow> mk_intent target (si_occurrences i) = Inr i \<and> list_all occurrence_ok (si_occurrences i)"

lemma mk_intent_occurrences: "mk_intent target occs = Inr i \<Longrightarrow> si_occurrences i = occs"
  by (auto simp: mk_intent_def Let_def split: option.splits)

interpretation jm_intent: exact_codec intent_manifest "parse_intent target" "intent_ok target" "\<lambda>i. i"
  for target
proof unfold_locales
  fix i lbl
  assume "intent_ok target i"
  then show "parse_intent target (intent_manifest i) lbl = Inr i"
    using jm_items_codec [OF jm_occurrence.codec_axioms, of "si_occurrences i" lbl]
    by (simp add: parse_intent_def intent_manifest_def intent_ok_def)
next
  fix raw lbl i
  assume "parse_intent target raw lbl = Inr i"
  then obtain occs where occs: "jm_items parse_occurrence raw lbl = Inr occs" "mk_intent target occs = Inr i"
    by (auto simp: parse_intent_def)
  from jm_items_ok [OF jm_occurrence.exact_codec_axioms occs(1)] occs(2) show "intent_ok target i"
    by (simp add: intent_ok_def mk_intent_occurrences)
qed auto

section \<open>Types and parameters\<close>

fun jvm_type_ok :: "jvm_type \<Rightarrow> bool" where
  "jvm_type_ok (JvmType name nullable arguments) \<longleftrightarrow> name \<noteq> [] \<and> (\<forall>a \<in> set arguments. jvm_type_ok a)"

lemma jvm_type_written: "jvm_type_ok t \<Longrightarrow> parse_jvm_type (jvm_type_manifest t) lbl = Inr t"
proof (induction t arbitrary: lbl)
  case (JvmType name nullable arguments)
  let ?l = "lbl @ [LKey ''arguments'']"
  have "emap (\<lambda>(i, x). parse_jvm_type x (?l @ [LIdx i])) (enumerated (map jvm_type_manifest arguments)) =
      emap (\<lambda>(i, x). parse_jvm_type (jvm_type_manifest x) (?l @ [LIdx i])) (enumerated arguments)"
    by (simp add: enumerated_def zip_map2 emap_map case_prod_unfold)
  also have "\<dots> = Inr (map (\<lambda>x. x) arguments)"
    using JvmType by (intro emap_enumerated_map) simp
  finally have "emap (\<lambda>(i, x). parse_jvm_type x (?l @ [LIdx i])) (enumerated (map jvm_type_manifest arguments)) =
      Inr arguments" by simp
  with JvmType.prems show ?case
    by (simp add: parse_jvm_type.simps [of "JObj _"] jm_keys_self mk_jvm_type_def)
qed

lemma jvm_type_read: "parse_jvm_type raw lbl = Inr t \<Longrightarrow> jvm_type_ok t"
proof (induction raw lbl arbitrary: t rule: parse_jvm_type.induct)
  case (1 raw lbl)
  from "1.prems" obtain v name nullable xs args where v: "raw = JObj v"
    "jm_keys v [''jvm_type'', ''nullable'', ''arguments''] lbl = Inr ()"
    "jm_string (jitem v ''jvm_type'') (lbl @ [LKey ''jvm_type'']) = Inr name"
    "jm_bool (jitem v ''nullable'') (lbl @ [LKey ''nullable'']) = Inr nullable"
    "jitem v ''arguments'' = JArr xs"
    "emap (\<lambda>(i, x). parse_jvm_type x (lbl @ [LKey ''arguments'', LIdx i])) (enumerated xs) = Inr args"
    "t = JvmType name nullable args"
    unfolding parse_jvm_type.simps [of raw lbl] by (auto simp: mk_jvm_type_def json_case_Inr)
  have "list_all jvm_type_ok args"
  proof (rule emap_list_all [OF v(6)])
    fix p a
    assume p: "p \<in> set (enumerated xs)" "(case p of (i, x) \<Rightarrow> parse_jvm_type x (lbl @ [LKey ''arguments'', LIdx i])) = Inr a"
    obtain i x where ix: "p = (i, x)" by (cases p)
    from "1.IH" [OF v(1,2,3,4,5) p(1) ix [symmetric]] p(2) ix show "jvm_type_ok a" by simp
  qed
  with v(3,7) show ?case by (simp add: list_all_iff jm_Inr)
qed

interpretation jm_type: exact_codec jvm_type_manifest parse_jvm_type jvm_type_ok "\<lambda>t. t"
  by unfold_locales (auto intro: jvm_type_written jvm_type_read)

definition jvm_parameter_ok :: "jvm_parameter_source \<Rightarrow> bool" where
  "jvm_parameter_ok p \<longleftrightarrow> jps_type p \<noteq> [] \<and> jps_name p \<noteq> [] \<and> list_all jvm_type_ok (jps_arguments p)"

interpretation jm_parameter: exact_codec jvm_parameter_manifest parse_jvm_parameter jvm_parameter_ok "\<lambda>p. p"
proof unfold_locales
  fix p lbl
  assume "jvm_parameter_ok p"
  then show "parse_jvm_parameter (jvm_parameter_manifest p) lbl = Inr p"
    using jm_items_codec [OF jm_type.codec_axioms, of "jps_arguments p"]
    by (cases p; cases "jps_injected p")
      (auto simp: parse_jvm_parameter_def jvm_parameter_manifest_def jm_keys_self jvm_parameter_ok_def)
next
  fix raw lbl p
  assume "parse_jvm_parameter raw lbl = Inr p"
  then obtain v ns where v: "jm_items parse_jvm_type (jitem v ''type_arguments'') ns = Inr (jps_arguments p)"
    "jps_type p \<noteq> []" "jps_name p \<noteq> []"
    by (auto simp: parse_jvm_parameter_def jm_Inr)
  from jm_items_ok [OF jm_type.exact_codec_axioms v(1)] v(2,3) show "jvm_parameter_ok p"
    by (simp add: jvm_parameter_ok_def)
qed auto

section \<open>Members\<close>

lemma verify_identity_Inr:
  "verify_declaration_identity v p expected lbl = Inr () \<longleftrightarrow>
     sp_declaration p = expected \<and> jitem v ''adapter_identity'' = JStr (jvm_adapter_identity expected)"
  by (auto simp: verify_declaration_identity_def jm_Inr jvm_adapter_identity_def)

lemma adapter_nonempty: "jvm_adapter_identity i \<noteq> []"
  by (simp add: jvm_adapter_identity_def)

definition jvm_constructor_ok :: "string \<Rightarrow> jvm_constructor_source \<Rightarrow> bool" where
  "jvm_constructor_ok owner_class c \<longleftrightarrow> valid_source (jcs_provenance c) \<and>
     sp_declaration (jcs_provenance c) = jvm_declaration_identity owner_class ''<init>'' (jcs_descriptor c) \<and>
     jcs_adapter c = jvm_adapter_identity (sp_declaration (jcs_provenance c)) \<and>
     jcs_descriptor c \<noteq> [] \<and> jcs_visibility c \<noteq> [] \<and> list_all jvm_parameter_ok (jcs_parameters c) \<and>
     intent_ok TgConstructor (jcs_intent c) \<and> check_jvm_constructor c = Inr ()"

interpretation jm_constructor:
  exact_codec jvm_constructor_manifest "parse_jvm_constructor owner_class" "jvm_constructor_ok owner_class" "\<lambda>c. c"
  for owner_class
proof unfold_locales
  fix c lbl
  assume ok: "jvm_constructor_ok owner_class c"
  note parts = jm_provenance.reads_back jm_intent.reads_back jm_items_codec [OF jm_parameter.codec_axioms]
  from ok show "parse_jvm_constructor owner_class (jvm_constructor_manifest c) lbl = Inr c"
    by (cases c) (simp add: parse_jvm_constructor_def jvm_constructor_manifest_def jm_keys_self constructor_keys_def
        jvm_constructor_ok_def parts verify_identity_Inr adapter_nonempty insert_commute)
next
  fix raw lbl c
  assume "parse_jvm_constructor owner_class raw lbl = Inr c"
  then obtain v l m n where v: "parse_provenance (jitem v ''source'') l = Inr (jcs_provenance c)"
    "parse_intent TgConstructor (jitem v ''markers'') m = Inr (jcs_intent c)"
    "jm_items parse_jvm_parameter (jitem v ''parameters'') n = Inr (jcs_parameters c)"
    and rest: "sp_declaration (jcs_provenance c) = jvm_declaration_identity owner_class ''<init>'' (jcs_descriptor c)"
    "jcs_adapter c = jvm_adapter_identity (sp_declaration (jcs_provenance c))"
    "jcs_descriptor c \<noteq> []" "jcs_visibility c \<noteq> []" "check_jvm_constructor c = Inr ()"
    by (auto simp: parse_jvm_constructor_def Let_def jm_Inr verify_identity_Inr)
  from jm_provenance.reads_ok [OF v(1)] jm_intent.reads_ok [OF v(2)] jm_items_ok [OF jm_parameter.exact_codec_axioms v(3)]
    rest show "jvm_constructor_ok owner_class c" by (simp add: jvm_constructor_ok_def)
qed auto

definition jvm_declaration_ok ::
    "jvm_language \<Rightarrow> string \<Rightarrow> string \<Rightarrow> declaration_target \<Rightarrow> jvm_declaration_source \<Rightarrow> bool" where
  "jvm_declaration_ok language owner_class owner_id target d \<longleftrightarrow> valid_source (jds_provenance d) \<and>
     jds_language d = language \<and> jds_owner_class d = owner_class \<and> jds_owner_id d = owner_id \<and>
     sp_declaration (jds_provenance d) = jvm_declaration_identity owner_class (jds_name d) (jds_descriptor d) \<and>
     jds_adapter d = jvm_adapter_identity (sp_declaration (jds_provenance d)) \<and>
     owner_class \<noteq> [] \<and> owner_id \<noteq> [] \<and>
     jds_name d \<noteq> [] \<and> jds_descriptor d \<noteq> [] \<and> jds_result d \<noteq> [] \<and> jds_visibility d \<noteq> [] \<and>
     list_all jvm_parameter_ok (jds_parameters d) \<and> list_all jvm_type_ok (jds_result_arguments d) \<and>
     intent_ok target (jds_intent d) \<and> check_jvm_declaration d = Inr ()"

interpretation jm_declaration:
  exact_codec jvm_declaration_manifest "parse_jvm_declaration language owner_class owner_id target"
    "jvm_declaration_ok language owner_class owner_id target" "\<lambda>d. d"
  for language owner_class owner_id target
proof unfold_locales
  fix d lbl
  assume ok: "jvm_declaration_ok language owner_class owner_id target d"
  note parts = jm_provenance.reads_back jm_intent.reads_back jm_items_codec [OF jm_parameter.codec_axioms]
    jm_items_codec [OF jm_type.codec_axioms]
  from ok show "parse_jvm_declaration language owner_class owner_id target (jvm_declaration_manifest d) lbl = Inr d"
    by (cases d) (simp add: parse_jvm_declaration_def jvm_declaration_manifest_def jm_keys_self declaration_keys_def
        jvm_declaration_ok_def parts verify_identity_Inr adapter_nonempty insert_commute)
next
  fix raw lbl d
  assume "parse_jvm_declaration language owner_class owner_id target raw lbl = Inr d"
  then obtain v l m n k where v: "parse_provenance (jitem v ''source'') l = Inr (jds_provenance d)"
    "parse_intent target (jitem v ''markers'') m = Inr (jds_intent d)"
    "jm_items parse_jvm_parameter (jitem v ''parameters'') n = Inr (jds_parameters d)"
    "jm_items parse_jvm_type (jitem v ''result_type_arguments'') k = Inr (jds_result_arguments d)"
    and rest: "jds_language d = language" "jds_owner_class d = owner_class" "jds_owner_id d = owner_id"
    "sp_declaration (jds_provenance d) = jvm_declaration_identity owner_class (jds_name d) (jds_descriptor d)"
    "jds_adapter d = jvm_adapter_identity (sp_declaration (jds_provenance d))"
    "owner_class \<noteq> []" "owner_id \<noteq> []"
    "jds_name d \<noteq> []" "jds_descriptor d \<noteq> []" "jds_result d \<noteq> []" "jds_visibility d \<noteq> []"
    "check_jvm_declaration d = Inr ()"
    by (auto simp: parse_jvm_declaration_def Let_def jm_Inr verify_identity_Inr)
  from jm_provenance.reads_ok [OF v(1)] jm_intent.reads_ok [OF v(2)] jm_items_ok [OF jm_parameter.exact_codec_axioms v(3)]
    jm_items_ok [OF jm_type.exact_codec_axioms v(4)] rest
  show "jvm_declaration_ok language owner_class owner_id target d" by (simp add: jvm_declaration_ok_def)
qed auto

definition jvm_field_ok :: "string \<Rightarrow> jvm_field_source \<Rightarrow> bool" where
  "jvm_field_ok owner_id f \<longleftrightarrow> valid_source (jfs_provenance f) \<and> jfs_owner_id f = owner_id \<and> owner_id \<noteq> [] \<and>
     jfs_name f \<noteq> [] \<and> jvm_type_ok (jfs_type f) \<and> intent_ok TgField (jfs_intent f) \<and> jfs_visibility f \<noteq> [] \<and>
     jfs_accessor f \<noteq> [] \<and> check_jvm_field f = Inr ()"

interpretation jm_field:
  exact_codec jvm_field_manifest "parse_jvm_field owner_id" "jvm_field_ok owner_id" "\<lambda>f. f"
  for owner_id
proof unfold_locales
  fix f lbl
  assume ok: "jvm_field_ok owner_id f"
  note parts = jm_provenance.reads_back jm_intent.reads_back jm_type.reads_back
  from ok show "parse_jvm_field owner_id (jvm_field_manifest f) lbl = Inr f"
    by (cases f) (simp add: parse_jvm_field_def jvm_field_manifest_def jm_keys_self jvm_field_keys_def
        jvm_field_ok_def parts insert_commute)
next
  fix raw lbl f
  assume "parse_jvm_field owner_id raw lbl = Inr f"
  then obtain v l m n where v: "parse_provenance (jitem v ''source'') l = Inr (jfs_provenance f)"
    "parse_intent TgField (jitem v ''markers'') m = Inr (jfs_intent f)"
    "parse_jvm_type (jitem v ''type'') n = Inr (jfs_type f)"
    and rest: "jfs_owner_id f = owner_id" "owner_id \<noteq> []" "jfs_name f \<noteq> []" "jfs_visibility f \<noteq> []"
    "jfs_accessor f \<noteq> []" "check_jvm_field f = Inr ()"
    by (auto simp: parse_jvm_field_def Let_def jm_Inr)
  from jm_provenance.reads_ok [OF v(1)] jm_intent.reads_ok [OF v(2)] jm_type.reads_ok [OF v(3)] rest
  show "jvm_field_ok owner_id f" by (simp add: jvm_field_ok_def)
qed auto

section \<open>Owners\<close>

definition jvm_owner_ok :: "jvm_owner_source \<Rightarrow> bool" where
  "jvm_owner_ok s \<longleftrightarrow> valid_source (jos_provenance s) \<and>
     sp_declaration (jos_provenance s) = jvm_owner_identity (jos_owner_class s) \<and>
     sp_language (jos_provenance s) = language_name (jos_language s) \<and> jos_owner_class s \<noteq> [] \<and>
     intent_ok TgClass (jos_intent s) \<and> jos_name s \<noteq> [] \<and> jos_visibility s \<noteq> [] \<and>
     list_all (jvm_constructor_ok (jos_owner_class s)) (jos_constructors s) \<and>
     list_all (jvm_declaration_ok (jos_language s) (jos_owner_class s) (jvm_owner_identity (jos_owner_class s))
       (owner_declaration_target (jos_intent s))) (jos_declarations s) \<and>
     list_all (jvm_field_ok (jvm_owner_identity (jos_owner_class s))) (jos_fields s) \<and>
     list_all (\<lambda>c. c \<noteq> []) (jos_constants s) \<and> list_all (\<lambda>c. c \<noteq> []) (jos_supertypes s) \<and>
     check_jvm_owner s = Inr ()"

definition canonical_owner :: "jvm_owner_source \<Rightarrow> jvm_owner_source" where
  "canonical_owner s = s\<lparr>
     jos_constructors := sort_key (sp_declaration \<circ> jcs_provenance) (jos_constructors s),
     jos_declarations := sort_key (sp_declaration \<circ> jds_provenance) (jos_declarations s)\<rparr>"

lemma canonical_owner_fields [simp]:
  "jos_provenance (canonical_owner s) = jos_provenance s" "jos_language (canonical_owner s) = jos_language s"
  "jos_owner_class (canonical_owner s) = jos_owner_class s" "jos_name (canonical_owner s) = jos_name s"
  "jos_form (canonical_owner s) = jos_form s" "jos_intent (canonical_owner s) = jos_intent s"
  "jos_visibility (canonical_owner s) = jos_visibility s" "jos_fields (canonical_owner s) = jos_fields s"
  "jos_constants (canonical_owner s) = jos_constants s" "jos_data (canonical_owner s) = jos_data s"
  "jos_record (canonical_owner s) = jos_record s" "jos_final (canonical_owner s) = jos_final s"
  "jos_type_parameters (canonical_owner s) = jos_type_parameters s" "jos_supertypes (canonical_owner s) = jos_supertypes s"
  "set (jos_constructors (canonical_owner s)) = set (jos_constructors s)"
  "set (jos_declarations (canonical_owner s)) = set (jos_declarations s)"
  by (simp_all add: canonical_owner_def)

lemma canonical_owner_check [simp]: "check_jvm_owner (canonical_owner s) = Inr () \<longleftrightarrow> check_jvm_owner s = Inr ()"
proof -
  have same: "check_owner_constructor (canonical_owner s) = check_owner_constructor s"
    "check_owner_declaration (canonical_owner s) = check_owner_declaration s"
    "check_owner_field (canonical_owner s) = check_owner_field s"
    by (auto simp: fun_eq_iff check_owner_constructor_def check_owner_declaration_def check_owner_field_def
        canonical_owner_def)
  have "jos_constructors (canonical_owner s) = [] \<longleftrightarrow> jos_constructors s = []"
    by (simp add: canonical_owner_def) (metis length_0_conv length_sort)
  with same show ?thesis by (auto simp: check_jvm_owner_def canonical_owner_def)
qed

lemma canonical_owner_ok: "jvm_owner_ok s \<Longrightarrow> jvm_owner_ok (canonical_owner s)"
  by (simp add: jvm_owner_ok_def list_all_iff)

interpretation jm_owner: exact_codec jvm_owner_manifest parse_jvm_owner jvm_owner_ok canonical_owner
proof unfold_locales
  fix s lbl
  assume ok: "jvm_owner_ok s"
  have nonempty: "jvm_owner_identity (jos_owner_class s) \<noteq> []" by (simp add: jvm_owner_identity_def)
  note parts = jm_provenance.reads_back jm_intent.reads_back
    jm_items_codec [OF jm_constructor.codec_axioms] jm_items_codec [OF jm_declaration.codec_axioms]
    jm_items_codec [OF jm_field.codec_axioms] jm_items_codec [OF jm_text.codec_axioms]
  have chk: "check_jvm_owner (canonical_owner s) = Inr ()" using ok by (simp add: jvm_owner_ok_def)
  have sorted: "list_all (jvm_constructor_ok (jos_owner_class s))
      (sort_key (sp_declaration \<circ> jcs_provenance) (jos_constructors s))"
    "list_all (jvm_declaration_ok (jos_language s) (jos_owner_class s) (jvm_owner_identity (jos_owner_class s))
       (owner_declaration_target (jos_intent s))) (sort_key (sp_declaration \<circ> jds_provenance) (jos_declarations s))"
    using ok by (simp_all add: jvm_owner_ok_def list_all_iff)
  from ok chk sorted show "parse_jvm_owner (jvm_owner_manifest s) lbl = Inr (canonical_owner s)"
    by (cases s) (simp add: parse_jvm_owner_def jvm_owner_manifest_def jm_keys_self owner_keys_def
        jvm_owner_ok_def parts canonical_owner_def Let_def insert_commute)
next
  fix raw lbl s
  assume "parse_jvm_owner raw lbl = Inr s"
  then obtain v a b c d e f g where v: "parse_provenance (jitem v ''source'') a = Inr (jos_provenance s)"
    "parse_intent TgClass (jitem v ''markers'') b = Inr (jos_intent s)"
    "jm_items (parse_jvm_constructor (jos_owner_class s)) (jitem v ''constructors'') c = Inr (jos_constructors s)"
    "jm_items (parse_jvm_declaration (jos_language s) (jos_owner_class s) (sp_declaration (jos_provenance s))
       (owner_declaration_target (jos_intent s))) (jitem v ''declarations'') d = Inr (jos_declarations s)"
    "jm_items (parse_jvm_field (sp_declaration (jos_provenance s))) (jitem v ''fields'') e = Inr (jos_fields s)"
    "jm_items jm_string (jitem v ''enum_constants'') f = Inr (jos_constants s)"
    "jm_items jm_string (jitem v ''supertypes'') g = Inr (jos_supertypes s)"
    and rest: "sp_declaration (jos_provenance s) = jvm_owner_identity (jos_owner_class s)"
    "sp_language (jos_provenance s) = language_name (jos_language s)" "jos_owner_class s \<noteq> []"
    "jos_name s \<noteq> []" "jos_visibility s \<noteq> []" "check_jvm_owner s = Inr ()"
    by (auto simp: parse_jvm_owner_def Let_def jm_Inr)
  from jm_provenance.reads_ok [OF v(1)] jm_intent.reads_ok [OF v(2)]
    jm_items_ok [OF jm_constructor.exact_codec_axioms v(3)] jm_items_ok [OF jm_declaration.exact_codec_axioms v(4)]
    jm_items_ok [OF jm_field.exact_codec_axioms v(5)] jm_items_ok [OF jm_text.exact_codec_axioms v(6)]
    jm_items_ok [OF jm_text.exact_codec_axioms v(7)] rest
  show "jvm_owner_ok s" by (simp add: jvm_owner_ok_def)
next
  fix s
  assume "jvm_owner_ok s"
  then show "jvm_owner_ok (canonical_owner s)" by (rule canonical_owner_ok)
  show "jvm_owner_manifest (canonical_owner s) = jvm_owner_manifest s"
    by (simp add: jvm_owner_manifest_def canonical_owner_def sort_key_idem)
qed

section \<open>Manifests\<close>

definition jvm_manifest_ok :: "jvm_source_manifest \<Rightarrow> bool" where
  "jvm_manifest_ok m \<longleftrightarrow> check_jvm_manifest m = Inr () \<and> list_all jvm_owner_ok (jm_owners m)"

definition canonical_manifest :: "jvm_source_manifest \<Rightarrow> jvm_source_manifest" where
  "canonical_manifest m =
     m\<lparr>jm_owners := map canonical_owner (sort_key (sp_declaration \<circ> jos_provenance) (jm_owners m))\<rparr>"

lemma canonical_owner_manifest_check [simp]:
  "check_manifest_owner (canonical_owner s) = Inr () \<longleftrightarrow> check_manifest_owner s = Inr ()"
  by (auto simp: check_manifest_owner_def)

lemma distinct_sort_key: "distinct (map f (sort_key g xs)) \<longleftrightarrow> distinct (map f xs)"
proof -
  have "mset (map f (sort_key g xs)) = mset (map f xs)" by simp
  then show ?thesis by (rule mset_eq_imp_distinct_iff)
qed

lemma canonical_manifest_check:
  "check_jvm_manifest (canonical_manifest m) = Inr () \<longleftrightarrow> check_jvm_manifest m = Inr ()"
proof -
  have "map (sp_declaration \<circ> jos_provenance) (jm_owners (canonical_manifest m)) =
      map (sp_declaration \<circ> jos_provenance) (sort_key (sp_declaration \<circ> jos_provenance) (jm_owners m))"
    by (simp add: canonical_manifest_def)
  then have "distinct (map (sp_declaration \<circ> jos_provenance) (jm_owners (canonical_manifest m))) \<longleftrightarrow>
      distinct (map (sp_declaration \<circ> jos_provenance) (jm_owners m))"
    by (simp only: distinct_sort_key)
  moreover have "(\<forall>s \<in> set (jm_owners (canonical_manifest m)). check_manifest_owner s = Inr ()) \<longleftrightarrow>
      (\<forall>s \<in> set (jm_owners m). check_manifest_owner s = Inr ())"
    by (simp add: canonical_manifest_def)
  moreover have "jm_schema (canonical_manifest m) = jm_schema m" "jm_feature (canonical_manifest m) = jm_feature m"
    "jm_frontend (canonical_manifest m) = jm_frontend m" by (simp_all add: canonical_manifest_def)
  ultimately show ?thesis by (simp add: check_jvm_manifest_def)
qed

lemma canonical_manifest_ok: "jvm_manifest_ok m \<Longrightarrow> jvm_manifest_ok (canonical_manifest m)"
  using canonical_owner_ok
  by (auto simp: jvm_manifest_ok_def canonical_manifest_check list_all_iff) (simp add: canonical_manifest_def, blast)

text \<open>Naming the expected feature only adds one check.\<close>

lemma parse_expected:
  "parse_jvm_manifest expected raw = Inr m \<longleftrightarrow>
     parse_jvm_manifest None raw = Inr m \<and> (expected = None \<or> expected = Some (jm_feature m))"
  by (cases expected) (auto simp: parse_jvm_manifest_def Let_def)

interpretation jm_manifest:
  exact_codec jvm_manifest "\<lambda>raw _. parse_jvm_manifest None raw" jvm_manifest_ok canonical_manifest
proof unfold_locales
  fix m and lbl :: label
  assume ok: "jvm_manifest_ok m"
  have owners: "jm_items parse_jvm_owner
      (JArr (map jvm_owner_manifest (sort_key (sp_declaration \<circ> jos_provenance) (jm_owners m)))) [LRoot ''owners''] =
      Inr (jm_owners (canonical_manifest m))"
    using jm_items_codec [OF jm_owner.codec_axioms] ok
    by (simp add: jvm_manifest_ok_def canonical_manifest_def list_all_iff)
  have chk: "check_jvm_manifest (canonical_manifest m) = Inr ()" "jm_schema m = jvm_schema_version"
    "jm_feature m \<noteq> []" "jm_frontend m \<noteq> []"
    using ok canonical_manifest_check [of m]
    by (auto simp: jvm_manifest_ok_def check_jvm_manifest_def feature_id_prefix_def)
  have same: "\<lparr>jm_feature = jm_feature m, jm_frontend = jm_frontend m, jm_owners = jm_owners (canonical_manifest m),
      jm_schema = jvm_schema_version\<rparr> = canonical_manifest m"
    using chk(2) by (cases m) (simp add: canonical_manifest_def)
  show "parse_jvm_manifest None (jvm_manifest m) = Inr (canonical_manifest m)"
    using owners chk same
    by (simp add: parse_jvm_manifest_def jvm_manifest_def jm_keys_self insert_commute jvm_manifest_kind_def)
next
  fix raw m and lbl :: label
  assume "parse_jvm_manifest None raw = Inr m"
  then obtain raws where "jm_items parse_jvm_owner (JArr raws) [LRoot ''owners''] = Inr (jm_owners m)"
    "check_jvm_manifest m = Inr ()"
    by (auto simp: parse_jvm_manifest_def Let_def jm_Inr)
  then show "jvm_manifest_ok m"
    using jm_items_ok [OF jm_owner.exact_codec_axioms] by (simp add: jvm_manifest_ok_def)
next
  fix m
  assume "jvm_manifest_ok m"
  then show "jvm_manifest_ok (canonical_manifest m)" by (rule canonical_manifest_ok)
  have "sort_key (sp_declaration \<circ> jos_provenance) (map canonical_owner
      (sort_key (sp_declaration \<circ> jos_provenance) (jm_owners m))) =
      map canonical_owner (sort_key (sp_declaration \<circ> jos_provenance) (jm_owners m))"
    by (rule sort_key_sorted_map) simp
  moreover have "jvm_owner_manifest (canonical_owner s) = jvm_owner_manifest s" for s
    by (simp add: jvm_owner_manifest_def) (simp add: canonical_owner_def)
  ultimately show "jvm_manifest (canonical_manifest m) = jvm_manifest m"
    by (simp add: jvm_manifest_def canonical_manifest_def)
qed

text \<open>
  C12. What the reader of a JVM manifest accepts has passed every check: the identities of owners and
  declarations are the deterministic ones, the intents are legal, and the feature is the expected one.
  It can be written again, and reading that gives the same manifest with owners, constructors and
  declarations in the order of their identities, where further rounds change nothing.
\<close>

theorem jvm_manifest_settles:
  assumes "parse_jvm_manifest expected raw = Inr m"
  shows "jvm_manifest_ok m \<and> expected \<in> {None, Some (jm_feature m)} \<and>
     parse_jvm_manifest expected (jvm_manifest m) = Inr (canonical_manifest m) \<and>
     jvm_manifest (canonical_manifest m) = jvm_manifest m"
proof -
  have m: "parse_jvm_manifest None raw = Inr m" "expected = None \<or> expected = Some (jm_feature m)"
    using assms unfolding parse_expected [of expected] by simp_all
  note settled = jm_manifest.settles [OF m(1)]
  have "jm_feature (canonical_manifest m) = jm_feature m" by (simp add: canonical_manifest_def)
  with m settled jm_manifest.canon_writes [of m] show ?thesis
    by (subst parse_expected [of expected]) auto
qed

section \<open>From the manifest to the API\<close>

lemma owner_ok_located: "jvm_owner_ok s \<Longrightarrow> owner_located s \<and> owner_intent_built s"
  by (auto simp: jvm_owner_ok_def owner_located_def owner_intent_built_def built_class_intent_def intent_ok_def
      jvm_constructor_ok_def jvm_declaration_ok_def jvm_field_ok_def list_all_iff)

lemma manifest_owners_located:
  assumes "parse_jvm_manifest expected raw = Inr m"
  shows "list_all owner_located (jm_owners m)" "list_all owner_intent_built (jm_owners m)"
proof -
  have "parse_jvm_manifest None raw = Inr m" using assms unfolding parse_expected [of expected] by simp
  from jm_manifest.reads_ok [OF this] have "list_all jvm_owner_ok (jm_owners m)" by (simp add: jvm_manifest_ok_def)
  then show "list_all owner_located (jm_owners m)" "list_all owner_intent_built (jm_owners m)"
    using owner_ok_located by (auto simp: list_all_iff)
qed

text \<open>
  C11. From any JSON value to a semantic API: when the manifest is read and its owners are projected, the
  API is valid, without classes of the older form, and its own manifest reads back to it.
\<close>

theorem manifest_projects_validly:
  assumes "parse_jvm_manifest expected raw = Inr m" and "project_jvm_owners (jm_owners m) (jm_feature m) = Inr api"
  shows "valid_api api \<and> well_typed api \<and>
     map b_source (a_functions api) =
       concat (map (map jds_provenance \<circ> jos_declarations) (filter plain_owner (jm_owners m))) \<and>
     semantic_api_from_manifest (api_manifest api) = Inr (canonical_api api)"
proof -
  note located = manifest_owners_located [OF assms(1)]
  show ?thesis
    using jvm.projects_valid [OF assms(2) located(1)] jvm.interface_keys [OF assms(2) located(1)]
      jvm.manifest_reads_back [OF assms(2) located(1)] jvm_api_mirrors [OF assms(2) located]
    by blast
qed

section \<open>An error that is not reported as one\<close>

lemma misplaced_occurrence: "\<not> occurrence_ok m \<Longrightarrow> parse_occurrence (occurrence_manifest m) lbl = Inl (JmMarker MarkerPosition)"
  by (cases m) (auto simp: parse_occurrence_def occurrence_manifest_def jm_keys_self mk_occurrence_def occurrence_ok_def
      insert_commute)

text \<open>The manifest with every line and column of a marker raised to at least 1.\<close>

definition place_occurrence :: "marker_occurrence \<Rightarrow> marker_occurrence" where
  "place_occurrence x = x\<lparr>mo_line := max 1 (mo_line x), mo_column := max 1 (mo_column x)\<rparr>"

definition place_intent :: "source_intent \<Rightarrow> source_intent" where
  "place_intent i = i\<lparr>si_occurrences := map place_occurrence (si_occurrences i)\<rparr>"

definition place_constructor :: "jvm_constructor_source \<Rightarrow> jvm_constructor_source" where
  "place_constructor c = c\<lparr>jcs_intent := place_intent (jcs_intent c)\<rparr>"

definition place_declaration :: "jvm_declaration_source \<Rightarrow> jvm_declaration_source" where
  "place_declaration d = d\<lparr>jds_intent := place_intent (jds_intent d)\<rparr>"

definition place_field :: "jvm_field_source \<Rightarrow> jvm_field_source" where
  "place_field f = f\<lparr>jfs_intent := place_intent (jfs_intent f)\<rparr>"

definition place_owner :: "jvm_owner_source \<Rightarrow> jvm_owner_source" where
  "place_owner s = s\<lparr>jos_intent := place_intent (jos_intent s),
     jos_constructors := map place_constructor (jos_constructors s),
     jos_declarations := map place_declaration (jos_declarations s),
     jos_fields := map place_field (jos_fields s)\<rparr>"

definition place_manifest :: "jvm_source_manifest \<Rightarrow> jvm_source_manifest" where
  "place_manifest m = m\<lparr>jm_owners := map place_owner (jm_owners m)\<rparr>"

text \<open>All markers of a manifest: those of the classes, constructors, declarations and fields of its owners.\<close>

definition owner_markers :: "jvm_owner_source \<Rightarrow> marker_occurrence list" where
  "owner_markers s = si_occurrences (jos_intent s) @
     concat (map (si_occurrences \<circ> jcs_intent) (jos_constructors s)) @
     concat (map (si_occurrences \<circ> jds_intent) (jos_declarations s)) @
     concat (map (si_occurrences \<circ> jfs_intent) (jos_fields s))"

definition manifest_markers :: "jvm_source_manifest \<Rightarrow> marker_occurrence list" where
  "manifest_markers m = concat (map owner_markers (jm_owners m))"

abbreviation marker_escape :: jvm_manifest_error where
  "marker_escape \<equiv> JmMarker MarkerPosition"

lemma place_ok: "occurrence_ok x \<Longrightarrow> place_occurrence x = x"
  by (cases x) (simp add: place_occurrence_def occurrence_ok_def max_def)

lemma place_intent_ok: "list_all occurrence_ok (si_occurrences i) \<Longrightarrow> place_intent i = i"
  using map_idI [of "si_occurrences i" place_occurrence] place_ok by (simp add: place_intent_def list_all_iff)

lemma placed_item_selectors [simp]:
  "jcs_provenance (place_constructor c) = jcs_provenance c" "jds_provenance (place_declaration d) = jds_provenance d"
  "jos_provenance (place_owner s) = jos_provenance s"
  by (simp_all add: place_constructor_def place_declaration_def place_owner_def)

lemma emap_or_error:
  assumes "\<And>x. x \<in> set xs \<Longrightarrow> f x = (if P x then Inr (g x) else Inl e)"
  shows "emap f xs = (if list_all P xs then Inr (map g xs) else Inl e)"
  using assms by (induction xs) simp_all

lemma items_or_error:
  assumes "\<And>x lbl. x \<in> set xs \<Longrightarrow> reader (writer x) lbl = (if P x then Inr (g x) else Inl e)"
  shows "jm_items reader (JArr (map writer xs)) lbl = (if list_all P xs then Inr (map g xs) else Inl e)"
proof -
  have w: "enumerated (map writer xs) = map (\<lambda>(i, x). (i, writer x)) (enumerated xs)"
    by (simp add: enumerated_def zip_map2)
  have "emap (\<lambda>(i, x). reader x (lbl @ [LIdx i])) (enumerated (map writer xs)) =
      emap (\<lambda>(i, x). reader (writer x) (lbl @ [LIdx i])) (enumerated xs)"
    by (simp add: w emap_map case_prod_unfold)
  also have "\<dots> = (if list_all (P \<circ> snd) (enumerated xs) then Inr (map (g \<circ> snd) (enumerated xs)) else Inl e)"
    by (rule emap_or_error) (auto simp: assms)
  also have "list_all (P \<circ> snd) (enumerated xs) = list_all P (map snd (enumerated xs))"
    by (simp only: list.pred_map)
  also have "map (g \<circ> snd) (enumerated xs) = map g (map snd (enumerated xs))" by (simp only: map_map)
  finally show ?thesis by (simp add: jm_items_def)
qed

lemma occurrence_or_error:
  "parse_occurrence (occurrence_manifest x) lbl = (if occurrence_ok x then Inr x else Inl marker_escape)"
  by (simp add: misplaced_occurrence jm_occurrence.reads_back)

lemma intent_or_error:
  assumes "intent_ok target (place_intent i)"
  shows "parse_intent target (intent_manifest i) lbl =
     (if list_all occurrence_ok (si_occurrences i) then Inr i else Inl marker_escape)"
proof (cases "list_all occurrence_ok (si_occurrences i)")
  case True
  with assms jm_intent.reads_back show ?thesis by (simp add: place_intent_ok)
next
  case False
  then show ?thesis
    using items_or_error [of "si_occurrences i" parse_occurrence occurrence_manifest occurrence_ok "\<lambda>x. x" marker_escape lbl]
    by (simp add: parse_intent_def intent_manifest_def occurrence_or_error)
qed

lemma constructor_or_error:
  assumes "jvm_constructor_ok oc (place_constructor c)"
  shows "parse_jvm_constructor oc (jvm_constructor_manifest c) lbl =
     (if list_all occurrence_ok (si_occurrences (jcs_intent c)) then Inr c else Inl marker_escape)"
proof (cases "list_all occurrence_ok (si_occurrences (jcs_intent c))")
  case True
  with assms jm_constructor.reads_back show ?thesis by (simp add: place_constructor_def place_intent_ok)
next
  case False
  note parts = jm_provenance.reads_back jm_items_codec [OF jm_parameter.codec_axioms]
  from False assms show ?thesis
    by (simp add: parse_jvm_constructor_def jvm_constructor_manifest_def jm_keys_self constructor_keys_def
        jvm_constructor_ok_def place_constructor_def parts verify_declaration_identity_def adapter_nonempty insert_commute
        intent_or_error)
qed

lemma declaration_or_error:
  assumes "jvm_declaration_ok language oc oi target (place_declaration d)"
  shows "parse_jvm_declaration language oc oi target (jvm_declaration_manifest d) lbl =
     (if list_all occurrence_ok (si_occurrences (jds_intent d)) then Inr d else Inl marker_escape)"
proof (cases "list_all occurrence_ok (si_occurrences (jds_intent d))")
  case True
  with assms jm_declaration.reads_back show ?thesis by (simp add: place_declaration_def place_intent_ok)
next
  case False
  note parts = jm_provenance.reads_back jm_items_codec [OF jm_parameter.codec_axioms]
    jm_items_codec [OF jm_type.codec_axioms]
  from False assms show ?thesis
    by (simp add: parse_jvm_declaration_def jvm_declaration_manifest_def jm_keys_self declaration_keys_def
        jvm_declaration_ok_def place_declaration_def parts verify_declaration_identity_def adapter_nonempty insert_commute
        intent_or_error)
qed

lemma field_or_error:
  assumes "jvm_field_ok oi (place_field f)"
  shows "parse_jvm_field oi (jvm_field_manifest f) lbl =
     (if list_all occurrence_ok (si_occurrences (jfs_intent f)) then Inr f else Inl marker_escape)"
proof (cases "list_all occurrence_ok (si_occurrences (jfs_intent f))")
  case True
  with assms jm_field.reads_back show ?thesis by (simp add: place_field_def place_intent_ok)
next
  case False
  note parts = jm_provenance.reads_back jm_type.reads_back
  from False assms show ?thesis
    by (simp add: parse_jvm_field_def jvm_field_manifest_def jm_keys_self jvm_field_keys_def
        jvm_field_ok_def place_field_def parts insert_commute intent_or_error)
qed

lemma list_all_concat_map: "list_all P (concat (map f xs)) \<longleftrightarrow> list_all (\<lambda>x. list_all P (f x)) xs"
  by (induction xs) simp_all

lemma place_owner_ok:
  assumes "list_all occurrence_ok (owner_markers s)" shows "place_owner s = s"
proof -
  have ok: "list_all occurrence_ok (si_occurrences (jos_intent s))"
    "\<forall>c \<in> set (jos_constructors s). list_all occurrence_ok (si_occurrences (jcs_intent c))"
    "\<forall>d \<in> set (jos_declarations s). list_all occurrence_ok (si_occurrences (jds_intent d))"
    "\<forall>f \<in> set (jos_fields s). list_all occurrence_ok (si_occurrences (jfs_intent f))"
    using assms by (auto simp: owner_markers_def list_all_iff)
  have "map place_constructor (jos_constructors s) = jos_constructors s"
    "map place_declaration (jos_declarations s) = jos_declarations s" "map place_field (jos_fields s) = jos_fields s"
    using ok(2-4) by (auto intro!: map_idI simp: place_constructor_def place_declaration_def place_field_def place_intent_ok)
  with ok(1) show ?thesis by (simp add: place_owner_def place_intent_ok)
qed

lemma owner_or_error:
  assumes "jvm_owner_ok (place_owner s)"
  shows "parse_jvm_owner (jvm_owner_manifest s) lbl =
     (if list_all occurrence_ok (owner_markers s) then Inr (canonical_owner s) else Inl marker_escape)"
proof (cases "list_all occurrence_ok (owner_markers s)")
  case True
  with assms jm_owner.reads_back show ?thesis by (simp add: place_owner_ok)
next
  case False
  let ?t = "owner_declaration_target (jos_intent s)"
  let ?cs = "sort_key (sp_declaration \<circ> jcs_provenance) (jos_constructors s)"
  let ?ds = "sort_key (sp_declaration \<circ> jds_provenance) (jos_declarations s)"
  have target: "owner_declaration_target (place_intent i) = owner_declaration_target i" for i
    by (cases "si_occurrences i") (simp_all add: owner_declaration_target_def intent_markers_def place_intent_def)
  have ok: "jvm_owner_ok (place_owner s)" by (rule assms)
  have cs: "jm_items (parse_jvm_constructor (jos_owner_class s)) (JArr (map jvm_constructor_manifest ?cs)) l =
      (if list_all (\<lambda>c. list_all occurrence_ok (si_occurrences (jcs_intent c))) ?cs then Inr (map (\<lambda>c. c) ?cs) else Inl marker_escape)" for l
    by (rule items_or_error, rule constructor_or_error) (use ok in \<open>simp add: jvm_owner_ok_def place_owner_def list_all_iff\<close>)
  have ds: "jm_items (parse_jvm_declaration (jos_language s) (jos_owner_class s) (jvm_owner_identity (jos_owner_class s)) ?t)
      (JArr (map jvm_declaration_manifest ?ds)) l =
      (if list_all (\<lambda>d. list_all occurrence_ok (si_occurrences (jds_intent d))) ?ds then Inr (map (\<lambda>d. d) ?ds) else Inl marker_escape)" for l
    by (rule items_or_error, rule declaration_or_error)
      (use ok in \<open>simp add: jvm_owner_ok_def place_owner_def list_all_iff target\<close>)
  have fs: "jm_items (parse_jvm_field (jvm_owner_identity (jos_owner_class s))) (JArr (map jvm_field_manifest (jos_fields s))) l =
      (if list_all (\<lambda>f. list_all occurrence_ok (si_occurrences (jfs_intent f))) (jos_fields s) then Inr (map (\<lambda>f. f) (jos_fields s))
       else Inl marker_escape)" for l
    by (rule items_or_error, rule field_or_error) (use ok in \<open>simp add: jvm_owner_ok_def place_owner_def list_all_iff\<close>)
  from False ok show ?thesis
    by (auto simp: parse_jvm_owner_def jvm_owner_manifest_def jm_keys_self owner_keys_def jvm_owner_ok_def place_owner_def
        jm_provenance.reads_back intent_or_error cs ds fs Let_def insert_commute owner_markers_def list_all_concat_map)
qed

text \<open>
  C40. Take a manifest that would be accepted if every line and column below 1 of a marker were 1.  It is
  accepted exactly when there is no such marker; with one, of a class, a constructor, a declaration or a
  field of any owner, the reader fails with the bare \<open>SourceModelError\<close> of the occurrence, which is not a
  manifest error: the occurrence is built outside the handlers, so the caller of \<open>read_jvm_manifest\<close> does
  not learn the path of the file.
\<close>

theorem misplaced_marker_escapes:
  assumes "jvm_manifest_ok (place_manifest m)" and "expected = None \<or> expected = Some (jm_feature m)"
  shows "parse_jvm_manifest expected (jvm_manifest m) =
       (if list_all occurrence_ok (manifest_markers m) then Inr (canonical_manifest m) else Inl (JmMarker MarkerPosition)) \<and>
     \<not> is_manifest_error (JmMarker MarkerPosition)"
proof (cases "list_all occurrence_ok (manifest_markers m)")
  case True
  then have "map place_owner (jm_owners m) = jm_owners m"
    by (simp add: manifest_markers_def list_all_concat_map list_all_iff place_owner_ok map_idI)
  with assms(1) have "jvm_manifest_ok m" by (simp add: place_manifest_def)
  from jm_manifest.reads_back [OF this] have "parse_jvm_manifest None (jvm_manifest m) = Inr (canonical_manifest m)" .
  moreover have "jm_feature (canonical_manifest m) = jm_feature m" by (simp add: canonical_manifest_def)
  ultimately have "parse_jvm_manifest expected (jvm_manifest m) = Inr (canonical_manifest m)"
    using assms(2) unfolding parse_expected [of expected] by auto
  with True show ?thesis by simp
next
  case False
  let ?os = "sort_key (sp_declaration \<circ> jos_provenance) (jm_owners m)"
  have "jm_items parse_jvm_owner (JArr (map jvm_owner_manifest ?os)) l =
      (if list_all (\<lambda>s. list_all occurrence_ok (owner_markers s)) ?os then Inr (map canonical_owner ?os) else Inl marker_escape)" for l
    by (rule items_or_error, rule owner_or_error)
      (use assms(1) in \<open>simp add: jvm_manifest_ok_def place_manifest_def list_all_iff\<close>)
  moreover have "jm_schema m = jvm_schema_version" "jm_feature m \<noteq> []" "jm_frontend m \<noteq> []"
    using assms(1) by (auto simp: jvm_manifest_ok_def check_jvm_manifest_def feature_id_prefix_def place_manifest_def)
  ultimately show ?thesis using False assms(2)
    by (auto simp: parse_jvm_manifest_def jvm_manifest_def jm_keys_self insert_commute jvm_manifest_kind_def
        manifest_markers_def list_all_concat_map)
qed

section \<open>A sample\<close>

definition sample_enum_owner :: "int \<Rightarrow> jvm_owner_source" where
  "sample_enum_owner line =
    \<lparr>jos_provenance = \<lparr>sp_declaration = ''jvm:n.E'', sp_language = ''kotlin'', sp_path = ''E.kt'', sp_line = 2,
       sp_column = 1\<rparr>,
     jos_language = Kotlin, jos_owner_class = ''n.E'', jos_name = ''E'', jos_form = OfClass,
     jos_intent = \<lparr>si_target = TgClass,
       si_occurrences = [\<lparr>mo_marker = MValue, mo_line = line, mo_column = 1\<rparr>]\<rparr>,
     jos_constructors = [], jos_declarations = [], jos_visibility = ''public'', jos_fields = [],
     jos_constants = [''A'', ''B''], jos_data = False, jos_record = False, jos_final = True,
     jos_type_parameters = 0, jos_supertypes = []\<rparr>"

definition sample_manifest :: "int \<Rightarrow> jvm_source_manifest" where
  "sample_manifest line = \<lparr>jm_feature = ''supernote:feature:0'', jm_frontend = ''2'',
     jm_owners = [sample_enum_owner line], jm_schema = ''1.0''\<rparr>"

lemma sample_enum_owner_ok: "jvm_owner_ok (sample_enum_owner 1)"
proof -
  have "valid_source (jos_provenance (sample_enum_owner 1))" "check_jvm_owner (sample_enum_owner 1) = Inr ()"
    "intent_ok TgClass (jos_intent (sample_enum_owner 1))" by code_simp+
  then show ?thesis by (simp add: jvm_owner_ok_def) (simp add: sample_enum_owner_def jvm_owner_identity_def)
qed

lemma sample_manifest_ok: "jvm_manifest_ok (sample_manifest 1)"
  using sample_enum_owner_ok
  by (simp add: jvm_manifest_ok_def check_jvm_manifest_def sample_manifest_def jvm_schema_version_def
      feature_id_prefix_def check_manifest_owner_def) (simp add: sample_enum_owner_def jvm_owner_identity_def)

lemma sample_manifest_read:
  "parse_jvm_manifest (Some ''supernote:feature:0'') (jvm_manifest (sample_manifest 1)) = Inr (sample_manifest 1)"
proof -
  have "canonical_manifest (sample_manifest 1) = sample_manifest 1" "jm_feature (sample_manifest 1) = ''supernote:feature:0''"
    by (simp_all add: canonical_manifest_def canonical_owner_def sample_manifest_def sample_enum_owner_def)
  with jm_manifest.reads_back [OF sample_manifest_ok] show ?thesis by (simp add: parse_expected [of "Some _"])
qed

theorem jvm_manifest_settles_witness:
  "jvm_manifest_ok (sample_manifest 1) \<and>
     parse_jvm_manifest (Some ''supernote:feature:0'') (jvm_manifest (sample_manifest 1)) =
       Inr (canonical_manifest (sample_manifest 1))"
  using jvm_manifest_settles [OF sample_manifest_read] by blast

theorem manifest_projects_validly_witness:
  "\<exists>api. project_jvm_owners [sample_enum_owner 1] ''supernote:feature:0'' = Inr api \<and> valid_api api \<and>
     map decl_name (a_declarations api) = [''E''] \<and>
     semantic_api_from_manifest (api_manifest api) = Inr (canonical_api api)"
proof -
  have "case project_jvm_owners [sample_enum_owner 1] ''supernote:feature:0'' of
      Inr api \<Rightarrow> map decl_name (a_declarations api) = [''E''] | Inl _ \<Rightarrow> False" by code_simp
  then obtain api where api: "project_jvm_owners [sample_enum_owner 1] ''supernote:feature:0'' = Inr api"
    "map decl_name (a_declarations api) = [''E'']" by (auto split: sum.splits)
  have m: "jm_owners (sample_manifest 1) = [sample_enum_owner 1]" "jm_feature (sample_manifest 1) = ''supernote:feature:0''"
    by (simp_all add: sample_manifest_def)
  from manifest_projects_validly [OF sample_manifest_read, unfolded m, OF api(1)] api show ?thesis by metis
qed

theorem misplaced_marker_escapes_witness:
  "parse_jvm_manifest None (jvm_manifest (sample_manifest 0)) = Inl (JmMarker MarkerPosition)"
proof -
  have "place_manifest (sample_manifest 0) = sample_manifest 1"
    by (simp add: place_manifest_def sample_manifest_def place_owner_def sample_enum_owner_def place_intent_def place_occurrence_def)
  then have ok: "jvm_manifest_ok (place_manifest (sample_manifest 0))" using sample_manifest_ok by simp
  have bad: "\<not> list_all occurrence_ok (manifest_markers (sample_manifest 0))"
    by (simp add: manifest_markers_def sample_manifest_def owner_markers_def sample_enum_owner_def occurrence_ok_def)
  show ?thesis using misplaced_marker_escapes [OF ok, of None] bad by simp
qed

end
