(* ===== verification/Jvm_Routes_Props.thy ===== *)
theory Jvm_Routes_Props
  imports Jvm_Routes Jvm_Manifest_Props
begin

text \<open>
  The JVM routes exist: an API projected from JVM owners can be joined back to the same owners, and the
  routes carry their classes and adapters.
\<close>

section \<open>Descriptors\<close>

definition names_all :: "jvm_named \<Rightarrow> semantic_api \<Rightarrow> bool" where
  "names_all named api \<longleftrightarrow> (\<forall>d \<in> set (a_declarations api). named (decl_type_id d) \<noteq> None)"

lemma named_descriptor:
  assumes "crossing api (SemType k s i e)" "is_named k" "names_all named api"
  shows "\<exists>d. adapter_descriptor named (SemType k s i e) = Inr d"
proof -
  from assms(1,2) obtain x where x: "i = Some x" "e = None"
    by (cases e) (auto simp: crossing_def check_type_cases is_named_def split: type_kind.splits)
  with assms(1,2) obtain d where "d \<in> set (a_declarations api)" "decl_type_id d = x"
    by (cases k) (auto simp: crossing_def resolves_def is_named_def node_id_def)
  with assms(2,3) x show ?thesis by (auto simp: names_all_def is_named_def)
qed

lemma adapter_descriptor_total:
  "crossing api t \<Longrightarrow> names_all named api \<Longrightarrow> \<exists>s. adapter_descriptor named t = Inr s"
proof (induction named t rule: adapter_descriptor.induct)
  case (1 named k s i e)
  show ?case
  proof (cases "k = KNullable")
    case True
    with "1.prems"(1) obtain c where c: "e = Some c" "crossing api c"
      by (cases e) (auto simp: crossing_def check_type_cases)
    have "\<exists>d. adapter_descriptor named c = Inr d" if "(case (if st_kind c = KScalar then Option.bind (st_scalar c)
        boxed_descriptor else None) of Some d \<Rightarrow> False | None \<Rightarrow> True)"
      using "1.IH" [OF _ True c(1)] c(2) "1.prems"(2) True that by (auto split: option.splits)
    with True c(1) show ?thesis by (cases "if st_kind c = KScalar then Option.bind (st_scalar c) boxed_descriptor else None") auto
  next
    case False
    with "1.prems" named_descriptor [of api k s i e named] show ?thesis
      by (cases k; cases e) (auto simp: crossing_def check_type_cases is_named_def)
  qed
qed

text \<open>What the rest needs of an API: it is the JVM's alone, and all its declarations are named.\<close>

definition routable :: "jvm_named \<Rightarrow> semantic_api \<Rightarrow> bool" where
  "routable named api \<longleftrightarrow> backend_only BfJvm api \<and> names_all named api"

lemma descriptor_ok:
  assumes "routable named api" "t \<in> set (all_api_types api)" shows "\<exists>s. adapter_descriptor named t = Inr s"
  using assms crossing_api_type adapter_descriptor_total unfolding routable_def by blast

lemma descriptors_ok:
  assumes "routable named api" "set ts \<subseteq> set (all_api_types api)" shows "\<exists>ss. emap (adapter_descriptor named) ts = Inr ss"
  using assms descriptor_ok by (intro emap_Inr_total) blast

lemma jvm_route_types_ok:
  assumes "routable named api" "set ts \<subseteq> set (all_api_types api)" shows "echeck (jvm_route_type api) ts = Inr ()"
  using assms backend_type_crosses by (auto simp: routable_def jvm_route_type_def)

lemma jvm_route_binding_ok:
  assumes "routable named api" "set (binding_types b) \<subseteq> set (all_api_types api)" shows "jvm_route_binding api b = Inr ()"
  using assms backend_type_crosses
  by (auto simp: routable_def jvm_route_binding_def jvm_route_type_def binding_types_def)

text \<open>A callable joined to its own source always has a route.\<close>

definition adapts :: "jvm_callable_source \<Rightarrow> jvm_callable_route \<Rightarrow> bool" where
  "adapts s r \<longleftrightarrow> jcr_source r = callable_source_id s \<and> jcr_adapter r = callable_adapter s"

lemma jvm_callable_ok:
  assumes "routable named api" "semantic_source_id x = callable_source_id s"
    "set (semantic_parameter_types x) \<subseteq> set (all_api_types api)" "suspend \<or> (\<exists>d. adapter_descriptor named result = Inr d)"
  shows "\<exists>r. jvm_callable x s named owner public_name result static suspend = Inr r \<and> adapts s r \<and>
    jcr_public r = public_name \<and> jcr_static r = static \<and> jcr_suspend r = suspend \<and>
    jcr_execution r = semantic_execution x \<and> jcr_owner r = Some (jnr_type_id owner) \<and>
    jcr_parameters r = semantic_parameter_types x \<and> jcr_result r = result"
proof -
  obtain ds where ds: "emap (adapter_descriptor named) (semantic_parameter_types x) = Inr ds"
    using descriptors_ok [OF assms(1,3)] by blast
  obtain d where "(if suspend then Inr ''Lkotlinx/coroutines/Job;'' else adapter_descriptor named result) = Inr d"
    using assms(4) by (cases suspend) auto
  with ds assms(2) show ?thesis by (simp add: jvm_callable_def adapts_def)
qed

section \<open>What the projection returns\<close>

lemma project_jvm_function_fields:
  assumes "project_jvm_function owner registry s = Inr b"
  shows "b_source b = jds_provenance s \<and> b_name b = jds_name s \<and> b_execution b = intent_execution (jds_intent s) \<and>
    b_capabilities b = capabilities_for_role (intent_role (jds_intent s))"
  using assms unfolding project_jvm_function_def Let_def
  by (auto elim!: jvm_binding_Inr dest!: mk_binding_fields)

lemma jvm_object_method_fields:
  assumes "jvm_object_method owner i registry s = Inr b"
  shows "b_source b = jds_provenance s \<and> b_name b = jds_name s \<and>
    b_scope b = Some (if jds_static s then ScStatic else ScInstance)"
  using assms unfolding jvm_object_method_def
  by (auto elim!: jvm_binding_Inr dest!: mk_binding_fields)

lemma jvm_field_fields:
  "jvm_field owner i registry s = Inr f \<Longrightarrow>
     f_source f = jfs_provenance s \<and> f_name f = jfs_name s \<and> f_mutable f = jfs_mutable s"
  by (auto simp: jvm_field_def mk_field_def Let_def)

lemma jvm_fields_names: "emap (jvm_field owner i registry) ss = Inr fs \<Longrightarrow> map f_name fs = map jfs_name ss"
  unfolding emap_Inr_iff by (erule list_all2_sources) (simp add: jvm_field_fields)

definition declared_as ::
    "jvm_named_type list option \<Rightarrow> string \<Rightarrow> jvm_owner_source \<Rightarrow> semantic_declaration \<Rightarrow> bool" where
  "declared_as registry feature_id s d \<longleftrightarrow>
     (if declares_object (jos_intent s) then project_jvm_object s registry feature_id = Inr d
      else if jos_constants s \<noteq> [] then project_jvm_enum s feature_id = Inr d
      else project_jvm_value s registry feature_id = Inr d)"

lemma declared_as_projection:
  "declared_as registry feature_id s d \<Longrightarrow> owner_located s \<Longrightarrow>
     decl_projections d = [\<lparr>pr_backend = BfJvm, pr_source = jos_provenance s\<rparr>]"
  using project_jvm_object_valid project_jvm_enum_valid project_jvm_value_valid
  by (fastforce simp: declared_as_def declared_by_def split: if_splits)

lemma declared_parts:
  assumes "list_all2 (\<lambda>s part. project_jvm_owner registry feature_id s = Inr part) owners parts"
  shows "list_all2 (declared_as registry feature_id) (filter (\<lambda>s. \<not> plain_owner s) owners) (concat (map (snd \<circ> snd) parts))"
  using assms
proof (induction rule: list_all2_induct)
  case (Cons s ss part parts)
  have "list_all2 (declared_as registry feature_id) (if plain_owner s then [] else [s]) (snd (snd part))"
    using Cons.hyps(1) unfolding project_jvm_owner_def plain_owner_def declared_as_def
    by (cases "declares_object (jos_intent s)"; cases "declares_value (jos_intent s)"; cases "jos_constants s = []")
      (auto split: if_splits)
  from list_all2_appendI [OF this Cons.IH] show ?case by (cases "plain_owner s") simp_all
qed simp

lemma function_parts:
  assumes "list_all2 (\<lambda>s part. project_jvm_owner registry feature_id s = Inr part) owners parts"
    and "list_all owner_intent_built owners"
  shows "list_all2 (\<lambda>(s, x) b. project_jvm_function s registry x = Inr b)
    (owner_declarations (filter plain_owner owners)) (concat (map fst parts))"
  using assms
proof (induction rule: list_all2_induct)
  case (Cons s ss part parts)
  have "list_all2 (\<lambda>(s, x) b. project_jvm_function s registry x = Inr b)
      (if plain_owner s then map (Pair s) (jos_declarations s) else []) (fst part)"
  proof -
    have "intent_role (jos_intent s) = RoleOrdinary"
      using Cons.prems built_intent_role by (simp add: owner_intent_built_def)
    then show ?thesis
      using Cons.hyps(1) unfolding project_jvm_owner_def plain_owner_def
      by (cases "declares_object (jos_intent s)"; cases "declares_value (jos_intent s)")
        (auto simp: emap_Inr_iff list.rel_map)
  qed
  from list_all2_appendI [OF this Cons.IH] Cons.prems show ?case
    by (cases "plain_owner s") (simp_all add: owner_declarations_def)
qed (simp add: owner_declarations_def)

section \<open>Routable owners\<close>

text \<open>The public constructor a Kotlin value is rebuilt by: its visible parameters are named as the fields.\<close>

definition rebuilds :: "jvm_owner_source \<Rightarrow> jvm_constructor_source \<Rightarrow> bool" where
  "rebuilds s c \<longleftrightarrow> jcs_visibility c = ''public'' \<and> length (visible_parameters c) = length (jos_fields s) \<and>
     set (map jps_name (visible_parameters c)) = set (map jfs_name (jos_fields s))"

text \<open>The identities the route dictionaries are keyed by are distinct, the accessors are the derived ones,
  and every Kotlin value has one constructor that rebuilds it.  The manifest reader checks the owners and
  the accessors; the Kotlin compiler gives a data class its constructor.\<close>

definition owners_routable :: "jvm_owner_source list \<Rightarrow> bool" where
  "owners_routable owners \<longleftrightarrow>
     distinct (map owner_key owners) \<and>
     distinct (map (sp_declaration \<circ> jds_provenance) (concat (map jos_declarations owners))) \<and>
     list_all (\<lambda>s. distinct (map (sp_declaration \<circ> jcs_provenance) (jos_constructors s)) \<and>
       distinct (map (sp_declaration \<circ> jfs_provenance) (jos_fields s)) \<and>
       list_all (\<lambda>f. jfs_accessor f = jvm_field_accessor_identity (sp_declaration (jfs_provenance f))) (jos_fields s) \<and>
       (jos_language s = Kotlin \<and> declares_value (jos_intent s) \<and> jos_constants s = [] \<longrightarrow>
          length (filter (rebuilds s) (jos_constructors s)) = 1)) owners"

lemma owner_declaration_key:
  assumes "owners_routable owners" "s \<in> set owners" "x \<in> set (jos_declarations s)"
  shows "dict_by (\<lambda>(s, d). sp_declaration (jds_provenance d)) (owner_declarations owners)
      (sp_declaration (jds_provenance x)) = Some (s, x)"
    "dict_by (sp_declaration \<circ> jds_provenance) (jos_declarations s) (sp_declaration (jds_provenance x)) = Some x"
proof -
  have "map (\<lambda>(s, d). sp_declaration (jds_provenance d)) (owner_declarations owners) =
      map (sp_declaration \<circ> jds_provenance) (concat (map jos_declarations owners))"
    by (simp add: owner_declarations_def map_concat comp_def)
  with assms(1) have d: "distinct (map (\<lambda>(s, d). sp_declaration (jds_provenance d)) (owner_declarations owners))"
    by (simp add: owners_routable_def)
  have "(s, x) \<in> set (owner_declarations owners)" using assms(2,3) by (auto simp: owner_declarations_def)
  from dict_by_distinct [OF d this]
  show "dict_by (\<lambda>(s, d). sp_declaration (jds_provenance d)) (owner_declarations owners)
      (sp_declaration (jds_provenance x)) = Some (s, x)" by simp
  have "distinct (concat (map (\<lambda>s. map (sp_declaration \<circ> jds_provenance) (jos_declarations s)) owners))"
    using assms(1) by (simp add: owners_routable_def map_concat comp_def)
  from distinct_concat_in [OF this assms(2)]
  show "dict_by (sp_declaration \<circ> jds_provenance) (jos_declarations s) (sp_declaration (jds_provenance x)) = Some x"
    using assms(3) by (rule dict_by_comp)
qed

section \<open>Functions\<close>

text \<open>The declarations of implementation owners that become JavaScript functions: exported, and not
  instance methods of a class.\<close>

definition routed :: "jvm_owner_source \<times> jvm_declaration_source \<Rightarrow> bool" where
  "routed e \<longleftrightarrow> (case e of (s, x) \<Rightarrow> sp_language (jds_provenance x) \<in> {''kotlin'', ''java''} \<and>
     intent_role (jds_intent x) = RoleExported \<and> \<not> (jos_form s = OfClass \<and> \<not> jds_static x))"

definition routes_jvm_function :: "jvm_owner_source \<times> jvm_declaration_source \<Rightarrow> jvm_callable_route \<Rightarrow> bool" where
  "routes_jvm_function e r \<longleftrightarrow> (case e of (s, x) \<Rightarrow>
     jcr_source r = sp_declaration (jds_provenance x) \<and> jcr_adapter r = jds_adapter x \<and>
     jcr_public r = jds_name x \<and> jcr_suspend r = jds_suspend x \<and> jcr_static r \<and>
     jcr_execution r = intent_execution (jds_intent x) \<and>
     jcr_owner r = Some (''jvm:implementation-owner:'' @ owner_key s))"

lemma plan_jvm_function_ok:
  assumes "routable named api" "owners_routable owners" "s \<in> set owners" "x \<in> set (jos_declarations s)"
    "project_jvm_function s registry x = Inr b" "b \<in> set (a_functions api)"
  shows "\<exists>rs. plan_jvm_function api owners named b = Inr rs \<and>
    list_all2 routes_jvm_function (if routed (s, x) then [(s, x)] else []) rs"
proof -
  note b = project_jvm_function_fields [OF assms(5)]
  have types: "set (binding_types b) \<subseteq> set (all_api_types api)"
    using assms(6) by (auto simp: all_api_types_def)
  note binding = jvm_route_binding_ok [OF assms(1) types]
  show ?thesis
  proof (cases "routed (s, x)")
    case True
    have "\<exists>r. jvm_callable (OfBinding b) (OfDeclaration x) named (implementation_owner_route s) (b_name b) (b_result b)
        True (jds_suspend x) = Inr r \<and> adapts (OfDeclaration x) r \<and> jcr_public r = b_name b \<and> jcr_static r = True \<and>
        jcr_suspend r = jds_suspend x \<and> jcr_execution r = semantic_execution (OfBinding b) \<and>
        jcr_owner r = Some (jnr_type_id (implementation_owner_route s)) \<and>
        jcr_parameters r = semantic_parameter_types (OfBinding b) \<and> jcr_result r = b_result b"
      using types b descriptor_ok [OF assms(1), of "b_result b"]
      by (intro jvm_callable_ok [OF assms(1)]) (auto simp: binding_types_def)
    then obtain r where "jvm_callable (OfBinding b) (OfDeclaration x) named (implementation_owner_route s) (b_name b)
        (b_result b) True (jds_suspend x) = Inr r" "routes_jvm_function (s, x) r"
      using b by (auto simp: routes_jvm_function_def adapts_def implementation_owner_route_def)
    with True b binding owner_declaration_key(1) [OF assms(2-4)] show ?thesis
      by (auto simp: plan_jvm_function_def routed_def)
  next
    case False
    with b binding owner_declaration_key(1) [OF assms(2-4)] show ?thesis
      by (auto simp: plan_jvm_function_def routed_def)
  qed
qed

section \<open>Declarations\<close>

lemma declared_types:
  "d \<in> set (a_declarations api) \<Longrightarrow> set (declaration_types d) \<subseteq> set (all_api_types api)"
  by (auto simp: all_api_types_def)

lemma jvm_route_field_ok:
  assumes "routable named api" "f_type f \<in> set (all_api_types api)"
    "jfs_accessor x = jvm_field_accessor_identity (sp_declaration (jfs_provenance x))"
    "jvm_field owner i registry x = Inr f"
  shows "\<exists>r. jvm_route_field f x own named copied = Inr r \<and> jfr_public r = f_name f"
proof -
  obtain d where "adapter_descriptor named (f_type f) = Inr d" using descriptor_ok [OF assms(1,2)] by blast
  then show ?thesis using jvm_field_fields [OF assms(4)] assms(3) by (simp add: jvm_route_field_def Let_def)
qed

lemma plan_jvm_fields_ok:
  assumes "routable named api" "set (map f_type fs) \<subseteq> set (all_api_types api)"
    and fs: "emap (jvm_field owner i registry) (jos_fields s) = Inr fs"
    and keys: "distinct (map source_key (jos_fields s))"
      "\<And>f x. jvm_field owner i registry x = Inr f \<Longrightarrow> field_key f = source_key x"
    and accessors: "list_all (\<lambda>f. jfs_accessor f = jvm_field_accessor_identity (sp_declaration (jfs_provenance f))) (jos_fields s)"
  shows "\<exists>rs. plan_jvm_fields source_key field_key copied named own s fs = Inr rs \<and>
    map jfr_public rs = map f_name fs"
proof -
  have "\<exists>rs. emap (\<lambda>f. case dict_by source_key (jos_fields s) (field_key f) of
         None \<Rightarrow> Inl (JrMissingField (sp_declaration (f_source f)))
       | Some x \<Rightarrow> jvm_route_field f x own named copied) fs = Inr rs \<and> list_all2 (\<lambda>f r. jfr_public r = f_name f) fs rs"
  proof (rule emap_list_all2 [where P = "(=)"])
    show "list_all2 (=) fs fs" by (simp add: list.rel_eq)
    fix f g assume f: "f \<in> set fs" "g \<in> set fs" "f = g"
    from emap_Inr_set [OF fs f(1)] obtain x where x: "x \<in> set (jos_fields s)" "jvm_field owner i registry x = Inr f" by blast
    have "dict_by source_key (jos_fields s) (field_key f) = Some x"
      using dict_by_distinct [OF keys(1) x(1)] keys(2) [OF x(2)] by simp
    moreover have "f_type f \<in> set (all_api_types api)" using assms(2) f(1) by auto
    moreover have "jfs_accessor x = jvm_field_accessor_identity (sp_declaration (jfs_provenance x))"
      using accessors x(1) by (simp add: list_all_iff)
    ultimately show "\<exists>r. (case dict_by source_key (jos_fields s) (field_key g) of
         None \<Rightarrow> Inl (JrMissingField (sp_declaration (f_source g)))
       | Some x \<Rightarrow> jvm_route_field g x own named copied) = Inr r \<and> jfr_public r = f_name f"
      using jvm_route_field_ok [OF assms(1) _ _ x(2)] f(3) by simp
  qed
  then obtain rs where "plan_jvm_fields source_key field_key copied named own s fs = Inr rs"
    "list_all2 (\<lambda>f r. jfr_public r = f_name f) fs rs" by (auto simp: plan_jvm_fields_def)
  moreover from this(2) have "map jfr_public rs = map f_name fs" by (rule list_all2_sources)
  ultimately show ?thesis by blast
qed

lemma owners_routable_in:
  assumes "owners_routable owners" "s \<in> set owners"
  shows "distinct (map (sp_declaration \<circ> jcs_provenance) (jos_constructors s))"
    "distinct (map (sp_declaration \<circ> jfs_provenance) (jos_fields s))"
    "list_all (\<lambda>f. jfs_accessor f = jvm_field_accessor_identity (sp_declaration (jfs_provenance f))) (jos_fields s)"
    "jos_language s = Kotlin \<Longrightarrow> declares_value (jos_intent s) \<Longrightarrow> jos_constants s = [] \<Longrightarrow>
       length (filter (rebuilds s) (jos_constructors s)) = 1"
  using assms by (auto simp: owners_routable_def list_all_iff)

lemma plan_jvm_method_ok:
  assumes "routable named api" "owners_routable owners" "s \<in> set owners" "x \<in> set (jos_declarations s)"
    "jvm_object_method s i registry x = Inr b" "set (binding_types b) \<subseteq> set (all_api_types api)"
  shows "\<exists>r. plan_jvm_method api named owner s b = Inr r"
proof -
  note b = jvm_object_method_fields [OF assms(5)]
  have "\<exists>r. jvm_callable (OfBinding b) (OfDeclaration x) named owner (b_name b) (b_result b)
      (b_scope b = Some ScStatic) (jds_suspend x) = Inr r \<and> adapts (OfDeclaration x) r \<and> jcr_public r = b_name b \<and>
      jcr_static r = (b_scope b = Some ScStatic) \<and> jcr_suspend r = jds_suspend x \<and>
      jcr_execution r = semantic_execution (OfBinding b) \<and> jcr_owner r = Some (jnr_type_id owner) \<and>
      jcr_parameters r = semantic_parameter_types (OfBinding b) \<and> jcr_result r = b_result b"
    using assms(6) b descriptor_ok [OF assms(1), of "b_result b"]
    by (intro jvm_callable_ok [OF assms(1)]) (auto simp: binding_types_def)
  with b jvm_route_binding_ok [OF assms(1,6)] owner_declaration_key(2) [OF assms(2-4)] show ?thesis
    by (auto simp: plan_jvm_method_def Let_def)
qed

lemma selected_constructor_source:
  assumes "jvm_selected_constructor owner registry = Inr (Some k)"
  shows "\<exists>c \<in> set (jos_constructors owner). k_source k = jcs_provenance c"
proof (cases "filter jvm_constructor_selected (jos_constructors owner)")
  case (Cons c cs)
  with assms have "cs = []" by (cases cs) (simp_all add: jvm_selected_constructor_def)
  with Cons assms have "k_source k = jcs_provenance c"
    by (auto simp: jvm_selected_constructor_def mk_constructor_def Let_def)
  moreover have "c \<in> set (jos_constructors owner)" using filter_eq_ConsD [OF Cons] by auto
  ultimately show ?thesis by blast
qed (use assms in \<open>simp add: jvm_selected_constructor_def\<close>)

lemma plan_jvm_constructor_ok:
  assumes "routable named api" "owners_routable owners" "s \<in> set owners"
    and d: "ObjectDecl d \<in> set (a_declarations api)" and k: "jvm_selected_constructor s registry = Inr (o_constructor d)"
  shows "\<exists>r. plan_jvm_constructor api named d s = Inr r"
proof (cases "o_constructor d")
  case None
  then show ?thesis by (simp add: plan_jvm_constructor_def)
next
  case (Some k')
  have types: "set (map p_type (k_parameters k')) \<subseteq> set (all_api_types api)"
    using declared_types [OF d] Some by (auto simp: declaration_types_def constructor_types_def)
  obtain c where c: "c \<in> set (jos_constructors s)" "k_source k' = jcs_provenance c"
    using selected_constructor_source k Some by metis
  have key: "dict_by (sp_declaration \<circ> jcs_provenance) (jos_constructors s) (sp_declaration (k_source k')) = Some c"
    using dict_by_comp [OF owners_routable_in(1) [OF assms(2,3)] c(1)] c(2) by simp
  have "valid_declaration (ObjectDecl d)"
    using assms(1) d by (auto simp: routable_def backend_only_def valid_api_def list_all_iff)
  then have "o_type_id d \<noteq> []" by (auto simp: check_object_def check_header_def semantic_type_id_def)
  then have result: "object_ref (o_type_id d) = Inr (SemType KObjectRef None (Some (o_type_id d)) None)"
    by (auto simp: object_ref_def mk_type_Inr check_type_cases)
  have "named (o_type_id d) \<noteq> None" using assms(1) d by (force simp: routable_def names_all_def)
  then have "\<exists>r. jvm_callable (OfConstructor k') (OfOwnerConstructor c) named (named_jvm_route (ObjectDecl d) s) ''create''
      (SemType KObjectRef None (Some (o_type_id d)) None) True False = Inr r"
    using jvm_callable_ok [OF assms(1), of "OfConstructor k'" "OfOwnerConstructor c" False
        "SemType KObjectRef None (Some (o_type_id d)) None" "named_jvm_route (ObjectDecl d) s" "''create''" True] types c(2)
    by auto
  moreover have "echeck (jvm_route_type api \<circ> p_type) (k_parameters k') = Inr ()"
    using jvm_route_types_ok [OF assms(1) types] by auto
  ultimately show ?thesis using Some key result by (auto simp: plan_jvm_constructor_def)
qed

lemma plan_jvm_object_ok:
  assumes "routable named api" "owners_routable owners" "s \<in> set owners" "d \<in> set (a_declarations api)"
    "project_jvm_object s registry feature_id = Inr d"
  shows "\<exists>r. plan_jvm_declaration api named (d, s) = Inr r"
  using assms(5)
proof (cases rule: project_jvm_object_Inr)
  case (1 type_id ms fs k)
  let ?o = "\<lparr>o_feature = feature_id, o_type_id = type_id, o_name = jos_name s,
       o_projection = \<lparr>pr_backend = BfJvm, pr_source = jos_provenance s\<rparr>, o_constructor = k,
       o_methods = ms, o_fields = fs\<rparr>"
  have types: "set (declaration_types (ObjectDecl ?o)) \<subseteq> set (all_api_types api)"
    using declared_types [OF assms(4)] 1(5) by simp
  have "\<exists>rs. plan_jvm_fields (sp_declaration \<circ> jfs_provenance) (sp_declaration \<circ> f_source) False named
      (named_jvm_route (ObjectDecl ?o) s) s fs = Inr rs \<and> map jfr_public rs = map f_name fs"
    using types owners_routable_in(2,3) [OF assms(2,3)]
    by (intro plan_jvm_fields_ok [OF assms(1) _ 1(2)]) (auto simp: declaration_types_def dest: jvm_field_fields)
  moreover have "\<exists>r. plan_jvm_constructor api named ?o s = Inr r"
    using assms(4) 1(3,5) by (intro plan_jvm_constructor_ok [OF assms(1-3)]) simp_all
  moreover have "\<exists>rs. emap (plan_jvm_method api named (named_jvm_route (ObjectDecl ?o) s) s) ms = Inr rs"
  proof (rule emap_Inr_total)
    fix b assume b: "b \<in> set ms"
    with emap_Inr_set [OF 1(1)] obtain x where x: "x \<in> set (jos_declarations s)"
      "jvm_object_method s type_id registry x = Inr b" by (auto simp: generated_declarations_def)
    have "set (binding_types b) \<subseteq> set (all_api_types api)" using types b by (auto simp: declaration_types_def)
    then show "\<exists>r. plan_jvm_method api named (named_jvm_route (ObjectDecl ?o) s) s b = Inr r"
      by (rule plan_jvm_method_ok [OF assms(1-3) x])
  qed
  ultimately show ?thesis unfolding 1(5) by (auto simp: plan_jvm_object_def Let_def)
qed

lemma plan_jvm_enum_ok:
  "project_jvm_enum s feature_id = Inr d \<Longrightarrow> \<exists>r. plan_jvm_declaration api named (d, s) = Inr r"
  by (erule project_jvm_enum_Inr) (simp add: plan_jvm_enum_def)

section \<open>Values\<close>

lemma jvm_parameters_names:
  "jvm_parameters source language registry ps = Inr xs \<Longrightarrow>
     map p_name xs = map jps_name (filter (\<lambda>p. jps_injected p = None) ps)"
  by (induction ps arbitrary: xs) (auto simp: mk_parameter_def Let_def split: if_splits)

lemma filter_conj_singleton: "filter P xs = [c] \<Longrightarrow> Q c \<Longrightarrow> filter (\<lambda>x. P x \<and> Q x) xs = [c]"
  using filter_filter [of Q P xs] by simp

text \<open>The check of a Java value finds the constructor that rebuilds it.\<close>

lemma java_value_rebuilds:
  assumes "check_java_value s registry fs = Inr ()" and names: "map f_name fs = map jfs_name (jos_fields s)"
  shows "length (filter (rebuilds s) (jos_constructors s)) = 1"
proof -
  let ?public = "\<lambda>c. jcs_visibility c = ''public''"
  from assms(1) obtain c ps where c: "filter ?public (jos_constructors s) = [c]"
    "jvm_parameters (jcs_provenance c) (jos_language s) registry (jcs_parameters c) = Inr ps"
    "map (\<lambda>x. (p_name x, p_type x)) ps = map (\<lambda>f. (f_name f, f_type f)) fs"
    by (cases "filter ?public (jos_constructors s)") (auto simp: check_java_value_def Let_def length_Suc_conv)
  have "map fst (map (\<lambda>x. (p_name x, p_type x)) ps) = map fst (map (\<lambda>f. (f_name f, f_type f)) fs)"
    using c(3) by (rule arg_cong)
  then have "map p_name ps = map jfs_name (jos_fields s)" by (simp add: comp_def names)
  with jvm_parameters_names [OF c(2)] have visible: "map jps_name (visible_parameters c) = map jfs_name (jos_fields s)"
    by (simp add: visible_parameters_def)
  let ?same = "\<lambda>c. length (visible_parameters c) = length (jos_fields s) \<and>
      set (map jps_name (visible_parameters c)) = set (map jfs_name (jos_fields s))"
  have "?same c" using visible by (metis length_map)
  from filter_conj_singleton [OF c(1), of ?same, OF this] have "filter (rebuilds s) (jos_constructors s) = [c]"
    by (simp add: rebuilds_def [abs_def])
  then show ?thesis by simp
qed

lemma jvm_value_constructor_ok:
  assumes "routable named api" and d: "ValueDecl d \<in> set (a_declarations api)"
    and names: "map f_name (v_fields d) = map jfs_name (jos_fields s)"
    and one: "length (filter (rebuilds s) (jos_constructors s)) = 1"
  shows "\<exists>k ns. jvm_value_constructor d s owner named = Inr (k, ns) \<and> set ns \<subseteq> set (map f_name (v_fields d))"
proof -
  have valid: "valid_declaration (ValueDecl d)"
    using assms(1) d by (auto simp: routable_def backend_only_def valid_api_def list_all_iff)
  then have distinct: "distinct (map f_name (v_fields d))" and id: "v_type_id d \<noteq> []"
    by (auto simp: check_value_def check_fields_def check_header_def semantic_type_id_def)
  have fits: "value_constructor_fits d = rebuilds s"
  proof
    fix c
    have "length (remdups (map f_name (v_fields d))) = length (jos_fields s)"
      using distinct names by (metis distinct_remdups_id length_map)
    then show "value_constructor_fits d c = rebuilds s c" by (simp only: value_constructor_fits_def rebuilds_def names)
  qed
  from one obtain c where c: "filter (value_constructor_fits d) (jos_constructors s) = [c]"
    unfolding fits by (auto simp: length_Suc_conv)
  then have "c \<in> set (filter (value_constructor_fits d) (jos_constructors s))" by simp
  then have vis: "set (map jps_name (visible_parameters c)) = set (map f_name (v_fields d))"
    by (simp add: value_constructor_fits_def)
  have "\<exists>y. (case dict_by f_name (v_fields d) (jps_name p) of
         None \<Rightarrow> Inl (JrKeyError (jps_name p)) | Some f \<Rightarrow> Inr f) = Inr y" if "p \<in> set (visible_parameters c)" for p
  proof -
    have "jps_name p \<in> f_name ` set (v_fields d)" using that vis by auto
    from dict_by_key [OF this] show ?thesis by auto
  qed
  then have "\<exists>fs. constructor_field_order d c = Inr fs"
    unfolding constructor_field_order_def by (rule emap_Inr_total)
  then obtain fs where fs: "constructor_field_order d c = Inr fs" by blast
  have sub: "set fs \<subseteq> set (v_fields d)"
    using fs emap_Inr_set by (fastforce simp: constructor_field_order_def dest: dict_by_Some split: option.splits)
  have "set (map f_type fs) \<subseteq> set (all_api_types api)"
    using declared_types [OF d] sub by (auto simp: declaration_types_def)
  from descriptors_ok [OF assms(1) this] obtain ds where ds: "emap (adapter_descriptor named) (map f_type fs) = Inr ds" by blast
  have "value_ref (v_type_id d) = Inr (SemType KValueRef None (Some (v_type_id d)) None)"
    using id by (auto simp: value_ref_def mk_type_Inr check_type_cases)
  with c fs ds sub show ?thesis by (auto simp: jvm_value_constructor_def)
qed

lemma project_jvm_value_java:
  assumes "project_jvm_value s registry feature_id = Inr d" "jos_language s = Java"
    "emap (jvm_field s type_id registry) (jos_fields s) = Inr fs" "decl_type_id d = type_id"
  shows "check_java_value s registry fs = Inr ()"
  using assms by (auto simp: project_jvm_value_def mk_value_def Let_def)

lemma plan_jvm_value_ok:
  assumes "routable named api" "owners_routable owners" "s \<in> set owners" "d \<in> set (a_declarations api)"
    "declares_value (jos_intent s)" "jos_constants s = []"
    and made: "project_jvm_value s registry feature_id = Inr d"
  shows "\<exists>r. plan_jvm_declaration api named (d, s) = Inr r"
  using made
proof (cases rule: project_jvm_value_Inr)
  case (1 type_id fs)
  let ?v = "\<lparr>v_feature = feature_id, v_type_id = type_id, v_name = jos_name s, v_fields = fs,
       v_projections = [\<lparr>pr_backend = BfJvm, pr_source = jos_provenance s\<rparr>]\<rparr>"
  have d: "ValueDecl ?v \<in> set (a_declarations api)" using assms(4) 1(3) by simp
  have names: "map f_name fs = map jfs_name (jos_fields s)" using 1(1) by (rule jvm_fields_names)
  have "valid_declaration (ValueDecl ?v)"
    using assms(1) d by (auto simp: routable_def backend_only_def valid_api_def list_all_iff)
  then have "distinct (map f_name fs)" by (simp add: check_value_def check_fields_def)
  then have keys: "distinct (map jfs_name (jos_fields s))" using names by simp
  have types: "set (map f_type fs) \<subseteq> set (all_api_types api)"
    using declared_types [OF d] by (auto simp: declaration_types_def)
  have "\<exists>rs. plan_jvm_fields jfs_name f_name True named (named_jvm_route (ValueDecl ?v) s) s fs = Inr rs \<and>
      map jfr_public rs = map f_name fs"
    by (rule plan_jvm_fields_ok [OF assms(1) types 1(1) keys])
      (use jvm_field_fields owners_routable_in(3) [OF assms(2,3)] in blast)+
  then obtain rs where rs: "plan_jvm_fields jfs_name f_name True named (named_jvm_route (ValueDecl ?v) s) s fs = Inr rs"
    "map jfr_public rs = map f_name fs" by blast
  have one: "length (filter (rebuilds s) (jos_constructors s)) = 1"
  proof (cases "jos_language s")
    case Kotlin
    then show ?thesis using owners_routable_in(4) [OF assms(2,3)] assms(5,6) by blast
  next
    case Java
    have "check_java_value s registry fs = Inr ()"
      by (rule project_jvm_value_java [OF made Java 1(1)]) (simp add: 1(3))
    then show ?thesis using names by (rule java_value_rebuilds)
  qed
  obtain k ns where k: "jvm_value_constructor ?v s (named_jvm_route (ValueDecl ?v) s) named = Inr (k, ns)"
    "set ns \<subseteq> set (map f_name fs)"
    using jvm_value_constructor_ok [OF assms(1) d _ one, of "named_jvm_route (ValueDecl ?v) s"] names by fastforce
  have "\<exists>kfs. emap (\<lambda>n. case dict_by jfr_public rs n of None \<Rightarrow> Inl (JrKeyError n) | Some f \<Rightarrow> Inr f) ns = Inr kfs"
  proof (rule emap_Inr_total)
    fix n assume "n \<in> set ns"
    with k(2) have "n \<in> set (map jfr_public rs)" unfolding rs(2) by blast
    then have "n \<in> jfr_public ` set rs" by simp
    from dict_by_key [OF this] show "\<exists>y. (case dict_by jfr_public rs n of None \<Rightarrow> Inl (JrKeyError n) | Some f \<Rightarrow> Inr f) = Inr y"
      by auto
  qed
  with rs(1) k(1) show ?thesis unfolding 1(3) by (auto simp: plan_jvm_value_def Let_def)
qed

lemma plan_jvm_declaration_ok:
  assumes "routable named api" "owners_routable owners" "s \<in> set owners" "d \<in> set (a_declarations api)"
    "\<not> plain_owner s" "declared_as registry feature_id s d"
  shows "\<exists>r. plan_jvm_declaration api named (d, s) = Inr r"
  using assms(5,6) plan_jvm_object_ok [OF assms(1-4)] plan_jvm_value_ok [OF assms(1-4)] plan_jvm_enum_ok
  by (auto simp: declared_as_def plain_owner_def split: if_splits)

section \<open>The plan\<close>

lemma join_declarations:
  assumes "list_all2 (\<lambda>s d. s \<in> set owners \<and>
      decl_projections d = [\<lparr>pr_backend = BfJvm, pr_source = jos_provenance s\<rparr>]) ss ds"
    and "distinct (map owner_key owners)"
  shows "emap (join_declaration owners) ds = Inr (map (\<lambda>x. [x]) (zip ds ss))"
  using assms(1)
proof (induction rule: list_all2_induct)
  case (Cons s ss d ds)
  then have "join_declaration owners d = Inr [(d, s)]"
    using dict_by_distinct [OF assms(2)] by (simp add: join_declaration_def)
  with Cons.IH show ?case by simp
qed simp

lemma concat_singletons [simp]: "concat (map (\<lambda>x. [x]) xs) = xs"
  by (induction xs) simp_all

lemma list_all2_concat_if:
  assumes "list_all2 (\<lambda>e rs. list_all2 R (if P e then [e] else []) rs) es rss"
  shows "list_all2 R (filter P es) (concat rss)"
  using assms by (induction rule: list_all2_induct) (auto split: if_splits dest: list_all2_appendI)

text \<open>The declarations of an API with the owners that declare them, and the types they name.\<close>

abbreviation joins_of :: "semantic_api \<Rightarrow> jvm_owner_source list \<Rightarrow> (semantic_declaration \<times> jvm_owner_source) list" where
  "joins_of api owners \<equiv> zip (a_declarations api) (filter (\<lambda>s. \<not> plain_owner s) owners)"

abbreviation routes_of :: "semantic_api \<Rightarrow> jvm_owner_source list \<Rightarrow> jvm_named_type_route list" where
  "routes_of api owners \<equiv> map (\<lambda>(d, s). named_jvm_route d s) (joins_of api owners)"

lemma declarations_joined:
  assumes "list_all2 (declared_as registry feature_id) (filter (\<lambda>s. \<not> plain_owner s) owners) (a_declarations api)"
    and "list_all owner_located owners" "owners_routable owners"
  shows "emap (join_declaration owners) (a_declarations api) = Inr (map (\<lambda>x. [x]) (joins_of api owners))"
proof (rule join_declarations)
  show "list_all2 (\<lambda>s d. s \<in> set owners \<and>
      decl_projections d = [\<lparr>pr_backend = BfJvm, pr_source = jos_provenance s\<rparr>])
      (filter (\<lambda>s. \<not> plain_owner s) owners) (a_declarations api)"
    by (rule list.rel_mono_strong [OF assms(1)])
      (use assms(2) declared_as_projection in \<open>auto simp: list_all_iff\<close>)
qed (use assms(3) in \<open>simp add: owners_routable_def\<close>)

lemma joined_routable:
  assumes "backend_only BfJvm api" "length (filter (\<lambda>s. \<not> plain_owner s) owners) = length (a_declarations api)"
  shows "routable (dict_by jnr_type_id (routes_of api owners)) api"
proof -
  have "map jnr_type_id (routes_of api owners) = map decl_type_id (map fst (joins_of api owners))"
    by (simp add: named_jvm_route_def comp_def case_prod_unfold)
  then have ids: "map jnr_type_id (routes_of api owners) = map decl_type_id (a_declarations api)"
    using assms(2) by simp
  have "dict_by jnr_type_id (routes_of api owners) (decl_type_id d) \<noteq> None" if "d \<in> set (a_declarations api)" for d
  proof -
    have "decl_type_id d \<in> jnr_type_id ` set (routes_of api owners)" using that ids by (metis image_eqI image_set)
    from dict_by_key [OF this] show ?thesis by auto
  qed
  with assms(1) show ?thesis by (simp add: routable_def names_all_def)
qed

lemma joined_planned:
  assumes "routable named api" "owners_routable owners"
    and declared: "list_all2 (declared_as registry feature_id) (filter (\<lambda>s. \<not> plain_owner s) owners) (a_declarations api)"
  shows "\<exists>xs. emap (plan_jvm_declaration api named) (joins_of api owners) = Inr xs"
proof (rule emap_Inr_total)
  fix e assume e: "e \<in> set (joins_of api owners)"
  obtain d s where ds: "e = (d, s)" by (cases e)
  with e have "d \<in> set (a_declarations api)" "s \<in> set (filter (\<lambda>s. \<not> plain_owner s) owners)"
    by (auto dest: set_zip_leftD set_zip_rightD)
  moreover have "declared_as registry feature_id s d"
    using e declared unfolding ds by (auto simp: list_all2_conv_all_nth set_zip)
  ultimately show "\<exists>r. plan_jvm_declaration api named e = Inr r"
    using plan_jvm_declaration_ok [OF assms(1,2)] ds by simp
qed

lemma functions_planned:
  assumes "routable named api" "owners_routable owners"
    and fs: "list_all2 (\<lambda>(s, x) b. project_jvm_function s registry x = Inr b)
      (owner_declarations (filter plain_owner owners)) (a_functions api)"
  shows "\<exists>rss. emap (plan_jvm_function api owners named) (a_functions api) = Inr rss \<and>
    list_all2 routes_jvm_function (filter routed (owner_declarations (filter plain_owner owners))) (concat rss)"
proof -
  have "\<exists>rss. emap (plan_jvm_function api owners named) (a_functions api) = Inr rss \<and>
      list_all2 (\<lambda>e rs. list_all2 routes_jvm_function (if routed e then [e] else []) rs)
        (owner_declarations (filter plain_owner owners)) rss"
  proof (rule emap_list_all2 [OF fs])
    fix e b assume e: "e \<in> set (owner_declarations (filter plain_owner owners))" "b \<in> set (a_functions api)"
      "(case e of (s, x) \<Rightarrow> \<lambda>b. project_jvm_function s registry x = Inr b) b"
    then obtain s x where sx: "e = (s, x)" "s \<in> set owners" "x \<in> set (jos_declarations s)"
      by (auto simp: owner_declarations_def)
    with e(3) have "project_jvm_function s registry x = Inr b" by simp
    from plan_jvm_function_ok [OF assms(1,2) sx(2,3) this e(2)]
    show "\<exists>rs. plan_jvm_function api owners named b = Inr rs \<and>
        list_all2 routes_jvm_function (if routed e then [e] else []) rs" unfolding sx(1) .
  qed
  then show ?thesis using list_all2_concat_if by blast
qed


section \<open>A sample\<close>

definition sample_constructor :: jvm_constructor_source where
  "sample_constructor = \<lparr>jcs_provenance = kotlin_at ''k5'' 2, jcs_descriptor = ''(I)V'',
     jcs_parameters = [\<lparr>jps_type = ''kotlin.Int'', jps_name = ''x'', jps_nullable = False, jps_injected = None,
       jps_arguments = []\<rparr>],
     jcs_visibility = ''public'', jcs_intent = intent_of TgConstructor [], jcs_adapter = ''c''\<rparr>"

definition value_owner_with :: "string \<Rightarrow> jvm_owner_source" where
  "value_owner_with accessor = sample_value_owner\<lparr>jos_constructors := [sample_constructor],
     jos_fields := map (\<lambda>f. f\<lparr>jfs_accessor := accessor\<rparr>) (jos_fields sample_value_owner)\<rparr>"

definition routed_value_owner :: jvm_owner_source where
  "routed_value_owner = value_owner_with (jvm_field_accessor_identity ''k2'')"

lemmas routed_owner_defs = routed_value_owner_def value_owner_with_def sample_value_owner_def kotlin_at_def

lemma routed_sample_projected:
  "case project_jvm_owners [value_owner_with a, sample_function_owner] ''f'' of Inl _ \<Rightarrow> False | Inr api \<Rightarrow> True"
  by code_simp

lemma routed_sample_facts:
  "map jfs_name (jos_fields routed_value_owner) = [''x'']" "jos_constructors routed_value_owner = [sample_constructor]"
  "jos_declarations routed_value_owner = []" "owner_key routed_value_owner = ''k1''"
  by (simp_all add: routed_owner_defs)

lemma routed_sample_routable: "owners_routable [routed_value_owner, sample_function_owner]"
proof -
  have "owner_key sample_function_owner = ''k3''" "jos_constructors sample_function_owner = []"
    "jos_fields sample_function_owner = []" "jos_language sample_function_owner = Kotlin"
    "\<not> declares_value (jos_intent sample_function_owner)"
    "distinct (map (sp_declaration \<circ> jds_provenance) (jos_declarations sample_function_owner))" by code_simp+
  moreover have "rebuilds routed_value_owner sample_constructor"
    using routed_sample_facts(1)
    by (simp add: rebuilds_def routed_owner_defs sample_constructor_def visible_parameters_def)
  moreover have "distinct (map (sp_declaration \<circ> jfs_provenance) (jos_fields routed_value_owner))"
    by (simp add: routed_owner_defs)
  moreover have "list_all (\<lambda>f. jfs_accessor f = jvm_field_accessor_identity (sp_declaration (jfs_provenance f)))
      (jos_fields routed_value_owner)"
    by (simp add: routed_owner_defs)
  ultimately show ?thesis using routed_sample_facts by (simp add: owners_routable_def)
qed

lemma routed_sample_located:
  "list_all owner_located [routed_value_owner, sample_function_owner]"
  "list_all owner_intent_built [routed_value_owner, sample_function_owner]"
proof -
  have "valid_source (jcs_provenance sample_constructor)" by code_simp
  with sample_owners show "list_all owner_located [routed_value_owner, sample_function_owner]"
    by (simp add: routed_value_owner_def value_owner_with_def owner_located_def list_all_iff)
  show "list_all owner_intent_built [routed_value_owner, sample_function_owner]"
    using sample_owners by (simp add: routed_value_owner_def value_owner_with_def owner_intent_built_def)
qed


end
