(* ===== verification/Semantic_Ir.thy ===== *)
theory Semantic_Ir
  imports Naming Semantic_Merge Semantic_Manifest
begin

text \<open>
  The project-level input of code generation (\<^verbatim>\<open>semantic_ir.py\<close>): the canonical JSON text and its
  hashes, the APIs of a feature with their merge, the ordered features of a plugin, and the strict reader
  of the whole manifest.
\<close>

section \<open>Canonical JSON text\<close>

fun nat_text :: "nat \<Rightarrow> string" where
  "nat_text n =
     (if n < 10 then [char_of (48 + n)] else nat_text (n div 10) @ [char_of (48 + n mod 10)])"

declare nat_text.simps [simp del]

definition int_text :: "int \<Rightarrow> string" where
  "int_text i = (if i < 0 then CHR ''-'' # nat_text (nat (- i)) else nat_text (nat i))"

text \<open>\<open>ensure_ascii=False\<close> escapes the quote, the backslash and the controls below U+0020.\<close>

definition json_escape :: "char \<Rightarrow> string" where
  "json_escape c =
     (let n = code_point c in
      if n = 34 then [CHR 0x5C, CHR 0x22]
      else if n = 92 then [CHR 0x5C, CHR 0x5C]
      else if n = 10 then CHR 0x5C # ''n''
      else if n = 13 then CHR 0x5C # ''r''
      else if n = 9 then CHR 0x5C # ''t''
      else if n = 8 then CHR 0x5C # ''b''
      else if n = 12 then CHR 0x5C # ''f''
      else if n < 32 then CHR 0x5C # ''u00'' @ [hex_digit (n div 16), hex_digit (n mod 16)]
      else [c])"

definition json_quote :: "string \<Rightarrow> string" where
  "json_quote s = CHR 0x22 # concat (map json_escape s) @ [CHR 0x22]"

lemma member_size: "(k, v) \<in> set kvs \<Longrightarrow> size v < size (JObj kvs)"
  by (induction kvs) auto

text \<open>\<open>json.dumps(value, ensure_ascii=False, separators=(",", ":"), sort_keys=True)\<close>.\<close>

function json_text :: "json \<Rightarrow> string" where
  "json_text JNull = ''null''"
| "json_text (JBool b) = (if b then ''true'' else ''false'')"
| "json_text (JInt i) = int_text i"
| "json_text (JFloat r) = r"
| "json_text (JStr s) = json_quote s"
| "json_text (JArr xs) = ''['' @ str_join '','' (map json_text xs) @ '']''"
| "json_text (JObj kvs) =
     ''{'' @ str_join '','' (map (\<lambda>(k, t). json_quote k @ '':'' @ t)
       (sort_key fst (map (\<lambda>kv. (fst kv, json_text (snd kv))) kvs))) @ ''}''"
  by pat_completeness auto
termination
proof (relation "measure size", goal_cases)
  case 1
  then show ?case by simp
next
  case (2 xs x)
  then show ?case by (simp add: size_list_estimation' less_Suc_eq_le)
next
  case (3 kvs kv)
  then show ?case using member_size [of "fst kv" "snd kv" kvs] by simp
qed

definition canonical_json_bytes :: "json \<Rightarrow> nat list" where
  "canonical_json_bytes v = utf8_of (json_text v @ [newline_char])"

definition json_hash :: "json \<Rightarrow> string" where
  "json_hash v = sha256_hex (canonical_json_bytes v)"

section \<open>Python equality and text of JSON values\<close>

text \<open>A boolean equals the integer 0 or 1, and a float of the form \<open>i.0\<close> the integer \<open>i\<close>.  Two floats
  are compared by their spelling; the manifests compared here are written by the code and hold none.\<close>

definition read_digits :: "string \<Rightarrow> nat" where
  "read_digits s = foldl (\<lambda>n c. n * 10 + (code_point c - 48)) 0 s"

definition float_integer :: "string \<Rightarrow> int option" where
  "float_integer r =
     (let sign = (take 1 r = ''-''); body = drop_suffix ''.0'' (drop_prefix ''-'' r) in
      if drop_suffix ''.0'' r \<noteq> r \<and> body \<noteq> [] \<and> list_all ascii_digit body
      then Some (if sign then - int (read_digits body) else int (read_digits body)) else None)"

fun json_number :: "json \<Rightarrow> int option" where
  "json_number (JBool b) = Some (if b then 1 else 0)"
| "json_number (JInt i) = Some i"
| "json_number (JFloat r) = float_integer r"
| "json_number _ = None"

function py_eq :: "json \<Rightarrow> json \<Rightarrow> bool" where
  "py_eq (JArr xs) b =
     (case b of JArr ys \<Rightarrow> length xs = length ys \<and> list_all (\<lambda>(x, y). py_eq x y) (zip xs ys) | _ \<Rightarrow> False)"
| "py_eq (JObj as) b =
     (case b of
        JObj bs \<Rightarrow>
          set (jkeys as) = set (jkeys bs) \<and> list_all (\<lambda>kv. py_eq (snd kv) (jitem bs (fst kv))) as
      | _ \<Rightarrow> False)"
| "py_eq JNull b = (b = JNull)"
| "py_eq (JStr s) b = (b = JStr s)"
| "py_eq (JBool x) b = (json_number b = json_number (JBool x))"
| "py_eq (JInt x) b = (json_number b = json_number (JInt x))"
| "py_eq (JFloat r) b =
     (case float_integer r of Some i \<Rightarrow> json_number b = Some i | None \<Rightarrow> b = JFloat r \<and> r \<noteq> ''NaN'')"
  by pat_completeness auto
termination
proof (relation "measure (\<lambda>(a, b). size a)", goal_cases)
  case 1
  then show ?case by simp
next
  case (2 xs b ys z x y)
  then have "x \<in> set xs" by (metis set_zip_leftD)
  then have "size x < size (JArr xs)" by (simp add: size_list_estimation' less_Suc_eq_le)
  then show ?case by simp
next
  case (3 as b bs z)
  then show ?case using member_size [of "fst z" "snd z" as] by simp
qed

text \<open>\<open>repr\<close> of text and \<open>str\<close> of a JSON value.\<close>

definition repr_escape :: "char \<Rightarrow> char \<Rightarrow> string" where
  "repr_escape q c =
     (let n = code_point c in
      if c = q \<or> n = 92 then [CHR 0x5C, c]
      else if n = 10 then CHR 0x5C # ''n''
      else if n = 13 then CHR 0x5C # ''r''
      else if n = 9 then CHR 0x5C # ''t''
      else if n < 32 \<or> (127 \<le> n \<and> n \<le> 160) \<or> n = 173
      then CHR 0x5C # ''x'' @ [hex_digit (n div 16), hex_digit (n mod 16)]
      else [c])"

definition py_repr :: "string \<Rightarrow> string" where
  "py_repr s =
     (let q = (if CHR 0x27 \<in> set s \<and> CHR 0x22 \<notin> set s then CHR 0x22 else CHR 0x27)
      in q # concat (map (repr_escape q) s) @ [q])"

function json_repr :: "json \<Rightarrow> string" where
  "json_repr JNull = ''None''"
| "json_repr (JBool b) = (if b then ''True'' else ''False'')"
| "json_repr (JInt i) = int_text i"
| "json_repr (JFloat r) = r"
| "json_repr (JStr s) = py_repr s"
| "json_repr (JArr xs) = ''['' @ str_join '', '' (map json_repr xs) @ '']''"
| "json_repr (JObj kvs) =
     ''{'' @ str_join '', '' (map (\<lambda>kv. py_repr (fst kv) @ '': '' @ json_repr (snd kv)) kvs) @ ''}''"
  by pat_completeness auto
termination
proof (relation "measure size", goal_cases)
  case 1
  then show ?case by simp
next
  case (2 xs x)
  then show ?case by (simp add: size_list_estimation' less_Suc_eq_le)
next
  case (3 kvs kv)
  then show ?case using member_size [of "fst kv" "snd kv" kvs] by simp
qed

definition py_str :: "json \<Rightarrow> string" where
  "py_str v = (case v of JStr s \<Rightarrow> s | _ \<Rightarrow> json_repr v)"

section \<open>Errors\<close>

text \<open>All but \<open>IrIdentity\<close> are \<open>SemanticIRError\<close>; a \<open>ValidationError\<close> of the identity is no
  \<open>ValueError\<close> and leaves the reader as it is.\<close>

datatype ir_error =
    IrMerge string semantic_error
  | IrSchema
  | IrEmptyPlugin
  | IrDuplicateName
  | IrDuplicateFeature
  | IrNotObject
  | IrFields
  | IrKind
  | IrVersions
  | IrPluginFeatures
  | IrFeatureNotObject nat
  | IrMissingKey string
  | IrFrontends
  | IrSemantic semantic_error
  | IrFeature nat ir_error
  | IrApiNotCanonical nat
  | IrHashNotCanonical nat
  | IrOrder
  | IrIdentity naming_error

fun is_ir_error :: "ir_error \<Rightarrow> bool" where
  "is_ir_error (IrIdentity _) = False"
| "is_ir_error (IrMissingKey _) = False"
| "is_ir_error (IrSemantic _) = False"
| "is_ir_error _ = True"

section \<open>Features\<close>

definition empty_api :: semantic_api where
  "empty_api = \<lparr>a_functions = [], a_classes = [], a_declarations = []\<rparr>"

record feature_ir =
  fr_identity :: feature_identity
  fr_public :: string
  fr_description :: string
  fr_cpp :: semantic_api
  fr_jvm :: semantic_api
  fr_merged :: semantic_api

definition create_feature ::
    "feature_identity \<Rightarrow> string option \<Rightarrow> string \<Rightarrow> semantic_api option \<Rightarrow> semantic_api option \<Rightarrow>
     ir_error + feature_ir" where
  "create_feature identity public_name description cpp jvm =
     (let c = (case cpp of None \<Rightarrow> empty_api | Some a \<Rightarrow> a); j = (case jvm of None \<Rightarrow> empty_api | Some a \<Rightarrow> a) in
      ebind (ewrap (IrMerge (fi_npm identity)) (merge_semantic_apis [c, j])) (\<lambda>merged.
      Inr \<lparr>fr_identity = identity,
           fr_public = (case public_name of Some (x # xs) \<Rightarrow> x # xs | _ \<Rightarrow> leaf_name (fi_npm identity)),
           fr_description = description, fr_cpp = c, fr_jvm = j, fr_merged = merged\<rparr>))"

definition semantic_hash :: "feature_ir \<Rightarrow> string" where
  "semantic_hash f = json_hash (api_manifest (fr_merged f))"

definition feature_manifest :: "feature_ir \<Rightarrow> json" where
  "feature_manifest f = JObj
     [(''feature_id'', JStr (fi_feature (fr_identity f))), (''npm_name'', JStr (fi_npm (fr_identity f))),
      (''package_version'', JStr (fi_version (fr_identity f))),
      (''android_namespace'', JStr (fi_namespace (fr_identity f))), (''public_name'', JStr (fr_public f)),
      (''description'', JStr (fr_description f)), (''semantic_hash'', JStr (semantic_hash f)),
      (''frontends'', JObj [(''cpp'', api_manifest (fr_cpp f)), (''jvm'', api_manifest (fr_jvm f))]),
      (''semantic_api'', api_manifest (fr_merged f))]"

section \<open>The project\<close>

definition ir_schema_version :: string where
  "ir_schema_version = ''1.0''"

definition ir_kind :: string where
  "ir_kind = ''supernote_module_semantic_ir''"

definition frontend_versions :: json where
  "frontend_versions = JObj [(''cpp'', JInt 1), (''jvm'', JInt 1)]"

record semantic_ir =
  ir_plugin :: string
  ir_features :: "feature_ir list"
  ir_schema :: string

definition check_ir :: "semantic_ir \<Rightarrow> ir_error + unit" where
  "check_ir ir =
     ebind (raise_if (ir_schema ir \<noteq> ir_schema_version) IrSchema) (\<lambda>_.
     ebind (raise_if (ir_plugin ir = []) IrEmptyPlugin) (\<lambda>_.
     ebind (raise_if (\<not> distinct (map (fi_npm \<circ> fr_identity) (ir_features ir))) IrDuplicateName) (\<lambda>_.
     raise_if (\<not> distinct (map (fi_feature \<circ> fr_identity) (ir_features ir))) IrDuplicateFeature)))"

definition create_ir :: "string \<Rightarrow> feature_ir list \<Rightarrow> ir_error + semantic_ir" where
  "create_ir plugin_id fs =
     (let ir = \<lparr>ir_plugin = plugin_id, ir_features = sort_key (fi_npm \<circ> fr_identity) fs,
                ir_schema = ir_schema_version\<rparr>
      in ebind (check_ir ir) (\<lambda>_. Inr ir))"

definition ir_manifest :: "semantic_ir \<Rightarrow> json" where
  "ir_manifest ir = JObj
     [(''schema_version'', JStr (ir_schema ir)), (''kind'', JStr ir_kind), (''plugin_id'', JStr (ir_plugin ir)),
      (''frontend_versions'', frontend_versions), (''features'', JArr (map feature_manifest (ir_features ir)))]"

definition generation_id :: "semantic_ir \<Rightarrow> string" where
  "generation_id ir = json_hash (ir_manifest ir)"

section \<open>The reader\<close>

definition ir_item :: "(string \<times> json) list \<Rightarrow> string \<Rightarrow> ir_error + json" where
  "ir_item item key = (case jget item key of None \<Rightarrow> Inl (IrMissingKey key) | Some v \<Rightarrow> Inr v)"

definition ir_text :: "(string \<times> json) list \<Rightarrow> string \<Rightarrow> ir_error + string" where
  "ir_text item key = ebind (ir_item item key) (\<lambda>v. Inr (py_str v))"

text \<open>The body of the \<open>try\<close>.\<close>

definition read_feature :: "(string \<times> json) list \<Rightarrow> ir_error + feature_ir" where
  "read_feature item =
     ebind (ir_text item ''npm_name'') (\<lambda>npm.
     ebind (ir_text item ''android_namespace'') (\<lambda>namespace.
     ebind (ir_text item ''package_version'') (\<lambda>version.
     ebind (ir_text item ''feature_id'') (\<lambda>feature_id.
     ebind (ewrap IrIdentity (create_identity npm namespace version (Some feature_id))) (\<lambda>identity.
     ebind (ir_item item ''frontends'') (\<lambda>frontends.
     case frontends of
       JObj fr \<Rightarrow>
         ebind (raise_if (\<not> jkeys_are fr [''cpp'', ''jvm'']) IrFrontends) (\<lambda>_.
         ebind (ir_text item ''public_name'') (\<lambda>public_name.
         ebind (ir_text item ''description'') (\<lambda>description.
         ebind (ewrap IrSemantic (semantic_api_from_manifest (jitem fr ''cpp''))) (\<lambda>cpp.
         ebind (ewrap IrSemantic (semantic_api_from_manifest (jitem fr ''jvm''))) (\<lambda>jvm.
         create_feature identity (Some public_name) description (Some cpp) (Some jvm))))))
     | _ \<Rightarrow> Inl IrFrontends))))))"

text \<open>\<open>except (KeyError, TypeError, ValueError)\<close>.\<close>

definition caught :: "nat \<Rightarrow> ir_error \<Rightarrow> ir_error" where
  "caught k e = (case e of IrIdentity x \<Rightarrow> IrIdentity x | _ \<Rightarrow> IrFeature k e)"

definition feature_from_manifest :: "nat \<times> json \<Rightarrow> ir_error + feature_ir" where
  "feature_from_manifest entry =
     (case entry of
        (k, JObj item) \<Rightarrow>
          ebind (ewrap (caught k) (read_feature item)) (\<lambda>f.
          ebind (raise_if (\<not> (case jget item ''semantic_api'' of
              None \<Rightarrow> False | Some v \<Rightarrow> py_eq (api_manifest (fr_merged f)) v)) (IrApiNotCanonical k)) (\<lambda>_.
          ebind (raise_if (jget item ''semantic_hash'' \<noteq> Some (JStr (semantic_hash f))) (IrHashNotCanonical k)) (\<lambda>_.
          Inr f)))
      | (k, _) \<Rightarrow> Inl (IrFeatureNotObject k))"

definition ir_from_manifest :: "json \<Rightarrow> ir_error + semantic_ir" where
  "ir_from_manifest raw =
     (case raw of
        JObj v \<Rightarrow>
          ebind (raise_if (\<not> jkeys_are v [''schema_version'', ''kind'', ''plugin_id'', ''frontend_versions'', ''features'']) IrFields) (\<lambda>_.
          ebind (raise_if (jitem v ''schema_version'' \<noteq> JStr ir_schema_version) IrSchema) (\<lambda>_.
          ebind (raise_if (jitem v ''kind'' \<noteq> JStr ir_kind) IrKind) (\<lambda>_.
          ebind (raise_if (\<not> py_eq frontend_versions (jitem v ''frontend_versions'')) IrVersions) (\<lambda>_.
          case (jitem v ''plugin_id'', jitem v ''features'') of
            (JStr plugin_id, JArr fs) \<Rightarrow>
              ebind (emap feature_from_manifest (enumerated fs)) (\<lambda>parsed.
              ebind (create_ir plugin_id parsed) (\<lambda>ir.
              ebind (raise_if (\<not> py_eq (ir_manifest ir) (JObj v)) IrOrder) (\<lambda>_.
              Inr ir)))
          | _ \<Rightarrow> Inl IrPluginFeatures))))
      | _ \<Rightarrow> Inl IrNotObject)"

end
