(* ===== verification/Naming_Props.thy ===== *)
theory Naming_Props
  imports Naming
begin

text \<open>
  A validated identity names a safe place: its package parts are plain file names, so the relative root
  of a feature cannot leave the directory of local modules.
\<close>

section \<open>Characters\<close>

lemma npm_char_plain:
  assumes "npm_rest c \<or> npm_first c" shows "c \<noteq> CHR ''/'' \<and> c \<noteq> CHR 0x5C \<and> c \<noteq> CHR ''@'' \<and> \<not> invisible c"
  using assms by (auto simp: npm_rest_def npm_first_def lower_or_digit_def invisible_def code_point_def Let_def)

definition plain_name :: "string \<Rightarrow> bool" where
  "plain_name s \<longleftrightarrow> s \<noteq> [] \<and> list_all npm_rest s \<and> npm_first (hd s)"

lemma npm_leaf_plain: "npm_leaf s \<Longrightarrow> plain_name s"
  by (cases s) (auto simp: npm_leaf_def plain_name_def npm_first_def npm_rest_def)

lemma plain_name_chars: "plain_name s \<Longrightarrow> c \<in> set s \<Longrightarrow> c \<noteq> CHR ''/'' \<and> c \<noteq> CHR 0x5C \<and> \<not> invisible c"
  using npm_char_plain by (auto simp: plain_name_def list_all_iff)

section \<open>Package parts\<close>

text \<open>What a file name must not be: empty, a dot name, or something with a separator.\<close>

definition safe_part :: "string \<Rightarrow> bool" where
  "safe_part p \<longleftrightarrow> p \<notin> {[], ''.'', ''..''} \<and> CHR ''/'' \<notin> set p \<and> CHR 0x5C \<notin> set p \<and>
     list_all (\<lambda>c. \<not> invisible c) p \<and> length p \<le> 121"

lemma plain_not_dots: "plain_name p \<Longrightarrow> p \<notin> {[], ''.'', ''..''}"
  by (auto simp: plain_name_def npm_first_def lower_or_digit_def code_point_def Let_def)

lemma plain_safe: "plain_name p \<Longrightarrow> length p \<le> 121 \<Longrightarrow> safe_part p"
  using plain_not_dots [of p] plain_name_chars [of p] by (auto simp: safe_part_def list_all_iff)

lemma py_split_plain: "x \<notin> set s \<Longrightarrow> py_split x s = [s]"
  by (induction s) auto

lemma py_split_append: "x \<notin> set s \<Longrightarrow> py_split x (s @ x # t) = s # py_split x t"
  by (induction s) (auto split: list.splits)

lemma drop_prefix_at: "hd p \<noteq> CHR ''@'' \<Longrightarrow> drop_prefix ''@'' p = p"
  by (cases p) (auto simp: drop_prefix_def)

lemma create_identity_Inr:
  "create_identity npm namespace version fid = Inr i \<longleftrightarrow>
     validate_package_name npm = Inr () \<and> validate_android_namespace namespace = Inr () \<and>
     validate_package_version version = Inr () \<and> fid \<in> {None, Some (canonical_feature_id npm)} \<and>
     i = \<lparr>fi_npm = npm, fi_namespace = namespace, fi_version = version, fi_feature = canonical_feature_id npm\<rparr>"
  by (cases fid) (auto simp: create_identity_def Let_def)

lemma scoped_name:
  assumes "npm_name s" "s = c # t" "c = CHR ''@''"
  obtains scope leaf where "t = scope @ CHR ''/'' # leaf" "npm_scope scope" "npm_leaf leaf" "CHR ''/'' \<notin> set scope"
    "takeWhile (\<lambda>x. x \<noteq> CHR ''/'') t = scope" "dropWhile (\<lambda>x. x \<noteq> CHR ''/'') t = CHR ''/'' # leaf"
proof -
  from assms obtain slash leaf where d: "dropWhile (\<lambda>x. x \<noteq> CHR ''/'') t = slash # leaf"
    "npm_scope (takeWhile (\<lambda>x. x \<noteq> CHR ''/'') t)" "npm_leaf leaf"
    by (auto simp: npm_name_def split: list.splits)
  from d(1) have slash: "slash = CHR ''/''" by (metis (full_types) hd_dropWhile list.distinct(1) list.sel(1))
  have "t = takeWhile (\<lambda>x. x \<noteq> CHR ''/'') t @ dropWhile (\<lambda>x. x \<noteq> CHR ''/'') t" by simp
  moreover have "CHR ''/'' \<notin> set (takeWhile (\<lambda>x. x \<noteq> CHR ''/'') t)" by (auto dest: set_takeWhileD)
  ultimately show thesis using that [of "takeWhile (\<lambda>x. x \<noteq> CHR ''/'') t" leaf] d slash by simp
qed

lemma package_parts_spec:
  assumes "validate_package_name (fi_npm i) = Inr ()"
  shows "str_join ''/'' (package_parts i) = fi_npm i \<and> list_all safe_part (package_parts i)"
proof -
  let ?s = "fi_npm i"
  from assms have name: "npm_name ?s"
    and short: "\<And>p. p \<in> set (py_split (CHR ''/'') ?s) \<Longrightarrow> length (drop_prefix ''@'' p) \<le> 120"
    by (auto simp: validate_package_name_def raise_if_def split: if_splits)
  from name obtain c t where s: "?s = c # t" by (auto simp: npm_name_def split: list.splits)
  show ?thesis
  proof (cases "c = CHR ''@''")
    case True
    from name s True obtain scope leaf where t: "t = scope @ CHR ''/'' # leaf" "npm_scope scope" "npm_leaf leaf"
      "CHR ''/'' \<notin> set scope" "takeWhile (\<lambda>x. x \<noteq> CHR ''/'') t = scope"
      "dropWhile (\<lambda>x. x \<noteq> CHR ''/'') t = CHR ''/'' # leaf" by (rule scoped_name)
    have leaf: "plain_name leaf" using t(3) by (rule npm_leaf_plain)
    then have "py_split (CHR ''/'') leaf = [leaf]" using plain_name_chars py_split_plain by blast
    moreover have "py_split (CHR ''/'') ?s = (CHR ''@'' # scope) # py_split (CHR ''/'') leaf"
      using py_split_append [of "CHR ''/''" "CHR ''@'' # scope" leaf] t(1,4) s True by simp
    ultimately have parts: "py_split (CHR ''/'') ?s = [CHR ''@'' # scope, leaf]" by simp
    have "hd leaf \<noteq> CHR ''@''" using leaf npm_char_plain [of "hd leaf"] by (auto simp: plain_name_def)
    with short [of leaf] parts have "length leaf \<le> 121" by (simp add: drop_prefix_at)
    with leaf have safe_leaf: "safe_part leaf" by (rule plain_safe)
    have "length scope \<le> 120" using short [of "CHR ''@'' # scope"] parts by (simp add: drop_prefix_def)
    moreover have scope: "scope \<noteq> []" "list_all npm_rest scope"
      using t(2) by (cases scope; auto simp: npm_scope_def npm_first_def npm_rest_def)+
    ultimately have safe_scope: "safe_part (CHR ''@'' # scope)"
      using npm_char_plain by (auto simp: safe_part_def list_all_iff invisible_def code_point_def Let_def)
    have "package_parts i = [CHR ''@'' # scope, leaf]" using s True t(5,6) by (simp add: package_parts_def)
    with safe_scope safe_leaf s True t(1) show ?thesis by (simp add: str_join_def)
  next
    case False
    with name s have leaf: "plain_name ?s" using npm_leaf_plain by (auto simp: npm_name_def)
    then have "py_split (CHR ''/'') ?s = [?s]" using plain_name_chars py_split_plain by blast
    with short [of ?s] False s have "length ?s \<le> 121" by (simp add: drop_prefix_at)
    with leaf have "safe_part ?s" by (rule plain_safe)
    with s False show ?thesis by (simp add: package_parts_def str_join_def)
  qed
qed

text \<open>
  C15. The package parts of a validated identity are plain file names: none is empty or a dot name, none
  holds a slash, a backslash or an invisible character, and each has at most 121 characters.  Joined by
  slashes they are the npm name, so features with different names have different roots.
\<close>

theorem package_parts_are_safe:
  assumes "create_identity npm namespace version fid = Inr i"
  shows "list_all safe_part (relative_root i) \<and> str_join ''/'' (package_parts i) = npm \<and>
     fi_feature i = canonical_feature_id npm"
proof -
  from assms have "validate_package_name (fi_npm i) = Inr ()" "fi_npm i = npm"
    "fi_feature i = canonical_feature_id npm"
    unfolding create_identity_Inr by simp_all
  moreover have "safe_part ''local_modules''" by code_simp
  ultimately show ?thesis using package_parts_spec [of i] by (simp add: relative_root_def)
qed

section \<open>Inferred names\<close>

lemma ident_char_plain: "ident_char c \<or> ascii_alpha c \<Longrightarrow> code_point c < 128 \<and> \<not> invisible c"
  by (auto simp: ident_char_def ascii_alpha_def ascii_digit_def invisible_def Let_def) (simp_all add: code_point_def)

lemma module_name_text:
  assumes "js_module_name s" shows "check_text what s = Inr ()"
proof -
  from assms obtain c cs where s: "s = c # cs" "ascii_alpha c" "list_all ident_char cs"
    by (cases s) (auto simp: js_module_name_def)
  with ident_char_plain show ?thesis
    by (auto simp: check_text_def reject_non_ascii_def reject_invisible_def list_all_iff list_ex_iff)
qed

text \<open>
  A name inferred from a package name passes the validation of its kind, whatever the package name.
\<close>

theorem inferred_names_validate:
  "(case infer_javascript_name s of Inl e \<Rightarrow> e = NamingError JavascriptName NameNotDerived
      | Inr v \<Rightarrow> validate_javascript_name v = Inr ()) \<and>
   (case infer_android_namespace s of Inl e \<Rightarrow> e = NamingError AndroidNamespace NameNotDerived
      | Inr v \<Rightarrow> validate_android_namespace v = Inr ())"
  by (auto simp: infer_javascript_name_def infer_android_namespace_def validate_javascript_name_def Let_def
      module_name_text raise_if_def split: sum.splits)

theorem package_parts_are_safe_witness:
  "\<exists>i. create_identity ''@a/b-c'' ''com.x'' ''1.0.0-rc.1'' None = Inr i \<and>
     package_parts i = [''@a'', ''b-c''] \<and> list_all safe_part (relative_root i)"
proof -
  have "validate_package_name ''@a/b-c'' = Inr ()" "validate_android_namespace ''com.x'' = Inr ()"
    "validate_package_version ''1.0.0-rc.1'' = Inr ()" by code_simp+
  then obtain i where i: "create_identity ''@a/b-c'' ''com.x'' ''1.0.0-rc.1'' None = Inr i" "fi_npm i = ''@a/b-c''"
    by (auto simp: create_identity_Inr)
  moreover have "package_parts i = [''@a'', ''b-c'']" using i(2) by (simp add: package_parts_def)
  ultimately show ?thesis using package_parts_are_safe [OF i(1)] by blast
qed

end
