(* ===== verification/Merge_Canonical.thy ===== *)
theory Merge_Canonical
  imports Frontend
begin

text \<open>
  Merging does not depend on the order in which the frontends list their declarations: the APIs in
  canonical order merge exactly when the APIs do, and to the same manifest.
\<close>

section \<open>The merged declarations as a set\<close>

definition merged_pairs :: "semantic_declaration list \<Rightarrow> semantic_declaration list \<Rightarrow> semantic_declaration set" where
  "merged_pairs acc ds =
     {p \<in> set acc. decl_type_id p \<notin> decl_type_id ` set ds} \<union>
     {d \<in> set ds. decl_type_id d \<notin> decl_type_id ` set acc} \<union>
     {m. \<exists>p \<in> set acc. \<exists>d \<in> set ds. decl_type_id p = decl_type_id d \<and> merge_declarations p d = Inr m}"

definition pairs_merge :: "semantic_declaration list \<Rightarrow> semantic_declaration list \<Rightarrow> bool" where
  "pairs_merge acc ds \<longleftrightarrow> (\<forall>p \<in> set acc. \<forall>d \<in> set ds. decl_type_id p = decl_type_id d \<longrightarrow>
     (\<exists>m. merge_declarations p d = Inr m))"

lemma merged_id: "merge_declarations p d = Inr m \<Longrightarrow> decl_type_id p = decl_type_id d \<Longrightarrow> decl_type_id m = decl_type_id d"
  using merge_declarations_spec [of p d m] by (simp add: contributes_def)

lemma merge_insert_cases:
  assumes "distinct (map decl_type_id acc)"
  shows "merge_insert acc d = Inr acc' \<longleftrightarrow>
    (if decl_type_id d \<notin> decl_type_id ` set acc then acc' = acc @ [d]
     else \<exists>p m. p \<in> set acc \<and> decl_type_id p = decl_type_id d \<and> merge_declarations p d = Inr m \<and>
       acc' = map (\<lambda>q. if decl_type_id q = decl_type_id d then m else q) acc)"
proof (cases "find (\<lambda>p. decl_type_id p = decl_type_id d) acc")
  case None
  then have "decl_type_id d \<notin> decl_type_id ` set acc" by (auto simp: find_None_iff)
  with None show ?thesis by (auto simp: merge_insert_def)
next
  case (Some p)
  then have p: "p \<in> set acc" "decl_type_id p = decl_type_id d" by (auto simp: find_Some_iff)
  with assms have only: "q = p" if "q \<in> set acc" "decl_type_id q = decl_type_id d" for q
    using that by (auto simp: distinct_map inj_on_def)
  from p have known: "decl_type_id d \<in> decl_type_id ` set acc" by (metis imageI)
  have "merge_insert acc d = Inr acc' \<longleftrightarrow> (\<exists>m. merge_declarations p d = Inr m \<and>
      acc' = map (\<lambda>q. if decl_type_id q = decl_type_id d then m else q) acc)"
    using Some by (auto simp: merge_insert_def)
  also have "\<dots> \<longleftrightarrow> (\<exists>q m. q \<in> set acc \<and> decl_type_id q = decl_type_id d \<and> merge_declarations q d = Inr m \<and>
      acc' = map (\<lambda>q. if decl_type_id q = decl_type_id d then m else q) acc)"
    using p by (blast dest: only)
  finally show ?thesis using known by simp
qed

lemma replaced_ids:
  assumes "decl_type_id m = i"
  shows "map decl_type_id (map (\<lambda>q. if decl_type_id q = i then m else q) acc) = map decl_type_id acc"
  using assms by simp

lemma merged_pairs_new:
  assumes "decl_type_id d \<notin> decl_type_id ` set acc" "decl_type_id d \<notin> decl_type_id ` set ds"
  shows "merged_pairs (acc @ [d]) ds = merged_pairs acc (d # ds)"
proof -
  have q: "decl_type_id q \<noteq> decl_type_id d" if "q \<in> set acc" for q using assms(1) that by (metis imageI)
  have x: "decl_type_id x \<noteq> decl_type_id d" if "x \<in> set ds" for x using assms(2) that by (metis imageI)
  have "{p \<in> set (acc @ [d]). decl_type_id p \<notin> decl_type_id ` set ds} =
      insert d {p \<in> set acc. decl_type_id p \<notin> decl_type_id ` set (d # ds)}"
    using assms q by auto
  moreover have "{y \<in> set (d # ds). decl_type_id y \<notin> decl_type_id ` set acc} =
      insert d {y \<in> set ds. decl_type_id y \<notin> decl_type_id ` set (acc @ [d])}"
    using assms x by auto
  moreover have "(\<exists>p \<in> set (acc @ [d]). \<exists>y \<in> set ds. decl_type_id p = decl_type_id y \<and> merge_declarations p y = Inr m) \<longleftrightarrow>
      (\<exists>p \<in> set acc. \<exists>y \<in> set (d # ds). decl_type_id p = decl_type_id y \<and> merge_declarations p y = Inr m)" for m
  proof -
    have "\<not> (\<exists>y \<in> set ds. decl_type_id d = decl_type_id y \<and> merge_declarations d y = Inr m)"
      using x by metis
    moreover have "\<not> (\<exists>p \<in> set acc. decl_type_id p = decl_type_id d \<and> merge_declarations p d = Inr m)"
      using q by metis
    ultimately show ?thesis by auto
  qed
  ultimately show ?thesis unfolding merged_pairs_def by (simp only: Un_insert_left Un_insert_right)
qed

lemma merged_pairs_replaced:
  assumes p: "p \<in> set acc" "decl_type_id p = decl_type_id d" and m: "merge_declarations p d = Inr m"
    and only: "\<And>q. q \<in> set acc \<Longrightarrow> decl_type_id q = decl_type_id d \<longleftrightarrow> q = p"
    and new: "decl_type_id d \<notin> decl_type_id ` set ds"
    and acc': "acc' = map (\<lambda>q. if decl_type_id q = decl_type_id d then m else q) acc"
  shows "merged_pairs acc' ds = merged_pairs acc (d # ds)" "pairs_merge acc' ds \<longleftrightarrow> pairs_merge acc (d # ds)"
proof -
  have mid: "decl_type_id m = decl_type_id d" using merged_id [OF m p(2)] .
  have x: "decl_type_id x \<noteq> decl_type_id d" if "x \<in> set ds" for x using new that by (metis imageI)
  have elems: "set acc' = insert m {q \<in> set acc. decl_type_id q \<noteq> decl_type_id d}" using p by (auto simp: acc')
  have "map decl_type_id acc' = map decl_type_id acc" unfolding acc' using mid by (rule replaced_ids)
  then have idset: "decl_type_id ` set acc' = decl_type_id ` set acc" by (metis set_map)
  have pd: "decl_type_id d \<in> decl_type_id ` set acc" using p by (metis imageI)
  have a: "{q \<in> set acc'. decl_type_id q \<notin> decl_type_id ` set ds} =
      insert m {q \<in> set acc. decl_type_id q \<notin> decl_type_id ` set (d # ds)}"
    unfolding elems using mid x by (auto simp: image_iff)
  have b: "{y \<in> set ds. decl_type_id y \<notin> decl_type_id ` set acc'} =
      {y \<in> set (d # ds). decl_type_id y \<notin> decl_type_id ` set acc}"
    unfolding idset using pd by auto
  have old: "(\<exists>q \<in> set acc'. \<exists>y \<in> set ds. decl_type_id q = decl_type_id y \<and> P q y) \<longleftrightarrow>
      (\<exists>q \<in> set acc. \<exists>y \<in> set ds. decl_type_id q = decl_type_id y \<and> P q y)" for P
  proof -
    have "\<not> (\<exists>y \<in> set ds. decl_type_id q = decl_type_id y \<and> P q y)" if "decl_type_id q = decl_type_id d" for q
      using x that by metis
    then show ?thesis unfolding elems using mid by blast
  qed
  have c: "(\<exists>q \<in> set acc. \<exists>y \<in> set (d # ds). decl_type_id q = decl_type_id y \<and> merge_declarations q y = Inr n) \<longleftrightarrow>
      n = m \<or> (\<exists>q \<in> set acc'. \<exists>y \<in> set ds. decl_type_id q = decl_type_id y \<and> merge_declarations q y = Inr n)" for n
    unfolding old using p only m by auto
  show "merged_pairs acc' ds = merged_pairs acc (d # ds)" unfolding merged_pairs_def a b c by auto
  have "(\<forall>q \<in> set acc'. \<forall>y \<in> set ds. decl_type_id q = decl_type_id y \<longrightarrow> P q y) \<longleftrightarrow>
      (\<forall>q \<in> set acc. \<forall>y \<in> set ds. decl_type_id q = decl_type_id y \<longrightarrow> P q y)" for P
    using old [of "\<lambda>q y. \<not> P q y"] by blast
  then show "pairs_merge acc' ds \<longleftrightarrow> pairs_merge acc (d # ds)"
    unfolding pairs_merge_def using p only m by auto
qed

lemma merge_all_spec:
  assumes "distinct (map decl_type_id acc)" "distinct (map decl_type_id ds)"
  shows "(\<forall>out. merge_all acc ds = Inr out \<longrightarrow>
            distinct (map decl_type_id out) \<and> set out = merged_pairs acc ds) \<and>
         ((\<exists>out. merge_all acc ds = Inr out) \<longleftrightarrow> pairs_merge acc ds)"
  using assms
proof (induction ds arbitrary: acc)
  case Nil
  then show ?case by (simp add: merged_pairs_def pairs_merge_def)
next
  case (Cons d ds)
  let ?i = "decl_type_id d"
  from Cons.prems have ds: "distinct (map decl_type_id ds)" "?i \<notin> decl_type_id ` set ds" by auto
  show ?case
  proof (cases "?i \<in> decl_type_id ` set acc")
    case False
    then have ins: "merge_insert acc d = Inr (acc @ [d])"
      using merge_insert_cases [OF Cons.prems(1), of d] by simp
    have "distinct (map decl_type_id (acc @ [d]))" using Cons.prems(1) False by simp
    note IH = Cons.IH [OF this ds(1)]
    have "pairs_merge (acc @ [d]) ds \<longleftrightarrow> pairs_merge acc (d # ds)"
    proof -
      have "decl_type_id q \<noteq> decl_type_id d" if "q \<in> set acc" for q using False that by (metis imageI)
      moreover have "decl_type_id d \<noteq> decl_type_id x" if "x \<in> set ds" for x using ds(2) that by (metis imageI)
      ultimately show ?thesis by (simp add: pairs_merge_def)
    qed
    moreover have "merged_pairs (acc @ [d]) ds = merged_pairs acc (d # ds)"
      using merged_pairs_new [OF False ds(2)] .
    ultimately show ?thesis using IH ins by simp
  next
    case True
    then obtain p where p: "p \<in> set acc" "decl_type_id p = ?i" by auto
    with Cons.prems(1) have only: "q \<in> set acc \<Longrightarrow> decl_type_id q = ?i \<longleftrightarrow> q = p" for q
      by (auto simp: distinct_map inj_on_def)
    show ?thesis
    proof (cases "merge_declarations p d")
      case (Inl e)
      then have "\<nexists>acc'. merge_insert acc d = Inr acc'"
        using merge_insert_cases [OF Cons.prems(1), of d] True only p by auto
      then have "\<nexists>out. merge_all acc (d # ds) = Inr out" by (cases "merge_insert acc d") auto
      moreover have "\<not> pairs_merge acc (d # ds)" using p Inl by (auto simp: pairs_merge_def)
      ultimately show ?thesis by blast
    next
      case (Inr m)
      let ?acc = "map (\<lambda>q. if decl_type_id q = ?i then m else q) acc"
      have m: "decl_type_id m = ?i" using merged_id [OF Inr p(2)] .
      have ins: "merge_insert acc d = Inr ?acc"
        using merge_insert_cases [OF Cons.prems(1), of d] True p Inr by auto
      have ids: "map decl_type_id ?acc = map decl_type_id acc" using m by (rule replaced_ids)
      have "distinct (map decl_type_id ?acc)" using Cons.prems(1) unfolding ids .
      note IH = Cons.IH [OF this ds(1)]
      have "merged_pairs ?acc ds = merged_pairs acc (d # ds)" "pairs_merge ?acc ds \<longleftrightarrow> pairs_merge acc (d # ds)"
        using merged_pairs_replaced [OF p Inr only ds(2) refl] by blast+
      with IH ins show ?thesis by simp
    qed
  qed
qed

section \<open>Canonical declarations merge alike\<close>

lemma insort_key_map: "(\<And>x. k (g x) = k x) \<Longrightarrow> insort_key k (g x) (map g ys) = map g (insort_key k x ys)"
  by (induction ys) simp_all

lemma sort_key_map:
  assumes "\<And>x. k (g x) = k x" shows "sort_key k (map g xs) = map g (sort_key k xs)"
  by (induction xs) (simp_all add: insort_key_map [of k g, OF assms])

lemma canonical_class_idem [simp]: "canonical_class (canonical_class c) = canonical_class c"
  by (simp add: canonical_class_def)

lemma canonical_declaration_idem [simp]: "canonical_declaration (canonical_declaration d) = canonical_declaration d"
  by (cases d) (simp_all add: canonical_projections_def)

lemma canonical_api_idem [simp]: "canonical_api (canonical_api api) = canonical_api api"
  by (simp add: canonical_api_def sort_key_map sort_key_map [of decl_type_id])

lemma merge_projections_Inr:
  "merge_projections i existing ps = Inr out \<longleftrightarrow>
     out = existing @ ps \<and> distinct (map pr_backend ps) \<and> set (map pr_backend existing) \<inter> set (map pr_backend ps) = {}"
  by (induction i existing ps rule: merge_projections.induct) auto

lemma canonical_decl_schema [simp]: "decl_schema (canonical_declaration d) = decl_schema d"
  by (cases d) simp_all

lemma canonical_decl_projections:
  "decl_kind d \<noteq> DkObject \<Longrightarrow> decl_projections (canonical_declaration d) = canonical_projections (decl_projections d)"
  by (cases d) simp_all

lemma merge_declarations_canonical:
  assumes "merge_declarations p d = Inr m"
  shows "merge_declarations (canonical_declaration p) (canonical_declaration d) = Inr m"
proof -
  let ?k = "backend_name \<circ> pr_backend"
  from assms have kinds: "decl_kind p \<noteq> DkObject" "decl_kind d \<noteq> DkObject" "decl_kind p = decl_kind d" "decl_schema p = decl_schema d"
    and ps: "distinct (map pr_backend (decl_projections d))"
      "set (map pr_backend (decl_projections p)) \<inter> set (map pr_backend (decl_projections d)) = {}"
    and m: "(case p of EnumDecl e \<Rightarrow> mk_enum (e\<lparr>e_projections := sort_key ?k (decl_projections p @ decl_projections d)\<rparr>)
      | ValueDecl v \<Rightarrow> mk_value (v\<lparr>v_projections := sort_key ?k (decl_projections p @ decl_projections d)\<rparr>)
      | ObjectDecl _ \<Rightarrow> Inl (ObjectsDoNotMerge (decl_type_id p))) = Inr m"
    by (auto simp: merge_declarations_def Let_def merge_projections_Inr split: if_splits)
  have same: "sort_key ?k (canonical_projections (decl_projections p) @ canonical_projections (decl_projections d)) =
      sort_key ?k (decl_projections p @ decl_projections d)"
    unfolding canonical_projections_def by (rule sort_key_sorted_parts)
  have "merge_projections (decl_type_id p) (decl_projections (canonical_declaration p)) (decl_projections (canonical_declaration d)) =
      Inr (canonical_projections (decl_projections p) @ canonical_projections (decl_projections d))"
    using ps kinds by (simp add: merge_projections_Inr canonical_decl_projections) (simp add: canonical_projections_def)
  with kinds m same show ?thesis by (cases p) (simp_all add: merge_declarations_def)
qed

text \<open>The merged declarations of the canonical lists have the same canonical forms.\<close>

lemma merged_pairs_canonical:
  assumes "pairs_merge as bs"
  shows "canonical_declaration ` merged_pairs (map canonical_declaration as) (map canonical_declaration bs) =
      canonical_declaration ` merged_pairs as bs"
    "pairs_merge (map canonical_declaration as) (map canonical_declaration bs)"
proof -
  let ?c = canonical_declaration
  show all: "pairs_merge (map ?c as) (map ?c bs)"
    using assms merge_declarations_canonical unfolding pairs_merge_def
    by (simp only: set_map ball_simps canonical_declaration_parts) blast
  have ids: "decl_type_id ` set (map ?c ds) = decl_type_id ` set ds" for ds by (simp add: image_image)
  have alike: "merge_declarations (?c p) (?c d) = Inr m \<longleftrightarrow> merge_declarations p d = Inr m"
    if "p \<in> set as" "d \<in> set bs" "decl_type_id p = decl_type_id d" for p d m
    using assms that merge_declarations_canonical [of p d] unfolding pairs_merge_def by fastforce
  have "(\<exists>p \<in> set (map ?c as). \<exists>d \<in> set (map ?c bs). decl_type_id p = decl_type_id d \<and> merge_declarations p d = Inr m) \<longleftrightarrow>
      (\<exists>p \<in> set as. \<exists>d \<in> set bs. decl_type_id p = decl_type_id d \<and> merge_declarations (?c p) (?c d) = Inr m)" for m
    by (simp only: set_map bex_simps canonical_declaration_parts)
  then have m: "{m. \<exists>p \<in> set (map ?c as). \<exists>d \<in> set (map ?c bs). decl_type_id p = decl_type_id d \<and> merge_declarations p d = Inr m} =
      {m. \<exists>p \<in> set as. \<exists>d \<in> set bs. decl_type_id p = decl_type_id d \<and> merge_declarations p d = Inr m}"
    using alike by (simp cong: bex_cong conj_cong)
  have part: "?c ` {p \<in> set (map ?c ds). decl_type_id p \<notin> I} = ?c ` {p \<in> set ds. decl_type_id p \<notin> I}" for ds I
  proof -
    have "{p \<in> set (map ?c ds). decl_type_id p \<notin> I} = ?c ` {p \<in> set ds. decl_type_id p \<notin> I}" by auto
    then show ?thesis by (simp add: image_image)
  qed
  show "?c ` merged_pairs (map ?c as) (map ?c bs) = ?c ` merged_pairs as bs"
    unfolding merged_pairs_def image_Un ids m part by (rule refl)
qed

section \<open>Two APIs\<close>

lemma sorted_by_set:
  assumes "set xs = set ys" "distinct (map k xs)" "distinct (map k ys)"
  shows "sort_key k xs = sort_key k ys"
proof (rule sort_key_inj_perm)
  have "distinct xs" "distinct ys" using assms(2,3) by (auto simp: distinct_map)
  with assms(1) show "mset xs = mset ys" by (simp add: set_eq_iff_mset_eq_distinct)
  show "inj_on k (set xs)" using assms(2) by (simp add: distinct_map)
qed

lemma api_ok_canonical_iff: "api_ok (canonical_api api) \<longleftrightarrow> api_ok api"
  unfolding api_ok_def references_resolve_def canonical_types resolves_canonical value_edge_canonical
  using mset_eq_imp_distinct_iff [OF semantic_ids_canonical] mset_eq_imp_distinct_iff [OF source_ids_canonical]
    mset_eq_imp_distinct_iff [OF public_names_canonical]
  by (simp add: canonical_api_def)

lemma merge_two_Inr:
  "merge_semantic_apis [a, b] = Inr m \<longleftrightarrow>
     merge_all [] (a_declarations a @ a_declarations b) = Inr (a_declarations m) \<and>
     a_functions m = a_functions a @ a_functions b \<and> a_classes m = a_classes a @ a_classes b \<and> api_ok m"
  by (cases m) (auto simp: merge_semantic_apis_def mk_api_def Let_def check_api_Inr)

lemma merge_all_append: "merge_all acc (xs @ ys) = ebind (merge_all acc xs) (\<lambda>acc'. merge_all acc' ys)"
  by (induction acc xs rule: merge_all.induct) (simp_all split: sum.splits, metis ebind_simps sum.exhaust)

lemma merge_all_fresh:
  assumes "distinct (map decl_type_id (acc @ ds))" shows "merge_all acc ds = Inr (acc @ ds)"
  using assms
proof (induction ds arbitrary: acc)
  case (Cons d ds)
  then have "merge_insert acc d = Inr (acc @ [d])" using merge_insert_cases [of acc d] by simp
  with Cons show ?case by simp
qed simp

lemma merge_two_all:
  assumes "distinct (map decl_type_id as)"
  shows "merge_all [] (as @ bs) = merge_all as bs"
  using assms merge_all_fresh [of "[]" as] by (simp add: merge_all_append)

text \<open>The canonical forms of two APIs merge like the APIs.\<close>

lemma merge_canonical:
  assumes m: "merge_semantic_apis [a, b] = Inr m"
    and ids: "distinct (map decl_type_id (a_declarations a))" "distinct (map decl_type_id (a_declarations b))"
  shows "\<exists>m'. merge_semantic_apis [canonical_api a, canonical_api b] = Inr m' \<and> canonical_api m' = canonical_api m"
proof -
  let ?c = canonical_declaration and ?A = "a_declarations a" and ?B = "a_declarations b"
  have can: "a_declarations (canonical_api x) = map ?c (sort_key decl_type_id (a_declarations x))" for x
    by (simp add: canonical_api_def)
  let ?as = "sort_key decl_type_id ?A" and ?bs = "sort_key decl_type_id ?B"
  from m ids have all: "merge_all ?A ?B = Inr (a_declarations m)" by (simp add: merge_two_Inr merge_two_all)
  note spec = merge_all_spec [OF ids]
  have sets: "merged_pairs ?as ?bs = merged_pairs ?A ?B" "pairs_merge ?as ?bs \<longleftrightarrow> pairs_merge ?A ?B"
    by (simp_all add: merged_pairs_def pairs_merge_def)
  have "map decl_type_id (map ?c ds) = map decl_type_id ds" for ds by simp
  then have ids': "distinct (map decl_type_id (map ?c ?as))" "distinct (map decl_type_id (map ?c ?bs))"
    using ids by (simp_all del: map_map)
  have "pairs_merge ?as ?bs" using spec all sets by blast
  note canonical_pairs = merged_pairs_canonical [OF this]
  obtain ds where ds: "merge_all (map ?c ?as) (map ?c ?bs) = Inr ds" "distinct (map decl_type_id ds)"
    "set ds = merged_pairs (map ?c ?as) (map ?c ?bs)"
    using merge_all_spec [OF ids'] canonical_pairs(2) by blast
  let ?m = "\<lparr>a_functions = a_functions (canonical_api a) @ a_functions (canonical_api b),
      a_classes = a_classes (canonical_api a) @ a_classes (canonical_api b), a_declarations = ds\<rparr>"
  have "map ?c (sort_key decl_type_id ds) = map ?c (sort_key decl_type_id (a_declarations m))"
  proof -
    have "set (map ?c ds) = set (map ?c (a_declarations m))"
      using ds(3) canonical_pairs(1) spec all sets by simp
    then have "sort_key decl_type_id (map ?c ds) = sort_key decl_type_id (map ?c (a_declarations m))"
      using ds(2) spec all by (intro sorted_by_set) (simp_all add: comp_def)
    then show ?thesis by (simp add: sort_key_map)
  qed
  moreover have "map canonical_class (sort_key c_id (a_classes (canonical_api a) @ a_classes (canonical_api b))) =
      map canonical_class (sort_key c_id (a_classes a @ a_classes b))"
  proof -
    have "a_classes (canonical_api x) = map canonical_class (sort_key c_id (a_classes x))" for x
      by (simp add: canonical_api_def)
    then have "sort_key c_id (a_classes (canonical_api a) @ a_classes (canonical_api b)) =
        map canonical_class (sort_key c_id (sort_key c_id (a_classes a) @ sort_key c_id (a_classes b)))"
      by (simp add: sort_key_map flip: map_append)
    then show ?thesis by (simp add: sort_key_sorted_parts)
  qed
  ultimately have same: "canonical_api ?m = canonical_api m"
    using m by (simp add: merge_two_Inr) (simp add: canonical_api_def sort_key_sorted_parts)
  then have "api_ok ?m" using m api_ok_canonical_iff merge_two_Inr by metis
  then have "merge_semantic_apis [canonical_api a, canonical_api b] = Inr ?m"
    unfolding merge_two_Inr can merge_two_all [OF ids'(1)] using ds(1) by simp
  with same show ?thesis by blast
qed

end
