(* ===== verification/Semantic_Manifest_Exact.thy ===== *)
theory Semantic_Manifest_Exact
  imports Frontend
begin

text \<open>
  The readers of \<^verbatim>\<open>semantic.py\<close> return only records that pass their own checks, so the manifests of
  parameters up to whole APIs are exact codecs: whatever was read can be written and read again.
\<close>

lemma m_items_ok:
  assumes "m_items reader raw lbl = Inr ys" "\<And>r l y. reader r l = Inr y \<Longrightarrow> ok y" shows "list_all ok ys"
proof -
  from assms(1) obtain raws where "emap (\<lambda>(i, x). reader x (lbl @ [LIdx i])) (enumerated raws) = Inr ys"
    by (auto simp: m_items_def)
  then show ?thesis by (rule emap_list_all) (auto intro: assms(2))
qed

lemma source_reads_ok: "source_from_manifest raw lbl = Inr p \<Longrightarrow> valid_source p"
  by (auto simp: source_from_manifest_def mk_provenance_def valid_source_def Let_def)

lemma type_reads_ok: "type_of_manifest raw lbl = Inr t \<Longrightarrow> wf_type t"
  using type_reader_sound by (auto simp: type_of_manifest_def)

lemma capabilities_read_ok: "capabilities_from_manifest v lbl = Inr c \<Longrightarrow> valid_capabilities c"
  by (auto simp: capabilities_from_manifest_def mk_capabilities_def valid_capabilities_def Let_def)

lemma parameter_reads_ok: "parameter_from_manifest raw lbl = Inr p \<Longrightarrow> valid_parameter p"
  by (auto simp: parameter_from_manifest_def mk_parameter_def valid_parameter_def Let_def intro: type_reads_ok)

lemma parameters_read_ok: "m_items parameter_from_manifest raw lbl = Inr ps \<Longrightarrow> list_all valid_parameter ps"
  by (erule m_items_ok) (rule parameter_reads_ok)

lemma projection_reads_ok: "projection_from_manifest raw lbl = Inr p \<Longrightarrow> valid_projection p"
  by (auto simp: projection_from_manifest_def intro: mk_projection_valid source_reads_ok)

lemma field_reads_ok: "field_from_manifest raw lbl = Inr f \<Longrightarrow> valid_field f"
  by (auto simp: field_from_manifest_def mk_field_def valid_field_def Let_def
      intro: type_reads_ok source_reads_ok capabilities_read_ok)

lemma binding_reads_ok:
  assumes "binding_from_manifest raw lbl = Inr b" shows "valid_binding b"
proof -
  from assms obtain i k n c e ps r p oi on sc where
    mk: "mk_binding i k n c e ps r p oi on sc = Inr b"
    and "\<exists>raw lbl. source_from_manifest raw lbl = Inr p" "\<exists>v lbl. capabilities_from_manifest v lbl = Inr c"
      "\<exists>raw lbl. m_items parameter_from_manifest raw lbl = Inr ps" "\<exists>raw lbl. type_of_manifest raw lbl = Inr r"
    by (fastforce simp: binding_from_manifest_def)
  then show ?thesis
    by (auto intro!: mk_binding_valid [OF mk] parameters_read_ok type_reads_ok source_reads_ok capabilities_read_ok)
qed

lemma constructor_source_ok: "constructor_source v lbl = Inr p \<Longrightarrow> valid_source p"
  by (auto simp: constructor_source_def intro: source_reads_ok)

lemma constructor_reads_ok: "constructor_from_manifest raw lbl = Inr k \<Longrightarrow> valid_constructor k"
  by (auto simp: constructor_from_manifest_def intro: mk_constructor_valid constructor_source_ok parameters_read_ok)

lemma class_reads_ok:
  assumes "class_from_manifest raw lbl = Inr c" shows "valid_class c"
proof -
  from assms obtain i k n caps p ks ps con ms where
    mk: "mk_class i k n caps p con ms = Inr c" "mk_constructor ks ps = Inr con"
    and "\<exists>raw lbl. source_from_manifest raw lbl = Inr p" "\<exists>v lbl. capabilities_from_manifest v lbl = Inr caps"
      "\<exists>v lbl. constructor_source v lbl = Inr ks" "\<exists>raw lbl. m_items parameter_from_manifest raw lbl = Inr ps"
      "\<exists>raw lbl. m_items binding_from_manifest raw lbl = Inr ms"
    by (fastforce simp: class_from_manifest_def)
  moreover from this have "valid_source p" "valid_capabilities caps" "valid_constructor con" "list_all valid_binding ms"
    by (auto intro: source_reads_ok capabilities_read_ok mk_constructor_valid [OF mk(2)] constructor_source_ok
        parameters_read_ok m_items_ok binding_reads_ok)
  ultimately show ?thesis by (auto simp: mk_class_def valid_class_def Let_def)
qed

lemma declaration_reads_ok:
  assumes "declaration_from_manifest raw lbl = Inr d" shows "valid_declaration d"
proof -
  note ok = m_items_ok [OF _ projection_reads_ok] m_items_ok [OF _ field_reads_ok] m_items_ok [OF _ binding_reads_ok]
  note reader = declaration_from_manifest_def projections_from_manifest_def
  from assms obtain v kind where v: "m_object raw lbl = Inr v" "declaration_kind_of v lbl = Inr kind"
    by (auto simp: declaration_from_manifest_def)
  show ?thesis
  proof (cases kind)
    case DkEnum
    with assms v ok(1) show ?thesis by (auto simp: reader mk_enum_def)
  next
    case DkValue
    with assms v ok(1,2) show ?thesis by (auto simp: reader mk_value_def)
  next
    case DkObject
    with assms v obtain p k ms fs feature tid name where
      "mk_object \<lparr>o_feature = feature, o_type_id = tid, o_name = name, o_projection = p, o_constructor = k,
         o_methods = ms, o_fields = fs\<rparr> = Inr d"
      "\<exists>l l'. projection_from_manifest l l' = Inr p" "\<exists>l l'. m_items binding_from_manifest l l' = Inr ms"
      "\<exists>l l'. m_items field_from_manifest l l' = Inr fs"
      "k = None \<or> (\<exists>c l l'. k = Some c \<and> constructor_from_manifest l l' = Inr c)"
      by (fastforce simp: reader split: if_splits)
    with ok(2,3) projection_reads_ok constructor_reads_ok show ?thesis by (auto simp: mk_object_def)
  qed
qed

lemma api_reads_ok:
  assumes "semantic_api_from_manifest raw = Inr api" shows "valid_api api"
proof -
  from assms obtain fs cs ds where "mk_api fs cs ds = Inr api"
    "\<exists>r l. m_items binding_from_manifest r l = Inr fs" "\<exists>r l. m_items class_from_manifest r l = Inr cs"
    "\<exists>r l. m_items declaration_from_manifest r l = Inr ds"
    by (fastforce simp: semantic_api_from_manifest_def)
  moreover note m_items_ok [OF _ binding_reads_ok] m_items_ok [OF _ class_reads_ok] m_items_ok [OF _ declaration_reads_ok]
  ultimately show ?thesis by (auto simp: mk_api_def valid_api_def Let_def)
qed

section \<open>Exact codecs\<close>

interpretation sx_parameter: exact_codec parameter_manifest parameter_from_manifest valid_parameter "\<lambda>p. p"
  by unfold_locales (auto intro: parameter_reads_ok)

interpretation sx_field: exact_codec field_manifest field_from_manifest valid_field "\<lambda>f. f"
  by unfold_locales (auto intro: field_reads_ok)

interpretation sx_binding: exact_codec binding_manifest binding_from_manifest valid_binding "\<lambda>b. b"
  by unfold_locales (auto intro: binding_reads_ok)

interpretation sx_api: exact_codec api_manifest "\<lambda>raw _. semantic_api_from_manifest raw" valid_api canonical_api
  by unfold_locales (auto intro: api_reads_ok canonical_valid simp: manifest_canonical)

end
