(* ===== verification/Semantic_Ir_Props.thy ===== *)
theory Semantic_Ir_Props
  imports Semantic_Ir Naming_Props Merge_Canonical Semantic_Manifest_Exact
begin

text \<open>
  The project manifest is canonical: what is written is read back, as the same project with its APIs in
  canonical order, and everything the reader accepts is written back alike.
\<close>

section \<open>Equality of written JSON\<close>

text \<open>JSON as the writers produce it: no floats, and no key twice.\<close>

inductive plain_json :: "json \<Rightarrow> bool" where
  plain_null: "plain_json JNull"
| plain_bool: "plain_json (JBool b)"
| plain_int: "plain_json (JInt i)"
| plain_str: "plain_json (JStr s)"
| plain_arr: "(\<And>x. x \<in> set xs \<Longrightarrow> plain_json x) \<Longrightarrow> plain_json (JArr xs)"
| plain_obj: "distinct (jkeys kvs) \<Longrightarrow> (\<And>kv. kv \<in> set kvs \<Longrightarrow> plain_json (snd kv)) \<Longrightarrow> plain_json (JObj kvs)"

inductive_simps plain_json_simps [simp]:
  "plain_json JNull" "plain_json (JBool b)" "plain_json (JInt i)" "plain_json (JStr s)"
  "plain_json (JArr xs)" "plain_json (JObj kvs)"

lemma jitem_member: "distinct (jkeys kvs) \<Longrightarrow> kv \<in> set kvs \<Longrightarrow> jitem kvs (fst kv) = snd kv"
  by (cases kv) (simp add: jitem_def jget_def jkeys_def)

lemma py_eq_refl [simp]: "plain_json j \<Longrightarrow> py_eq j j"
proof (induction rule: plain_json.induct)
  case (plain_arr xs)
  then show ?case by (simp add: list_all_iff set_zip) (metis nth_mem)
next
  case (plain_obj kvs)
  then show ?case by (simp add: list_all_iff jitem_member)
qed simp_all

lemma plain_provenance [simp]: "plain_json (provenance_manifest p)"
  by (simp add: provenance_manifest_def)

lemma plain_type [simp]: "plain_json (type_manifest t)"
  by (induction t rule: type_manifest.induct) (auto split: option.splits)

lemma plain_parameter [simp]: "plain_json (parameter_manifest p)"
  by (simp add: parameter_manifest_def)

lemma plain_field [simp]: "plain_json (field_manifest f)"
  by (simp add: field_manifest_def)

lemma plain_binding [simp]: "plain_json (binding_manifest b)"
  by (auto simp: binding_manifest_def split: option.splits)

lemma plain_constructor [simp]: "plain_json (constructor_manifest k)"
  by (auto simp: constructor_manifest_def)

lemma plain_class [simp]: "plain_json (class_manifest c)"
  by (auto simp: class_manifest_def)

lemma plain_projections [simp]: "plain_json (projection_manifests ps)" "plain_json (projection_manifest p)"
  by (auto simp: projection_manifests_def projection_manifest_def)

lemma plain_declaration [simp]: "plain_json (declaration_manifest d)"
  by (cases d) (auto split: option.splits)

lemma plain_api [simp]: "plain_json (api_manifest api)"
  by (auto simp: api_manifest_def)

lemma plain_feature [simp]: "plain_json (feature_manifest f)"
  by (auto simp: feature_manifest_def)

lemma plain_ir [simp]: "plain_json (ir_manifest ir)"
  by (auto simp: ir_manifest_def frontend_versions_def)

section \<open>Features\<close>

text \<open>A feature that exists has a validated identity and the merge of its two APIs.\<close>

definition feature_built :: "feature_ir \<Rightarrow> bool" where
  "feature_built f \<longleftrightarrow>
     create_identity (fi_npm (fr_identity f)) (fi_namespace (fr_identity f)) (fi_version (fr_identity f))
       (Some (fi_feature (fr_identity f))) = Inr (fr_identity f) \<and>
     create_feature (fr_identity f) (Some (fr_public f)) (fr_description f) (Some (fr_cpp f)) (Some (fr_jvm f)) = Inr f \<and>
     valid_api (fr_cpp f) \<and> valid_api (fr_jvm f)"

text \<open>The same feature with its APIs in canonical order.\<close>

definition same_feature :: "feature_ir \<Rightarrow> feature_ir \<Rightarrow> bool" where
  "same_feature f g \<longleftrightarrow>
     fr_identity g = fr_identity f \<and> fr_public g = fr_public f \<and> fr_description g = fr_description f \<and>
     fr_cpp g = canonical_api (fr_cpp f) \<and> fr_jvm g = canonical_api (fr_jvm f) \<and>
     canonical_api (fr_merged g) = canonical_api (fr_merged f)"

lemma same_feature_manifest: "same_feature f g \<Longrightarrow> feature_manifest g = feature_manifest f"
  using manifest_canonical [of "fr_merged f"] manifest_canonical [of "fr_merged g"]
  by (simp add: same_feature_def feature_manifest_def semantic_hash_def manifest_canonical)

lemma create_feature_Inr:
  "create_feature i p d (Some c) (Some j) = Inr f \<longleftrightarrow>
     (\<exists>m. merge_semantic_apis [c, j] = Inr m \<and> f = \<lparr>fr_identity = i,
        fr_public = (case p of Some (x # xs) \<Rightarrow> x # xs | _ \<Rightarrow> leaf_name (fi_npm i)),
        fr_description = d, fr_cpp = c, fr_jvm = j, fr_merged = m\<rparr>)"
  by (auto simp: create_feature_def Let_def)

lemma valid_api_ids: "valid_api api \<Longrightarrow> distinct (map decl_type_id (a_declarations api))"
  unfolding valid_api_def check_api_Inr api_ok_def by (blast dest: semantic_ids_distinctD)

lemma feature_recreated:
  assumes "feature_built f"
  obtains g where "create_feature (fr_identity f) (Some (fr_public f)) (fr_description f)
      (Some (canonical_api (fr_cpp f))) (Some (canonical_api (fr_jvm f))) = Inr g" "same_feature f g"
proof -
  from assms obtain m where m: "merge_semantic_apis [fr_cpp f, fr_jvm f] = Inr m" "m = fr_merged f"
    and public: "(case fr_public f of x # xs \<Rightarrow> x # xs | [] \<Rightarrow> leaf_name (fi_npm (fr_identity f))) = fr_public f"
    unfolding feature_built_def create_feature_Inr by (cases f) auto
  from merge_canonical [OF m(1)] assms valid_api_ids obtain m' where
    "merge_semantic_apis [canonical_api (fr_cpp f), canonical_api (fr_jvm f)] = Inr m'"
    "canonical_api m' = canonical_api m" by (auto simp: feature_built_def)
  then show thesis using that public m(2) by (simp add: create_feature_Inr same_feature_def)
qed

lemma feature_reads_back:
  assumes "feature_built f"
  shows "\<exists>g. feature_from_manifest (k, feature_manifest f) = Inr g \<and> same_feature f g"
proof -
  obtain g where g: "create_feature (fr_identity f) (Some (fr_public f)) (fr_description f)
      (Some (canonical_api (fr_cpp f))) (Some (canonical_api (fr_jvm f))) = Inr g" "same_feature f g"
    using assms by (rule feature_recreated)
  have apis: "semantic_api_from_manifest (api_manifest (fr_cpp f)) = Inr (canonical_api (fr_cpp f))"
    "semantic_api_from_manifest (api_manifest (fr_jvm f)) = Inr (canonical_api (fr_jvm f))"
    using assms api_manifest_reads_back by (auto simp: feature_built_def)
  have merged: "api_manifest (fr_merged g) = api_manifest (fr_merged f)"
    using g(2) manifest_canonical by (metis same_feature_def)
  obtain item where item: "feature_manifest f = JObj item" and read: "read_feature item = Inr g"
    and kept: "jget item ''semantic_api'' = Some (api_manifest (fr_merged f))"
      "jget item ''semantic_hash'' = Some (JStr (semantic_hash f))"
    using assms apis g(1) by (simp add: feature_manifest_def read_feature_def ir_text_def ir_item_def py_str_def
        feature_built_def jkeys_are_def insert_commute)
  from read kept merged have "feature_from_manifest (k, JObj item) = Inr g"
    by (simp add: feature_from_manifest_def semantic_hash_def)
  with item g(2) show ?thesis by auto
qed

section \<open>The project\<close>

lemma emap_related:
  assumes "\<And>x. x \<in> set xs \<Longrightarrow> \<exists>y. f x = Inr y \<and> R x y" shows "\<exists>ys. emap f xs = Inr ys \<and> list_all2 R xs ys"
  using assms
proof (induction xs)
  case (Cons x xs)
  then obtain y ys where "f x = Inr y" "R x y" "emap f xs = Inr ys" "list_all2 R xs ys" by fastforce
  then show ?case by auto
qed simp

lemma create_ir_Inr:
  "create_ir p fs = Inr ir \<longleftrightarrow>
     ir = \<lparr>ir_plugin = p, ir_features = sort_key (fi_npm \<circ> fr_identity) fs, ir_schema = ir_schema_version\<rparr> \<and>
     p \<noteq> [] \<and> distinct (map (fi_npm \<circ> fr_identity) fs) \<and> distinct (map (fi_feature \<circ> fr_identity) fs)"
  by (auto simp: create_ir_def check_ir_def Let_def)

text \<open>A project in canonical order, whose features were built.\<close>

definition ir_built :: "semantic_ir \<Rightarrow> bool" where
  "ir_built ir \<longleftrightarrow> check_ir ir = Inr () \<and> sorted (map (fi_npm \<circ> fr_identity) (ir_features ir)) \<and>
     list_all feature_built (ir_features ir)"

lemma create_ir_built:
  "create_ir p fs = Inr ir \<Longrightarrow> list_all feature_built fs \<Longrightarrow> ir_built ir"
  by (auto simp: create_ir_Inr ir_built_def check_ir_def)

definition same_ir :: "semantic_ir \<Rightarrow> semantic_ir \<Rightarrow> bool" where
  "same_ir a b \<longleftrightarrow> ir_plugin b = ir_plugin a \<and> ir_schema b = ir_schema a \<and>
     list_all2 same_feature (ir_features a) (ir_features b)"

lemma same_ir_manifest: "same_ir a b \<Longrightarrow> ir_manifest b = ir_manifest a"
proof -
  assume "same_ir a b"
  moreover from this have "map feature_manifest (ir_features b) = map feature_manifest (ir_features a)"
    unfolding same_ir_def by (elim conjE list_all2_sources) (rule same_feature_manifest)
  ultimately show ?thesis by (simp add: same_ir_def ir_manifest_def)
qed

lemma ir_reads_back:
  assumes "ir_built ir"
  shows "\<exists>ir'. ir_from_manifest (ir_manifest ir) = Inr ir' \<and> same_ir ir ir'"
proof -
  let ?fs = "ir_features ir" and ?n = "fi_npm \<circ> fr_identity"
  have check: "ir_schema ir = ir_schema_version" "ir_plugin ir \<noteq> []" "distinct (map ?n ?fs)"
    "distinct (map (fi_feature \<circ> fr_identity) ?fs)"
    using assms by (auto simp: ir_built_def check_ir_def)
  have "\<exists>gs. emap (\<lambda>(k, f). feature_from_manifest (k, feature_manifest f)) (enumerated ?fs) = Inr gs \<and>
      list_all2 (\<lambda>kf g. same_feature (snd kf) g) (enumerated ?fs) gs"
    using assms feature_reads_back by (intro emap_related) (auto simp: ir_built_def list_all_iff)
  then obtain gs where read: "emap (\<lambda>(k, f). feature_from_manifest (k, feature_manifest f)) (enumerated ?fs) = Inr gs"
    and snds: "list_all2 (\<lambda>kf g. same_feature (snd kf) g) (enumerated ?fs) gs" by blast
  from snds have "list_all2 same_feature (map snd (enumerated ?fs)) gs" by (simp only: list.rel_map)
  then have same: "list_all2 same_feature ?fs gs" by simp
  have "enumerated (map feature_manifest ?fs) = map (\<lambda>(k, f). (k, feature_manifest f)) (enumerated ?fs)"
    by (simp add: enumerated_def zip_map2)
  with read have features: "emap feature_from_manifest (enumerated (map feature_manifest ?fs)) = Inr gs"
    by (simp add: emap_map case_prod_unfold)
  have names: "map ?n gs = map ?n ?fs" "map (fi_feature \<circ> fr_identity) gs = map (fi_feature \<circ> fr_identity) ?fs"
    using same by (auto simp: same_feature_def elim!: list_all2_sources)
  then have "sort_key ?n gs = gs" using assms by (intro sort_key_id_if_sorted) (simp add: ir_built_def)
  then have made: "create_ir (ir_plugin ir) gs = Inr \<lparr>ir_plugin = ir_plugin ir, ir_features = gs, ir_schema = ir_schema_version\<rparr>"
    using check names by (simp add: create_ir_Inr)
  let ?ir = "\<lparr>ir_plugin = ir_plugin ir, ir_features = gs, ir_schema = ir_schema_version\<rparr>"
  have related: "same_ir ir ?ir" using same check(1) by (simp add: same_ir_def)
  obtain v where v: "ir_manifest ir = JObj v" and fields:
    "jkeys_are v [''schema_version'', ''kind'', ''plugin_id'', ''frontend_versions'', ''features'']"
    "jitem v ''schema_version'' = JStr ir_schema_version" "jitem v ''kind'' = JStr ir_kind"
    "jitem v ''frontend_versions'' = frontend_versions" "jitem v ''plugin_id'' = JStr (ir_plugin ir)"
    "jitem v ''features'' = JArr (map feature_manifest ?fs)"
    using check(1) by (simp add: ir_manifest_def jkeys_are_def insert_commute)
  have "py_eq (ir_manifest ?ir) (JObj v)" using same_ir_manifest [OF related] v plain_ir [of ir] py_eq_refl by metis
  moreover have "plain_json frontend_versions" by (simp add: frontend_versions_def)
  ultimately have "ir_from_manifest (JObj v) = Inr ?ir"
    using fields features made by (simp add: ir_from_manifest_def)
  with v related show ?thesis by auto
qed

text \<open>Whatever the reader accepts was built, and is in canonical order.\<close>

lemma feature_created_built:
  assumes i: "create_identity npm ns ver (Some fid) = Inr i" and f: "create_feature i (Some pn) d (Some cpp) (Some jvm) = Inr f"
    and apis: "semantic_api_from_manifest raw = Inr cpp" "semantic_api_from_manifest raw' = Inr jvm"
  shows "feature_built f"
proof -
  from i have "create_identity (fi_npm i) (fi_namespace i) (fi_version i) (Some (fi_feature i)) = Inr i"
    unfolding create_identity_Inr by simp
  with f apis show ?thesis
    by (cases pn) (auto simp: feature_built_def create_feature_Inr api_reads_ok split: list.splits)
qed

lemma read_feature_built: "read_feature item = Inr f \<Longrightarrow> feature_built f"
  by (auto simp: read_feature_def json_case_Inr intro: feature_created_built)

lemma feature_read_built: "feature_from_manifest e = Inr f \<Longrightarrow> feature_built f"
  by (cases e) (auto simp: feature_from_manifest_def read_feature_built split: json.splits)

lemma ir_read_built:
  assumes "ir_from_manifest raw = Inr ir" shows "ir_built ir \<and> py_eq (ir_manifest ir) raw"
proof -
  from assms obtain p es fs where fs: "emap feature_from_manifest es = Inr fs" "create_ir p fs = Inr ir"
    and eq: "py_eq (ir_manifest ir) raw"
    by (auto simp: ir_from_manifest_def split: json.splits)
  have "list_all feature_built fs" using feature_read_built by (intro emap_list_all [OF fs(1)]) blast
  with fs(2) eq show ?thesis by (auto intro: create_ir_built)
qed

text \<open>
  C13. The manifest of a project reads back as the project, its features in the same order with the same
  identities, names and descriptions and with their APIs in canonical order; so writing it again gives
  the same manifest and generation identity.
\<close>

theorem semantic_ir_roundtrip:
  assumes "create_ir plugin_id fs = Inr ir" "list_all feature_built fs"
  shows "\<exists>ir'. ir_from_manifest (ir_manifest ir) = Inr ir' \<and> same_ir ir ir' \<and>
     ir_manifest ir' = ir_manifest ir \<and> generation_id ir' = generation_id ir"
  using ir_reads_back [OF create_ir_built [OF assms]] same_ir_manifest by (fastforce simp: generation_id_def)

text \<open>
  C14. Whatever JSON the project reader accepts equals the manifest of the project it returns, whose features
  are sorted, distinct, and built from validated identities and valid APIs that merge; and that manifest
  is read back.
\<close>

theorem accepted_ir_settles:
  assumes "ir_from_manifest raw = Inr ir"
  shows "py_eq (ir_manifest ir) raw \<and> ir_built ir \<and>
     (\<exists>ir'. ir_from_manifest (ir_manifest ir) = Inr ir' \<and> ir_manifest ir' = ir_manifest ir)"
  using ir_read_built [OF assms] ir_reads_back [of ir] same_ir_manifest by blast

section \<open>Errors\<close>

text \<open>The four texts the identity of a feature is built from.\<close>

definition identity_text :: "(string \<times> json) list \<Rightarrow> string \<Rightarrow> string \<Rightarrow> string \<Rightarrow> string \<Rightarrow> bool" where
  "identity_text item npm namespace version feature_id \<longleftrightarrow>
     jget item ''npm_name'' = Some (JStr npm) \<and> jget item ''android_namespace'' = Some (JStr namespace) \<and>
     jget item ''package_version'' = Some (JStr version) \<and> jget item ''feature_id'' = Some (JStr feature_id)"

lemma enumerated_append: "enumerated (xs @ y # ys) = enumerated xs @ (length xs, y) # zip [Suc (length xs)..<Suc (length xs + length ys)] ys"
proof -
  have "[0..<length (xs @ y # ys)] = [0..<length xs] @ length xs # [Suc (length xs)..<Suc (length xs + length ys)]"
    using upt_add_eq_append [of 0 "length xs" "Suc (length ys)"] by (simp add: upt_conv_Cons del: upt_Suc)
  then show ?thesis by (simp add: enumerated_def)
qed

text \<open>A project whose fields before the features pass the reader's checks.\<close>

definition ir_header :: "(string \<times> json) list \<Rightarrow> string \<Rightarrow> json list \<Rightarrow> bool" where
  "ir_header v plugin_id features \<longleftrightarrow>
     jkeys_are v [''schema_version'', ''kind'', ''plugin_id'', ''frontend_versions'', ''features''] \<and>
     jitem v ''schema_version'' = JStr ir_schema_version \<and> jitem v ''kind'' = JStr ir_kind \<and>
     py_eq frontend_versions (jitem v ''frontend_versions'') \<and>
     jitem v ''plugin_id'' = JStr plugin_id \<and> jitem v ''features'' = JArr features"

text \<open>
  C38. When the features before it read, a feature whose identity is invalid makes the project reader raise
  the identity's own error and not a \<open>SemanticIRError\<close>: the error is neither a \<open>KeyError\<close>, nor a
  \<open>TypeError\<close>, nor a \<open>ValueError\<close>.  The feature may stand anywhere in the list and may be malformed
  otherwise.
\<close>

theorem invalid_identity_escapes:
  assumes "ir_header v plugin_id (before @ JObj item # rest)"
    and "emap feature_from_manifest (enumerated before) = Inr fs"
    and "identity_text item npm namespace version feature_id"
    and "create_identity npm namespace version (Some feature_id) = Inl e"
  shows "ir_from_manifest (JObj v) = Inl (IrIdentity e) \<and> \<not> is_ir_error (IrIdentity e)"
proof -
  have "read_feature item = Inl (IrIdentity e)"
    using assms(3,4) by (simp add: identity_text_def read_feature_def ir_text_def ir_item_def py_str_def)
  then have "feature_from_manifest (length before, JObj item) = Inl (IrIdentity e)"
    by (simp add: feature_from_manifest_def caught_def)
  with assms(2) have "emap feature_from_manifest (enumerated (before @ JObj item # rest)) = Inl (IrIdentity e)"
    by (simp add: enumerated_append emap_append)
  with assms(1) show ?thesis by (simp add: ir_header_def ir_from_manifest_def)
qed

section \<open>A project\<close>

definition sample_cpp_api :: semantic_api where
  "sample_cpp_api = \<lparr>a_functions = [], a_classes = [], a_declarations = [sample_value ''A'' (t_scalar SInt32)]\<rparr>"

definition sample_jvm_api :: semantic_api where
  "sample_jvm_api = \<lparr>a_functions = [], a_classes = [], a_declarations = [jvm_value]\<rparr>"

lemma sample_feature:
  obtains i f where "create_feature i None ''sample'' (Some sample_cpp_api) (Some sample_jvm_api) = Inr f"
    "feature_built f" "fi_npm i = ''a''" "fr_identity f = i"
proof -
  have "validate_package_name ''a'' = Inr ()" "validate_android_namespace ''com.x'' = Inr ()"
    "validate_package_version ''1.0.0'' = Inr ()" by code_simp+
  then obtain i where i: "create_identity (fi_npm i) (fi_namespace i) (fi_version i) (Some (fi_feature i)) = Inr i" "fi_npm i = ''a''"
    by (auto simp: create_identity_Inr intro!: that [of "\<lparr>fi_npm = ''a'', fi_namespace = ''com.x'', fi_version = ''1.0.0'',
      fi_feature = canonical_feature_id ''a''\<rparr>"])
  have "(case merge_semantic_apis [sample_cpp_api, sample_jvm_api] of Inr _ \<Rightarrow> True | Inl _ \<Rightarrow> False)" by code_simp
  then obtain m where "merge_semantic_apis [sample_cpp_api, sample_jvm_api] = Inr m" by (auto split: sum.splits)
  moreover have "valid_api sample_cpp_api" "valid_api sample_jvm_api" by code_simp+
  moreover have "leaf_name ''a'' = ''a''" by code_simp
  ultimately show thesis using i that [of i] by (simp add: create_feature_def feature_built_def Let_def)
qed

theorem semantic_ir_roundtrip_witness:
  "\<exists>ir ir'. ir_plugin ir = ''p'' \<and> map (fi_npm \<circ> fr_identity) (ir_features ir) = [''a''] \<and>
     ir_from_manifest (ir_manifest ir) = Inr ir' \<and> generation_id ir' = generation_id ir"
proof -
  obtain i f where f: "feature_built f" "fi_npm i = ''a''" "fr_identity f = i" by (rule sample_feature)
  let ?ir = "\<lparr>ir_plugin = ''p'', ir_features = [f], ir_schema = ir_schema_version\<rparr>"
  have "create_ir ''p'' [f] = Inr ?ir" by (simp add: create_ir_Inr)
  moreover have "list_all feature_built [f]" using f by simp
  ultimately obtain ir' where "ir_from_manifest (ir_manifest ?ir) = Inr ir'" "generation_id ir' = generation_id ?ir"
    using semantic_ir_roundtrip by blast
  with f show ?thesis by (intro exI [of _ ?ir] exI [of _ ir']) simp
qed

theorem accepted_ir_settles_witness:
  "\<exists>raw ir. ir_from_manifest raw = Inr ir \<and> py_eq (ir_manifest ir) raw \<and> length (ir_features ir) = 1"
proof -
  obtain i f where f: "feature_built f" "fi_npm i = ''a''" "fr_identity f = i" by (rule sample_feature)
  let ?ir = "\<lparr>ir_plugin = ''p'', ir_features = [f], ir_schema = ir_schema_version\<rparr>"
  have "ir_built ?ir" using f by (simp add: ir_built_def check_ir_def)
  from ir_reads_back [OF this] obtain ir where ir: "ir_from_manifest (ir_manifest ?ir) = Inr ir" "same_ir ?ir ir" by blast
  then have "length (ir_features ir) = 1" by (auto simp: same_ir_def dest: list_all2_lengthD)
  with ir accepted_ir_settles [OF ir(1)] show ?thesis by blast
qed

theorem invalid_identity_escapes_witness:
  "\<exists>e. ir_from_manifest (JObj [(''schema_version'', JStr ir_schema_version), (''kind'', JStr ir_kind),
      (''plugin_id'', JStr ''p''), (''frontend_versions'', frontend_versions),
      (''features'', JArr [JObj [(''npm_name'', JStr ''A''), (''android_namespace'', JStr ''com.x''),
         (''package_version'', JStr ''1.0.0''), (''feature_id'', JStr ''x'')]])]) = Inl (IrIdentity e)"
proof -
  let ?item = "[(''npm_name'', JStr ''A''), (''android_namespace'', JStr ''com.x''),
      (''package_version'', JStr ''1.0.0''), (''feature_id'', JStr ''x'')]"
  have "validate_package_name ''A'' = Inl (NamingError PackageName NameInvalid)" by code_simp
  then have identity: "create_identity ''A'' ''com.x'' ''1.0.0'' (Some ''x'') = Inl (NamingError PackageName NameInvalid)"
    by (simp add: create_identity_def)
  have first: "emap feature_from_manifest (enumerated []) = Inr []" by (simp add: enumerated_def)
  have item: "identity_text ?item ''A'' ''com.x'' ''1.0.0'' ''x''" by (simp add: identity_text_def)
  have "py_eq frontend_versions frontend_versions" by (simp add: frontend_versions_def)
  then have "ir_header [(''schema_version'', JStr ir_schema_version), (''kind'', JStr ir_kind),
      (''plugin_id'', JStr ''p''), (''frontend_versions'', frontend_versions), (''features'', JArr [JObj ?item])]
      ''p'' ([] @ JObj ?item # [])"
    by (simp add: ir_header_def jkeys_are_def insert_commute)
  from invalid_identity_escapes [OF this first item identity] show ?thesis by blast
qed
end
