(* ===== verification/Lowering.thy ===== *)
theory Lowering
  imports Source_Records Conversion_Plan
begin

text \<open>
  Implementation routes of bindings (\<^verbatim>\<open>lowering.py\<close>): a lowering plan names the kind of route, how it
  is scheduled, and the implementation, and is checked by itself, against its binding and against its
  source declaration.  What a check accepts determines the schedule.
\<close>

section \<open>Plans\<close>

datatype route_kind =
    DirectCppFunction | CppObjectMethod | CppServiceMethod | JvmFunction | JvmServiceMethod | JvmObjectMethod

datatype scheduling_kind = Inline | SharedWorker | KotlinSuspend

datatype route_data =
    CppFunctionData (cd_name: string)
  | CppMethodData (cd_owner: string) (cd_method: string)
  | JvmMethodData (jd_owner: string) (jd_method: string) (jd_descriptor: string) (jd_adapter: string) (jd_suspend: bool)

datatype implementation_source =
    CppFunctionOf cpp_function_source
  | CppMethodOf cpp_method_source
  | JvmDeclarationOf jvm_declaration_source

datatype lowering_error =
    LoweringIdentity
  | LoweringData route_kind
  | SuspendNeedsJvm
  | SuspendNeedsSuspending
  | SuspendingNeedsSuspend
  | OtherLoweredBinding
  | OtherLoweredSource
  | SyncNeedsInline
  | AsyncNotInline
  | RouteBindingKind route_kind binding_kind
  | NeedsConversionPlan
  | LoweringConversion plan_error
  | FunctionSourceNeeded
  | FunctionNameDiffers
  | MethodSourceNeeded
  | MethodNameDiffers
  | JvmSourceNeeded
  | JvmOwnerDiffers
  | JvmMethodDiffers
  | JvmDescriptorDiffers
  | JvmAdapterDiffers
  | JvmSuspendDiffers

record lowering_plan =
  lp_binding :: string
  lp_source :: string
  lp_route :: route_kind
  lp_scheduling :: scheduling_kind
  lp_data :: route_data
  lp_conversion :: "binding_plan option"

text \<open>\<open>isinstance(data, expected[route])\<close>.\<close>

definition data_fits :: "route_kind \<Rightarrow> route_data \<Rightarrow> bool" where
  "data_fits route d =
     (case d of
        CppFunctionData _ \<Rightarrow> route = DirectCppFunction
      | CppMethodData _ _ \<Rightarrow> route \<in> {CppObjectMethod, CppServiceMethod}
      | JvmMethodData _ _ _ _ _ \<Rightarrow> route \<in> {JvmFunction, JvmServiceMethod, JvmObjectMethod})"

fun is_jvm_data :: "route_data \<Rightarrow> bool" where
  "is_jvm_data (JvmMethodData _ _ _ _ _) = True"
| "is_jvm_data _ = False"

fun data_suspends :: "route_data \<Rightarrow> bool" where
  "data_suspends (JvmMethodData _ _ _ _ suspend) = suspend"
| "data_suspends _ = False"

definition check_lowering :: "lowering_plan \<Rightarrow> lowering_error + unit" where
  "check_lowering p =
     ebind (raise_if (lp_binding p = [] \<or> lp_source p = []) LoweringIdentity) (\<lambda>_.
     ebind (raise_if (\<not> data_fits (lp_route p) (lp_data p)) (LoweringData (lp_route p))) (\<lambda>_.
     ebind (raise_if (lp_scheduling p = KotlinSuspend \<and> \<not> is_jvm_data (lp_data p)) SuspendNeedsJvm) (\<lambda>_.
     ebind (raise_if (is_jvm_data (lp_data p) \<and> lp_scheduling p = KotlinSuspend \<and> \<not> data_suspends (lp_data p))
       SuspendNeedsSuspending) (\<lambda>_.
     raise_if (is_jvm_data (lp_data p) \<and> data_suspends (lp_data p) \<and> lp_scheduling p \<noteq> KotlinSuspend)
       SuspendingNeedsSuspend))))"

fun route_binding_kind :: "route_kind \<Rightarrow> binding_kind" where
  "route_binding_kind DirectCppFunction = BkFunction"
| "route_binding_kind JvmFunction = BkFunction"
| "route_binding_kind CppObjectMethod = BkObjectMethod"
| "route_binding_kind JvmObjectMethod = BkObjectMethod"
| "route_binding_kind CppServiceMethod = BkServiceMethod"
| "route_binding_kind JvmServiceMethod = BkServiceMethod"

definition validate_lowering_binding :: "lowering_plan \<Rightarrow> semantic_binding \<Rightarrow> lowering_error + unit" where
  "validate_lowering_binding p b =
     ebind (raise_if (b_id b \<noteq> lp_binding p) OtherLoweredBinding) (\<lambda>_.
     ebind (raise_if (sp_declaration (b_source b) \<noteq> lp_source p) OtherLoweredSource) (\<lambda>_.
     ebind (if b_execution b = ExecSync then raise_if (lp_scheduling p \<noteq> Inline) SyncNeedsInline
            else raise_if (lp_scheduling p = Inline) AsyncNotInline) (\<lambda>_.
     ebind (raise_if (b_kind b \<noteq> route_binding_kind (lp_route p)) (RouteBindingKind (lp_route p) (b_kind b))) (\<lambda>_.
     case lp_conversion p of
       None \<Rightarrow>
         raise_if (list_ex (\<lambda>t. st_kind t \<notin> {KVoid, KScalar}) (map p_type (b_parameters b) @ [b_result b]))
           NeedsConversionPlan
     | Some c \<Rightarrow> ewrap LoweringConversion (validate_plan_binding c b)))))"

fun source_declaration_of :: "implementation_source \<Rightarrow> string" where
  "source_declaration_of (CppFunctionOf s) = sp_declaration (cfs_provenance s)"
| "source_declaration_of (CppMethodOf s) = sp_declaration (cms_provenance s)"
| "source_declaration_of (JvmDeclarationOf s) = sp_declaration (jds_provenance s)"

definition validate_jvm_source :: "route_data \<Rightarrow> jvm_declaration_source \<Rightarrow> lowering_error + unit" where
  "validate_jvm_source d s =
     (case d of
        JvmMethodData owner_class method_name descriptor adapter suspend \<Rightarrow>
          ebind (raise_if (owner_class \<noteq> jds_owner_class s) JvmOwnerDiffers) (\<lambda>_.
          ebind (raise_if (method_name \<noteq> jds_name s) JvmMethodDiffers) (\<lambda>_.
          ebind (raise_if (descriptor \<noteq> jds_descriptor s) JvmDescriptorDiffers) (\<lambda>_.
          ebind (raise_if (adapter \<noteq> jds_adapter s) JvmAdapterDiffers) (\<lambda>_.
          raise_if (suspend \<noteq> jds_suspend s) JvmSuspendDiffers))))
      | _ \<Rightarrow> Inl JvmSourceNeeded)"

definition validate_lowering_source :: "lowering_plan \<Rightarrow> implementation_source \<Rightarrow> lowering_error + unit" where
  "validate_lowering_source p s =
     ebind (raise_if (source_declaration_of s \<noteq> lp_source p) OtherLoweredSource) (\<lambda>_.
     if lp_route p = DirectCppFunction then
       (case (s, lp_data p) of
          (CppFunctionOf f, CppFunctionData name) \<Rightarrow> raise_if (name \<noteq> cfs_name f) FunctionNameDiffers
        | _ \<Rightarrow> Inl FunctionSourceNeeded)
     else if lp_route p \<in> {CppObjectMethod, CppServiceMethod} then
       (case (s, lp_data p) of
          (CppMethodOf m, CppMethodData _ method) \<Rightarrow> raise_if (method \<noteq> cms_name m) MethodNameDiffers
        | _ \<Rightarrow> Inl MethodSourceNeeded)
     else
       (case s of
          JvmDeclarationOf d \<Rightarrow> validate_jvm_source (lp_data p) d
        | _ \<Rightarrow> Inl JvmSourceNeeded))"

section \<open>What the checks determine\<close>

definition source_suspends :: "implementation_source \<Rightarrow> bool" where
  "source_suspends s = (case s of JvmDeclarationOf d \<Rightarrow> jds_suspend d | _ \<Rightarrow> False)"

definition schedule_of :: "execution_mode \<Rightarrow> bool \<Rightarrow> scheduling_kind" where
  "schedule_of e suspends = (if e = ExecSync then Inline else if suspends then KotlinSuspend else SharedWorker)"

lemma validate_jvm_source_Inr:
  "validate_jvm_source d s = Inr () \<longleftrightarrow>
     d = JvmMethodData (jds_owner_class s) (jds_name s) (jds_descriptor s) (jds_adapter s) (jds_suspend s)"
  by (cases d) (auto simp: validate_jvm_source_def)

lemma lowering_schedules:
  assumes "check_lowering p = Inr ()" "data_suspends (lp_data p) \<longleftrightarrow> suspends"
    "validate_lowering_binding p b = Inr ()"
  shows "lp_scheduling p = schedule_of (b_execution b) suspends \<and> (suspends \<longrightarrow> b_execution b = ExecAsync)"
  using assms
  by (cases "lp_scheduling p"; cases "b_execution b"; cases "lp_data p")
    (auto simp: check_lowering_def validate_lowering_binding_def schedule_of_def)

lemma lowered_suspension:
  assumes "check_lowering p = Inr ()" "validate_lowering_source p s = Inr ()"
  shows "data_suspends (lp_data p) \<longleftrightarrow> source_suspends s"
  using assms
  by (cases "lp_route p"; cases s; cases "lp_data p")
    (auto simp: check_lowering_def data_fits_def validate_lowering_source_def source_suspends_def validate_jvm_source_def)

text \<open>
  C39. The checks determine the schedule: a plan accepted for a binding and a source runs the binding inline
  exactly when it is synchronous, suspends exactly when the Kotlin source does, and otherwise runs on the
  shared worker.  So no synchronous binding is implemented by a suspending declaration.
\<close>

theorem lowering_determines_schedule:
  assumes "check_lowering p = Inr ()" "validate_lowering_binding p b = Inr ()" "validate_lowering_source p s = Inr ()"
  shows "lp_scheduling p = schedule_of (b_execution b) (source_suspends s) \<and>
     (source_suspends s \<longrightarrow> b_execution b = ExecAsync) \<and>
     sp_declaration (b_source b) = source_declaration_of s \<and> b_kind b = route_binding_kind (lp_route p)"
proof -
  have "sp_declaration (b_source b) = lp_source p" "b_kind b = route_binding_kind (lp_route p)"
    using assms(2) by (auto simp: validate_lowering_binding_def)
  moreover have "source_declaration_of s = lp_source p" using assms(3) by (auto simp: validate_lowering_source_def)
  ultimately show ?thesis using lowering_schedules [OF assms(1) lowered_suspension [OF assms(1,3)] assms(2)] by simp
qed

section \<open>A sample\<close>

definition suspending_source :: jvm_declaration_source where
  "suspending_source = \<lparr>jds_provenance = \<lparr>sp_declaration = ''k1'', sp_language = ''kotlin'', sp_path = ''P.kt'', sp_line = 1,
       sp_column = 1\<rparr>, jds_owner_id = ''o'', jds_owner_class = ''n.PKt'', jds_name = ''f'', jds_descriptor = ''()V'',
     jds_parameters = [], jds_result = ''kotlin.Unit'', jds_result_nullable = False,
     jds_intent = \<lparr>si_target = TgFunction, si_occurrences = []\<rparr>, jds_visibility = ''public'', jds_adapter = ''a'',
     jds_language = Kotlin, jds_suspend = True, jds_static = True, jds_result_arguments = []\<rparr>"

definition suspending_binding :: semantic_binding where
  "suspending_binding = \<lparr>b_id = ''b'', b_kind = BkFunction, b_name = ''f'',
     b_capabilities = capabilities_for_role RoleExported, b_execution = ExecAsync, b_parameters = [], b_result = t_void,
     b_source = jds_provenance suspending_source, b_owner_id = None, b_owner_name = None, b_scope = Some ScTopLevel\<rparr>"

definition suspending_plan :: lowering_plan where
  "suspending_plan = \<lparr>lp_binding = ''b'', lp_source = ''k1'', lp_route = JvmFunction, lp_scheduling = KotlinSuspend,
     lp_data = JvmMethodData ''n.PKt'' ''f'' ''()V'' ''a'' True, lp_conversion = None\<rparr>"

theorem lowering_determines_schedule_witness:
  "lp_scheduling suspending_plan = KotlinSuspend \<and> source_suspends (JvmDeclarationOf suspending_source) \<and>
   schedule_of (b_execution suspending_binding) (source_suspends (JvmDeclarationOf suspending_source)) = KotlinSuspend"
proof -
  have checks: "check_lowering suspending_plan = Inr ()" "validate_lowering_binding suspending_plan suspending_binding = Inr ()"
    "validate_lowering_source suspending_plan (JvmDeclarationOf suspending_source) = Inr ()"
    "source_suspends (JvmDeclarationOf suspending_source)" "lp_scheduling suspending_plan = KotlinSuspend" by code_simp+
  from lowering_determines_schedule [OF checks(1-3)] checks(4,5) show ?thesis by metis
qed

end
