(* ===== verification/Spec2Isabelle.thy ===== *)
theory Spec2Isabelle
  imports Cpp_Shapes_Props Cpp_Declarations_Props Semantic_Api_Props Semantic_Manifest_Props
    Semantic_Merge_Props Public_Api_Props Cpp_Routes_Props Conversion_Plan_Props Conversion_Run_Props
    Windows_Authority_Props Jvm_Routes_Props Semantic_Ir_Props Lowering
begin

text \<open>
  A model of the Supernote module generator (\<^verbatim>\<open>src/src/supernote_module_generator\<close>).  The generator
  reads C++ headers and the facts a KSP plugin reports about Kotlin and Java, builds one semantic API
  per feature, and generates the JavaScript bindings from it.  The model covers the path from source
  text to a checked semantic API, the routes back to the sources, the manifests between build stages,
  the reference engine that fixes the meaning of conversions, and the registry of Windows handles the
  file layer depends on.

  \<^bold>\<open>Source text.\<close>  \<open>Cpp_Lexer\<close> (\<^verbatim>\<open>cpp_lexer.py\<close>), \<open>Cpp_Members\<close> (\<^verbatim>\<open>cpp_members.py\<close>),
  \<open>Cpp_Type_Syntax\<close> (\<^verbatim>\<open>cpp_type_syntax.py\<close>), \<open>Cpp_Shapes\<close> (\<^verbatim>\<open>cpp_class_syntax.py\<close>,
  \<^verbatim>\<open>cpp_member_semantics.py\<close>, \<^verbatim>\<open>cpp_member_shapes.py\<close>, \<^verbatim>\<open>cpp_function_syntax.py\<close>,
  \<^verbatim>\<open>cpp_global_functions.py\<close>, \<^verbatim>\<open>cpp_source_routing.py\<close>, \<^verbatim>\<open>jsi_binding_decisions.py\<close>) and
  \<open>Cpp_Declarations\<close> (\<^verbatim>\<open>cpp_declarations.py\<close>).  The lexer is a state machine over the text: the
  properties say that it ends, that tokens spell the text, and what depths and lines mean.  The scanners
  over its tokens are proved equal to the grammars they implement.

  \<^bold>\<open>Source facts.\<close>  \<open>Source_Intent\<close> and \<open>Source_Records\<close> (\<^verbatim>\<open>source_models.py\<close>): markers, intents
  and the declaration records of both frontends, with the checks of every \<open>__post_init__\<close>.
  \<open>Jvm_Manifest\<close> (\<^verbatim>\<open>jvm_manifest.py\<close>): the strict JSON in which KSP reports JVM declarations, with
  identities derived by SHA-256 (\<open>Digests\<close>).

  \<^bold>\<open>Semantic API.\<close>  \<open>Semantic_Types\<close> (\<^verbatim>\<open>semantic_types.py\<close>), \<open>Semantic_Model\<close>, \<open>Semantic_Api\<close>,
  \<open>Semantic_Merge\<close>, \<open>Semantic_Manifest\<close> (\<^verbatim>\<open>semantic.py\<close>) and \<open>Reachability\<close>
  (\<^verbatim>\<open>reachability.py\<close>).  The whole-API validation is equal to its declarative reading, a reported cycle
  exists, manifests determine their API, merging loses nothing, and the published interface is the least
  closed one.  \<open>Manifest_Codec\<close> states what a writer and a reader owe each other; \<open>Semantic_Manifest_Props\<close>
  and \<open>Semantic_Manifest_Exact\<close> interpret it for this manifest, \<open>Jvm_Manifest_Props\<close> for that of the JVM.
  \<open>Merge_Canonical\<close> shows that merging does not depend on the order of declarations.

  \<^bold>\<open>Frontends.\<close>  \<open>Cpp_Projection\<close> (\<^verbatim>\<open>cpp_projection.py\<close>) and \<open>Jvm_Projection\<close>
  (\<^verbatim>\<open>jvm_projection.py\<close>) project source facts to an API; \<open>Frontend\<close> holds their contract as the locale
  \<open>frontend\<close>, which both interpret, and that of a pair as \<open>frontends\<close>, interpreted below.  \<open>Cpp_Routes\<close>
  (\<^verbatim>\<open>cpp_routes.py\<close>) and \<open>Jvm_Routes\<close> (\<^verbatim>\<open>jvm_routes.py\<close>) join an API with the declarations it came
  from, and \<open>Lowering\<close> (\<^verbatim>\<open>lowering.py\<close>) checks how one binding is implemented and scheduled.

  \<^bold>\<open>Projects.\<close>  \<open>Naming\<close> (\<^verbatim>\<open>naming.py\<close>, \<^verbatim>\<open>feature_identity.py\<close>): names, their validation, and the
  identity of a feature, whose path cannot leave its directory.  \<open>Semantic_Ir\<close> (\<^verbatim>\<open>semantic_ir.py\<close>): a
  feature merges its frontends' APIs, a project orders its features, and the manifest of a project, with
  its SHA-256 identities, is read back strictly.  The property of this theory spans the way from sources
  to a feature.

  \<^bold>\<open>Conversions.\<close>  \<open>Conversion_Plan\<close> and \<open>Conversion_Run\<close> (\<^verbatim>\<open>conversion.py\<close>): planning is total on
  valid APIs; a run respects its limits, calls the implementation at most once on typed values, locates
  its errors, and inputs convert back.

  \<^bold>\<open>Windows handles.\<close>  \<open>Windows_Authority\<close> (\<^verbatim>\<open>windows_authority.py\<close> and the native close of
  \<^verbatim>\<open>filesystem.py\<close>): a transition system with an invariant, guarded closes and a draining
  reconciliation; \<open>keeping_closer\<close> and \<open>working_closer\<close> are the contracts of the raw close.

  \<^bold>\<open>Conventions.\<close>  An exception is the left side of a sum; \<open>ebind\<close>, \<open>raise_if\<close>, \<open>ewrap\<close>,
  \<open>emap\<close> and \<open>echeck\<close> of \<open>Model_Prelude\<close> are sequencing, a raising check, \<open>except ... as\<close>, and the
  loops that collect or only check.  A frozen dataclass that validates itself is a record with a
  \<open>mk_\<close> function or a \<open>check_\<close>.  Text is a \<open>string\<close>, so the predicates on it are exact for code
  points below U+0100.  Python integers are \<open>int\<close>, JSON is the datatype \<open>json\<close>, a dictionary is an
  association list where its order matters and a function otherwise.

  \<^bold>\<open>Termination.\<close>  No definition uses fuel: every loop of the code is a total function with a
  measure.  The lexer advances at each step; the type readers descend into the JSON; the walks through
  value fields and the work list of the public interface visit each declaration once
  (\<open>unexpanded\<close>, then the size of the pending types); a C++ type spelling shrinks with each template it
  opens.

  \<^bold>\<open>Not modelled.\<close>  The code generators and their templates (their meaning is that of the generated
  languages), the handle-relative file layer except its close policy, the orchestration of builds, the
  command line, the checks of the user's environment, and the runtime in C++, Kotlin and JavaScript.
  Threads are not modelled: the registry's lock makes each of its operations atomic.  Messages of
  exceptions are the constructors of the error types, with the values they mention where the code
  branches on them.
\<close>

section \<open>From sources to a feature\<close>

text \<open>The two frontends of the generator, whose APIs \<open>create_feature\<close> merges.\<close>

interpretation generator: frontends "\<lambda>(fs, cs, es). project_cpp_api fs cs es" "\<lambda>(fs, cs, es). sources_located fs cs es" BfCpp
    project_jvm_owners "list_all owner_located" BfJvm
  by unfold_locales

lemma feature_of_valid_apis:
  assumes "create_identity npm ns ver fid = Inr i" "create_feature i pub d (Some a) (Some b) = Inr f" "valid_api a" "valid_api b"
  shows "feature_built f" "merge_semantic_apis [a, b] = Inr (fr_merged f)"
proof -
  from assms(1) have "create_identity (fi_npm i) (fi_namespace i) (fi_version i) (Some (fi_feature i)) = Inr i"
    unfolding create_identity_Inr by simp
  with assms(2-4) show "feature_built f" "merge_semantic_apis [a, b] = Inr (fr_merged f)"
    by (cases pub; auto simp: feature_built_def create_feature_Inr split: list.splits)+
qed

text \<open>
  C2. Whenever the C++ declarations of a feature and the JSON its JVM manifest holds project to APIs that
  merge, the feature is sound: the merged API is valid, each of its declarations has only C++ and JVM
  projections, its conversions can be planned completely, and its manifest reads back to the same manifest.
  The JVM side needs no hypothesis but that the reader accepts the JSON.
\<close>

theorem generated_feature_is_sound:
  assumes cpp: "project_cpp_api fs cs es feature_id = Inr a" "sources_located fs cs es"
    and jvm: "parse_jvm_manifest expected raw = Inr m" "project_jvm_owners (jm_owners m) feature_id = Inr b"
    and feature: "create_identity npm namespace version fid = Inr i"
      "create_feature i public_name description (Some a) (Some b) = Inr f"
  shows "valid_api (fr_merged f) \<and>
     (\<forall>d \<in> set (a_declarations (fr_merged f)). available_backends d \<subseteq> {BfCpp, BfJvm}) \<and>
     (\<exists>p. plan_api_conversion (fr_merged f) limits = Inr p \<and> complete_plan (fr_merged f) limits p) \<and>
     (\<exists>g. feature_from_manifest (k, feature_manifest f) = Inr g \<and> feature_manifest g = feature_manifest f)"
proof -
  note located = manifest_owners_located(1) [OF jvm(1)]
  have cpp': "(\<lambda>(fs, cs, es). project_cpp_api fs cs es) (fs, cs, es) feature_id = Inr a"
    "(\<lambda>(fs, cs, es). sources_located fs cs es) (fs, cs, es)" using cpp by simp_all
  note apis = cpp.projects_valid [OF cpp'] jvm.projects_valid [OF jvm(2) located]
  note built = feature_of_valid_apis [OF feature apis]
  have valid: "valid_api (fr_merged f)" using generator.merged_valid [OF cpp' jvm(2) located built(2)] .
  moreover have "\<forall>d \<in> set (a_declarations (fr_merged f)). available_backends d \<subseteq> {BfCpp, BfJvm}"
    using generator.merged_backends [OF cpp' jvm(2) located built(2)] by blast
  moreover note api_plan_complete [OF valid]
  ultimately show ?thesis using feature_reads_back [OF built(1)] same_feature_manifest by blast
qed

theorem generated_feature_is_sound_witness:
  "\<exists>i (f :: feature_ir). fi_npm i = ''a'' \<and> fr_identity f = i \<and> length (a_declarations (fr_merged f)) = 3 \<and> valid_api (fr_merged f) \<and>
     (\<exists>p. plan_api_conversion (fr_merged f) default_limits = Inr p)"
proof -
  let ?id = "''supernote:feature:0''" and ?cs = "[sample_object_class, sample_value_class]"
  have "case project_cpp_api [sample_function] ?cs [] ?id of Inl _ \<Rightarrow> False | Inr a \<Rightarrow>
      (case project_jvm_owners [sample_enum_owner 1] ?id of Inl _ \<Rightarrow> False | Inr b \<Rightarrow>
      (case merge_semantic_apis [a, b] of Inl _ \<Rightarrow> False | Inr m \<Rightarrow> length (a_declarations m) = 3))" by code_simp
  then obtain a b m where apis: "project_cpp_api [sample_function] ?cs [] ?id = Inr a"
    "project_jvm_owners [sample_enum_owner 1] ?id = Inr b" and m: "merge_semantic_apis [a, b] = Inr m" "length (a_declarations m) = 3"
    by (auto split: sum.splits)
  obtain i where i: "create_identity ''a'' ''com.x'' ''1.0.0'' None = Inr i" "fi_npm i = ''a''"
  proof -
    have "validate_package_name ''a'' = Inr ()" "validate_android_namespace ''com.x'' = Inr ()"
      "validate_package_version ''1.0.0'' = Inr ()" by code_simp+
    then show thesis using that by (simp add: create_identity_Inr)
  qed
  obtain f where f: "create_feature i (Some ''a'') [] (Some a) (Some b) = Inr f" "fr_merged f = m" "fr_identity f = i"
    using m(1) by (simp add: create_feature_Inr)
  have owners: "jm_owners (sample_manifest 1) = [sample_enum_owner 1]" by (simp add: sample_manifest_def)
  from generated_feature_is_sound [OF apis(1) sample_sources(1) sample_manifest_read _ i(1) f(1), unfolded owners, OF apis(2)]
  have "valid_api (fr_merged f)" "\<exists>p. plan_api_conversion (fr_merged f) default_limits = Inr p" by blast+
  with i(2) f(2,3) m(2) show ?thesis by - (rule exI [of _ i], rule exI [of _ f], simp)
qed

end
